(* ===== verification/Gov_Contracts.thy ===== *)
theory Gov_Contracts
  imports Prelude
begin

text \<open>
  The audit contracts of \<^verbatim>\<open>backend/app/governance/contracts.py\<close>: the enums, the records and the
  validators that run when a record is constructed. A pydantic model is a record; constructing it
  is the function \<open>validate_x\<close>, which returns the normalised record or the first error. Field
  constraints (\<open>Text\<close>, \<open>Version\<close>, \<open>min_length\<close>) run before the model validators, and the identity
  validator of the base class before those of the subclass.

  SHA-256 over the canonical JSON text, the byte length of that text and the two libm functions
  the trend test calls are standard-library code, passed to every definition that uses them in a
  \<open>runtime\<close> record. No property below assumes anything about them unless it says so.
\<close>

record runtime =
  sha256_json :: "json \<Rightarrow> string"
  json_bytes :: "json \<Rightarrow> nat"
  math_sqrt :: "rat \<Rightarrow> rat"
  math_erfc :: "rat \<Rightarrow> rat"

datatype gov_error =
    ValidationError string
  | ValueError string
  | AuthorityRecordConflict string
  | KeyError string
  | AuthorityStorageUnavailable string

type_synonym 'a gov = "(gov_error, 'a) res"

subsection \<open>Field types\<close>

text \<open>The white space of the pattern \<open>\S\<close>, below code point 256.\<close>

definition rx_space :: "char \<Rightarrow> bool" where
  "rx_space c = (let n = (of_char c :: int) in (9 \<le> n \<and> n \<le> 13) \<or> n = 32 \<or> n = 133 \<or> n = 160)"

definition text_ok :: "string \<Rightarrow> bool" where
  "text_ok s = (s \<noteq> [] \<and> int (length s) \<le> 2000 \<and> list_ex (\<lambda>c. \<not> rx_space c) s)"

definition text_opt_ok :: "string option \<Rightarrow> bool" where
  "text_opt_ok s = (case s of None \<Rightarrow> True | Some t \<Rightarrow> text_ok t)"

definition texts_ok :: "string list \<Rightarrow> bool" where
  "texts_ok xs = list_all text_ok xs"

definition version_ok :: "int \<Rightarrow> bool" where
  "version_ok v = (1 \<le> v)"

fun check_fields :: "(string \<times> bool) list \<Rightarrow> unit gov" where
  "check_fields [] = Inr ()"
| "check_fields ((f, ok) # cs) = (if ok then check_fields cs else Inl (ValidationError f))"

lemma check_fields_Inr [res_simps]: "check_fields cs = Inr u \<longleftrightarrow> (\<forall>(f, ok) \<in> set cs. ok)"
  by (induction cs rule: check_fields.induct) auto

definition canonical_json :: "json \<Rightarrow> json" where
  "canonical_json v = canon v"

definition content_id :: "runtime \<Rightarrow> string \<Rightarrow> json \<Rightarrow> string" where
  "content_id R kind v = kind @ '':'' @ sha256_json R (canonical_json v)"

definition bounded :: "runtime \<Rightarrow> jdict \<Rightarrow> bool" where
  "bounded R v = (int (json_bytes R (canonical_json (JObj v))) \<le> 65536)"

text \<open>
  \<open>ContentRecord.validate_identity\<close>: the identity of a record is the digest of the rest of it; a
  supplied identity must be that digest.
\<close>

definition validate_identity ::
  "runtime \<Rightarrow> string \<Rightarrow> string \<Rightarrow> json \<Rightarrow> string \<Rightarrow> string gov" where
  "validate_identity R kind field body supplied =
     (let expected = content_id R kind body in
      if supplied \<noteq> [] \<and> supplied \<noteq> expected
      then Inl (ValueError (''content_identity_mismatch:'' @ field))
      else Inr expected)"

lemma validate_identity_Inr:
  "validate_identity R kind field body s = Inr i \<longleftrightarrow>
     i = content_id R kind body \<and> (s = [] \<or> s = i)"
  by (auto simp: validate_identity_def Let_def)

lemma content_id_nonempty [simp]: "content_id R kind v \<noteq> []"
  by (simp add: content_id_def)

subsection \<open>Enums\<close>

datatype evidence_family =
    SIGNAL_LOCATION | RELATIONAL | COVARIANCE_GEOMETRY | TEMPORAL | EXPECTED_RESPONSE
  | MULTISCALE | PHYSICS_EXTERNAL | INSTRUMENTATION | TREND

fun family_value :: "evidence_family \<Rightarrow> string" where
  "family_value SIGNAL_LOCATION = ''signal_location''"
| "family_value RELATIONAL = ''relational''"
| "family_value COVARIANCE_GEOMETRY = ''covariance_geometry''"
| "family_value TEMPORAL = ''temporal''"
| "family_value EXPECTED_RESPONSE = ''expected_response''"
| "family_value MULTISCALE = ''multiscale''"
| "family_value PHYSICS_EXTERNAL = ''physics_external''"
| "family_value INSTRUMENTATION = ''instrumentation''"
| "family_value TREND = ''trend''"

datatype maturity_level = L0 | L1 | L2 | L3 | L4

fun level_value :: "maturity_level \<Rightarrow> string" where
  "level_value L0 = ''L0''" | "level_value L1 = ''L1''" | "level_value L2 = ''L2''"
| "level_value L3 = ''L3''" | "level_value L4 = ''L4''"

text \<open>\<open>int(level.value[1:])\<close>\<close>

fun level_rank :: "maturity_level \<Rightarrow> nat" where
  "level_rank L0 = 0" | "level_rank L1 = 1" | "level_rank L2 = 2"
| "level_rank L3 = 3" | "level_rank L4 = 4"

datatype lifecycle_state =
    NEW | PERSISTENT | RECOVERING | ADAPTED | EXTERNALLY_EXPLAINED | UNRESOLVED
  | SUPERSEDED | CLOSED

fun lifecycle_value :: "lifecycle_state \<Rightarrow> string" where
  "lifecycle_value NEW = ''new''"
| "lifecycle_value PERSISTENT = ''persistent''"
| "lifecycle_value RECOVERING = ''recovering''"
| "lifecycle_value ADAPTED = ''adapted''"
| "lifecycle_value EXTERNALLY_EXPLAINED = ''externally_explained''"
| "lifecycle_value UNRESOLVED = ''unresolved''"
| "lifecycle_value SUPERSEDED = ''superseded''"
| "lifecycle_value CLOSED = ''closed''"

datatype authority_outcome =
    PERMITTED | DEFERRED | BLOCKED | HUMAN_REVIEW_REQUIRED | RELEASED | ESCALATED

fun outcome_value :: "authority_outcome \<Rightarrow> string" where
  "outcome_value PERMITTED = ''permitted''"
| "outcome_value DEFERRED = ''deferred''"
| "outcome_value BLOCKED = ''blocked''"
| "outcome_value HUMAN_REVIEW_REQUIRED = ''human_review_required''"
| "outcome_value RELEASED = ''released''"
| "outcome_value ESCALATED = ''escalated''"

datatype requested_operation =
    PRESENT_EVIDENCE | EVALUATE_ADAPTATION | ADAPT_STATE_LOCATION | ADAPT_STRUCTURE
  | ESCALATE_FINDING | CLOSE_FINDING

fun operation_value :: "requested_operation \<Rightarrow> string" where
  "operation_value PRESENT_EVIDENCE = ''present_evidence''"
| "operation_value EVALUATE_ADAPTATION = ''evaluate_adaptation''"
| "operation_value ADAPT_STATE_LOCATION = ''adapt_state_location''"
| "operation_value ADAPT_STRUCTURE = ''adapt_structure''"
| "operation_value ESCALATE_FINDING = ''escalate_finding''"
| "operation_value CLOSE_FINDING = ''close_finding''"

datatype dependency_kind = DepObservation | DepEvidence

fun kind_value :: "dependency_kind \<Rightarrow> string" where
  "kind_value DepObservation = ''observation''"
| "kind_value DepEvidence = ''evidence''"

subsection \<open>Provenance, windows, references\<close>

record provenance =
  prov_source :: string
  prov_source_version :: string
  prov_reference_ids :: "string list"

definition provenance_ok :: "provenance \<Rightarrow> bool" where
  "provenance_ok p = (text_ok (prov_source p) \<and> text_ok (prov_source_version p)
     \<and> texts_ok (prov_reference_ids p))"

definition provenance_dict :: "provenance \<Rightarrow> json" where
  "provenance_dict p = JObj [(''source'', JStr (prov_source p)),
     (''source_version'', JStr (prov_source_version p)),
     (''reference_ids'', jstrs (prov_reference_ids p))]"

record source_window =
  window_id :: string
  started_at :: "timestamp option"
  ended_at :: "timestamp option"

definition validate_window :: "source_window \<Rightarrow> source_window gov" where
  "validate_window w =
     (if \<not> text_ok (window_id w) then Inl (ValidationError ''window_id'')
      else if (started_at w = None) \<noteq> (ended_at w = None)
      then Inl (ValueError ''both_window_bounds_required'')
      else (case (started_at w, ended_at w) of
              (Some s, Some e) \<Rightarrow> if s > e then Inl (ValueError ''reversed_window'') else Inr w
            | _ \<Rightarrow> Inr w))"

definition window_dict :: "source_window \<Rightarrow> json" where
  "window_dict w = JObj [(''window_id'', JStr (window_id w)),
     (''started_at'', jopt JTime (started_at w)), (''ended_at'', jopt JTime (ended_at w))]"

record dependency_ref =
  ref_kind :: dependency_kind
  dependency_id :: string

definition ref_dict :: "dependency_ref \<Rightarrow> json" where
  "ref_dict r = JObj [(''kind'', JStr (kind_value (ref_kind r))),
     (''dependency_id'', JStr (dependency_id r))]"

record observation =
  observation_id :: string
  source_id :: string
  ob_system_scope :: string
  ob_source_signals :: "string list"
  ob_source_window :: source_window
  ob_provenance :: provenance

definition validate_observation :: "observation \<Rightarrow> observation gov" where
  "validate_observation x =
     bindE (check_fields [
       (''observation_id'', text_ok (observation_id x)), (''source_id'', text_ok (source_id x)),
       (''system_scope'', text_ok (ob_system_scope x)),
       (''source_signals'', texts_ok (ob_source_signals x))]) (\<lambda>_.
     bindE (validate_window (ob_source_window x)) (\<lambda>_.
     if provenance_ok (ob_provenance x) then Inr x else Inl (ValidationError ''provenance'')))"

definition observation_dict :: "observation \<Rightarrow> json" where
  "observation_dict x = JObj [(''observation_id'', JStr (observation_id x)),
     (''source_id'', JStr (source_id x)), (''system_scope'', JStr (ob_system_scope x)),
     (''source_signals'', jstrs (ob_source_signals x)),
     (''source_window'', window_dict (ob_source_window x)),
     (''provenance'', provenance_dict (ob_provenance x))]"

subsection \<open>Evidence objects\<close>

record evidence =
  evidence_id :: string
  evidence_family :: evidence_family
  evidence_method :: string
  source_module :: string
  ev_source_run_id :: string
  ev_system_scope :: string
  ev_source_signals :: "string list"
  ev_source_window :: source_window
  derived_from :: "dependency_ref list"
  assumption_set :: "string list"
  context_refs :: "string list"
  ev_provenance :: provenance
  ev_created_at :: timestamp
  ev_effective_at :: "timestamp option"
  ev_version :: int
  ev_supersedes :: "string option"
  ev_payload :: "jdict option"
  result_ref :: "string option"
  lineage_complete :: bool
  covariance_source_id :: "string option"

text \<open>\<open>as_dict()\<close> without the identity field.\<close>

definition evidence_body :: "evidence \<Rightarrow> jdict" where
  "evidence_body x = [(''schema_version'', JStr ''evidence-object-v1''),
     (''evidence_family'', JStr (family_value (evidence_family x))),
     (''evidence_method'', JStr (evidence_method x)),
     (''source_module'', JStr (source_module x)),
     (''source_run_id'', JStr (ev_source_run_id x)),
     (''system_scope'', JStr (ev_system_scope x)),
     (''source_signals'', jstrs (ev_source_signals x)),
     (''source_window'', window_dict (ev_source_window x)),
     (''derived_from'', JList (map ref_dict (derived_from x))),
     (''assumption_set'', jstrs (assumption_set x)),
     (''context_refs'', jstrs (context_refs x)),
     (''provenance'', provenance_dict (ev_provenance x)),
     (''created_at'', JTime (ev_created_at x)),
     (''effective_at'', jopt JTime (ev_effective_at x)),
     (''version'', JInt (ev_version x)),
     (''supersedes'', jopt JStr (ev_supersedes x)),
     (''payload'', jopt JObj (ev_payload x)),
     (''result_ref'', jopt JStr (result_ref x)),
     (''lineage_complete'', JBool (lineage_complete x)),
     (''covariance_source_id'', jopt JStr (covariance_source_id x))]"

definition evidence_dict :: "evidence \<Rightarrow> json" where
  "evidence_dict x = JObj ((''evidence_id'', JStr (evidence_id x)) # evidence_body x)"

definition ordered_dependencies :: "dependency_ref list \<Rightarrow> dependency_ref list" where
  "ordered_dependencies refs =
     sort_key (\<lambda>r. (kind_value (ref_kind r), dependency_id r)) (remdups refs)"

definition normalize_evidence :: "evidence \<Rightarrow> evidence" where
  "normalize_evidence x = x\<lparr>ev_source_signals := sorted_set (ev_source_signals x),
     assumption_set := sorted_set (assumption_set x),
     context_refs := sorted_set (context_refs x),
     derived_from := ordered_dependencies (derived_from x)\<rparr>"

definition evidence_fields :: "runtime \<Rightarrow> evidence \<Rightarrow> (string \<times> bool) list" where
  "evidence_fields R x = [
     (''evidence_method'', text_ok (evidence_method x)),
     (''source_module'', text_ok (source_module x)),
     (''source_run_id'', text_ok (ev_source_run_id x)),
     (''system_scope'', text_ok (ev_system_scope x)),
     (''source_signals'', texts_ok (ev_source_signals x)),
     (''derived_from'', list_all (\<lambda>r. text_ok (dependency_id r)) (derived_from x)),
     (''assumption_set'', texts_ok (assumption_set x)),
     (''context_refs'', texts_ok (context_refs x)),
     (''provenance'', provenance_ok (ev_provenance x)),
     (''version'', version_ok (ev_version x)),
     (''supersedes'', text_opt_ok (ev_supersedes x)),
     (''payload'', (case ev_payload x of None \<Rightarrow> True | Some p \<Rightarrow> bounded R p)),
     (''result_ref'', text_opt_ok (result_ref x)),
     (''covariance_source_id'', text_opt_ok (covariance_source_id x))]"

definition result_present :: "evidence \<Rightarrow> evidence gov" where
  "result_present x =
     (if ev_payload x = None \<and> result_ref x = None
      then Inl (ValueError ''payload_or_result_reference_required'')
      else if ev_version x = 1 \<and> ev_supersedes x \<noteq> None
      then Inl (ValueError ''initial_evidence_cannot_supersede'')
      else if ev_version x > 1 \<and> ev_supersedes x = None
      then Inl (ValueError ''versioned_evidence_requires_supersedes'')
      else Inr x)"

definition validate_evidence :: "runtime \<Rightarrow> evidence \<Rightarrow> evidence gov" where
  "validate_evidence R x =
     bindE (check_fields (evidence_fields R x)) (\<lambda>_.
     bindE (validate_window (ev_source_window x)) (\<lambda>_.
     let y = normalize_evidence x in
     bindE (validate_identity R ''evidence'' ''evidence_id'' (JObj (evidence_body y)) (evidence_id y)) (\<lambda>i.
     result_present (y\<lparr>evidence_id := i\<rparr>))))"

subsection \<open>Lifecycle events, human review, authority decisions\<close>

record lifecycle_change =
  lc_state :: lifecycle_state
  lc_previous_event_id :: "string option"
  lc_effective_at :: timestamp
  lc_evidence_ids :: "string list"
  lc_reasons :: "string list"
  lc_source_run_id :: string
  lc_provenance :: provenance

definition lifecycle_change_fields :: "'a lifecycle_change_scheme \<Rightarrow> (string \<times> bool) list" where
  "lifecycle_change_fields x = [
     (''previous_event_id'', text_opt_ok (lc_previous_event_id x)),
     (''evidence_ids'', texts_ok (lc_evidence_ids x)),
     (''reasons'', lc_reasons x \<noteq> [] \<and> texts_ok (lc_reasons x)),
     (''source_run_id'', text_ok (lc_source_run_id x)),
     (''provenance'', provenance_ok (lc_provenance x))]"

definition validate_lifecycle_change :: "lifecycle_change \<Rightarrow> lifecycle_change gov" where
  "validate_lifecycle_change x = bindE (check_fields (lifecycle_change_fields x)) (\<lambda>_. Inr x)"

record lifecycle_event = lifecycle_change +
  le_event_id :: string
  le_finding_id :: string
  le_version :: int
  le_recorded_at :: timestamp
  le_actor :: string

definition validate_lifecycle_event :: "lifecycle_event \<Rightarrow> lifecycle_event gov" where
  "validate_lifecycle_event x =
     bindE (check_fields (lifecycle_change_fields x @ [
       (''event_id'', text_ok (le_event_id x)), (''finding_id'', text_ok (le_finding_id x)),
       (''version'', version_ok (le_version x)), (''actor'', text_ok (le_actor x))])) (\<lambda>_. Inr x)"

datatype review_status = NotRequired | Pending | Approved | Rejected

fun review_status_value :: "review_status \<Rightarrow> string" where
  "review_status_value NotRequired = ''not_required''"
| "review_status_value Pending = ''pending''"
| "review_status_value Approved = ''approved''"
| "review_status_value Rejected = ''rejected''"

record human_review =
  hr_required :: bool
  hr_status :: review_status
  hr_reviewer_identity :: "string option"
  hr_reviewed_at :: "timestamp option"
  hr_rationale :: "string option"

definition review_consistency :: "human_review \<Rightarrow> human_review gov" where
  "review_consistency h =
     (let completed = (hr_status h = Approved \<or> hr_status h = Rejected);
          all_set = (hr_reviewer_identity h \<noteq> None \<and> hr_reviewed_at h \<noteq> None \<and> hr_rationale h \<noteq> None);
          any_set = (hr_reviewer_identity h \<noteq> None \<or> hr_reviewed_at h \<noteq> None \<or> hr_rationale h \<noteq> None)
      in if completed \<noteq> all_set
         then Inl (ValueError ''completed_review_requires_identity_time_and_rationale'')
         else if \<not> completed \<and> any_set
         then Inl (ValueError ''pending_review_cannot_claim_completion'')
         else if hr_required h \<and> hr_status h = NotRequired
         then Inl (ValueError ''required_review_cannot_be_not_required'')
         else Inr h)"

definition validate_human_review :: "human_review \<Rightarrow> human_review gov" where
  "validate_human_review h =
     bindE (check_fields [(''reviewer_identity'', text_opt_ok (hr_reviewer_identity h)),
       (''rationale'', text_opt_ok (hr_rationale h))]) (\<lambda>_. review_consistency h)"

definition review_dict :: "human_review \<Rightarrow> json" where
  "review_dict h = JObj [(''required'', JBool (hr_required h)),
     (''status'', JStr (review_status_value (hr_status h))),
     (''reviewer_identity'', jopt JStr (hr_reviewer_identity h)),
     (''reviewed_at'', jopt JTime (hr_reviewed_at h)),
     (''rationale'', jopt JStr (hr_rationale h))]"

record authority_decision =
  decision_id :: string
  ad_finding_id :: string
  ad_system_scope :: string
  decision_timestamp :: timestamp
  effective_timestamp :: timestamp
  ad_policy_id :: string
  ad_policy_version :: string
  policy_snapshot_id :: string
  evidence_snapshot_ids :: "string list"
  context_snapshot_id :: string
  dependency_graph_snapshot_id :: string
  maturity_at_decision :: maturity_level
  maturity_snapshot_id :: string
  lifecycle_state_at_decision :: lifecycle_state
  lifecycle_event_id :: string
  ad_requested_operation :: requested_operation
  decision_outcome :: authority_outcome
  decision_reasons :: "string list"
  ad_limiting_evidence :: "string list"
  ad_contradicting_evidence :: "string list"
  active_model_before :: "string option"
  candidate_model :: "string option"
  active_model_after :: "string option"
  ad_human_review :: human_review
  supersedes_decision_id :: "string option"
  ad_source_run_id :: string

definition decision_body_v1 :: "string \<Rightarrow> 'a authority_decision_scheme \<Rightarrow> jdict" where
  "decision_body_v1 schema d = [(''schema_version'', JStr schema),
     (''finding_id'', JStr (ad_finding_id d)), (''system_scope'', JStr (ad_system_scope d)),
     (''decision_timestamp'', JTime (decision_timestamp d)),
     (''effective_timestamp'', JTime (effective_timestamp d)),
     (''policy_id'', JStr (ad_policy_id d)), (''policy_version'', JStr (ad_policy_version d)),
     (''policy_snapshot_id'', JStr (policy_snapshot_id d)),
     (''evidence_snapshot_ids'', jstrs (evidence_snapshot_ids d)),
     (''context_snapshot_id'', JStr (context_snapshot_id d)),
     (''dependency_graph_snapshot_id'', JStr (dependency_graph_snapshot_id d)),
     (''maturity_at_decision'', JStr (level_value (maturity_at_decision d))),
     (''maturity_snapshot_id'', JStr (maturity_snapshot_id d)),
     (''lifecycle_state_at_decision'', JStr (lifecycle_value (lifecycle_state_at_decision d))),
     (''lifecycle_event_id'', JStr (lifecycle_event_id d)),
     (''requested_operation'', JStr (operation_value (ad_requested_operation d))),
     (''decision_outcome'', JStr (outcome_value (decision_outcome d))),
     (''decision_reasons'', jstrs (decision_reasons d)),
     (''limiting_evidence'', jstrs (ad_limiting_evidence d)),
     (''contradicting_evidence'', jstrs (ad_contradicting_evidence d)),
     (''active_model_before'', jopt JStr (active_model_before d)),
     (''candidate_model'', jopt JStr (candidate_model d)),
     (''active_model_after'', jopt JStr (active_model_after d)),
     (''human_review'', review_dict (ad_human_review d)),
     (''supersedes_decision_id'', jopt JStr (supersedes_decision_id d)),
     (''source_run_id'', JStr (ad_source_run_id d))]"

definition decision_fields :: "'a authority_decision_scheme \<Rightarrow> (string \<times> bool) list" where
  "decision_fields d = [
     (''finding_id'', text_ok (ad_finding_id d)), (''system_scope'', text_ok (ad_system_scope d)),
     (''policy_id'', text_ok (ad_policy_id d)), (''policy_version'', text_ok (ad_policy_version d)),
     (''policy_snapshot_id'', text_ok (policy_snapshot_id d)),
     (''evidence_snapshot_ids'', evidence_snapshot_ids d \<noteq> [] \<and> texts_ok (evidence_snapshot_ids d)),
     (''context_snapshot_id'', text_ok (context_snapshot_id d)),
     (''dependency_graph_snapshot_id'', text_ok (dependency_graph_snapshot_id d)),
     (''maturity_snapshot_id'', text_ok (maturity_snapshot_id d)),
     (''lifecycle_event_id'', text_ok (lifecycle_event_id d)),
     (''decision_reasons'', decision_reasons d \<noteq> [] \<and> texts_ok (decision_reasons d)),
     (''limiting_evidence'', texts_ok (ad_limiting_evidence d)),
     (''contradicting_evidence'', texts_ok (ad_contradicting_evidence d)),
     (''active_model_before'', text_opt_ok (active_model_before d)),
     (''candidate_model'', text_opt_ok (candidate_model d)),
     (''active_model_after'', text_opt_ok (active_model_after d)),
     (''supersedes_decision_id'', text_opt_ok (supersedes_decision_id d)),
     (''source_run_id'', text_ok (ad_source_run_id d))]"

definition review_outcome :: "'a authority_decision_scheme \<Rightarrow> 'a authority_decision_scheme gov" where
  "review_outcome d =
     (if decision_outcome d = HUMAN_REVIEW_REQUIRED
         \<and> (\<not> hr_required (ad_human_review d) \<or> hr_status (ad_human_review d) \<noteq> Pending)
      then Inl (ValueError ''human_review_required_outcome_requires_pending_review'')
      else if (decision_outcome d = PERMITTED \<or> decision_outcome d = RELEASED)
         \<and> hr_required (ad_human_review d) \<and> hr_status (ad_human_review d) \<noteq> Approved
      then Inl (ValueError ''permission_requires_completed_required_review'')
      else Inr d)"

definition validate_decision :: "runtime \<Rightarrow> authority_decision \<Rightarrow> authority_decision gov" where
  "validate_decision R d =
     bindE (check_fields (decision_fields d)) (\<lambda>_.
     bindE (validate_human_review (ad_human_review d)) (\<lambda>_.
     bindE (validate_identity R ''authority-decision'' ''decision_id''
              (JObj (decision_body_v1 ''authority-decision-v1'' d)) (decision_id d)) (\<lambda>i.
     review_outcome (d\<lparr>decision_id := i\<rparr>))))"

datatype snapshot_kind = KContext | KPolicy | KModel

fun snapshot_kind_value :: "snapshot_kind \<Rightarrow> string" where
  "snapshot_kind_value KContext = ''context''"
| "snapshot_kind_value KPolicy = ''policy''"
| "snapshot_kind_value KModel = ''model''"

record audit_snapshot =
  as_snapshot_id :: string
  as_kind :: snapshot_kind
  as_object_id :: string
  as_version :: string
  as_system_scope :: string
  as_created_at :: timestamp
  as_provenance :: provenance
  as_payload :: jdict

definition snapshot_body :: "audit_snapshot \<Rightarrow> jdict" where
  "snapshot_body x = [(''schema_version'', JStr ''governance-snapshot-v1''),
     (''kind'', JStr (snapshot_kind_value (as_kind x))), (''object_id'', JStr (as_object_id x)),
     (''version'', JStr (as_version x)), (''system_scope'', JStr (as_system_scope x)),
     (''created_at'', JTime (as_created_at x)), (''provenance'', provenance_dict (as_provenance x)),
     (''payload'', JObj (as_payload x))]"

definition validate_snapshot :: "runtime \<Rightarrow> audit_snapshot \<Rightarrow> audit_snapshot gov" where
  "validate_snapshot R x =
     bindE (check_fields [(''object_id'', text_ok (as_object_id x)), (''version'', text_ok (as_version x)),
       (''system_scope'', text_ok (as_system_scope x)), (''provenance'', provenance_ok (as_provenance x)),
       (''payload'', bounded R (as_payload x))]) (\<lambda>_.
     bindE (validate_identity R ''governance-snapshot'' ''snapshot_id'' (JObj (snapshot_body x))
              (as_snapshot_id x)) (\<lambda>i.
     Inr (x\<lparr>as_snapshot_id := i\<rparr>)))"

subsection \<open>Construction is idempotent and binds the identity to the content\<close>

text \<open>
  Every consumer revalidates a record it is given (\<open>model_validate(x.as_dict())\<close>). On a record that
  has been constructed that is the identity function.
\<close>

lemma ordered_dependencies_idem [simp]:
  "ordered_dependencies (ordered_dependencies refs) = ordered_dependencies refs"
  by (simp add: ordered_dependencies_def distinct_remdups_id)

lemma set_ordered_dependencies [simp]: "set (ordered_dependencies refs) = set refs"
  by (simp add: ordered_dependencies_def)

lemma normalize_evidence_idem [simp]:
  "normalize_evidence (normalize_evidence x) = normalize_evidence x"
  by (simp add: normalize_evidence_def)

lemma validate_window_Inr: "validate_window w = Inr v \<Longrightarrow> v = w"
  by (auto simp: validate_window_def split: if_splits option.splits)

lemma evidence_body_id [simp]: "evidence_body (x\<lparr>evidence_id := i\<rparr>) = evidence_body x"
  by (simp add: evidence_body_def)

lemma evidence_fields_id [simp]: "evidence_fields R (x\<lparr>evidence_id := i\<rparr>) = evidence_fields R x"
  by (simp add: evidence_fields_def)

lemma texts_ok_sorted_set [simp]: "texts_ok (sorted_set xs) = texts_ok xs"
  by (simp add: texts_ok_def list_all_iff)

lemma evidence_fields_normalize:
  "(\<forall>(f, ok) \<in> set (evidence_fields R (normalize_evidence x)). ok)
   \<longleftrightarrow> (\<forall>(f, ok) \<in> set (evidence_fields R x). ok)"
  by (simp add: evidence_fields_def normalize_evidence_def list_all_iff)

lemma normalize_evidence_id [simp]:
  "normalize_evidence (x\<lparr>evidence_id := i\<rparr>) = (normalize_evidence x)\<lparr>evidence_id := i\<rparr>"
  by (simp add: normalize_evidence_def)

lemma normalize_evidence_simps [simp]:
  "evidence_id (normalize_evidence x) = evidence_id x"
  "ev_source_window (normalize_evidence x) = ev_source_window x"
  by (simp_all add: normalize_evidence_def)

lemma result_present_Inr: "result_present x = Inr y \<Longrightarrow> y = x"
  by (auto simp: result_present_def split: if_splits)

lemma validate_evidence_form:
  assumes "validate_evidence R x = Inr y"
  shows "y = (normalize_evidence x)\<lparr>evidence_id :=
           content_id R ''evidence'' (JObj (evidence_body (normalize_evidence x)))\<rparr>"
  using assms
  by (auto simp: validate_evidence_def res_simps Let_def validate_identity_Inr dest!: result_present_Inr)

lemma validate_evidence_id:
  "validate_evidence R x = Inr y \<Longrightarrow> evidence_id y = content_id R ''evidence'' (JObj (evidence_body y))"
  by (drule validate_evidence_form) simp

lemma validate_evidence_idem:
  assumes v: "validate_evidence R x = Inr y"
  shows "validate_evidence R y = Inr y"
proof -
  let ?n = "normalize_evidence x"
  from v have f: "\<forall>(f, ok) \<in> set (evidence_fields R x). ok"
    and w: "\<exists>w. validate_window (ev_source_window x) = Inr w"
    and r: "result_present y = Inr y"
    by (auto simp: validate_evidence_def res_simps Let_def dest: result_present_Inr)
  have y: "y = ?n\<lparr>evidence_id := content_id R ''evidence'' (JObj (evidence_body ?n))\<rparr>"
    by (rule validate_evidence_form [OF v])
  have n: "normalize_evidence y = y" by (simp add: y)
  have "\<forall>(f, ok) \<in> set (evidence_fields R y). ok"
    using f by (simp add: y evidence_fields_normalize)
  then show ?thesis
    using w r n validate_evidence_id [OF v]
    by (auto simp: validate_evidence_def res_simps Let_def validate_identity_Inr) (simp_all add: y)
qed

subsection \<open>Sample values\<close>

text \<open>
  Concrete inputs for the witnesses: a runtime whose digest is the \<open>result_ref\<close> or the \<open>source_run_id\<close>
  of a record, a provenance, observations and evidence.
\<close>

definition demo_digest :: "json \<Rightarrow> string" where
  "demo_digest v = (case v of
       JObj kvs \<Rightarrow> (case map_of kvs ''result_ref'' of
           Some (JStr s) \<Rightarrow> s
         | _ \<Rightarrow> (case map_of kvs ''source_run_id'' of Some (JStr s) \<Rightarrow> s | _ \<Rightarrow> ''0''))
     | _ \<Rightarrow> ''0'')"

definition demo_runtime :: runtime where
  "demo_runtime = \<lparr>sha256_json = demo_digest, json_bytes = (\<lambda>_. 0),
     math_sqrt = (\<lambda>x. x), math_erfc = (\<lambda>x. x)\<rparr>"

definition demo_provenance :: provenance where
  "demo_provenance = \<lparr>prov_source = ''historian'', prov_source_version = ''1'', prov_reference_ids = []\<rparr>"

definition demo_observation :: "string \<Rightarrow> observation" where
  "demo_observation n = \<lparr>observation_id = n, source_id = n, ob_system_scope = ''plant'',
     ob_source_signals = [n],
     ob_source_window = \<lparr>window_id = n, started_at = Some 0, ended_at = Some 10\<rparr>,
     ob_provenance = demo_provenance\<rparr>"

definition demo_evidence :: "string \<Rightarrow> evidence_family \<Rightarrow> dependency_ref list \<Rightarrow> evidence" where
  "demo_evidence n f ds = \<lparr>evidence_id = [], evidence_family = f, evidence_method = ''method'',
     source_module = ''module'', ev_source_run_id = ''run'', ev_system_scope = ''plant'',
     ev_source_signals = [n],
     ev_source_window = \<lparr>window_id = n, started_at = Some 0, ended_at = Some 10\<rparr>,
     derived_from = ds, assumption_set = [], context_refs = [], ev_provenance = demo_provenance,
     ev_created_at = 20, ev_effective_at = None, ev_version = 1, ev_supersedes = None,
     ev_payload = None, result_ref = Some n, lineage_complete = True, covariance_source_id = None\<rparr>"

end
