(* ===== verification/Gov_Dependencies.thy ===== *)
theory Gov_Dependencies
  imports Gov_Contracts
begin

text \<open>
  The dependency graph of \<^verbatim>\<open>backend/app/governance/dependencies.py\<close>: the topological order that
  rejects dangling identifiers and cycles, the validated graph record, its lineage query and the
  declared-lineage independence rules. \<open>graphlib.TopologicalSorter\<close> of the standard library is
  modelled by its documented behaviour: nodes become ready when their last predecessor is done and
  are emitted first in, first out; a graph with a cycle raises.
\<close>

subsection \<open>Topological order\<close>

type_synonym upstream_map = "(string \<times> string list) list"

definition repr_strs :: "string list \<Rightarrow> string" where
  "repr_strs xs = ''['' @ join '', '' (map (\<lambda>s. [CHR 0x27] @ s @ [CHR 0x27]) xs) @ '']''"

definition deps :: "upstream_map \<Rightarrow> string \<Rightarrow> string list" where
  "deps ups k = (case map_of ups k of None \<Rightarrow> [] | Some ds \<Rightarrow> ds)"

definition successors :: "upstream_map \<Rightarrow> string \<Rightarrow> string list" where
  "successors ups n = map fst (filter (\<lambda>(k, ds). n \<in> set ds) ups)"

definition newly_ready :: "upstream_map \<Rightarrow> string list \<Rightarrow> string \<Rightarrow> string list" where
  "newly_ready ups finished n =
     filter (\<lambda>s. subset_list (deps ups s) (finished @ [n])) (successors ups n)"

fun static_order :: "nat \<Rightarrow> upstream_map \<Rightarrow> string list \<Rightarrow> string list \<Rightarrow> string list" where
  "static_order 0 ups queue finished = finished"
| "static_order (Suc fuel) ups [] finished = finished"
| "static_order (Suc fuel) ups (n # queue) finished =
     static_order fuel ups (queue @ newly_ready ups finished n) (finished @ [n])"

fun check_missing :: "string list \<Rightarrow> upstream_map \<Rightarrow> unit gov" where
  "check_missing ids [] = Inr ()"
| "check_missing ids ((k, ds) # rest) =
     (let missing = sorted_set (filter (\<lambda>d. d \<notin> set ids) ds) in
      if missing \<noteq> [] then Inl (ValueError (''missing_dependency_ids:'' @ repr_strs missing))
      else check_missing ids rest)"

text \<open>
  The sorter registers a node where it is first mentioned, a key before its own dependencies, and
  hands out the nodes that wait for nothing in that order.
\<close>

definition node_order :: "upstream_map \<Rightarrow> string list" where
  "node_order ups = rev (remdups (rev (concat (map (\<lambda>(k, ds). k # ds) ups))))"

definition first_ready :: "upstream_map \<Rightarrow> string list" where
  "first_ready ups = filter (\<lambda>k. map_of ups k = Some []) (node_order ups)"

text \<open>
  The keys of \<open>upstream\<close> are distinct, being those of a dict. The nodes of a cycle, which the source
  adds to the error text, are not modelled.
\<close>

definition topological_order :: "upstream_map \<Rightarrow> string list gov" where
  "topological_order upstream =
     bindE (check_missing (map fst upstream) upstream) (\<lambda>_.
     let ups = map (\<lambda>(k, ds). (k, sort ds)) (sort_key fst upstream);
         order = static_order (length ups) ups (first_ready ups) []
     in if length order = length ups then Inr order
        else Inl (ValueError ''dependency_cycle''))"

text \<open>The edge relation: a node depends on each of its upstream identifiers.\<close>

definition dep_rel :: "upstream_map \<Rightarrow> (string \<times> string) set" where
  "dep_rel ups = {(k, d). d \<in> set (deps ups k)}"

definition closed_ups :: "upstream_map \<Rightarrow> bool" where
  "closed_ups ups = (\<forall>k \<in> set (map fst ups). set (deps ups k) \<subseteq> set (map fst ups))"

text \<open>Each identifier of \<open>order\<close> comes after its dependencies, given those already \<open>seen\<close>.\<close>

fun upstream_first :: "upstream_map \<Rightarrow> string list \<Rightarrow> string list \<Rightarrow> bool" where
  "upstream_first ups seen [] = True"
| "upstream_first ups seen (k # order) =
     (subset_list (deps ups k) seen \<and> upstream_first ups (k # seen) order)"

lemma upstream_first_cong:
  "set seen = set seen' \<Longrightarrow> upstream_first ups seen order = upstream_first ups seen' order"
proof (induction order arbitrary: seen seen')
  case (Cons k order)
  then have "upstream_first ups (k # seen) order = upstream_first ups (k # seen') order" by simp
  with Cons.prems show ?case by simp
qed simp

lemma upstream_first_append:
  "upstream_first ups seen (xs @ ys)
   \<longleftrightarrow> upstream_first ups seen xs \<and> upstream_first ups (xs @ seen) ys"
proof (induction xs arbitrary: seen)
  case (Cons k xs)
  have "upstream_first ups (xs @ k # seen) ys = upstream_first ups (k # xs @ seen) ys"
    by (rule upstream_first_cong) simp
  with Cons show ?case by simp
qed simp

lemma deps_in_keys: "d \<in> set (deps ups k) \<Longrightarrow> k \<in> set (map fst ups)"
  by (cases "map_of ups k") (auto simp: deps_def dest: map_of_SomeD intro: rev_image_eqI)

lemma successors_iff:
  "distinct (map fst ups) \<Longrightarrow> s \<in> set (successors ups n) \<longleftrightarrow> n \<in> set (deps ups s)"
  by (force simp: successors_def deps_def dest: map_of_SomeD split: option.splits)

lemma distinct_successors: "distinct (map fst ups) \<Longrightarrow> distinct (successors ups n)"
  by (simp add: successors_def distinct_map inj_on_subset [of fst "set ups"])

definition order_inv :: "upstream_map \<Rightarrow> string list \<Rightarrow> string list \<Rightarrow> bool" where
  "order_inv ups queue finished =
     (distinct (finished @ queue) \<and> set (finished @ queue) \<subseteq> set (map fst ups)
      \<and> (\<forall>k \<in> set (map fst ups). k \<in> set (finished @ queue) \<longleftrightarrow> set (deps ups k) \<subseteq> set finished)
      \<and> upstream_first ups [] finished)"

lemma order_inv_step:
  assumes inv: "order_inv ups (n # queue) finished" and d: "distinct (map fst ups)"
  shows "order_inv ups (queue @ newly_ready ups finished n) (finished @ [n])"
proof -
  let ?new = "newly_ready ups finished n"
  have new: "s \<in> set ?new \<longleftrightarrow> n \<in> set (deps ups s) \<and> set (deps ups s) \<subseteq> insert n (set finished)" for s
    by (auto simp: newly_ready_def successors_iff [OF d])
  have n: "n \<notin> set finished" "n \<in> set (map fst ups)" "set (deps ups n) \<subseteq> set finished"
    using inv by (auto simp: order_inv_def)
  have iff0: "k \<in> set (finished @ n # queue) \<longleftrightarrow> set (deps ups k) \<subseteq> set finished"
    if "k \<in> set (map fst ups)" for k
    using inv that unfolding order_inv_def by blast
  have fresh: "s \<notin> set (finished @ n # queue)" if "s \<in> set ?new" for s
  proof
    assume "s \<in> set (finished @ n # queue)"
    moreover have s: "n \<in> set (deps ups s)" using that new by blast
    ultimately have "n \<in> set finished" using iff0 deps_in_keys [OF s] by blast
    with n(1) show False by simp
  qed
  have "distinct ?new" by (simp add: newly_ready_def distinct_successors [OF d])
  moreover have "distinct (finished @ n # queue)" using inv by (simp add: order_inv_def)
  moreover have "set ?new \<inter> set (finished @ n # queue) = {}" using fresh by blast
  ultimately have dist: "distinct ((finished @ [n]) @ queue @ ?new)" by auto
  have "set ?new \<subseteq> set (map fst ups)" using new deps_in_keys by blast
  moreover have "set (finished @ n # queue) \<subseteq> set (map fst ups)"
    using inv by (simp only: order_inv_def)
  ultimately have sub: "set ((finished @ [n]) @ queue @ ?new) \<subseteq> set (map fst ups)" by auto
  have iff: "\<forall>k \<in> set (map fst ups). k \<in> set ((finished @ [n]) @ queue @ ?new)
      \<longleftrightarrow> set (deps ups k) \<subseteq> set (finished @ [n])"
  proof
    fix k assume k: "k \<in> set (map fst ups)"
    show "k \<in> set ((finished @ [n]) @ queue @ ?new) \<longleftrightarrow> set (deps ups k) \<subseteq> set (finished @ [n])"
      using iff0 [OF k] new [of k] by auto
  qed
  have pre: "upstream_first ups [] (finished @ [n])"
    using inv n by (simp add: order_inv_def upstream_first_append)
  show ?thesis using dist sub iff pre by (simp only: order_inv_def)
qed

lemma order_inv_static_order:
  assumes "order_inv ups queue finished" and "distinct (map fst ups)"
    and "length ups \<le> fuel + length finished"
  shows "order_inv ups [] (static_order fuel ups queue finished)"
  using assms
proof (induction fuel ups queue finished rule: static_order.induct)
  case (1 ups queue finished)
  have "length (finished @ queue) \<le> length (map fst ups)"
    using 1 by (metis order_inv_def card_mono distinct_card finite_set)
  then have "length finished + length queue \<le> length ups" by simp
  with 1(3) have "length queue = 0" by linarith
  then have "queue = []" by simp
  then show ?case using 1 by simp
next
  case (3 fuel ups n queue finished)
  then show ?case by (simp add: order_inv_step)
qed simp

lemma deps_Cons:
  "deps ((a, ds) # ups) k = (if k = a then ds else deps ups k)"
  by (auto simp: deps_def)

lemma ready_iff:
  "distinct (map fst ups) \<Longrightarrow> k \<in> set (map fst ups) \<Longrightarrow>
   k \<in> set (map fst (filter (\<lambda>(k, ds). ds = []) ups)) \<longleftrightarrow> deps ups k = []"
proof (induction ups)
  case (Cons p ups)
  obtain a ds where p: "p = (a, ds)" by (cases p)
  have sub: "set (map fst (filter (\<lambda>(k, ds). ds = []) ups)) \<subseteq> set (map fst ups)" by auto
  show ?case
  proof (cases "k = a")
    case True
    with Cons.prems sub show ?thesis by (auto simp: p deps_Cons)
  next
    case False
    with Cons show ?thesis by (simp add: p deps_Cons)
  qed
qed simp

lemma first_ready:
  assumes d: "distinct (map fst ups)"
  shows "distinct (first_ready ups)"
    and "set (first_ready ups) = set (map fst (filter (\<lambda>(k, ds). ds = []) ups))"
proof -
  show "distinct (first_ready ups)" by (simp add: first_ready_def node_order_def)
  have "k \<in> set (node_order ups)" if "(k, ds) \<in> set ups" for k ds
    using that by (force simp: node_order_def)
  moreover have "map_of ups k = Some [] \<longleftrightarrow> (k, []) \<in> set ups" for k using d by (rule map_of_eq_Some_iff)
  ultimately show "set (first_ready ups) = set (map fst (filter (\<lambda>(k, ds). ds = []) ups))"
    by (force simp: first_ready_def)
qed

lemma order_inv_start:
  assumes d: "distinct (map fst ups)"
  shows "order_inv ups (first_ready ups) []"
proof -
  note r = first_ready [OF d]
  have "set (first_ready ups) \<subseteq> set (map fst ups)" unfolding r(2) by auto
  moreover have "\<forall>k \<in> set (map fst ups). k \<in> set (first_ready ups) \<longleftrightarrow> set (deps ups k) \<subseteq> set []"
    using ready_iff [OF d] unfolding r(2) by simp
  ultimately show ?thesis using r(1) by (simp add: order_inv_def)
qed

text \<open>A graph with no cycle leaves no node waiting.\<close>

lemma acyclic_all_ready:
  assumes inv: "order_inv ups [] order" and cl: "closed_ups ups" and ac: "acyclic (dep_rel ups)"
  shows "set order = set (map fst ups)"
proof (rule ccontr)
  assume ne: "set order \<noteq> set (map fst ups)"
  have sub: "set order \<subseteq> set (map fst ups)" using inv by (simp add: order_inv_def)
  have "dep_rel ups \<subseteq> (\<Union>k \<in> set (map fst ups). {k} \<times> set (deps ups k))"
  proof
    fix p assume "p \<in> dep_rel ups"
    then obtain a b where "p = (a, b)" "b \<in> set (deps ups a)" by (auto simp: dep_rel_def)
    with deps_in_keys [of b ups a] show "p \<in> (\<Union>k \<in> set (map fst ups). {k} \<times> set (deps ups k))"
      by blast
  qed
  then have "finite (dep_rel ups)" by (rule finite_subset) simp
  with ac have "wf ((dep_rel ups)\<inverse>)" by (simp add: finite_acyclic_wf_converse)
  moreover from ne sub obtain x where "x \<in> set (map fst ups) - set order" by blast
  ultimately obtain z where z: "z \<in> set (map fst ups) - set order"
    and min: "\<And>y. (y, z) \<in> (dep_rel ups)\<inverse> \<Longrightarrow> y \<notin> set (map fst ups) - set order"
    by (rule wfE_min) blast
  have "set (deps ups z) \<subseteq> set order"
  proof
    fix y assume y: "y \<in> set (deps ups z)"
    then have "y \<in> set (map fst ups)" using cl z by (auto simp: closed_ups_def)
    with min [of y] y show "y \<in> set order" by (simp add: dep_rel_def)
  qed
  with z inv show False by (auto simp: order_inv_def)
qed

definition position :: "string list \<Rightarrow> string \<Rightarrow> nat" where
  "position order k = length (takeWhile (\<lambda>x. x \<noteq> k) order)"

lemma upstream_first_position:
  assumes "upstream_first ups seen order" and "x \<in> set order" and "d \<in> set (deps ups x)"
  shows "d \<in> set seen \<or> position order d < position order x"
  using assms
proof (induction order arbitrary: seen)
  case (Cons k order)
  show ?case
  proof (cases "x = k")
    case True
    with Cons.prems show ?thesis by auto
  next
    case False
    with Cons.prems have "upstream_first ups (k # seen) order" "x \<in> set order" by simp_all
    from Cons.IH [OF this Cons.prems(3)]
    have "d \<in> set (k # seen) \<or> position order d < position order x" .
    with False show ?thesis by (auto simp: position_def)
  qed
qed simp

lemma upstream_first_acyclic:
  assumes u: "upstream_first ups [] order" and s: "set order = set (map fst ups)"
  shows "acyclic (dep_rel ups)"
proof -
  have "position order d < position order x" if "d \<in> set (deps ups x)" for x d
  proof -
    from that have "x \<in> set order" using deps_in_keys s by blast
    with upstream_first_position [OF u _ that] show ?thesis by simp
  qed
  then have "(dep_rel ups)\<inverse> \<subseteq> measure (position order)"
    by (auto simp: dep_rel_def)
  then have "wf ((dep_rel ups)\<inverse>)" by (rule wf_subset [OF wf_measure])
  then show ?thesis by (metis wf_acyclic acyclic_converse)
qed

lemma check_missing_Inr:
  "check_missing ids ups = Inr u \<longleftrightarrow> (\<forall>(k, ds) \<in> set ups. set ds \<subseteq> set ids)"
proof (induction ids ups rule: check_missing.induct)
  case (2 ids k ds rest)
  have "sorted_set (filter (\<lambda>d. d \<notin> set ids) ds) = [] \<longleftrightarrow> set ds \<subseteq> set ids"
    by (auto simp: filter_empty_conv)
  with 2 show ?case by (auto simp: Let_def)
qed simp

definition sort_upstream :: "upstream_map \<Rightarrow> upstream_map" where
  "sort_upstream upstream = map (\<lambda>(k, ds). (k, sort ds)) (sort_key fst upstream)"

lemma fst_sort_upstream: "map fst (sort_upstream ups) = map fst (sort_key fst ups)"
  by (simp add: sort_upstream_def comp_def case_prod_unfold)

lemma set_fst_sort_upstream [simp]: "fst ` set (sort_upstream ups) = fst ` set ups"
  by (force simp: sort_upstream_def)

lemma distinct_sort_upstream:
  "distinct (map fst ups) \<Longrightarrow> distinct (map fst (sort_upstream ups))"
  by (simp only: fst_sort_upstream) (metis distinct_map distinct_sort set_sort)

lemma set_deps_sort_upstream:
  assumes d: "distinct (map fst ups)"
  shows "set (deps (sort_upstream ups) k) = set (deps ups k)"
proof -
  have m: "map_of (sort_key fst ups) = map_of ups"
    using d by (intro map_of_inject_set [THEN iffD2]) (simp_all add: distinct_map distinct_sort)
  have "map_of (sort_upstream ups) k = map_option sort (map_of (sort_key fst ups) k)"
    by (simp add: sort_upstream_def map_of_map)
  then show ?thesis by (simp add: deps_def m split: option.splits)
qed

lemma dep_rel_sort_upstream:
  "distinct (map fst ups) \<Longrightarrow> dep_rel (sort_upstream ups) = dep_rel ups"
  by (simp add: dep_rel_def set_deps_sort_upstream)

lemma topological_order_cases:
  "topological_order ups =
     bindE (check_missing (map fst ups) ups) (\<lambda>_.
     let order = static_order (length ups) (sort_upstream ups) (first_ready (sort_upstream ups)) []
     in if length order = length ups then Inr order else Inl (ValueError ''dependency_cycle''))"
  by (simp add: topological_order_def sort_upstream_def Let_def)

lemma static_order_result:
  assumes d: "distinct (map fst ups)"
  shows "order_inv (sort_upstream ups) [] (static_order (length ups) (sort_upstream ups)
           (first_ready (sort_upstream ups)) [])"
proof -
  have "length (sort_upstream ups) = length ups" by (simp add: sort_upstream_def)
  then show ?thesis
    using order_inv_static_order [OF order_inv_start] distinct_sort_upstream [OF d] by simp
qed

lemma closed_iff_check:
  assumes d: "distinct (map fst ups)"
  shows "check_missing (map fst ups) ups = Inr u \<longleftrightarrow> closed_ups ups"
proof -
  have "map_of ups k = Some ds \<longleftrightarrow> (k, ds) \<in> set ups" for k ds
    using d by (rule map_of_eq_Some_iff)
  then show ?thesis
    by (force simp: check_missing_Inr closed_ups_def deps_def split: option.splits)
qed

lemma upstream_first_sort:
  "distinct (map fst ups) \<Longrightarrow> upstream_first (sort_upstream ups) seen order = upstream_first ups seen order"
  by (induction order arbitrary: seen) (simp_all add: set_deps_sort_upstream)

text \<open>
  The order is returned exactly for a closed, acyclic graph, and then lists every node once, after
  its dependencies.
\<close>

lemma topological_order_Inr:
  assumes d: "distinct (map fst ups)" and r: "topological_order ups = Inr order"
  shows "distinct order \<and> set order = set (map fst ups) \<and> upstream_first ups [] order
    \<and> closed_ups ups \<and> acyclic (dep_rel ups)"
proof -
  from r have c: "check_missing (map fst ups) ups = Inr ()" and l: "length order = length ups"
    and o: "order = static_order (length ups) (sort_upstream ups) (first_ready (sort_upstream ups)) []"
    by (auto simp: topological_order_cases res_simps Let_def split: if_splits)
  have inv: "order_inv (sort_upstream ups) [] order" using static_order_result [OF d] o by simp
  then have dist: "distinct order" and sub: "set order \<subseteq> set (map fst ups)"
    and u: "upstream_first ups [] order"
    by (simp_all add: order_inv_def upstream_first_sort [OF d])
  have eq: "set order = set (map fst ups)"
    using card_subset_eq [of "set (map fst ups)" "set order"] sub dist d l
    by (simp add: distinct_card [symmetric] del: set_map) (metis distinct_card length_map)
  show ?thesis
    using dist eq u closed_iff_check [OF d] c upstream_first_acyclic [OF u eq] by simp
qed

lemma topological_order_complete:
  assumes d: "distinct (map fst ups)" and "closed_ups ups" and "acyclic (dep_rel ups)"
  shows "\<exists>order. topological_order ups = Inr order"
proof -
  let ?o = "static_order (length ups) (sort_upstream ups) (first_ready (sort_upstream ups)) []"
  have inv: "order_inv (sort_upstream ups) [] ?o" by (rule static_order_result [OF d])
  have "closed_ups (sort_upstream ups)"
    using assms(2) by (simp add: closed_ups_def set_deps_sort_upstream [OF d])
  then have "set ?o = set (map fst (sort_upstream ups))"
    using acyclic_all_ready [OF inv] assms(3) by (simp add: dep_rel_sort_upstream [OF d])
  then have "card (set ?o) = card (set (map fst ups))" by simp
  moreover have "distinct ?o" using inv by (simp add: order_inv_def)
  ultimately have "length ?o = length ups"
    using d by (metis distinct_card length_map)
  then show ?thesis
    using closed_iff_check [OF d, of "()"] assms(2)
    by (auto simp: topological_order_cases res_simps Let_def)
qed

subsection \<open>The graph record\<close>

record graph =
  g_snapshot_id :: string
  g_system_scope :: string
  g_evidence :: "evidence list"
  g_observations :: "observation list"

definition graph_body :: "graph \<Rightarrow> jdict" where
  "graph_body g = [(''schema_version'', JStr ''evidence-dependency-graph-v1''),
     (''system_scope'', JStr (g_system_scope g)),
     (''evidence'', JList (map evidence_dict (g_evidence g))),
     (''observations'', JList (map observation_dict (g_observations g)))]"

definition evidence_ids :: "graph \<Rightarrow> string list" where
  "evidence_ids g = map evidence_id (g_evidence g)"

definition observation_ids :: "graph \<Rightarrow> string list" where
  "observation_ids g = map observation_id (g_observations g)"

definition edges :: "graph \<Rightarrow> upstream_map" where
  "edges g = sort_key fst
     (map (\<lambda>x. (observation_id x, [])) (g_observations g)
      @ map (\<lambda>x. (evidence_id x, map dependency_id (derived_from x))) (g_evidence g))"

definition upstream :: "graph \<Rightarrow> string \<Rightarrow> string list gov" where
  "upstream g n = (case map_of (edges g) n of None \<Rightarrow> Inl (KeyError n) | Some ds \<Rightarrow> Inr ds)"

fun check_refs :: "string list \<Rightarrow> string list \<Rightarrow> dependency_ref list \<Rightarrow> unit gov" where
  "check_refs eids oids [] = Inr ()"
| "check_refs eids oids (r # rs) =
     (if dependency_id r \<notin> set (if ref_kind r = DepEvidence then eids else oids)
      then Inl (ValueError (''missing_or_wrong_kind_dependency:'' @ dependency_id r))
      else check_refs eids oids rs)"

definition check_graph :: "graph \<Rightarrow> unit gov" where
  "check_graph g =
     (let eids = evidence_ids g; oids = observation_ids g in
      if length (remdups (eids @ oids)) \<noteq> length (g_evidence g) + length (g_observations g)
      then Inl (ValueError ''duplicate_graph_node_id'')
      else if list_ex (\<lambda>x. ev_system_scope x \<noteq> g_system_scope g) (g_evidence g)
           \<or> list_ex (\<lambda>x. ob_system_scope x \<noteq> g_system_scope g) (g_observations g)
      then Inl (ValueError ''graph_system_scope_mismatch'')
      else bindE (check_refs eids oids (concat (map derived_from (g_evidence g)))) (\<lambda>_.
           bindE (topological_order (edges g)) (\<lambda>_. Inr ())))"

definition validate_graph :: "runtime \<Rightarrow> graph \<Rightarrow> graph gov" where
  "validate_graph R g =
     bindE (check_fields [(''system_scope'', text_ok (g_system_scope g))]) (\<lambda>_.
     bindE (mapE (validate_evidence R) (g_evidence g)) (\<lambda>evs.
     bindE (mapE validate_observation (g_observations g)) (\<lambda>obs.
     let h = g\<lparr>g_evidence := sort_key evidence_id evs, g_observations := sort_key observation_id obs\<rparr> in
     bindE (validate_identity R ''dependency-graph'' ''snapshot_id'' (JObj (graph_body h)) (g_snapshot_id h)) (\<lambda>i.
     bindE (check_graph (h\<lparr>g_snapshot_id := i\<rparr>)) (\<lambda>_.
     Inr (h\<lparr>g_snapshot_id := i\<rparr>))))))"

text \<open>The whole retained graph must be known at the cutoff.\<close>

definition later_than :: "timestamp \<Rightarrow> timestamp option \<Rightarrow> bool" where
  "later_than cutoff t = (case t of None \<Rightarrow> False | Some v \<Rightarrow> v > cutoff)"

definition validate_available_at :: "graph \<Rightarrow> timestamp \<Rightarrow> unit gov" where
  "validate_available_at g cutoff =
     (if list_ex (\<lambda>x. later_than cutoff (ended_at (ev_source_window x))
                    \<or> ev_created_at x > cutoff \<or> later_than cutoff (ev_effective_at x)) (g_evidence g)
         \<or> list_ex (\<lambda>x. later_than cutoff (ended_at (ob_source_window x))) (g_observations g)
      then Inl (ValueError ''graph_contains_later_knowledge'') else Inr ())"

text \<open>
  The worklist of \<open>lineage\<close>: \<open>pending\<close> is a stack, written here with its top first, so that
  \<open>pending.extend(ds)\<close> puts the last element of \<open>ds\<close> on top.
\<close>

function lineage_loop :: "upstream_map \<Rightarrow> string list \<Rightarrow> string list \<Rightarrow> string list gov" where
  "lineage_loop es [] visited = Inr visited"
| "lineage_loop es (c # pending) visited =
     (if c \<in> set visited then lineage_loop es pending visited
      else (case map_of es c of
              None \<Rightarrow> Inl (KeyError c)
            | Some ds \<Rightarrow> lineage_loop es (rev ds @ pending) (c # visited)))"
  by pat_completeness auto
termination
proof (relation "measures [\<lambda>(es, pending, visited). card (set (map fst es) - set visited),
                           \<lambda>(es, pending, visited). length pending]", goal_cases)
  case (3 es c pending visited ds)
  then have "c \<in> set (map fst es) - set visited" by (force dest: map_of_SomeD)
  then have "card (set (map fst es) - set (c # visited)) < card (set (map fst es) - set visited)"
    by (intro psubset_card_mono) auto
  then show ?case by simp
qed auto

definition lineage :: "graph \<Rightarrow> string \<Rightarrow> string list gov" where
  "lineage g n =
     bindE (upstream g n) (\<lambda>ds.
     bindE (lineage_loop (edges g) (rev ds) []) (\<lambda>visited. Inr (sorted_set visited)))"

definition shared_upstream :: "graph \<Rightarrow> string \<Rightarrow> string \<Rightarrow> string list gov" where
  "shared_upstream g left right =
     bindE (lineage g left) (\<lambda>ls.
     bindE (lineage g right) (\<lambda>rs.
     Inr (sorted_set (inter_list (left # ls) (right # rs)))))"

subsection \<open>Declared-lineage independence\<close>

record inputs =
  in_sources :: "string list"
  in_signals :: "string list"
  in_contexts :: "string list"
  in_assumptions :: "string list"
  in_covariance :: "string list"
  in_windows :: "string list"
  in_complete :: bool

definition find_evidence :: "graph \<Rightarrow> string \<Rightarrow> evidence option" where
  "find_evidence g n = next_or (\<lambda>x. evidence_id x = n) (g_evidence g)"

definition find_observation :: "graph \<Rightarrow> string \<Rightarrow> observation option" where
  "find_observation g n = next_or (\<lambda>x. observation_id x = n) (g_observations g)"

text \<open>One iteration of the loop over the nodes of an object's lineage.\<close>

definition add_input :: "graph \<Rightarrow> string list \<Rightarrow> string \<Rightarrow> inputs \<Rightarrow> inputs gov" where
  "add_input g nodes node acc =
     (case find_evidence g node of
        Some parent \<Rightarrow> Inr (acc\<lparr>
          in_contexts := context_refs parent @ in_contexts acc,
          in_assumptions := assumption_set parent @ in_assumptions acc,
          in_covariance := (case covariance_source_id parent of None \<Rightarrow> [] | Some c \<Rightarrow> [c]) @ in_covariance acc,
          in_signals := ev_source_signals parent @ in_signals acc,
          in_windows := window_id (ev_source_window parent) # in_windows acc,
          in_complete := (in_complete acc \<and> lineage_complete parent \<and> derived_from parent \<noteq> []
            \<and> (evidence_family parent = COVARIANCE_GEOMETRY \<or> covariance_source_id parent \<noteq> None
               \<longrightarrow> (case covariance_source_id parent of None \<Rightarrow> False | Some c \<Rightarrow> c \<in> set nodes)))\<rparr>)
      | None \<Rightarrow>
          (case find_observation g node of
             None \<Rightarrow> Inl (KeyError node)
           | Some parent \<Rightarrow> Inr (acc\<lparr>
               in_sources := source_id parent # in_sources acc,
               in_signals := ob_source_signals parent @ in_signals acc,
               in_windows := window_id (ob_source_window parent) # in_windows acc\<rparr>)))"

fun fold_inputs :: "graph \<Rightarrow> string list \<Rightarrow> string list \<Rightarrow> inputs \<Rightarrow> inputs gov" where
  "fold_inputs g nodes [] acc = Inr acc"
| "fold_inputs g nodes (n # ns) acc =
     bindE (add_input g nodes n acc) (\<lambda>acc'. fold_inputs g nodes ns acc')"

definition no_inputs :: inputs where
  "no_inputs = \<lparr>in_sources = [], in_signals = [], in_contexts = [], in_assumptions = [],
     in_covariance = [], in_windows = [], in_complete = True\<rparr>"

definition inputs_of :: "graph \<Rightarrow> string \<Rightarrow> inputs gov" where
  "inputs_of g i =
     bindE (lineage g i) (\<lambda>ls. let nodes = i # ls in fold_inputs g nodes (remdups nodes) no_inputs)"

record independence_result =
  ir_evidence_ids :: "string \<times> string"
  ir_independent :: bool
  ir_reasons :: "string list"
  ir_shared_dependency_ids :: "string list"
  ir_shared_source_ids :: "string list"
  ir_shared_window_ids :: "string list"
  ir_shared_signals :: "string list"
  ir_shared_context_ids :: "string list"
  ir_shared_assumptions :: "string list"

definition shared_of :: "(inputs \<Rightarrow> string list) \<Rightarrow> inputs \<Rightarrow> inputs \<Rightarrow> string list" where
  "shared_of f a b = sorted_set (inter_list (f a) (f b))"

definition independence_reasons ::
  "evidence \<Rightarrow> evidence \<Rightarrow> string list \<Rightarrow> inputs \<Rightarrow> inputs \<Rightarrow> string list" where
  "independence_reasons left right shared a b =
     (if evidence_id left = evidence_id right then [''same_evidence_object''] else [])
     @ (if evidence_family left = evidence_family right then [''same_evidence_family''] else [])
     @ (if shared \<noteq> [] then [''shared_upstream_dependencies''] else [])
     @ (if shared_of in_covariance a b \<noteq> [] then [''shared_covariance_source''] else [])
     @ (if shared_of in_sources a b \<noteq> [] then [''shared_observation_source''] else [])
     @ (if shared_of in_windows a b \<noteq> [] then [''shared_source_window''] else [])
     @ (if shared_of in_signals a b \<noteq> [] then [''shared_source_signals''] else [])
     @ (if shared_of in_contexts a b \<noteq> [] then [''shared_context_dependencies''] else [])
     @ (if shared_of in_assumptions a b \<noteq> [] then [''shared_assumptions_not_established_independent''] else [])
     @ (if \<not> in_complete a \<or> \<not> in_complete b then [''incomplete_declared_lineage''] else [])"

definition independence_verdict ::
  "evidence \<Rightarrow> evidence \<Rightarrow> string list \<Rightarrow> inputs \<Rightarrow> inputs \<Rightarrow> independence_result" where
  "independence_verdict left right shared a b =
     (let reasons = independence_reasons left right shared a b;
          l = evidence_id left; r = evidence_id right
      in \<lparr>ir_evidence_ids = (if l \<le> r then (l, r) else (r, l)),
          ir_independent = (reasons = []),
          ir_reasons = (if reasons = [] then [''distinct_families_with_complete_disjoint_declared_inputs'']
                        else reasons),
          ir_shared_dependency_ids = sorted_set (shared @ shared_of in_covariance a b),
          ir_shared_source_ids = shared_of in_sources a b,
          ir_shared_window_ids = shared_of in_windows a b,
          ir_shared_signals = shared_of in_signals a b,
          ir_shared_context_ids = shared_of in_contexts a b,
          ir_shared_assumptions = shared_of in_assumptions a b\<rparr>)"

definition independence_in :: "graph \<Rightarrow> string \<Rightarrow> string \<Rightarrow> independence_result gov" where
  "independence_in g left_id right_id =
     (case (find_evidence g left_id, find_evidence g right_id) of
        (Some left, Some right) \<Rightarrow>
          bindE (shared_upstream g left_id right_id) (\<lambda>shared.
          bindE (inputs_of g left_id) (\<lambda>a.
          bindE (inputs_of g right_id) (\<lambda>b.
          Inr (independence_verdict left right shared a b))))
      | (None, _) \<Rightarrow> Inl (KeyError left_id)
      | (_, None) \<Rightarrow> Inl (KeyError right_id))"

definition evaluate_independence ::
  "runtime \<Rightarrow> graph \<Rightarrow> string \<Rightarrow> string \<Rightarrow> independence_result gov" where
  "evaluate_independence R g left_id right_id =
     bindE (validate_graph R g) (\<lambda>h. independence_in h left_id right_id)"

subsection \<open>What validation establishes\<close>

definition node_ids :: "graph \<Rightarrow> string list" where
  "node_ids g = evidence_ids g @ observation_ids g"

definition wf_graph :: "graph \<Rightarrow> bool" where
  "wf_graph g = (distinct (node_ids g) \<and> closed_ups (edges g) \<and> acyclic (dep_rel (edges g)))"

lemma set_fst_edges [simp]: "fst ` set (edges g) = set (node_ids g)"
  by (auto simp: edges_def node_ids_def evidence_ids_def observation_ids_def image_Un image_comp comp_def)

lemma distinct_edges: "distinct (node_ids g) \<Longrightarrow> distinct (map fst (edges g))"
proof -
  assume d: "distinct (node_ids g)"
  let ?l = "map (\<lambda>x. (observation_id x, [])) (g_observations g)
    @ map (\<lambda>x. (evidence_id x, map dependency_id (derived_from x))) (g_evidence g)"
  have "distinct (map fst ?l)"
    using d by (auto simp: node_ids_def evidence_ids_def observation_ids_def comp_def)
  then have "distinct (map fst (sort_key fst ?l))"
    by (simp only: distinct_map distinct_sort set_sort)
  then show ?thesis by (simp only: edges_def)
qed

lemma check_graph_wf:
  assumes c: "check_graph g = Inr ()"
  shows "wf_graph g"
proof -
  from c have "length (remdups (evidence_ids g @ observation_ids g)) = length (evidence_ids g @ observation_ids g)"
    by (auto simp: check_graph_def Let_def evidence_ids_def observation_ids_def split: if_splits)
  then have d: "distinct (node_ids g)"
    by (simp only: node_ids_def length_remdups_eq remdups_id_iff_distinct)
  from c obtain order where "topological_order (edges g) = Inr order"
    by (auto simp: check_graph_def Let_def res_simps split: if_splits)
  from topological_order_Inr [OF distinct_edges [OF d] this] d show ?thesis
    by (simp add: wf_graph_def)
qed

lemma validate_graph_form:
  assumes "validate_graph R g = Inr h"
  shows "wf_graph h" "g_system_scope h = g_system_scope g" "check_graph h = Inr ()"
    "g_snapshot_id h = content_id R ''dependency-graph'' (JObj (graph_body h))"
    "sorted (evidence_ids h)" "sorted (observation_ids h)"
    "\<forall>x \<in> set (g_evidence h). validate_evidence R x = Inr x"
    "\<forall>x \<in> set (g_observations h). validate_observation x = Inr x"
proof -
  from assms obtain evs obs i where
    evs: "mapE (validate_evidence R) (g_evidence g) = Inr evs"
    and obs: "mapE validate_observation (g_observations g) = Inr obs"
    and c: "check_graph h = Inr ()"
    and i: "i = content_id R ''dependency-graph'' (JObj (graph_body
          (g\<lparr>g_evidence := sort_key evidence_id evs, g_observations := sort_key observation_id obs\<rparr>)))"
    and h: "h = g\<lparr>g_evidence := sort_key evidence_id evs, g_observations := sort_key observation_id obs,
              g_snapshot_id := i\<rparr>"
    by (auto simp: validate_graph_def res_simps Let_def validate_identity_Inr)
  show "wf_graph h" using c by (rule check_graph_wf)
  show "g_system_scope h = g_system_scope g" by (simp add: h)
  show "check_graph h = Inr ()" by (rule c)
  show "g_snapshot_id h = content_id R ''dependency-graph'' (JObj (graph_body h))"
    by (simp add: h i graph_body_def)
  show "sorted (evidence_ids h)" "sorted (observation_ids h)"
    by (simp_all add: h evidence_ids_def observation_ids_def)
  show "\<forall>x \<in> set (g_evidence h). validate_evidence R x = Inr x"
    by (auto simp: h dest!: mapE_Inr_mem [OF evs] intro: validate_evidence_idem)
  show "\<forall>x \<in> set (g_observations h). validate_observation x = Inr x"
    by (auto simp: h validate_observation_def res_simps dest!: mapE_Inr_mem [OF obs] split: if_splits)
qed

lemma validate_graph_idem:
  assumes v: "validate_graph R g = Inr h"
  shows "validate_graph R h = Inr h"
proof -
  note f = validate_graph_form [OF v]
  have "text_ok (g_system_scope g)"
    using v by (auto simp: validate_graph_def res_simps split: if_splits)
  moreover have "mapE (validate_evidence R) (g_evidence h) = Inr (g_evidence h)"
    using f(7) by (intro mapE_id) simp
  moreover have "mapE validate_observation (g_observations h) = Inr (g_observations h)"
    using f(8) by (intro mapE_id) simp
  moreover have "h\<lparr>g_evidence := sort_key evidence_id (g_evidence h),
        g_observations := sort_key observation_id (g_observations h)\<rparr> = h"
    using f(5,6) by (simp add: sort_key_sorted_id evidence_ids_def observation_ids_def)
  moreover have "validate_identity R ''dependency-graph'' ''snapshot_id'' (JObj (graph_body h))
      (g_snapshot_id h) = Inr (g_snapshot_id h)"
    using f(4) by (simp add: validate_identity_Inr)
  ultimately show ?thesis
    using f(2,3) by (simp add: validate_graph_def Let_def)
qed

lemma wf_graph_distinct_edges: "wf_graph g \<Longrightarrow> distinct (map fst (edges g))"
  by (simp add: wf_graph_def distinct_edges)

lemma upstream_Inr: "upstream g n = Inr ds \<Longrightarrow> ds = deps (edges g) n \<and> n \<in> set (node_ids g)"
  by (force simp: upstream_def deps_def dest: map_of_SomeD simp flip: set_fst_edges split: option.splits)

lemma upstream_node: "n \<in> set (node_ids g) \<Longrightarrow> upstream g n = Inr (deps (edges g) n)"
proof -
  assume "n \<in> set (node_ids g)"
  then have "n \<in> fst ` set (edges g)" by simp
  then obtain ds where "map_of (edges g) n = Some ds"
    by (metis map_of_eq_None_iff not_None_eq)
  then show ?thesis by (simp add: upstream_def deps_def)
qed

subsection \<open>Lineage is the transitive closure of the declared dependencies\<close>

lemma lineage_loop_sound:
  "lineage_loop es pending visited = Inr vs \<Longrightarrow>
   set vs \<subseteq> set visited \<union> (dep_rel es)\<^sup>* `` set pending"
proof (induction es pending visited rule: lineage_loop.induct)
  case (2 es c pending visited)
  show ?case
  proof (cases "c \<in> set visited")
    case True
    with 2 show ?thesis by auto
  next
    case False
    with 2(3) obtain ds where ds: "map_of es c = Some ds"
      and r: "lineage_loop es (rev ds @ pending) (c # visited) = Inr vs"
      by (auto split: option.splits)
    have "(c, d) \<in> dep_rel es" if "d \<in> set ds" for d
      using that ds by (simp add: dep_rel_def deps_def)
    then have "(dep_rel es)\<^sup>* `` set ds \<subseteq> (dep_rel es)\<^sup>* `` {c}"
      by (auto intro: converse_rtrancl_into_rtrancl)
    with 2(2) [OF False ds r] show ?thesis by auto
  qed
qed simp

lemma lineage_loop_closed:
  "lineage_loop es pending visited = Inr vs \<Longrightarrow>
   \<forall>k \<in> set visited. set (deps es k) \<subseteq> set visited \<union> set pending \<Longrightarrow>
   set visited \<union> set pending \<subseteq> set vs \<and> (\<forall>k \<in> set vs. set (deps es k) \<subseteq> set vs)"
proof (induction es pending visited rule: lineage_loop.induct)
  case (2 es c pending visited)
  show ?case
  proof (cases "c \<in> set visited")
    case True
    with 2(3,4) have "\<forall>k \<in> set visited. set (deps es k) \<subseteq> set visited \<union> set pending"
      and "lineage_loop es pending visited = Inr vs" by auto
    from 2(1) [OF True this(2,1)] True show ?thesis by auto
  next
    case False
    with 2(3) obtain ds where ds: "map_of es c = Some ds"
      and r: "lineage_loop es (rev ds @ pending) (c # visited) = Inr vs"
      by (auto split: option.splits)
    have "deps es c = ds" using ds by (simp add: deps_def)
    with 2(4) have "\<forall>k \<in> set (c # visited). set (deps es k) \<subseteq> set (c # visited) \<union> set (rev ds @ pending)"
      by auto
    from 2(2) [OF False ds r this] show ?thesis by auto
  qed
qed simp

lemma lineage_loop_total:
  "closed_ups es \<Longrightarrow> set pending \<subseteq> set (map fst es) \<Longrightarrow> \<exists>vs. lineage_loop es pending visited = Inr vs"
proof (induction es pending visited rule: lineage_loop.induct)
  case (2 es c pending visited)
  then have "map_of es c \<noteq> None" by (simp add: map_of_eq_None_iff)
  then obtain ds where ds: "map_of es c = Some ds" by auto
  have "c \<in> set (map fst es)" using 2(4) by simp
  then have "set (deps es c) \<subseteq> set (map fst es)" using 2(3) unfolding closed_ups_def by blast
  then have "set ds \<subseteq> set (map fst es)" using ds by (simp add: deps_def)
  with 2 ds show ?case by auto
qed simp

lemma lineage_correct:
  assumes wf: "wf_graph g" and n: "n \<in> set (node_ids g)"
  shows "\<exists>ls. lineage g n = Inr ls \<and> sorted ls \<and> distinct ls \<and> set ls = {a. (n, a) \<in> (dep_rel (edges g))\<^sup>+}"
proof -
  let ?ds = "deps (edges g) n" and ?r = "dep_rel (edges g)"
  have "set (rev ?ds) \<subseteq> set (map fst (edges g))"
    using wf n by (auto simp: wf_graph_def closed_ups_def)
  then obtain vs where vs: "lineage_loop (edges g) (rev ?ds) [] = Inr vs"
    using lineage_loop_total wf by (metis wf_graph_def)
  have 1: "set vs \<subseteq> ?r\<^sup>* `` set ?ds"
    using lineage_loop_sound [OF vs] by simp
  have 2: "set ?ds \<subseteq> set vs" "\<forall>k \<in> set vs. set (deps (edges g) k) \<subseteq> set vs"
    using lineage_loop_closed [OF vs] by simp_all
  have "a \<in> set vs" if "(n, a) \<in> ?r\<^sup>+" for a
    using that by (induction rule: trancl_induct) (use 2 in \<open>auto simp: dep_rel_def\<close>)
  moreover have "(n, a) \<in> ?r\<^sup>+" if "a \<in> set vs" for a
    using 1 that by (auto simp: dep_rel_def intro: rtrancl_into_trancl2)
  ultimately have "set vs = {a. (n, a) \<in> ?r\<^sup>+}" by blast
  then show ?thesis using vs by (simp add: lineage_def upstream_node [OF n])
qed

subsection \<open>What an independence verdict means\<close>

definition ancestors :: "graph \<Rightarrow> string \<Rightarrow> string set" where
  "ancestors g n = {a. (n, a) \<in> (dep_rel (edges g))\<^sup>*}"

lemma find_evidence_Some:
  "find_evidence g n = Some x \<Longrightarrow> x \<in> set (g_evidence g) \<and> evidence_id x = n"
  by (auto simp: find_evidence_def dest: next_or_Some)

lemma find_observation_Some:
  "find_observation g n = Some x \<Longrightarrow> x \<in> set (g_observations g) \<and> observation_id x = n"
  by (auto simp: find_observation_def dest: next_or_Some)

lemma find_evidence_node: "find_evidence g n = Some x \<Longrightarrow> n \<in> set (node_ids g)"
  by (auto simp: node_ids_def evidence_ids_def dest: find_evidence_Some)

lemma find_evidence_iff: "(\<exists>x. find_evidence g n = Some x) \<longleftrightarrow> n \<in> set (evidence_ids g)"
proof -
  have "find_evidence g n = None \<longleftrightarrow> n \<notin> set (evidence_ids g)"
    by (auto simp: find_evidence_def next_or_None evidence_ids_def)
  then show ?thesis by auto
qed

lemma find_observation_iff: "(\<exists>x. find_observation g n = Some x) \<longleftrightarrow> n \<in> set (observation_ids g)"
proof -
  have "find_observation g n = None \<longleftrightarrow> n \<notin> set (observation_ids g)"
    by (auto simp: find_observation_def next_or_None observation_ids_def)
  then show ?thesis by auto
qed

lemma find_exclusive:
  "wf_graph g \<Longrightarrow> find_observation g n = Some x \<Longrightarrow> find_evidence g n = None"
  using find_evidence_iff [of g n] find_observation_iff [of g n]
  by (cases "find_evidence g n") (auto simp: wf_graph_def node_ids_def)

lemma ancestors_lineage:
  assumes "wf_graph g" and "lineage g n = Inr ls" and "n \<in> set (node_ids g)"
  shows "set (n # ls) = ancestors g n"
proof -
  from lineage_correct [OF assms(1,3)] assms(2)
  have "set ls = {a. (n, a) \<in> (dep_rel (edges g))\<^sup>+}" by auto
  then show ?thesis by (auto simp: ancestors_def rtrancl_eq_or_trancl)
qed

lemma ancestors_nodes:
  assumes "wf_graph g" and "n \<in> set (node_ids g)"
  shows "ancestors g n \<subseteq> set (node_ids g)"
proof
  fix a assume "a \<in> ancestors g n"
  then have "(n, a) \<in> (dep_rel (edges g))\<^sup>*" by (simp add: ancestors_def)
  then show "a \<in> set (node_ids g)"
    by (induction rule: rtrancl_induct)
      (use assms in \<open>auto simp: dep_rel_def wf_graph_def closed_ups_def\<close>)
qed

lemma add_input_total:
  "n \<in> set (node_ids g) \<Longrightarrow> \<exists>r. add_input g nodes n acc = Inr r"
  using find_evidence_iff [of g n] find_observation_iff [of g n]
  by (auto simp: add_input_def node_ids_def split: option.splits)

lemma fold_inputs_total:
  "set ns \<subseteq> set (node_ids g) \<Longrightarrow> \<exists>r. fold_inputs g nodes ns acc = Inr r"
proof (induction ns arbitrary: acc)
  case (Cons n ns)
  then obtain a where "add_input g nodes n acc = Inr a" using add_input_total by (metis list.set_intros(1) subsetD)
  with Cons show ?case by simp
qed simp

lemma fold_inputs_complete:
  "fold_inputs g nodes ns acc = Inr r \<Longrightarrow> in_complete r \<Longrightarrow>
   in_complete acc \<and> (\<forall>n \<in> set ns. \<forall>x. find_evidence g n = Some x \<longrightarrow> lineage_complete x \<and> derived_from x \<noteq> [])"
proof (induction ns arbitrary: acc)
  case (Cons n ns)
  then obtain a where a: "add_input g nodes n acc = Inr a" and r: "fold_inputs g nodes ns a = Inr r"
    by (auto simp: res_simps)
  from Cons.IH [OF r Cons.prems(2)] a show ?case
    by (auto simp: add_input_def split: option.splits)
qed simp

lemma fold_inputs_mono:
  "fold_inputs g nodes ns acc = Inr r \<Longrightarrow>
   set (in_sources acc) \<subseteq> set (in_sources r) \<and> set (in_signals acc) \<subseteq> set (in_signals r)"
proof (induction ns arbitrary: acc)
  case (Cons n ns)
  then obtain a where a: "add_input g nodes n acc = Inr a" and r: "fold_inputs g nodes ns a = Inr r"
    by (auto simp: res_simps)
  from Cons.IH [OF r] a show ?case
    by (auto simp: add_input_def split: option.splits)
qed simp

lemma fold_inputs_observation:
  assumes "fold_inputs g nodes ns acc = Inr r" and "n \<in> set ns" and "find_evidence g n = None"
    and "find_observation g n = Some x"
  shows "source_id x \<in> set (in_sources r) \<and> set (ob_source_signals x) \<subseteq> set (in_signals r)"
  using assms(1,2)
proof (induction ns arbitrary: acc)
  case (Cons m ns)
  then obtain a where a: "add_input g nodes m acc = Inr a" and r: "fold_inputs g nodes ns a = Inr r"
    by (auto simp: res_simps)
  show ?case
  proof (cases "n \<in> set ns")
    case True
    with Cons.IH [OF r] show ?thesis by simp
  next
    case False
    with Cons.prems have "m = n" by simp
    with a assms(3,4) have "source_id x \<in> set (in_sources a)" "set (ob_source_signals x) \<subseteq> set (in_signals a)"
      by (auto simp: add_input_def)
    with fold_inputs_mono [OF r] show ?thesis by auto
  qed
qed simp

lemma shared_of_Nil: "shared_of f a b = [] \<longleftrightarrow> set (f a) \<inter> set (f b) = {}"
proof -
  have "shared_of f a b = [] \<longleftrightarrow> inter_list (f a) (f b) = []" by (simp add: shared_of_def)
  then show ?thesis by (metis set_empty set_inter_list)
qed

lemma shared_of_commute: "shared_of f a b = shared_of f b a"
  by (simp add: shared_of_def sorted_set_eq_iff Int_commute)

lemma independence_reasons_commute:
  "independence_reasons l r shared a b = independence_reasons r l shared b a"
  unfolding independence_reasons_def shared_of_commute [of _ b a]
  by (auto simp: disj_commute eq_commute)

lemma independence_verdict_commute:
  "independence_verdict l r shared a b = independence_verdict r l shared b a"
  by (auto simp: independence_verdict_def Let_def independence_reasons_commute [of r l shared b a]
      shared_of_commute [of _ b a])

lemma shared_upstream_Inr:
  "shared_upstream g l r = Inr sh \<Longrightarrow>
   \<exists>ls rs. lineage g l = Inr ls \<and> lineage g r = Inr rs \<and> set sh = set (l # ls) \<inter> set (r # rs)"
  by (auto simp: shared_upstream_def res_simps)

lemma shared_upstream_commute:
  "shared_upstream g l r = Inr sh \<Longrightarrow> shared_upstream g r l = Inr sh"
  by (auto simp: shared_upstream_def res_simps sorted_set_eq_iff)

lemma independence_in_commute:
  "independence_in g l r = Inr v \<Longrightarrow> independence_in g r l = Inr v"
  by (auto simp: independence_in_def res_simps dest: shared_upstream_commute
      split: option.splits) (metis independence_verdict_commute shared_upstream_commute)

lemma independence_in_sound:
  assumes wf: "wf_graph g" and v: "independence_in g l r = Inr v" and i: "ir_independent v"
  shows "\<exists>x y. find_evidence g l = Some x \<and> find_evidence g r = Some y
      \<and> evidence_family x \<noteq> evidence_family y"
    and "ancestors g l \<inter> ancestors g r = {}"
    and "\<forall>n \<in> ancestors g l \<union> ancestors g r. \<forall>x. find_evidence g n = Some x \<longrightarrow>
           lineage_complete x \<and> derived_from x \<noteq> []"
    and "\<forall>m \<in> ancestors g l. \<forall>n \<in> ancestors g r. \<forall>x y.
           find_observation g m = Some x \<and> find_observation g n = Some y \<longrightarrow>
           source_id x \<noteq> source_id y \<and> set (ob_source_signals x) \<inter> set (ob_source_signals y) = {}"
proof -
  from v obtain x y sh a b where
    x: "find_evidence g l = Some x" and y: "find_evidence g r = Some y"
    and sh: "shared_upstream g l r = Inr sh" and a: "inputs_of g l = Inr a" and b: "inputs_of g r = Inr b"
    and vd: "v = independence_verdict x y sh a b"
    by (auto simp: independence_in_def res_simps split: option.splits)
  from i vd have rs: "independence_reasons x y sh a b = []"
    by (simp add: independence_verdict_def Let_def)
  then have fam: "evidence_family x \<noteq> evidence_family y" and sh0: "sh = []"
    and src: "set (in_sources a) \<inter> set (in_sources b) = {}"
    and sig: "set (in_signals a) \<inter> set (in_signals b) = {}"
    and comp: "in_complete a" "in_complete b"
    by (auto simp: independence_reasons_def shared_of_Nil split: if_splits)
  show "\<exists>x y. find_evidence g l = Some x \<and> find_evidence g r = Some y
      \<and> evidence_family x \<noteq> evidence_family y" using x y fam by blast
  from a obtain ls where ls: "lineage g l = Inr ls"
    and fa: "fold_inputs g (l # ls) (remdups (l # ls)) no_inputs = Inr a"
    by (auto simp: inputs_of_def res_simps Let_def)
  from b obtain rr where rr: "lineage g r = Inr rr"
    and fb: "fold_inputs g (r # rr) (remdups (r # rr)) no_inputs = Inr b"
    by (auto simp: inputs_of_def res_simps Let_def)
  have al: "ancestors g l = set (remdups (l # ls))"
    using ancestors_lineage [OF wf ls find_evidence_node [OF x]] by (simp only: set_remdups)
  have ar: "ancestors g r = set (remdups (r # rr))"
    using ancestors_lineage [OF wf rr find_evidence_node [OF y]] by (simp only: set_remdups)
  show "ancestors g l \<inter> ancestors g r = {}"
    using shared_upstream_Inr [OF sh] sh0 ls rr al ar by auto
  show "\<forall>n \<in> ancestors g l \<union> ancestors g r. \<forall>x. find_evidence g n = Some x \<longrightarrow>
           lineage_complete x \<and> derived_from x \<noteq> []"
    using fold_inputs_complete [OF fa comp(1)] fold_inputs_complete [OF fb comp(2)] unfolding al ar by blast
  show "\<forall>m \<in> ancestors g l. \<forall>n \<in> ancestors g r. \<forall>x y.
           find_observation g m = Some x \<and> find_observation g n = Some y \<longrightarrow>
           source_id x \<noteq> source_id y \<and> set (ob_source_signals x) \<inter> set (ob_source_signals y) = {}"
  proof (intro ballI allI impI)
    fix m n x y
    assume m: "m \<in> ancestors g l" and n: "n \<in> ancestors g r"
      and f: "find_observation g m = Some x \<and> find_observation g n = Some y"
    have "find_evidence g m = None" "find_evidence g n = None"
      using f find_exclusive [OF wf] by blast+
    then have "source_id x \<in> set (in_sources a) \<and> set (ob_source_signals x) \<subseteq> set (in_signals a)"
      and "source_id y \<in> set (in_sources b) \<and> set (ob_source_signals y) \<subseteq> set (in_signals b)"
      using fold_inputs_observation [OF fa] fold_inputs_observation [OF fb] m n f al ar by simp_all
    with src sig show "source_id x \<noteq> source_id y \<and> set (ob_source_signals x) \<inter> set (ob_source_signals y) = {}"
      by (auto simp: disjoint_iff)
  qed
qed

lemma independence_in_total:
  assumes wf: "wf_graph g" and "find_evidence g l = Some x" and "find_evidence g r = Some y"
  shows "\<exists>v. independence_in g l r = Inr v"
proof -
  have inp: "\<exists>ls a. lineage g n = Inr ls \<and> inputs_of g n = Inr a" if n: "n \<in> set (node_ids g)" for n
  proof -
    from lineage_correct [OF wf n] obtain ls where ls: "lineage g n = Inr ls" by blast
    have "set (remdups (n # ls)) \<subseteq> set (node_ids g)"
      using ancestors_lineage [OF wf ls n] ancestors_nodes [OF wf n] by (simp only: set_remdups)
    from fold_inputs_total [OF this] ls show ?thesis by (auto simp: inputs_of_def Let_def)
  qed
  from inp [OF find_evidence_node [OF assms(2)]] inp [OF find_evidence_node [OF assms(3)]] assms
  show ?thesis by (auto simp: independence_in_def shared_upstream_def)
qed

subsection \<open>Properties\<close>

definition demo_graph :: graph where
  "demo_graph = \<lparr>g_snapshot_id = [], g_system_scope = ''plant'',
     g_evidence = [demo_evidence ''b'' TEMPORAL [\<lparr>ref_kind = DepObservation, dependency_id = ''o2''\<rparr>],
       demo_evidence ''a'' RELATIONAL [\<lparr>ref_kind = DepObservation, dependency_id = ''o1''\<rparr>]],
     g_observations = [demo_observation ''o1'', demo_observation ''o2'']\<rparr>"

definition demo_checked :: graph where
  "demo_checked = demo_graph\<lparr>g_snapshot_id := ''dependency-graph:0'',
     g_evidence := [
       (demo_evidence ''a'' RELATIONAL [\<lparr>ref_kind = DepObservation, dependency_id = ''o1''\<rparr>])
         \<lparr>evidence_id := ''evidence:a''\<rparr>,
       (demo_evidence ''b'' TEMPORAL [\<lparr>ref_kind = DepObservation, dependency_id = ''o2''\<rparr>])
         \<lparr>evidence_id := ''evidence:b''\<rparr>]\<rparr>"

lemma demo_checked: "validate_graph demo_runtime demo_graph = Inr demo_checked"
  by code_simp

text \<open>
  \<open>topological_order\<close> returns an order exactly when every dependency is a node and the
  dependencies have no cycle. The order then lists every node once and each node after all the
  nodes it depends on. (The keys are distinct, as those of a dict are.)
\<close>

theorem topological_order_exact:
  assumes "distinct (map fst ups)"
  shows "((\<exists>order. topological_order ups = Inr order) \<longleftrightarrow> closed_ups ups \<and> acyclic (dep_rel ups))
    \<and> (\<forall>order. topological_order ups = Inr order \<longrightarrow>
         distinct order \<and> set order = set (map fst ups) \<and> upstream_first ups [] order)"
  using topological_order_Inr [OF assms] topological_order_complete [OF assms] by blast

theorem topological_order_exact_witness:
  "topological_order [(''b'', [''a'']), (''a'', [])] = Inr [''a'', ''b'']
   \<and> acyclic (dep_rel [(''b'', [''a'']), (''a'', [])])"
proof -
  have d: "distinct (map fst [(''b'', [''a'']), (''a'', [])])" by simp
  have "topological_order [(''b'', [''a'']), (''a'', [])] = Inr [''a'', ''b'']" by code_simp
  with topological_order_exact [OF d] show ?thesis by blast
qed

text \<open>
  a graph that validates has a well-founded dependency structure, and validating it again
  returns it unchanged, as every evaluator does with the graph it is given.
\<close>

theorem validated_graph_fixpoint:
  assumes "validate_graph R g = Inr h"
  shows "wf_graph h \<and> validate_graph R h = Inr h"
  using validate_graph_form(1) [OF assms] validate_graph_idem [OF assms] by blast

theorem validated_graph_fixpoint_witness:
  "wf_graph demo_checked \<and> validate_graph demo_runtime demo_checked = Inr demo_checked"
  by (rule validated_graph_fixpoint [OF demo_checked])

text \<open>
  C22. on a validated graph the worklist of \<open>lineage\<close> ends and returns, in sorted order and without
  repetition, exactly the nodes reachable from the given one over declared dependencies; the node
  itself is never among them.
\<close>

theorem lineage_is_transitive_closure:
  assumes "validate_graph R g = Inr h" and "n \<in> set (node_ids h)"
  shows "\<exists>ls. lineage h n = Inr ls \<and> sorted ls \<and> distinct ls \<and> n \<notin> set ls
    \<and> set ls = {a. (n, a) \<in> (dep_rel (edges h))\<^sup>+}"
proof -
  have wf: "wf_graph h" by (rule validate_graph_form(1) [OF assms(1)])
  then have "(n, n) \<notin> (dep_rel (edges h))\<^sup>+" by (simp add: wf_graph_def acyclic_def)
  with lineage_correct [OF wf assms(2)] show ?thesis by auto
qed

theorem lineage_is_transitive_closure_witness:
  "\<exists>ls. lineage demo_checked ''evidence:a'' = Inr ls \<and> ''evidence:a'' \<notin> set ls"
proof -
  have "''evidence:a'' \<in> set (node_ids demo_checked)" by code_simp
  from lineage_is_transitive_closure [OF demo_checked this] show ?thesis by blast
qed

text \<open>
  C15. two evidence objects that \<open>evaluate_independence\<close> calls independent are of different families,
  share no node of their closed lineages, rest only on evidence whose lineage is declared complete
  and non-empty, and trace back to observations of different sources with no common signal.
\<close>

theorem independence_sound:
  assumes "validate_graph R g = Inr h" and "evaluate_independence R g l r = Inr v" and "ir_independent v"
  shows "(\<exists>x y. find_evidence h l = Some x \<and> find_evidence h r = Some y
            \<and> evidence_family x \<noteq> evidence_family y)
    \<and> ancestors h l \<inter> ancestors h r = {}
    \<and> (\<forall>n \<in> ancestors h l \<union> ancestors h r. \<forall>x. find_evidence h n = Some x \<longrightarrow>
           lineage_complete x \<and> derived_from x \<noteq> [])
    \<and> (\<forall>m \<in> ancestors h l. \<forall>n \<in> ancestors h r. \<forall>x y.
           find_observation h m = Some x \<and> find_observation h n = Some y \<longrightarrow>
           source_id x \<noteq> source_id y \<and> set (ob_source_signals x) \<inter> set (ob_source_signals y) = {})"
proof -
  have wf: "wf_graph h" by (rule validate_graph_form(1) [OF assms(1)])
  have v: "independence_in h l r = Inr v" using assms(1,2) by (simp add: evaluate_independence_def)
  show ?thesis using independence_in_sound [OF wf v assms(3)] by blast
qed

theorem independence_sound_witness:
  "ancestors demo_checked ''evidence:a'' \<inter> ancestors demo_checked ''evidence:b'' = {}"
proof -
  let ?v = "projr (evaluate_independence demo_runtime demo_graph ''evidence:a'' ''evidence:b'')"
  have "evaluate_independence demo_runtime demo_graph ''evidence:a'' ''evidence:b'' = Inr ?v"
    and "ir_independent ?v" by code_simp+
  from independence_sound [OF demo_checked this] show ?thesis by blast
qed

text \<open>
  the independence verdict does not depend on the order of the pair (verdict, reasons and every
  shared set are the same), and no evidence object is independent of itself.
\<close>

theorem independence_symmetric_irreflexive:
  assumes "evaluate_independence R g l r = Inr v"
  shows "evaluate_independence R g r l = Inr v \<and> (l = r \<longrightarrow> \<not> ir_independent v)"
proof -
  from assms obtain h where h: "validate_graph R g = Inr h" and v: "independence_in h l r = Inr v"
    by (auto simp: evaluate_independence_def res_simps)
  have wf: "wf_graph h" by (rule validate_graph_form(1) [OF h])
  have "\<not> ir_independent v" if "l = r"
  proof
    assume "ir_independent v"
    from independence_in_sound(1) [OF wf v this] that show False by auto
  qed
  then show ?thesis
    using h independence_in_commute [OF v] by (simp add: evaluate_independence_def)
qed

theorem independence_symmetric_irreflexive_witness:
  "\<exists>v. evaluate_independence demo_runtime demo_graph ''evidence:b'' ''evidence:a'' = Inr v"
proof -
  have "evaluate_independence demo_runtime demo_graph ''evidence:a'' ''evidence:b'' =
      Inr (projr (evaluate_independence demo_runtime demo_graph ''evidence:a'' ''evidence:b''))"
    by code_simp
  from independence_symmetric_irreflexive [OF this] show ?thesis by blast
qed

end
