(* ===== verification/Floats.thy ===== *)
theory Floats
  imports Prelude "HOL-Library.Log_Nat"
begin

text \<open>
  Double arithmetic. A finite double is the rational it denotes and \<open>fl\<close> is rounding to nearest even at
  53 bits; overflow and subnormals are not modelled, the quantities of the program being far from both.
  \<open>trunc\<close> is Python's \<open>int\<close> of a float.
\<close>

definition scale2 :: "int \<Rightarrow> rat \<Rightarrow> rat" where
  "scale2 k x = (if 0 \<le> k then x * 2 ^ nat k else x / 2 ^ nat (- k))"

definition round_half_even :: "rat \<Rightarrow> int" where
  "round_half_even y =
     (let q = \<lfloor>y\<rfloor>; r = y - of_int q in
      if r < 1 / 2 then q else if r > 1 / 2 then q + 1 else if even q then q else q + 1)"

definition fl :: "rat \<Rightarrow> rat" where
  "fl x =
     (if x = 0 then 0
      else let nd = quotient_of \<bar>x\<bar>;
               k0 = 53 - (bitlen (fst nd) - bitlen (snd nd));
               k = (if scale2 k0 \<bar>x\<bar> \<ge> 2 ^ 53 then k0 - 1 else k0);
               m = scale2 (- k) (of_int (round_half_even (scale2 k \<bar>x\<bar>)))
           in if x < 0 then - m else m)"

definition trunc :: "rat \<Rightarrow> int" where
  "trunc x = (if 0 \<le> x then \<lfloor>x\<rfloor> else - \<lfloor>- x\<rfloor>)"

subsection \<open>Bounds\<close>

lemma round_le_int: "y \<le> of_int n \<Longrightarrow> round_half_even y \<le> n"
proof -
  assume y: "y \<le> of_int n"
  then have "\<lfloor>y\<rfloor> \<le> n" by linarith
  moreover have "y = of_int n" if "\<lfloor>y\<rfloor> = n" using y that by linarith
  ultimately show ?thesis by (cases "\<lfloor>y\<rfloor> = n") (auto simp: round_half_even_def Let_def)
qed

lemma round_nonneg: "0 \<le> y \<Longrightarrow> 0 \<le> round_half_even y"
  by (simp add: round_half_even_def Let_def)

lemma scale2_nonneg: "0 \<le> x \<Longrightarrow> 0 \<le> scale2 k x"
  by (simp add: scale2_def)

lemma scale2_mono: "x \<le> y \<Longrightarrow> scale2 k x \<le> scale2 k y"
  by (simp add: scale2_def divide_right_mono)

lemma scale2_inverse: "scale2 (- k) (scale2 k x) = x"
  by (auto simp: scale2_def)


lemma scale2_int: "0 \<le> k \<Longrightarrow> scale2 k (of_int n) = of_int (n * 2 ^ nat k)"
  by (simp add: scale2_def)

text \<open>The exponent \<open>fl\<close> chooses is negative only for a large number.\<close>

lemma exponent_large:
  assumes x: "0 < x" and q: "quotient_of x = (a, b)" and k: "53 - (bitlen a - bitlen b) < 0"
  shows "2 ^ 53 \<le> x"
proof -
  have b: "0 < b" by (rule quotient_of_denom_pos [OF q])
  have xq: "x = of_int a / of_int b" by (rule quotient_of_div [OF q])
  with x b have a: "0 < a" by (simp add: zero_less_divide_iff)
  have A: "2 ^ nat (bitlen a - 1) \<le> a" and B: "b < 2 ^ nat (bitlen b)"
    using bitlen_bounds [OF a] bitlen_bounds [OF b] by simp_all
  have nb: "0 \<le> bitlen b" by (simp add: bitlen_nonneg)
  have e: "nat (bitlen a - 1) = 53 + (nat (bitlen b) + nat (bitlen a - bitlen b - 54))"
    using k nb by simp
  have "2 ^ 53 * b \<le> 2 ^ 53 * 2 ^ nat (bitlen b)" using B by simp
  also have "\<dots> \<le> (2 :: int) ^ nat (bitlen a - 1)" unfolding e power_add by simp
  also have "\<dots> \<le> a" by (rule A)
  finally have "2 ^ 53 * (of_int b :: rat) \<le> of_int a" by (metis of_int_le_iff of_int_mult of_int_numeral of_int_power)
  with b show ?thesis by (simp add: xq pos_le_divide_eq)
qed

lemma fl_le_int:
  assumes x: "0 \<le> x" "x \<le> of_int n" and n: "n < 2 ^ 53"
  shows "fl x \<le> of_int n"
proof (cases "x = 0")
  case True
  with x show ?thesis by (simp add: fl_def)
next
  case False
  with x have pos: "0 < x" by simp
  obtain a b where q: "quotient_of x = (a, b)" by (cases "quotient_of x")
  define k0 where "k0 = 53 - (bitlen a - bitlen b)"
  define k where "k = (if scale2 k0 x \<ge> 2 ^ 53 then k0 - 1 else k0)"
  have fl: "fl x = scale2 (- k) (of_int (round_half_even (scale2 k x)))"
    using pos q by (simp add: fl_def Let_def k_def k0_def)
  have "x < 2 ^ 53" using x(2) n by (metis of_int_less_iff of_int_numeral of_int_power order_le_less_trans)
  with exponent_large [OF pos q] have k0: "0 \<le> k0" by (force simp: k0_def)
  have "0 \<le> k"
  proof (cases "k0 = 0")
    case True
    with \<open>x < 2 ^ 53\<close> show ?thesis by (simp add: k_def scale2_def)
  qed (use k0 in \<open>simp add: k_def\<close>)
  then have "scale2 k x \<le> of_int (n * 2 ^ nat k)" using scale2_mono [OF x(2), of k] by (simp add: scale2_int)
  then have "round_half_even (scale2 k x) \<le> n * 2 ^ nat k" by (rule round_le_int)
  then have "scale2 (- k) (of_int (round_half_even (scale2 k x))) \<le> scale2 (- k) (of_int (n * 2 ^ nat k))"
    by (intro scale2_mono of_int_le_iff [THEN iffD2])
  also have "\<dots> = of_int n" using scale2_inverse [of k "of_int n"] \<open>0 \<le> k\<close> by (simp add: scale2_int)
  finally show ?thesis by (simp add: fl)
qed

lemma fl_nonneg: "0 \<le> x \<Longrightarrow> 0 \<le> fl x"
  by (auto simp: fl_def Let_def intro!: scale2_nonneg round_nonneg)

lemma trunc_bounds: "0 \<le> x \<Longrightarrow> x \<le> of_int n \<Longrightarrow> 0 \<le> trunc x \<and> trunc x \<le> n"
  by (simp add: trunc_def) linarith

end
