(* ===== verification/Gov_Trend.thy ===== *)
theory Gov_Trend
  imports Gov_Contracts Floats "HOL-Library.Multiset"
begin

text \<open>
  Mann--Kendall trend evidence, \<^verbatim>\<open>backend/app/governance/trend.py\<close>: the producer
  \<open>mann_kendall_evidence\<close>, and \<open>trend_usable\<close>, which re-derives every retained statistic from a
  stored payload before the evidence may count.

  Double arithmetic is that of \<open>Floats\<close>. \<open>sqrt\<close> and \<open>erfc\<close> are parameters of the \<open>runtime\<close>.
\<close>

text \<open>The double nearest to \<open>0.05\<close>.\<close>

definition threshold_05 :: rat where
  "threshold_05 = 3602879701896397 / 72057594037927936"

subsection \<open>Samples, assumptions, results\<close>

record trend_assumptions =
  independent_observations :: bool
  no_unmodeled_seasonality :: bool
  comparable_measurement_regime :: bool
  missingness_ignorable :: bool

definition assumptions_items :: "trend_assumptions \<Rightarrow> (string \<times> bool) list" where
  "assumptions_items a = [(''independent_observations'', independent_observations a),
     (''no_unmodeled_seasonality'', no_unmodeled_seasonality a),
     (''comparable_measurement_regime'', comparable_measurement_regime a),
     (''missingness_ignorable'', missingness_ignorable a)]"

definition assumptions_dict :: "trend_assumptions \<Rightarrow> json" where
  "assumptions_dict a = JObj (map (\<lambda>(k, b). (k, JBool b)) (assumptions_items a))"

definition str_of_bool :: "bool \<Rightarrow> string" where
  "str_of_bool b = (if b then ''True'' else ''False'')"

definition assumption_texts :: "trend_assumptions \<Rightarrow> string list" where
  "assumption_texts a = map (\<lambda>(k, b). k @ ''='' @ str_of_bool b) (assumptions_items a)"

datatype float_value = Finite rat | NonFinite

record trend_sample =
  observed_at :: timestamp
  sample_value :: "float_value option"

definition METHOD :: string where
  "METHOD = ''mann_kendall_tie_corrected_normal_v1''"

definition LIMITATIONS :: "string list" where
  "LIMITATIONS = [''normal_approximation'', ''assumptions_asserted_by_adapter'',
     ''no_causal_health_or_authority_interpretation'', ''not_a_rate_estimate'']"

record mk_result =
  mk_status :: string
  mk_n :: int
  mk_missing_count :: int
  mk_ties :: "int list"
  mk_assumptions :: trend_assumptions
  mk_eligibility_reasons :: "string list"
  mk_limitations :: "string list"
  mk_threshold :: rat
  mk_statistic_s :: "int option"
  mk_variance_s :: "rat option"
  mk_z :: "rat option"
  mk_p_value :: "rat option"
  mk_significant :: "bool option"
  mk_direction :: string

definition normal_z :: "runtime \<Rightarrow> int \<Rightarrow> rat \<Rightarrow> rat" where
  "normal_z R s variance =
     (if s = 0 \<or> variance \<le> 0 then 0
      else fl (of_int (s - (if s > 0 then 1 else - 1)) / math_sqrt R variance))"

definition direction_of :: "int \<Rightarrow> string" where
  "direction_of s = (if s > 0 then ''increasing'' else if s < 0 then ''decreasing'' else ''none'')"

definition eligibility_reasons :: "int \<Rightarrow> int \<Rightarrow> trend_assumptions \<Rightarrow> string list" where
  "eligibility_reasons n missing a =
     map fst (filter (\<lambda>(k, b). \<not> b) (assumptions_items a))
     @ (if n < 10 then [''insufficient_samples_minimum_10''] else [])
     @ (if n + missing > 2048 then [''sample_limit_2048''] else [])
     @ (if missing \<noteq> 0 \<and> \<not> missingness_ignorable a then [''missing_data_ineligible''] else [])"

definition variance_of :: "int \<Rightarrow> int list \<Rightarrow> rat" where
  "variance_of n ties =
     fl (of_int (n * (n - 1) * (2 * n + 5) - sum_list (map (\<lambda>t. t * (t - 1) * (2 * t + 5)) ties)) / 18)"

definition p_value_of :: "runtime \<Rightarrow> rat \<Rightarrow> rat" where
  "p_value_of R z = math_erfc R (fl (\<bar>z\<bar> / math_sqrt R 2))"

definition pairs_of :: "int \<Rightarrow> int list \<Rightarrow> int" where
  "pairs_of n ties = n * (n - 1) div 2 - sum_list (map (\<lambda>t. t * (t - 1) div 2) ties)"

definition statistics_match :: "runtime \<Rightarrow> mk_result \<Rightarrow> int \<Rightarrow> int list \<Rightarrow> bool" where
  "statistics_match R r n ties =
     (case mk_statistic_s r of
        None \<Rightarrow> False
      | Some s \<Rightarrow>
          let pairs = pairs_of n ties in
          if \<bar>s\<bar> > pairs \<or> (pairs - s) mod 2 \<noteq> 0 then False
          else let variance = variance_of n ties;
                   z = normal_z R s variance;
                   p = p_value_of R z
               in mk_variance_s r = Some variance \<and> mk_z r = Some z \<and> mk_p_value r = Some p
                  \<and> mk_significant r = Some (p \<le> threshold_05) \<and> mk_direction r = direction_of s)"

subsection \<open>Parsing a stored payload\<close>

text \<open>
  \<open>MannKendallResult.model_validate\<close>: the field types (strict integers and booleans, floats that also
  accept an integer), no extra field, every field but \<open>governance_conditions\<close> present.
\<close>

definition strict_int :: "int \<Rightarrow> json \<Rightarrow> int option" where
  "strict_int lo v = (case v of JInt i \<Rightarrow> if lo \<le> i then Some i else None | _ \<Rightarrow> None)"

definition strict_float :: "json \<Rightarrow> rat option" where
  "strict_float v = (case v of JFloat r \<Rightarrow> Some r | JInt i \<Rightarrow> Some (fl (of_int i)) | _ \<Rightarrow> None)"

definition strict_bool :: "json \<Rightarrow> bool option" where
  "strict_bool v = (case v of JBool b \<Rightarrow> Some b | _ \<Rightarrow> None)"

definition literal :: "string list \<Rightarrow> json \<Rightarrow> string option" where
  "literal allowed v = (case v of JStr s \<Rightarrow> if s \<in> set allowed then Some s else None | _ \<Rightarrow> None)"

definition nullable :: "(json \<Rightarrow> 'a option) \<Rightarrow> json \<Rightarrow> 'a option option" where
  "nullable f v = (case v of JNull \<Rightarrow> Some None | _ \<Rightarrow> map_option Some (f v))"

definition list_of :: "(json \<Rightarrow> 'a option) \<Rightarrow> json \<Rightarrow> 'a list option" where
  "list_of f v = (case v of JList xs \<Rightarrow> those (map f xs) | _ \<Rightarrow> None)"

definition str_field :: "json \<Rightarrow> string option" where
  "str_field v = (case v of JStr s \<Rightarrow> Some s | _ \<Rightarrow> None)"

definition field :: "jdict \<Rightarrow> string \<Rightarrow> (json \<Rightarrow> 'a option) \<Rightarrow> 'a option" where
  "field d k f = Option.bind (map_of d k) f"

definition parse_assumptions :: "json \<Rightarrow> trend_assumptions option" where
  "parse_assumptions v =
     (case v of
        JObj d \<Rightarrow>
          if set (map fst d) \<subseteq> {''independent_observations'', ''no_unmodeled_seasonality'',
               ''comparable_measurement_regime'', ''missingness_ignorable''}
          then (case (field d ''independent_observations'' strict_bool,
                      field d ''no_unmodeled_seasonality'' strict_bool,
                      field d ''comparable_measurement_regime'' strict_bool,
                      field d ''missingness_ignorable'' strict_bool) of
                  (Some a, Some b, Some c, Some e) \<Rightarrow>
                    Some \<lparr>independent_observations = a, no_unmodeled_seasonality = b,
                          comparable_measurement_regime = c, missingness_ignorable = e\<rparr>
                | _ \<Rightarrow> None)
          else None
      | _ \<Rightarrow> None)"

definition mk_fields :: "string list" where
  "mk_fields = [''method'', ''status'', ''n'', ''missing_count'', ''tie_group_sizes'', ''assumptions'',
     ''eligibility_reasons'', ''limitations'', ''irregular_spacing'', ''significance_threshold'',
     ''statistic_s'', ''variance_s'', ''z'', ''p_value'', ''significant'', ''direction'',
     ''governance_conditions'']"

definition conditions_field_ok :: "jdict \<Rightarrow> bool" where
  "conditions_field_ok d =
     (case map_of d ''governance_conditions'' of
        None \<Rightarrow> True
      | Some (JObj kvs) \<Rightarrow> list_all (\<lambda>(k, v). str_field v \<noteq> None) kvs
      | Some _ \<Rightarrow> False)"

definition parse_mk :: "jdict \<Rightarrow> mk_result option" where
  "parse_mk d =
     (if \<not> subset_list (map fst d) mk_fields \<or> \<not> conditions_field_ok d
         \<or> field d ''method'' (literal [METHOD]) = None
         \<or> field d ''irregular_spacing'' strict_bool = None then None
      else
        Option.bind (field d ''status'' (literal [''limited'', ''available''])) (\<lambda>status.
        Option.bind (field d ''n'' (strict_int 0)) (\<lambda>n.
        Option.bind (field d ''missing_count'' (strict_int 0)) (\<lambda>missing.
        Option.bind (field d ''tie_group_sizes'' (list_of (strict_int 2))) (\<lambda>ties.
        Option.bind (field d ''assumptions'' parse_assumptions) (\<lambda>a.
        Option.bind (field d ''eligibility_reasons'' (list_of str_field)) (\<lambda>reasons.
        Option.bind (field d ''limitations'' (list_of str_field)) (\<lambda>lims.
        Option.bind (field d ''significance_threshold'' strict_float) (\<lambda>thr.
        Option.bind (field d ''statistic_s'' (nullable (\<lambda>v. case v of JInt i \<Rightarrow> Some i | _ \<Rightarrow> None))) (\<lambda>s.
        Option.bind (field d ''variance_s'' (nullable strict_float)) (\<lambda>var.
        Option.bind (field d ''z'' (nullable strict_float)) (\<lambda>z.
        Option.bind (field d ''p_value'' (nullable strict_float)) (\<lambda>p.
        Option.bind (field d ''significant'' (nullable strict_bool)) (\<lambda>sig.
        Option.bind (field d ''direction'' (literal [''increasing'', ''decreasing'', ''none'', ''unavailable''])) (\<lambda>dir.
        Some \<lparr>mk_status = status, mk_n = n, mk_missing_count = missing, mk_ties = ties,
              mk_assumptions = a, mk_eligibility_reasons = reasons, mk_limitations = lims,
              mk_threshold = thr, mk_statistic_s = s, mk_variance_s = var, mk_z = z,
              mk_p_value = p, mk_significant = sig, mk_direction = dir\<rparr>)))))))))))))))"

definition trend_usable :: "runtime \<Rightarrow> evidence \<Rightarrow> bool" where
  "trend_usable R e =
     (if evidence_method e \<noteq> METHOD then False
      else (case (started_at (ev_source_window e), ended_at (ev_source_window e), ev_payload e) of
        (Some st, Some en, Some d) \<Rightarrow>
          if en > ev_created_at e then False
          else (case parse_mk d of
            None \<Rightarrow> False
          | Some r \<Rightarrow>
              if assumption_set e \<noteq> sort (assumption_texts (mk_assumptions r)) then False
              else if mk_limitations r \<noteq> LIMITATIONS \<or> mk_threshold r \<noteq> threshold_05 then False
              else if sort (mk_ties r) \<noteq> mk_ties r \<or> sum_list (mk_ties r) > mk_n r then False
              else let reasons = eligibility_reasons (mk_n r) (mk_missing_count r) (mk_assumptions r) in
                if mk_eligibility_reasons r \<noteq> reasons
                   \<or> mk_status r \<noteq> (if reasons \<noteq> [] then ''limited'' else ''available'') then False
                else if reasons \<noteq> [] then False
                else statistics_match R r (mk_n r) (mk_ties r))
      | _ \<Rightarrow> False))"

subsection \<open>Producing trend evidence\<close>

fun strictly_increasing :: "timestamp list \<Rightarrow> bool" where
  "strictly_increasing (a # b # ts) = (a < b \<and> strictly_increasing (b # ts))"
| "strictly_increasing ts = True"

definition validate_samples ::
  "trend_sample list \<Rightarrow> observation \<Rightarrow> timestamp \<Rightarrow> (timestamp list \<times> source_window) gov" where
  "validate_samples samples ob created =
     (let instants = map observed_at samples; window = ob_source_window ob in
      if \<not> strictly_increasing instants then Inl (ValueError ''trend_times_must_strictly_increase'')
      else if list_ex (\<lambda>t. t > created) instants then Inl (ValueError ''future_trend_sample'')
      else (case (started_at window, ended_at window) of
              (Some st, Some en) \<Rightarrow>
                if en > created then Inl (ValueError ''trend_requires_available_bounded_source_window'')
                else if list_ex (\<lambda>t. \<not> (st \<le> t \<and> t \<le> en)) instants
                then Inl (ValueError ''trend_sample_outside_source_window'')
                else if list_ex (\<lambda>x. sample_value x = Some NonFinite) samples
                then Inl (ValueError ''nonfinite_trend_value_use_null_for_missing'')
                else Inr (instants, window)
            | _ \<Rightarrow> Inl (ValueError ''trend_requires_available_bounded_source_window'')))"

definition present_values :: "trend_sample list \<Rightarrow> rat list" where
  "present_values samples =
     concat (map (\<lambda>x. case sample_value x of Some (Finite v) \<Rightarrow> [v] | _ \<Rightarrow> []) samples)"

text \<open>\<open>[t for t in Counter(values).values() if t > 1]\<close>\<close>

definition tie_counts :: "rat list \<Rightarrow> int list" where
  "tie_counts vs = filter (\<lambda>t. t > 1) (map (\<lambda>v. int (count_list vs v)) (rev (remdups (rev vs))))"

definition sign_step :: "rat \<Rightarrow> rat \<Rightarrow> int" where
  "sign_step a b = (if b > a then 1 else 0) - (if b < a then 1 else 0)"

fun kendall_s :: "rat list \<Rightarrow> int" where
  "kendall_s [] = 0"
| "kendall_s (a # vs) = sum_list (map (sign_step a) vs) + kendall_s vs"

text \<open>
  The correction sums over every group size, \<open>Counter(values).values()\<close>; a group of one adds zero.
\<close>

definition group_counts :: "rat list \<Rightarrow> int list" where
  "group_counts vs = map (\<lambda>v. int (count_list vs v)) (rev (remdups (rev vs)))"

fun gaps :: "timestamp list \<Rightarrow> int list" where
  "gaps (a # b # ts) = (b - a) # gaps (b # ts)"
| "gaps ts = []"

definition trend_payload ::
  "runtime \<Rightarrow> trend_sample list \<Rightarrow> trend_assumptions \<Rightarrow> timestamp list \<Rightarrow> jdict" where
  "trend_payload R samples a instants =
     (let values = present_values samples;
          n = int (length values);
          missing = int (length samples) - n;
          reasons = eligibility_reasons n missing a;
          s = kendall_s values;
          variance = variance_of n (group_counts values);
          z = normal_z R s variance;
          p = p_value_of R z
      in [(''status'', JStr (if reasons \<noteq> [] then ''limited'' else ''available'')),
          (''eligibility_reasons'', jstrs reasons),
          (''tie_group_sizes'', JList (map JInt (sort (tie_counts values)))),
          (''n'', JInt n), (''missing_count'', JInt missing), (''method'', JStr METHOD),
          (''assumptions'', assumptions_dict a), (''significance_threshold'', JFloat threshold_05),
          (''limitations'', jstrs LIMITATIONS),
          (''irregular_spacing'', JBool (length (remdups (gaps instants)) > 1))]
         @ (if reasons \<noteq> []
            then [(''statistic_s'', JNull), (''variance_s'', JNull), (''z'', JNull), (''p_value'', JNull),
                  (''significant'', JNull), (''direction'', JStr ''unavailable'')]
            else [(''statistic_s'', JInt s), (''variance_s'', JFloat variance), (''z'', JFloat z),
                  (''p_value'', JFloat p), (''significant'', JBool (p \<le> threshold_05)),
                  (''direction'', JStr (direction_of s))]))"

definition mann_kendall_evidence ::
  "runtime \<Rightarrow> trend_sample list \<Rightarrow> observation \<Rightarrow> trend_assumptions \<Rightarrow> timestamp \<Rightarrow> string
   \<Rightarrow> evidence gov" where
  "mann_kendall_evidence R samples ob a created run_id =
     bindE (validate_observation ob) (\<lambda>ob.
     bindE (validate_samples samples ob created) (\<lambda>(instants, window).
     validate_evidence R \<lparr>evidence_id = [], evidence_family = TREND, evidence_method = METHOD,
       source_module = ''app.governance.trend'', ev_source_run_id = run_id,
       ev_system_scope = ob_system_scope ob, ev_source_signals = ob_source_signals ob,
       ev_source_window = window,
       derived_from = [\<lparr>ref_kind = DepObservation, dependency_id = observation_id ob\<rparr>],
       assumption_set = assumption_texts a, context_refs = [], ev_provenance = ob_provenance ob,
       ev_created_at = created, ev_effective_at = None, ev_version = 1, ev_supersedes = None,
       ev_payload = Some (trend_payload R samples a instants), result_ref = None,
       lineage_complete = True, covariance_source_id = None\<rparr>))"

subsection \<open>The statistic is within the pair count and has its parity\<close>

definition choose2 :: "int \<Rightarrow> int" where
  "choose2 t = t * (t - 1) div 2"

fun equal_pairs :: "rat list \<Rightarrow> int" where
  "equal_pairs [] = 0"
| "equal_pairs (a # vs) = int (count_list vs a) + equal_pairs vs"

lemma choose2_Suc: "choose2 (t + 1) = choose2 t + t"
proof -
  have "(t + 1) * t = t * (t - 1) + 2 * t" by algebra
  then show ?thesis by (simp add: choose2_def mult.commute)
qed

lemma sign_row_bound:
  "\<bar>sum_list (map (sign_step a) vs)\<bar> \<le> int (length vs) - int (count_list vs a)"
proof (induction vs)
  case (Cons b vs)
  have "\<bar>sign_step a b\<bar> + (if a = b then 1 else 0) \<le> 1" by (simp add: sign_step_def)
  with Cons show ?case by (simp split: if_splits)
qed simp

lemma sign_row_parity:
  "even (int (length vs) - int (count_list vs a) - sum_list (map (sign_step a) vs))"
proof (induction vs)
  case (Cons b vs)
  have "even (1 - (if a = b then 1 else 0) - sign_step a b)" by (simp add: sign_step_def)
  with Cons have "even (int (length vs) - int (count_list vs a) - sum_list (map (sign_step a) vs)
      + (1 - (if a = b then 1 else 0) - sign_step a b))" by (rule dvd_add)
  then show ?case by (auto simp: algebra_simps split: if_splits)
qed simp

lemma choose2_length: "choose2 (int (length (a # vs))) = choose2 (int (length vs)) + int (length vs)"
  using choose2_Suc [of "int (length vs)"] by (simp add: add.commute)

lemma kendall_bound: "\<bar>kendall_s vs\<bar> \<le> choose2 (int (length vs)) - equal_pairs vs"
proof (induction vs)
  case (Cons a vs)
  with sign_row_bound [of a vs] choose2_length [of a vs] show ?case by simp
qed (simp add: choose2_def)

lemma kendall_parity: "even (choose2 (int (length vs)) - equal_pairs vs - kendall_s vs)"
proof (induction vs)
  case (Cons a vs)
  have "even (choose2 (int (length vs)) - equal_pairs vs - kendall_s vs
      + (int (length vs) - int (count_list vs a) - sum_list (map (sign_step a) vs)))"
    by (rule dvd_add [OF Cons sign_row_parity])
  then show ?case using choose2_length [of a vs] by (simp add: algebra_simps)
qed (simp add: choose2_def)

lemma sum_group_counts:
  "sum_list (map f (group_counts vs)) = (\<Sum>v \<in> set vs. f (int (count_list vs v)))"
proof -
  have "distinct (rev (remdups (rev vs)))" by simp
  then have "sum_list (map (\<lambda>v. f (int (count_list vs v))) (rev (remdups (rev vs))))
      = (\<Sum>v \<in> set (rev (remdups (rev vs))). f (int (count_list vs v)))"
    by (rule sum_list_distinct_conv_sum_set)
  then show ?thesis by (simp add: group_counts_def comp_def)
qed

lemma group_counts_positive: "t \<in> set (group_counts vs) \<Longrightarrow> 1 \<le> t"
proof -
  assume "t \<in> set (group_counts vs)"
  then obtain v where "v \<in> set vs" "t = int (count_list vs v)" by (auto simp: group_counts_def)
  moreover then have "count_list vs v \<noteq> 0" by (simp add: count_list_0_iff)
  ultimately show ?thesis by simp
qed

lemma tie_counts_filter: "tie_counts vs = filter (\<lambda>t. t > 1) (group_counts vs)"
  by (simp add: tie_counts_def group_counts_def)

lemma sum_filter_ties:
  assumes "f 1 = 0" and "\<forall>t \<in> set ts. (1::int) \<le> t"
  shows "sum_list (map f (filter (\<lambda>t. t > 1) ts)) = (sum_list (map f ts) :: int)"
  using assms(2)
proof (induction ts)
  case (Cons t ts)
  show ?case
  proof (cases "t > 1")
    case False
    with Cons.prems have "t = 1" by simp
    with Cons assms(1) show ?thesis by simp
  qed (use Cons in simp)
qed simp

lemma sum_filter_le:
  "\<forall>t \<in> set ts. (1::int) \<le> t \<Longrightarrow> sum_list (filter (\<lambda>t. t > 1) ts) \<le> sum_list ts"
  by (induction ts) auto

lemma sum_tie_counts:
  "f 1 = 0 \<Longrightarrow> sum_list (map f (tie_counts vs)) = sum_list (map f (group_counts vs) :: int list)"
  unfolding tie_counts_filter by (rule sum_filter_ties) (auto dest: group_counts_positive)

lemma sum_list_sort: "sum_list (map f (sort ts)) = (sum_list (map f ts) :: int)"
  by (metis mset_map mset_sort sum_mset_sum_list)

lemma equal_pairs_groups: "equal_pairs vs = (\<Sum>v \<in> set vs. choose2 (int (count_list vs v)))"
proof (induction vs)
  case (Cons a vs)
  let ?f = "\<lambda>v. choose2 (int (count_list vs v))"
  have rest: "(\<Sum>v \<in> set vs - {a}. choose2 (int (count_list (a # vs) v))) = (\<Sum>v \<in> set vs - {a}. ?f v)"
    by (rule sum.cong) auto
  have "(\<Sum>v \<in> set (a # vs). choose2 (int (count_list (a # vs) v)))
      = choose2 (int (count_list vs a) + 1) + (\<Sum>v \<in> set vs - {a}. ?f v)"
    using rest by (simp add: sum.insert_remove add.commute)
  also have "\<dots> = int (count_list vs a) + (?f a + (\<Sum>v \<in> set vs - {a}. ?f v))"
    by (simp add: choose2_Suc)
  also have "?f a + (\<Sum>v \<in> set vs - {a}. ?f v) = (\<Sum>v \<in> set vs. ?f v)"
    by (cases "a \<in> set vs") (simp_all add: sum.remove [of "set vs" a] count_list_0_iff choose2_def)
  finally show ?case using Cons by simp
qed simp

lemma pairs_of_ties: "pairs_of (int (length vs)) (sort (tie_counts vs)) = choose2 (int (length vs)) - equal_pairs vs"
proof -
  have "sum_list (map choose2 (sort (tie_counts vs))) = equal_pairs vs"
    using sum_tie_counts [of choose2 vs]
    by (simp add: sum_list_sort sum_group_counts equal_pairs_groups) (simp add: choose2_def)
  then show ?thesis by (simp add: pairs_of_def choose2_def [abs_def])
qed

lemma variance_of_ties: "variance_of n (sort (tie_counts vs)) = variance_of n (group_counts vs)"
  by (simp add: variance_of_def sum_list_sort sum_tie_counts)

lemma sum_ties_le: "sum_list (tie_counts vs) \<le> int (length vs)"
proof -
  have "sum_list (tie_counts vs) \<le> sum_list (group_counts vs)"
    unfolding tie_counts_filter by (rule sum_filter_le) (auto dest: group_counts_positive)
  also have "\<dots> = (\<Sum>v \<in> set vs. int (count_list vs v))"
    using sum_group_counts [of "\<lambda>t. t" vs] by simp
  also have "\<dots> = int (length vs)"
    using sum_count_set [of vs "set vs"] by simp (metis of_nat_sum)
  finally show ?thesis .
qed

subsection \<open>A payload parses back to the statistics it was built from\<close>


definition mk_of :: "runtime \<Rightarrow> rat list \<Rightarrow> int \<Rightarrow> trend_assumptions \<Rightarrow> mk_result" where
  "mk_of R values missing a =
     (let n = int (length values); reasons = eligibility_reasons n missing a; s = kendall_s values;
          variance = variance_of n (group_counts values); z = normal_z R s variance;
          p = p_value_of R z; ok = (reasons = [])
      in \<lparr>mk_status = (if ok then ''available'' else ''limited''), mk_n = n, mk_missing_count = missing,
          mk_ties = sort (tie_counts values), mk_assumptions = a, mk_eligibility_reasons = reasons,
          mk_limitations = LIMITATIONS, mk_threshold = threshold_05,
          mk_statistic_s = (if ok then Some s else None), mk_variance_s = (if ok then Some variance else None),
          mk_z = (if ok then Some z else None), mk_p_value = (if ok then Some p else None),
          mk_significant = (if ok then Some (p \<le> threshold_05) else None),
          mk_direction = (if ok then direction_of s else ''unavailable'')\<rparr>)"

lemma those_map_Some: "those (map (\<lambda>x. Some (f x)) xs) = Some (map f xs)"
  by (induction xs) simp_all

lemma list_of_jstrs: "list_of str_field (jstrs xs) = Some xs"
  using those_map_Some [of "\<lambda>x. x" xs] by (simp add: list_of_def jstrs_def str_field_def comp_def)

lemma those_strict: "\<forall>t \<in> set ts. lo \<le> t \<Longrightarrow> those (map (\<lambda>t. strict_int lo (JInt t)) ts) = Some ts"
  by (induction ts) (simp_all add: strict_int_def)

lemma list_of_ints: "\<forall>t \<in> set ts. lo \<le> t \<Longrightarrow> list_of (strict_int lo) (JList (map JInt ts)) = Some ts"
  by (simp add: list_of_def comp_def those_strict)

lemma parse_assumptions_dict: "parse_assumptions (assumptions_dict a) = Some a"
  by (simp add: parse_assumptions_def assumptions_dict_def assumptions_items_def field_def strict_bool_def)

lemma present_le: "length (present_values samples) \<le> length samples"
  by (induction samples) (auto simp: present_values_def split: option.splits float_value.splits)

lemma tie_counts_ge2: "\<forall>t \<in> set (sort (tie_counts vs)). 2 \<le> t"
  by (auto simp: tie_counts_def)

lemma direction_literal:
  "literal [''increasing'', ''decreasing'', ''none'', ''unavailable''] (JStr (direction_of s)) = Some (direction_of s)"
  by (simp add: literal_def direction_of_def)

lemma direction_literal':
  "literal [''increasing'', ''decreasing'', ''none'', ''unavailable''] (JStr ''unavailable'') = Some ''unavailable''"
  by (simp add: literal_def)

lemma payload_keys: "set (map fst (trend_payload R samples a instants)) \<subseteq> set mk_fields"
  by (simp add: trend_payload_def mk_fields_def Let_def)

lemma parse_trend_payload:
  "parse_mk (trend_payload R samples a instants)
     = Some (mk_of R (present_values samples) (int (length samples) - int (length (present_values samples))) a)"
proof -
  have le: "int (length (present_values samples)) \<le> int (length samples)"
    using present_le by simp
  have c: "conditions_field_ok (trend_payload R samples a instants)"
    by (simp add: conditions_field_ok_def trend_payload_def Let_def)
  show ?thesis
    unfolding parse_mk_def subset_list_iff using payload_keys [of R samples a instants] c le
    by (simp add: trend_payload_def Let_def field_def mk_of_def parse_assumptions_dict list_of_jstrs
        list_of_ints tie_counts_ge2 direction_literal direction_literal'
        del: set_sort)
       (simp add: literal_def strict_bool_def strict_int_def strict_float_def nullable_def)
qed

subsection \<open>Produced evidence is usable\<close>


lemma sorted_set_assumption_texts: "sorted_set (assumption_texts a) = sort (assumption_texts a)"
  by (simp add: sorted_set_def assumption_texts_def assumptions_items_def str_of_bool_def distinct_remdups_id)

lemma produced_form:
  assumes "mann_kendall_evidence R samples ob a created run = Inr e"
  obtains instants st en where
    "evidence_method e = METHOD" "ev_created_at e = created"
    "assumption_set e = sort (assumption_texts a)"
    "ev_payload e = Some (trend_payload R samples a instants)"
    "started_at (ev_source_window e) = Some st" "ended_at (ev_source_window e) = Some en" "en \<le> created"
    "evidence_family e = TREND" "strictly_increasing instants"
proof -
  from assms obtain ob' instants w where o: "validate_observation ob = Inr ob'"
    and s: "validate_samples samples ob' created = Inr (instants, w)"
    by (auto simp: mann_kendall_evidence_def res_simps)
  from s obtain st en where w: "started_at w = Some st" "ended_at w = Some en" "en \<le> created"
      "strictly_increasing instants"
    by (auto simp: validate_samples_def Let_def list_ex_iff split: if_splits option.splits)
  from assms o s have "validate_evidence R \<lparr>evidence_id = [], evidence_family = TREND, evidence_method = METHOD,
       source_module = ''app.governance.trend'', ev_source_run_id = run,
       ev_system_scope = ob_system_scope ob', ev_source_signals = ob_source_signals ob',
       ev_source_window = w,
       derived_from = [\<lparr>ref_kind = DepObservation, dependency_id = observation_id ob'\<rparr>],
       assumption_set = assumption_texts a, context_refs = [], ev_provenance = ob_provenance ob',
       ev_created_at = created, ev_effective_at = None, ev_version = 1, ev_supersedes = None,
       ev_payload = Some (trend_payload R samples a instants), result_ref = None,
       lineage_complete = True, covariance_source_id = None\<rparr> = Inr e"
    by (simp add: mann_kendall_evidence_def)
  from validate_evidence_form [OF this] w show thesis
    by (intro that) (simp_all add: normalize_evidence_def sorted_set_assumption_texts)
qed

lemma statistics_match_mk_of:
  assumes "eligibility_reasons (int (length vs)) missing a = []"
  shows "statistics_match R (mk_of R vs missing a) (int (length vs)) (sort (tie_counts vs))"
proof -
  have p: "pairs_of (int (length vs)) (sort (tie_counts vs)) = choose2 (int (length vs)) - equal_pairs vs"
    by (rule pairs_of_ties)
  show ?thesis
    using assms kendall_bound [of vs] kendall_parity [of vs]
    by (simp add: statistics_match_def mk_of_def Let_def p variance_of_ties even_iff_mod_2_eq_zero)
qed

definition demo_window_observation :: observation where
  "demo_window_observation = (demo_observation ''s'')\<lparr>ob_source_window :=
     \<lparr>window_id = ''s'', started_at = Some 0, ended_at = Some 20\<rparr>\<rparr>"

definition demo_samples :: "trend_sample list" where
  "demo_samples = map (\<lambda>i. \<lparr>observed_at = i, sample_value = Some (Finite (of_int (i * i mod 7)))\<rparr>) [0..11]"

definition demo_assumptions :: trend_assumptions where
  "demo_assumptions = \<lparr>independent_observations = True, no_unmodeled_seasonality = True,
     comparable_measurement_regime = True, missingness_ignorable = True\<rparr>"

lemma validate_evidence_succeeds:
  assumes "\<forall>(f, ok) \<in> set (evidence_fields R x). ok" and "validate_window (ev_source_window x) = Inr w"
    and "evidence_id x = []" and "\<forall>i. result_present ((normalize_evidence x)\<lparr>evidence_id := i\<rparr>)
      = Inr ((normalize_evidence x)\<lparr>evidence_id := i\<rparr>)"
  shows "\<not> isl (validate_evidence R x)"
proof -
  have "check_fields (evidence_fields R x) = Inr ()" using assms(1) by (simp add: res_simps)
  with assms(2-4) show ?thesis by (simp add: validate_evidence_def Let_def validate_identity_def)
qed

lemma demo_observation_valid: "validate_observation demo_window_observation = Inr demo_window_observation"
  by code_simp

lemma demo_samples_valid: "validate_samples demo_samples demo_window_observation 20
   = Inr ([0..11], ob_source_window demo_window_observation)"
  by code_simp

lemma demo_produced: "\<not> isl (mann_kendall_evidence demo_runtime demo_samples demo_window_observation
    demo_assumptions 20 ''run'')"
proof -
  have w: "validate_window \<lparr>window_id = ''s'', started_at = Some 0, ended_at = Some 20\<rparr>
      = Inr \<lparr>window_id = ''s'', started_at = Some 0, ended_at = Some 20\<rparr>"
    by code_simp
  have t: "text_ok ''s''" "text_ok ''run''" "text_ok METHOD" "text_ok ''plant''" "text_ok ''app.governance.trend''"
    "texts_ok (assumption_texts demo_assumptions)" "provenance_ok demo_provenance"
    by code_simp+
  show ?thesis
    unfolding mann_kendall_evidence_def demo_observation_valid demo_samples_valid bindE_simps prod.case
    by (rule validate_evidence_succeeds)
       (simp_all add: evidence_fields_def demo_window_observation_def demo_observation_def w t
         bounded_def demo_runtime_def text_opt_ok_def version_ok_def texts_ok_def [of "[''s'']"] texts_ok_def [of "[]"]
         result_present_def normalize_evidence_def)
qed

lemma demo_eligible: "eligibility_reasons (int (length (present_values demo_samples)))
    (int (length demo_samples) - int (length (present_values demo_samples))) demo_assumptions = []"
  by code_simp

text \<open>
  C23. What \<open>mann_kendall_evidence\<close> emits is what \<open>trend_usable\<close> re-derives: evidence the producer
  returns is usable exactly when no eligibility reason limits it (assumptions all asserted, at
  least 10 present samples, at most 2048 samples, missing data declared ignorable). In particular
  the pair count, tie correction, variance, z score, p-value, significance and direction rebuilt
  from the stored payload agree with those computed from the samples.
\<close>

theorem trend_evidence_roundtrip:
  assumes "mann_kendall_evidence R samples ob a created run = Inr e"
  shows "trend_usable R e \<longleftrightarrow>
     eligibility_reasons (int (length (present_values samples)))
       (int (length samples) - int (length (present_values samples))) a = []"
  using assms
proof (rule produced_form)
  fix instants st en
  let ?vs = "present_values samples" and ?m = "int (length samples) - int (length (present_values samples))"
  assume e: "evidence_method e = METHOD" "ev_created_at e = created"
    "assumption_set e = sort (assumption_texts a)"
    "ev_payload e = Some (trend_payload R samples a instants)"
    "started_at (ev_source_window e) = Some st" "ended_at (ev_source_window e) = Some en" "en \<le> created"
  have f: "mk_n (mk_of R ?vs ?m a) = int (length ?vs)" "mk_missing_count (mk_of R ?vs ?m a) = ?m"
    "mk_ties (mk_of R ?vs ?m a) = sort (tie_counts ?vs)" "mk_assumptions (mk_of R ?vs ?m a) = a"
    "mk_eligibility_reasons (mk_of R ?vs ?m a) = eligibility_reasons (int (length ?vs)) ?m a"
    "mk_limitations (mk_of R ?vs ?m a) = LIMITATIONS" "mk_threshold (mk_of R ?vs ?m a) = threshold_05"
    "mk_status (mk_of R ?vs ?m a) = (if eligibility_reasons (int (length ?vs)) ?m a \<noteq> []
       then ''limited'' else ''available'')"
    by (simp_all add: mk_of_def Let_def)
  have "sum_list (sort (tie_counts ?vs)) \<le> int (length ?vs)"
    using sum_ties_le [of ?vs] sum_list_sort [of "\<lambda>t. t" "tie_counts ?vs"] by simp
  then show ?thesis
    using e statistics_match_mk_of [of ?vs ?m a R]
    by (simp add: trend_usable_def parse_trend_payload f Let_def)
qed

lemma trend_evidence_roundtrip_witness:
  "\<exists>e. mann_kendall_evidence demo_runtime demo_samples demo_window_observation
     demo_assumptions 20 ''run'' = Inr e \<and> trend_usable demo_runtime e"
  using demo_produced demo_eligible trend_evidence_roundtrip [of demo_runtime demo_samples
    demo_window_observation demo_assumptions 20 "''run''"]
  by (metis sum.collapse(2))


end
