(* ===== verification/Gov_Tiers.thy ===== *)
theory Gov_Tiers
  imports Gov_Dependencies Gov_Trend
begin

text \<open>
  Adaptation tiers, \<^verbatim>\<open>backend/app/governance/tiers.py\<close>: which evidence has a usable lineage, how the
  frozen condition assertions of a finding's evidence and of its ancestors are assessed, and the
  classification of an adaptation candidate.
\<close>

datatype evidence_condition =
    LOCATION_SHIFT | RELATIONSHIP_CHANGE | COVARIANCE_CHANGE | RESPONSE_BREAKDOWN
  | PROPAGATION_CHANGE | PHYSICS_CONTRADICTION | INSTRUMENTATION_CONCERN | EXCESSIVE_EVOLUTION_RATE

fun condition_value :: "evidence_condition \<Rightarrow> string" where
  "condition_value LOCATION_SHIFT = ''location_shift''"
| "condition_value RELATIONSHIP_CHANGE = ''relationship_change''"
| "condition_value COVARIANCE_CHANGE = ''covariance_change''"
| "condition_value RESPONSE_BREAKDOWN = ''response_breakdown''"
| "condition_value PROPAGATION_CHANGE = ''propagation_change''"
| "condition_value PHYSICS_CONTRADICTION = ''physics_contradiction''"
| "condition_value INSTRUMENTATION_CONCERN = ''instrumentation_concern''"
| "condition_value EXCESSIVE_EVOLUTION_RATE = ''excessive_evolution_rate''"

definition CONDITION_FAMILIES :: "(evidence_condition \<times> evidence_family) list" where
  "CONDITION_FAMILIES = [(LOCATION_SHIFT, SIGNAL_LOCATION), (RELATIONSHIP_CHANGE, RELATIONAL),
     (COVARIANCE_CHANGE, COVARIANCE_GEOMETRY), (RESPONSE_BREAKDOWN, EXPECTED_RESPONSE),
     (PROPAGATION_CHANGE, MULTISCALE), (PHYSICS_CONTRADICTION, PHYSICS_EXTERNAL),
     (INSTRUMENTATION_CONCERN, INSTRUMENTATION), (EXCESSIVE_EVOLUTION_RATE, TREND)]"

definition STRUCTURAL :: "evidence_condition list" where
  "STRUCTURAL = [RELATIONSHIP_CHANGE, COVARIANCE_CHANGE, RESPONSE_BREAKDOWN, PROPAGATION_CHANGE,
     PHYSICS_CONTRADICTION]"

datatype condition_status = Present | Absent | Unknown

fun status_value :: "condition_status \<Rightarrow> string" where
  "status_value Present = ''present''"
| "status_value Absent = ''absent''"
| "status_value Unknown = ''unknown''"

record assessment =
  ca_condition :: evidence_condition
  ca_status :: condition_status
  ca_evidence_ids :: "string list"

datatype tier = TierA | TierB | Unclassified

fun tier_value :: "tier \<Rightarrow> string" where
  "tier_value TierA = ''tier_a''"
| "tier_value TierB = ''tier_b''"
| "tier_value Unclassified = ''unclassified''"

record classification =
  tc_tier :: tier
  tc_eligible_candidate :: bool
  tc_reasons :: "string list"
  tc_assessments :: "assessment list"
  tc_limiting_evidence :: "string list"

subsection \<open>Usable lineages\<close>

text \<open>\<open>(item.payload or {}).get(key, dflt)\<close>\<close>

definition payload_get :: "evidence \<Rightarrow> string \<Rightarrow> json \<Rightarrow> json" where
  "payload_get x key dflt =
     (case ev_payload x of None \<Rightarrow> dflt
      | Some d \<Rightarrow> (case map_of d key of None \<Rightarrow> dflt | Some v \<Rightarrow> v))"

definition usable_evidence :: "runtime \<Rightarrow> graph \<Rightarrow> string \<Rightarrow> evidence \<Rightarrow> bool gov" where
  "usable_evidence R g ancestor x =
     (if \<not> lineage_complete x \<or> derived_from x = [] then Inr False
      else bindE (if evidence_family x = COVARIANCE_GEOMETRY \<or> covariance_source_id x \<notin> {None, Some []}
                  then bindE (lineage g ancestor) (\<lambda>ls.
                       Inr (case covariance_source_id x of None \<Rightarrow> True | Some s \<Rightarrow> s \<notin> set ls))
                  else Inr False) (\<lambda>unsourced.
           Inr (if unsourced then False
                else if evidence_family x = TREND \<and> \<not> trend_usable R x then False
                else payload_get x ''status'' (JStr ''available'') = JStr ''available'')))"

fun usable_all :: "runtime \<Rightarrow> graph \<Rightarrow> string list \<Rightarrow> bool gov" where
  "usable_all R g [] = Inr True"
| "usable_all R g (a # rest) =
     (case find_evidence g a of
        None \<Rightarrow> usable_all R g rest
      | Some x \<Rightarrow> bindE (usable_evidence R g a x) (\<lambda>ok. if \<not> ok then Inr False else usable_all R g rest))"

text \<open>
  The source iterates over a set; no iteration has an effect and the verdict is a conjunction, so
  the order is immaterial.
\<close>

definition usable_lineage :: "runtime \<Rightarrow> graph \<Rightarrow> string \<Rightarrow> bool gov" where
  "usable_lineage R g identifier =
     bindE (lineage g identifier) (\<lambda>ls. usable_all R g (remdups (identifier # ls)))"

subsection \<open>Assessing conditions\<close>

definition condition_status :: "evidence \<Rightarrow> evidence_condition \<Rightarrow> condition_status gov" where
  "condition_status x condition =
     (case payload_get x ''governance_conditions'' (JObj []) of
        JObj assertions \<Rightarrow>
          (case map_of assertions (condition_value condition) of
             None \<Rightarrow> Inr Unknown
           | Some (JStr s) \<Rightarrow>
               if s = ''present'' then Inr Present
               else if s = ''absent'' then Inr Absent
               else if s = ''unknown'' then Inr Unknown
               else Inl (ValueError ''invalid_governance_condition_status'')
           | Some _ \<Rightarrow> Inl (ValueError ''invalid_governance_condition_status''))
      | _ \<Rightarrow> Inl (ValueError ''invalid_governance_conditions''))"

record bins =
  b_present :: "string list"
  b_absent :: "string list"
  b_unknown :: "string list"

definition record_condition ::
  "runtime \<Rightarrow> graph \<Rightarrow> string \<Rightarrow> evidence_condition \<Rightarrow> condition_status \<Rightarrow> bins \<Rightarrow> bins gov" where
  "record_condition R g i condition status b =
     (case status of
        Present \<Rightarrow>
          bindE (if condition = LOCATION_SHIFT then bindE (usable_lineage R g i) (\<lambda>u. Inr (\<not> u))
                 else Inr False) (\<lambda>unusable.
          Inr (if unusable then b\<lparr>b_unknown := b_unknown b @ [i]\<rparr> else b\<lparr>b_present := b_present b @ [i]\<rparr>))
      | Absent \<Rightarrow>
          bindE (usable_lineage R g i) (\<lambda>u.
          Inr (if u \<and> condition \<noteq> EXCESSIVE_EVOLUTION_RATE then b\<lparr>b_absent := b_absent b @ [i]\<rparr>
               else b\<lparr>b_unknown := b_unknown b @ [i]\<rparr>))
      | Unknown \<Rightarrow> Inr (b\<lparr>b_unknown := b_unknown b @ [i]\<rparr>))"

fun fold_condition ::
  "runtime \<Rightarrow> graph \<Rightarrow> evidence_condition \<Rightarrow> evidence_family \<Rightarrow> string list \<Rightarrow> bins \<Rightarrow> bins gov" where
  "fold_condition R g condition family [] b = Inr b"
| "fold_condition R g condition family (i # is) b =
     (case find_evidence g i of
        None \<Rightarrow> Inl (KeyError i)
      | Some x \<Rightarrow>
          if evidence_family x \<noteq> family then fold_condition R g condition family is b
          else bindE (condition_status x condition) (\<lambda>status.
               bindE (record_condition R g i condition status b) (\<lambda>b'.
               fold_condition R g condition family is b')))"

definition assess_condition ::
  "runtime \<Rightarrow> graph \<Rightarrow> string list \<Rightarrow> evidence_condition \<times> evidence_family \<Rightarrow> assessment gov" where
  "assess_condition R g material cf =
     bindE (fold_condition R g (fst cf) (snd cf) (sorted_set material)
              \<lparr>b_present = [], b_absent = [], b_unknown = []\<rparr>) (\<lambda>b.
     Inr \<lparr>ca_condition = fst cf,
          ca_status = (if b_present b \<noteq> [] then Present
                       else if b_absent b \<noteq> [] \<and> b_unknown b = [] then Absent else Unknown),
          ca_evidence_ids = sorted_set (b_present b @ b_absent b @ b_unknown b)\<rparr>)"

definition material_ids :: "graph \<Rightarrow> string list \<Rightarrow> string list gov" where
  "material_ids g relevant =
     bindE (mapE (lineage g) relevant) (\<lambda>lss.
     Inr (relevant @ inter_list (concat lss) (evidence_ids g)))"

definition assess_in :: "runtime \<Rightarrow> graph \<Rightarrow> string list \<Rightarrow> assessment list gov" where
  "assess_in R g relevant =
     (if \<not> subset_list relevant (evidence_ids g)
      then Inl (ValueError ''condition_evidence_outside_graph'')
      else bindE (material_ids g relevant) (\<lambda>material.
           mapE (assess_condition R g material) CONDITION_FAMILIES))"

definition assess_conditions :: "runtime \<Rightarrow> graph \<Rightarrow> string list \<Rightarrow> assessment list gov" where
  "assess_conditions R g relevant = bindE (validate_graph R g) (\<lambda>g. assess_in R g relevant)"

definition failed_assessment :: "assessment \<Rightarrow> bool" where
  "failed_assessment a =
     (ca_status a \<noteq> (if ca_condition a = LOCATION_SHIFT then Present else Absent))"

definition structural_present :: "assessment \<Rightarrow> bool" where
  "structural_present a = (ca_condition a \<in> set STRUCTURAL \<and> ca_status a = Present)"

definition classify_assessments :: "assessment list \<Rightarrow> classification" where
  "classify_assessments assessments =
     (let structural = filter structural_present assessments;
          failed = filter failed_assessment assessments;
          (t, reasons) =
            (if structural \<noteq> []
             then (TierB, map (\<lambda>a. ''structural:'' @ condition_value (ca_condition a)) structural)
             else if failed = []
             then (TierA, [''location_shift_with_all_structural_and_safety_checks_intact''])
             else (Unclassified,
                   map (\<lambda>a. condition_value (ca_condition a) @ '':'' @ status_value (ca_status a)) failed))
      in \<lparr>tc_tier = t, tc_eligible_candidate = (t = TierA \<or> t = TierB), tc_reasons = reasons,
          tc_assessments = assessments,
          tc_limiting_evidence = sorted_set (concat (map ca_evidence_ids failed))\<rparr>)"

definition classify_tier :: "runtime \<Rightarrow> graph \<Rightarrow> string list \<Rightarrow> classification gov" where
  "classify_tier R g relevant =
     bindE (assess_conditions R g relevant) (\<lambda>assessments. Inr (classify_assessments assessments))"

subsection \<open>What the assessments say\<close>

lemma assess_condition_condition:
  "assess_condition R g m cf = Inr a \<Longrightarrow> ca_condition a = fst cf"
  by (auto simp: assess_condition_def res_simps)

lemma assess_in_conditions:
  assumes "assess_in R g relevant = Inr as"
  shows "map ca_condition as = map fst CONDITION_FAMILIES"
proof -
  from assms obtain m where "mapE (assess_condition R g m) CONDITION_FAMILIES = Inr as"
    by (auto simp: assess_in_def res_simps split: if_splits)
  then have "list_all2 (\<lambda>cf a. assess_condition R g m cf = Inr a) CONDITION_FAMILIES as"
    by (simp add: mapE_eq_Inr)
  then show ?thesis
    by (induction rule: list_all2_induct) (simp_all add: assess_condition_condition)
qed

lemma assess_in_each:
  assumes "assess_in R g relevant = Inr as" and "a \<in> set as"
  obtains m family where "material_ids g relevant = Inr m"
    "(ca_condition a, family) \<in> set CONDITION_FAMILIES"
    "assess_condition R g m (ca_condition a, family) = Inr a"
proof -
  from assms(1) obtain m where m: "material_ids g relevant = Inr m"
    and as: "mapE (assess_condition R g m) CONDITION_FAMILIES = Inr as"
    by (auto simp: assess_in_def res_simps split: if_splits)
  from mapE_Inr_mem [OF as assms(2)] obtain c family where
    cf: "(c, family) \<in> set CONDITION_FAMILIES" and a: "assess_condition R g m (c, family) = Inr a"
    by auto
  from assess_condition_condition [OF a] cf a m show thesis by (intro that) auto
qed

text \<open>What one evidence object of the family contributes.\<close>

definition in_family :: "graph \<Rightarrow> evidence_family \<Rightarrow> string \<Rightarrow> bool" where
  "in_family g family i =
     (case find_evidence g i of None \<Rightarrow> False | Some x \<Rightarrow> evidence_family x = family)"

definition asserted :: "graph \<Rightarrow> evidence_condition \<Rightarrow> condition_status \<Rightarrow> string \<Rightarrow> bool" where
  "asserted g c s i =
     (case find_evidence g i of None \<Rightarrow> False | Some x \<Rightarrow> condition_status x c = Inr s)"

definition counts_present :: "runtime \<Rightarrow> graph \<Rightarrow> evidence_condition \<Rightarrow> string \<Rightarrow> bool" where
  "counts_present R g c i =
     (asserted g c Present i \<and> (c = LOCATION_SHIFT \<longrightarrow> usable_lineage R g i = Inr True))"

definition counts_absent :: "runtime \<Rightarrow> graph \<Rightarrow> evidence_condition \<Rightarrow> string \<Rightarrow> bool" where
  "counts_absent R g c i =
     (asserted g c Absent i \<and> usable_lineage R g i = Inr True \<and> c \<noteq> EXCESSIVE_EVOLUTION_RATE)"

lemma counts_exclusive: "counts_present R g c i \<Longrightarrow> \<not> counts_absent R g c i"
  by (auto simp: counts_present_def counts_absent_def asserted_def split: option.splits)

lemma record_condition_exact:
  assumes "record_condition R g i c s b = Inr b'" and "find_evidence g i = Some x"
    and "condition_status x c = Inr s"
  shows "b_present b' = b_present b @ (if counts_present R g c i then [i] else [])
    \<and> b_absent b' = b_absent b @ (if counts_absent R g c i then [i] else [])
    \<and> b_unknown b' = b_unknown b @ (if counts_present R g c i \<or> counts_absent R g c i then [] else [i])"
  using assms
  by (cases s; cases b) (auto simp: record_condition_def counts_present_def counts_absent_def asserted_def res_simps
      split: if_splits)

lemma fold_condition_exact:
  assumes "fold_condition R g c family js b = Inr b'"
  shows "b_present b' = b_present b @ filter (\<lambda>i. in_family g family i \<and> counts_present R g c i) js
    \<and> b_absent b' = b_absent b @ filter (\<lambda>i. in_family g family i \<and> counts_absent R g c i) js
    \<and> b_unknown b' = b_unknown b @ filter (\<lambda>i. in_family g family i \<and> \<not> counts_present R g c i
         \<and> \<not> counts_absent R g c i) js"
  using assms
proof (induction js arbitrary: b)
  case (Cons i js)
  from Cons.prems obtain x where x: "find_evidence g i = Some x" by (auto split: option.splits)
  show ?case
  proof (cases "evidence_family x = family")
    case True
    with Cons.prems x obtain s b1 where s: "condition_status x c = Inr s"
      and b1: "record_condition R g i c s b = Inr b1" and r: "fold_condition R g c family js b1 = Inr b'"
      by (auto simp: res_simps)
    have "in_family g family i" using x True by (simp add: in_family_def)
    with record_condition_exact [OF b1 x s] Cons.IH [OF r] show ?thesis by simp
  next
    case False
    with Cons x show ?thesis by (simp add: in_family_def)
  qed
qed simp

lemma assess_condition_exact:
  assumes "assess_condition R g m (c, family) = Inr a"
  shows "(ca_status a = Present \<longleftrightarrow> (\<exists>i \<in> set m. in_family g family i \<and> counts_present R g c i))
    \<and> (ca_status a = Absent \<longleftrightarrow> (\<exists>i \<in> set m. in_family g family i)
         \<and> (\<forall>i \<in> set m. in_family g family i \<longrightarrow> counts_absent R g c i))
    \<and> set (ca_evidence_ids a) = {i \<in> set m. in_family g family i}"
proof -
  let ?e = "\<lparr>b_present = [], b_absent = [], b_unknown = []\<rparr>"
  let ?m = "sorted_set m"
  from assms obtain b where
    f: "fold_condition R g c family ?m ?e = Inr b"
    and a: "ca_status a = (if b_present b \<noteq> [] then Present
       else if b_absent b \<noteq> [] \<and> b_unknown b = [] then Absent else Unknown)"
      "ca_evidence_ids a = sorted_set (b_present b @ b_absent b @ b_unknown b)"
    by (auto simp: assess_condition_def res_simps)
  from fold_condition_exact [OF f] have
    b: "b_present b = filter (\<lambda>i. in_family g family i \<and> counts_present R g c i) ?m"
      "b_absent b = filter (\<lambda>i. in_family g family i \<and> counts_absent R g c i) ?m"
      "b_unknown b = filter (\<lambda>i. in_family g family i \<and> \<not> counts_present R g c i
         \<and> \<not> counts_absent R g c i) ?m" by simp_all
  have ne: "filter P xs \<noteq> [] \<longleftrightarrow> (\<exists>x \<in> set xs. P x)" for P and xs :: "string list"
    by (auto simp: filter_empty_conv)
  have p: "b_present b \<noteq> [] \<longleftrightarrow> (\<exists>i \<in> set m. in_family g family i \<and> counts_present R g c i)"
    and q: "b_absent b \<noteq> [] \<longleftrightarrow> (\<exists>i \<in> set m. in_family g family i \<and> counts_absent R g c i)"
    and r: "b_unknown b \<noteq> [] \<longleftrightarrow> (\<exists>i \<in> set m. in_family g family i \<and> \<not> counts_present R g c i
         \<and> \<not> counts_absent R g c i)"
    unfolding b ne by simp_all
  have "ca_status a = Present \<longleftrightarrow> b_present b \<noteq> []" by (simp add: a)
  moreover have "ca_status a = Absent \<longleftrightarrow> b_present b = [] \<and> b_absent b \<noteq> [] \<and> b_unknown b = []"
    by (simp add: a)
  moreover have "set (ca_evidence_ids a) = {i \<in> set m. in_family g family i}"
    by (auto simp: a b)
  ultimately show ?thesis using p q r counts_exclusive by blast
qed

lemma material_ids_ancestors:
  assumes wf: "wf_graph g" and "material_ids g relevant = Inr m" and sub: "set relevant \<subseteq> set (evidence_ids g)"
  shows "set m = {i \<in> set (evidence_ids g). \<exists>r \<in> set relevant. i \<in> ancestors g r}"
proof -
  from assms(2) obtain lss where l: "list_all2 (\<lambda>r ls. lineage g r = Inr ls) relevant lss"
    and m: "m = relevant @ inter_list (concat lss) (evidence_ids g)"
    by (auto simp: material_ids_def res_simps mapE_eq_Inr)
  have node: "r \<in> set (node_ids g)" if "r \<in> set relevant" for r
    using sub that by (auto simp: node_ids_def)
  have anc: "(\<exists>r \<in> set rs. i \<in> ancestors g r) \<longleftrightarrow> i \<in> set rs \<or> i \<in> set (concat lss')"
    if "list_all2 (\<lambda>r ls. lineage g r = Inr ls) rs lss'" and "set rs \<subseteq> set relevant" for rs lss' i
    using that
  proof (induction rs lss' rule: list_all2_induct)
    case (Cons r rs ls lss')
    then have "ancestors g r = set (r # ls)"
      using ancestors_lineage [OF wf Cons.hyps(1)] node [of r] by simp
    with Cons show ?case by auto
  qed simp
  show ?thesis using sub anc [OF l subset_refl] by (auto simp: m)
qed

lemma evolution_rate_never_absent:
  assumes "assess_in R g relevant = Inr as" and "a \<in> set as" and "ca_condition a = EXCESSIVE_EVOLUTION_RATE"
  shows "ca_status a \<noteq> Absent"
proof -
  from assms obtain m family where "assess_condition R g m (EXCESSIVE_EVOLUTION_RATE, family) = Inr a"
    by (auto elim: assess_in_each)
  from assess_condition_exact [OF this] show ?thesis by (auto simp: counts_absent_def)
qed

lemma rate_assessment_exists:
  assumes "assess_in R g relevant = Inr as"
  obtains a where "a \<in> set as" "ca_condition a = EXCESSIVE_EVOLUTION_RATE" "failed_assessment a"
proof -
  from assess_in_conditions [OF assms] have "EXCESSIVE_EVOLUTION_RATE \<in> set (map ca_condition as)"
    by (simp add: CONDITION_FAMILIES_def)
  then obtain a where a: "a \<in> set as" "ca_condition a = EXCESSIVE_EVOLUTION_RATE" by auto
  with evolution_rate_never_absent [OF assms] show thesis
    by (intro that) (auto simp: failed_assessment_def)
qed

lemma classify_tier_assessments:
  "classify_assessments as = c \<Longrightarrow> tc_assessments c = as"
  by (auto simp: classify_assessments_def Let_def split: prod.splits)

lemma classify_assessments_tier:
  "tc_tier (classify_assessments as) =
     (if \<exists>a \<in> set as. structural_present a then TierB
      else if \<exists>a \<in> set as. failed_assessment a then Unclassified else TierA)"
  by (auto simp: classify_assessments_def Let_def filter_empty_conv)

lemma classify_assessments_eligible:
  "tc_eligible_candidate (classify_assessments as) \<longleftrightarrow> tc_tier (classify_assessments as) \<noteq> Unclassified"
  by (simp add: classify_assessments_def Let_def)

lemma classify_tier_Inr:
  "classify_tier R g relevant = Inr c \<longleftrightarrow>
     (\<exists>h as. validate_graph R g = Inr h \<and> assess_in R h relevant = Inr as \<and> c = classify_assessments as)"
  by (auto simp: classify_tier_def assess_conditions_def res_simps)

lemma classify_tier_not_TierA:
  assumes "classify_tier R g relevant = Inr c"
  shows "tc_tier c \<noteq> TierA"
proof -
  from assms obtain h as where as: "assess_in R h relevant = Inr as" and c: "c = classify_assessments as"
    by (auto simp: classify_tier_Inr)
  obtain a where "a \<in> set as" "failed_assessment a" using rate_assessment_exists [OF as] by blast
  then show ?thesis unfolding c classify_assessments_tier by auto
qed

lemma classify_tier_eligible:
  assumes "classify_tier R g relevant = Inr c"
  shows "tc_eligible_candidate c \<longleftrightarrow> tc_tier c = TierB"
proof -
  from assms obtain as where "c = classify_assessments as" by (auto simp: classify_tier_Inr)
  then show ?thesis
    using classify_tier_not_TierA [OF assms] classify_assessments_eligible [of as] by (cases "tc_tier c") auto
qed

text \<open>
  Every classification retains an assessment that is not what a safe candidate needs: the
  evolution rate is never assessed as absent.
\<close>

lemma classify_tier_rate:
  assumes "classify_tier R g relevant = Inr c"
  obtains a where "a \<in> set (tc_assessments c)" "ca_condition a = EXCESSIVE_EVOLUTION_RATE" "ca_status a \<noteq> Absent"
proof -
  from assms obtain h as where as: "assess_in R h relevant = Inr as" and c: "c = classify_assessments as"
    by (auto simp: classify_tier_Inr)
  from rate_assessment_exists [OF as] evolution_rate_never_absent [OF as] show thesis
    using that by (metis c classify_tier_assessments)
qed

subsection \<open>Properties\<close>

definition demo_conditions :: "(string \<times> json) list \<Rightarrow> jdict" where
  "demo_conditions kvs = [(''governance_conditions'', JObj kvs)]"

definition demo_tier_graph :: graph where
  "demo_tier_graph = \<lparr>g_snapshot_id = [], g_system_scope = ''plant'',
     g_evidence = [
       (demo_evidence ''b'' SIGNAL_LOCATION [\<lparr>ref_kind = DepObservation, dependency_id = ''o2''\<rparr>])
         \<lparr>ev_payload := Some (demo_conditions [(''location_shift'', JStr ''present'')])\<rparr>,
       (demo_evidence ''a'' RELATIONAL [\<lparr>ref_kind = DepObservation, dependency_id = ''o1''\<rparr>])
         \<lparr>ev_payload := Some (demo_conditions [(''relationship_change'', JStr ''present'')])\<rparr>],
     g_observations = [demo_observation ''o1'', demo_observation ''o2'']\<rparr>"

definition demo_tier_checked :: graph where
  "demo_tier_checked = demo_tier_graph\<lparr>g_snapshot_id := ''dependency-graph:0'',
     g_evidence := [
       (demo_evidence ''a'' RELATIONAL [\<lparr>ref_kind = DepObservation, dependency_id = ''o1''\<rparr>])
         \<lparr>evidence_id := ''evidence:a'',
          ev_payload := Some (demo_conditions [(''relationship_change'', JStr ''present'')])\<rparr>,
       (demo_evidence ''b'' SIGNAL_LOCATION [\<lparr>ref_kind = DepObservation, dependency_id = ''o2''\<rparr>])
         \<lparr>evidence_id := ''evidence:b'',
          ev_payload := Some (demo_conditions [(''location_shift'', JStr ''present'')])\<rparr>]\<rparr>"

lemma demo_tier_checked: "validate_graph demo_runtime demo_tier_graph = Inr demo_tier_checked"
  by code_simp

text \<open>
  The tier of a candidate: it is \<open>tier_b\<close> exactly when a structural condition is assessed as
  present, and otherwise unclassified. \<open>tier_a\<close> is never assigned, since no contract lets the
  evolution-rate condition be assessed as absent; so a candidate is eligible exactly in \<open>tier_b\<close>.
\<close>

theorem classify_tier_exact:
  assumes "classify_tier R g relevant = Inr c"
  shows "tc_tier c = (if \<exists>a \<in> set (tc_assessments c).
             ca_condition a \<in> set STRUCTURAL \<and> ca_status a = Present then TierB else Unclassified)
    \<and> (tc_eligible_candidate c \<longleftrightarrow> tc_tier c = TierB)"
proof -
  from assms obtain h as where as: "assess_in R h relevant = Inr as" and c: "c = classify_assessments as"
    by (auto simp: classify_tier_Inr)
  have "\<exists>a \<in> set as. failed_assessment a" using rate_assessment_exists [OF as] by blast
  then show ?thesis
    unfolding c classify_assessments_eligible classify_assessments_tier classify_tier_assessments [OF refl]
    by (simp add: structural_present_def)
qed

theorem classify_tier_exact_witness:
  "\<exists>c. classify_tier demo_runtime demo_tier_graph [''evidence:a'', ''evidence:b''] = Inr c \<and> tc_tier c = TierB"
proof -
  let ?c = "projr (classify_tier demo_runtime demo_tier_graph [''evidence:a'', ''evidence:b''])"
  have "classify_tier demo_runtime demo_tier_graph [''evidence:a'', ''evidence:b''] = Inr ?c" by code_simp
  moreover have "\<exists>a \<in> set (tc_assessments ?c). ca_condition a \<in> set STRUCTURAL \<and> ca_status a = Present"
    by code_simp
  ultimately show ?thesis using classify_tier_exact [of demo_runtime demo_tier_graph _ ?c] by auto
qed

text \<open>
  The assessment of a condition ranges over the finding's evidence and all its evidence
  ancestors of the condition's family. It is \<open>present\<close> as soon as one of them asserts the condition
  (a location shift needs a usable lineage too), and \<open>absent\<close> only when there is one and every one
  asserts its absence over a usable lineage, which never suffices for the evolution rate.
\<close>

theorem assess_conditions_exact:
  assumes "validate_graph R g = Inr h" and "assess_conditions R g relevant = Inr as"
    and "a \<in> set as" and "(ca_condition a, family) \<in> set CONDITION_FAMILIES"
    and "M = {i \<in> set (evidence_ids h). in_family h family i \<and> (\<exists>r \<in> set relevant. i \<in> ancestors h r)}"
  shows "(ca_status a = Present \<longleftrightarrow> (\<exists>i \<in> M. asserted h (ca_condition a) Present i
             \<and> (ca_condition a = LOCATION_SHIFT \<longrightarrow> usable_lineage R h i = Inr True)))
    \<and> (ca_status a = Absent \<longleftrightarrow> M \<noteq> {} \<and> (\<forall>i \<in> M. asserted h (ca_condition a) Absent i
             \<and> usable_lineage R h i = Inr True \<and> ca_condition a \<noteq> EXCESSIVE_EVOLUTION_RATE))
    \<and> set (ca_evidence_ids a) = M"
proof -
  have in_h: "assess_in R h relevant = Inr as" using assms(1,2) by (simp add: assess_conditions_def)
  then have sub: "set relevant \<subseteq> set (evidence_ids h)" by (auto simp: assess_in_def split: if_splits)
  from assess_in_each [OF in_h assms(3)] obtain m family' where m: "material_ids h relevant = Inr m"
    and f: "(ca_condition a, family') \<in> set CONDITION_FAMILIES"
    and a: "assess_condition R h m (ca_condition a, family') = Inr a" .
  have "family' = family" using f assms(4) by (auto simp: CONDITION_FAMILIES_def)
  moreover have "set m = {i \<in> set (evidence_ids h). \<exists>r \<in> set relevant. i \<in> ancestors h r}"
    by (rule material_ids_ancestors [OF validate_graph_form(1) [OF assms(1)] m sub])
  then have "M = {i \<in> set m. in_family h family i}" by (auto simp: assms(5))
  ultimately show ?thesis
    using assess_condition_exact [OF a] by (auto simp: counts_present_def counts_absent_def)
qed

theorem assess_conditions_exact_witness:
  "\<exists>as. assess_conditions demo_runtime demo_tier_graph [''evidence:b''] = Inr as \<and>
     (\<exists>i. asserted demo_tier_checked LOCATION_SHIFT Present i)"
proof -
  let ?as = "projr (assess_conditions demo_runtime demo_tier_graph [''evidence:b''])"
  have as: "assess_conditions demo_runtime demo_tier_graph [''evidence:b''] = Inr ?as" by code_simp
  have f: "ca_condition (hd ?as) = LOCATION_SHIFT \<and> ca_status (hd ?as) = Present \<and> ?as \<noteq> []" by code_simp
  then have "hd ?as \<in> set ?as" "(ca_condition (hd ?as), SIGNAL_LOCATION) \<in> set CONDITION_FAMILIES"
    by (simp_all add: CONDITION_FAMILIES_def)
  from assess_conditions_exact [OF demo_tier_checked as this refl] f as show ?thesis by auto
qed

end
