(* ===== verification/Gov_Characterization.thy ===== *)
theory Gov_Characterization
  imports Gov_Tiers
begin

text \<open>
  Trajectory characterizations, \<^verbatim>\<open>backend/app/governance/characterization.py\<close>: the assertion an
  adapter makes about a finding's trajectory and when the evidence graph supports it. A text of a
  payload that parses as a timestamp is written \<open>JTime\<close>.
\<close>

subsection \<open>Propagation support\<close>

record propagation_support =
  ps_path_signals :: "string list"
  ps_observed_at :: "timestamp list"
  ps_relationship_refs :: "string list"
  ps_lag_windows :: "(rat \<times> rat) list"

definition text_field :: "json \<Rightarrow> string option" where
  "text_field v = (case v of JStr s \<Rightarrow> if text_ok s then Some s else None | _ \<Rightarrow> None)"

definition time_field :: "json \<Rightarrow> timestamp option" where
  "time_field v = (case v of JTime t \<Rightarrow> Some t | _ \<Rightarrow> None)"

definition lag_field :: "json \<Rightarrow> rat option" where
  "lag_field v = (case strict_float v of None \<Rightarrow> None | Some r \<Rightarrow> if 0 \<le> r then Some r else None)"

definition lag_pair :: "json \<Rightarrow> (rat \<times> rat) option" where
  "lag_pair v = (case v of
     JList [a, b] \<Rightarrow> (case (lag_field a, lag_field b) of (Some x, Some y) \<Rightarrow> Some (x, y) | _ \<Rightarrow> None)
   | _ \<Rightarrow> None)"

definition at_least :: "nat \<Rightarrow> 'a list option \<Rightarrow> 'a list option" where
  "at_least n xs = (case xs of None \<Rightarrow> None | Some ys \<Rightarrow> if n \<le> length ys then Some ys else None)"

definition propagation_fields :: "string list" where
  "propagation_fields = [''method'', ''path_signals'', ''observed_at'', ''relationship_refs'',
     ''expected_lag_windows_seconds'', ''alternative_explanations'', ''limitations'', ''causal_claim'']"

definition parse_propagation :: "json \<Rightarrow> propagation_support option" where
  "parse_propagation v = (case v of
     JObj d \<Rightarrow>
       if \<not> subset_list (map fst d) propagation_fields
          \<or> field d ''method'' (literal [''timing_graph_propagation_v1'']) = None
          \<or> at_least 1 (field d ''alternative_explanations'' (list_of text_field)) = None
          \<or> at_least 1 (field d ''limitations'' (list_of text_field)) = None
          \<or> field d ''causal_claim'' strict_bool \<noteq> Some False then None
       else (case (at_least 2 (field d ''path_signals'' (list_of text_field)),
                   field d ''observed_at'' (list_of time_field),
                   at_least 1 (field d ''relationship_refs'' (list_of text_field)),
                   field d ''expected_lag_windows_seconds'' (list_of lag_pair)) of
               (Some path, Some instants, Some refs, Some lags) \<Rightarrow>
                 Some \<lparr>ps_path_signals = path, ps_observed_at = instants, ps_relationship_refs = refs,
                       ps_lag_windows = lags\<rparr>
             | _ \<Rightarrow> None)
   | _ \<Rightarrow> None)"

definition in_window :: "source_window \<Rightarrow> timestamp \<Rightarrow> bool" where
  "in_window w t = (case (started_at w, ended_at w) of (Some s, Some e) \<Rightarrow> s \<le> t \<and> t \<le> e | _ \<Rightarrow> False)"

definition total_seconds :: "int \<Rightarrow> rat" where
  "total_seconds d = fl (of_int d / 1000000)"

fun lags_ok :: "timestamp list \<Rightarrow> (rat \<times> rat) list \<Rightarrow> bool" where
  "lags_ok (a # b # ts) ((lo, hi) # ls) =
     (lo \<le> total_seconds (b - a) \<and> total_seconds (b - a) \<le> hi \<and> lags_ok (b # ts) ls)"
| "lags_ok ts ls = True"

definition propagation_supported :: "evidence \<Rightarrow> source_window \<Rightarrow> bool" where
  "propagation_supported x horizon =
     (case parse_propagation (payload_get x ''propagation_support'' JNull) of
        None \<Rightarrow> False
      | Some p \<Rightarrow>
          if evidence_method x \<noteq> ''timing_graph_propagation_v1'' \<or> evidence_family x \<noteq> MULTISCALE then False
          else let count = length (ps_path_signals p) in
            if length (remdups (ps_path_signals p)) \<noteq> count \<or> length (ps_observed_at p) \<noteq> count
               \<or> length (ps_relationship_refs p) + 1 \<noteq> count \<or> length (ps_lag_windows p) + 1 \<noteq> count
               \<or> \<not> subset_list (ps_path_signals p) (ev_source_signals x) then False
            else if list_ex (\<lambda>t. \<not> in_window horizon t \<or> \<not> in_window (ev_source_window x) t) (ps_observed_at p)
            then False
            else lags_ok (ps_observed_at p) (ps_lag_windows p))"

subsection \<open>The characterization\<close>

datatype trajectory_kind =
    StepChange | GradualDrift | Oscillation | Recovery | SustainedShift | PropagationCandidate | Indeterminate

fun trajectory_value :: "trajectory_kind \<Rightarrow> string" where
  "trajectory_value StepChange = ''step_change''"
| "trajectory_value GradualDrift = ''gradual_drift''"
| "trajectory_value Oscillation = ''oscillation''"
| "trajectory_value Recovery = ''recovery''"
| "trajectory_value SustainedShift = ''sustained_shift''"
| "trajectory_value PropagationCandidate = ''propagation_candidate''"
| "trajectory_value Indeterminate = ''indeterminate''"

record trajectory =
  tj_trajectory :: trajectory_kind
  tj_finding_id :: string
  tj_system_scope :: string
  tj_evaluated_at :: timestamp
  tj_evidence_ids :: "string list"
  tj_evidence_families :: "evidence_family list"
  tj_graph_snapshot_id :: string
  tj_time_horizon :: source_window
  tj_method :: string
  tj_assumptions :: "string list"
  tj_limitations :: "string list"

definition trajectory_dict :: "trajectory \<Rightarrow> json" where
  "trajectory_dict t = JObj [(''trajectory'', JStr (trajectory_value (tj_trajectory t))),
     (''finding_id'', JStr (tj_finding_id t)), (''system_scope'', JStr (tj_system_scope t)),
     (''evaluated_at'', JTime (tj_evaluated_at t)), (''evidence_ids'', jstrs (tj_evidence_ids t)),
     (''evidence_families'', jstrs (map family_value (tj_evidence_families t))),
     (''dependency_graph_snapshot_id'', JStr (tj_graph_snapshot_id t)),
     (''time_horizon'', window_dict (tj_time_horizon t)), (''method'', JStr (tj_method t)),
     (''assumptions'', jstrs (tj_assumptions t)), (''limitations'', jstrs (tj_limitations t))]"

text \<open>
  \<open>tuple(sorted(set(value)))\<close> over families, which compare by their string values. The length
  constraints of the fields are checked before the validator removes repetitions.
\<close>

definition ordered_families :: "evidence_family list \<Rightarrow> evidence_family list" where
  "ordered_families fs = sort_key family_value (remdups fs)"

definition trajectory_fields :: "trajectory \<Rightarrow> (string \<times> bool) list" where
  "trajectory_fields t = [(''finding_id'', text_ok (tj_finding_id t)),
     (''system_scope'', text_ok (tj_system_scope t)),
     (''evidence_ids'', 2 \<le> length (tj_evidence_ids t) \<and> texts_ok (tj_evidence_ids t)),
     (''evidence_families'', 2 \<le> length (tj_evidence_families t)),
     (''dependency_graph_snapshot_id'', text_ok (tj_graph_snapshot_id t)),
     (''method'', text_ok (tj_method t)),
     (''assumptions'', tj_assumptions t \<noteq> [] \<and> texts_ok (tj_assumptions t)),
     (''limitations'', tj_limitations t \<noteq> [] \<and> texts_ok (tj_limitations t))]"

definition normalize_trajectory :: "trajectory \<Rightarrow> trajectory" where
  "normalize_trajectory t = t\<lparr>tj_evidence_ids := sorted_set (tj_evidence_ids t),
     tj_evidence_families := ordered_families (tj_evidence_families t)\<rparr>"

definition validate_trajectory :: "trajectory \<Rightarrow> trajectory gov" where
  "validate_trajectory t =
     bindE (check_fields (trajectory_fields t)) (\<lambda>_.
     bindE (validate_window (tj_time_horizon t)) (\<lambda>_. Inr (normalize_trajectory t)))"

fun pairs :: "'a list \<Rightarrow> ('a \<times> 'a) list" where
  "pairs [] = []"
| "pairs (x # xs) = map (Pair x) xs @ pairs xs"

fun anyE :: "('a \<Rightarrow> bool gov) \<Rightarrow> 'a list \<Rightarrow> bool gov" where
  "anyE p [] = Inr False"
| "anyE p (x # xs) = bindE (p x) (\<lambda>b. if b then Inr True else anyE p xs)"

definition node_window :: "graph \<Rightarrow> string \<Rightarrow> source_window gov" where
  "node_window g n =
     (case find_evidence g n of
        Some x \<Rightarrow> Inr (ev_source_window x)
      | None \<Rightarrow> (case find_observation g n of
          Some ob \<Rightarrow> Inr (ob_source_window ob) | None \<Rightarrow> Inl (KeyError n)))"

text \<open>A window that does not meet the horizon; the horizon has both bounds here.\<close>

definition outside_horizon :: "source_window \<Rightarrow> source_window \<Rightarrow> bool" where
  "outside_horizon horizon w =
     (case (started_at w, ended_at w, started_at horizon, ended_at horizon) of
        (Some s, Some e, Some hs, Some he) \<Rightarrow> s > he \<or> e < hs
      | _ \<Rightarrow> True)"

definition trend_available :: "evidence \<Rightarrow> bool" where
  "trend_available x =
     (evidence_family x \<noteq> TREND
      \<or> (ev_payload x \<noteq> None \<and> payload_get x ''status'' JNull = JStr ''available''))"

definition find_evidence_or :: "graph \<Rightarrow> string \<Rightarrow> evidence gov" where
  "find_evidence_or g n = (case find_evidence g n of None \<Rightarrow> Inl (KeyError n) | Some x \<Rightarrow> Inr x)"

definition validate_support ::
  "runtime \<Rightarrow> trajectory \<Rightarrow> graph \<Rightarrow> string \<Rightarrow> string list \<Rightarrow> string list \<Rightarrow> timestamp \<Rightarrow> bool gov" where
  "validate_support R t g finding relevant supporting evaluated =
     (if tj_finding_id t \<noteq> finding \<or> tj_system_scope t \<noteq> g_system_scope g
         \<or> tj_graph_snapshot_id t \<noteq> g_snapshot_id g
      then Inl (ValueError ''trajectory_basis_mismatch'')
      else if tj_evaluated_at t > evaluated
         \<or> (case ended_at (tj_time_horizon t) of None \<Rightarrow> True | Some e \<Rightarrow> e > tj_evaluated_at t)
      then Inl (ValueError ''trajectory_time_horizon_unavailable'')
      else bindE (validate_available_at g (tj_evaluated_at t)) (\<lambda>_.
      if \<not> subset_list (tj_evidence_ids t) relevant
      then Inl (ValueError ''trajectory_evidence_outside_finding'')
      else bindE (mapE (find_evidence_or g) (tj_evidence_ids t)) (\<lambda>items.
      if set (tj_evidence_families t) \<noteq> set (map evidence_family items)
      then Inl (ValueError ''trajectory_family_mismatch'')
      else bindE (mapE (lineage g) (tj_evidence_ids t)) (\<lambda>lss.
      bindE (anyE (\<lambda>n. bindE (node_window g n) (\<lambda>w. Inr (outside_horizon (tj_time_horizon t) w)))
               (remdups (tj_evidence_ids t @ concat lss))) (\<lambda>outside.
      if outside then Inr False
      else if tj_trajectory t = PropagationCandidate
         \<and> \<not> list_ex (\<lambda>x. propagation_supported x (tj_time_horizon t)) items
      then Inr False
      else bindE (anyE (\<lambda>(a, b). bindE (evaluate_independence R g a b) (\<lambda>v.
               Inr (ir_independent v \<and> a \<in> set supporting \<and> b \<in> set supporting)))
               (pairs (sorted_set (tj_evidence_ids t)))) (\<lambda>supported.
      Inr (supported \<and> list_all trend_available items \<and> tj_trajectory t \<noteq> Indeterminate)))))))"

subsection \<open>Construction and support\<close>

lemma ordered_families_idem [simp]: "ordered_families (ordered_families fs) = ordered_families fs"
  by (simp add: ordered_families_def distinct_remdups_id)

lemma normalize_trajectory_idem [simp]: "normalize_trajectory (normalize_trajectory t) = normalize_trajectory t"
  by (simp add: normalize_trajectory_def)

lemma validate_trajectory_form: "validate_trajectory t = Inr u \<Longrightarrow> u = normalize_trajectory t"
  by (auto simp: validate_trajectory_def res_simps)

text \<open>
  A constructed characterization either validates to itself or, when removing repetitions left it
  with fewer than two members, no longer validates.
\<close>

lemma validate_trajectory_again:
  "validate_trajectory t = Inr u \<Longrightarrow> validate_trajectory u = Inr v \<Longrightarrow> v = u"
  by (auto dest!: validate_trajectory_form)

lemma anyE_Inr_True: "anyE p xs = Inr True \<Longrightarrow> \<exists>x \<in> set xs. p x = Inr True"
  by (induction xs) (auto simp: res_simps split: if_splits)

lemma anyE_Inr_False: "anyE p xs = Inr False \<Longrightarrow> \<forall>x \<in> set xs. p x = Inr False"
  by (induction xs) (auto simp: res_simps split: if_splits)

lemma set_pairs: "(a, b) \<in> set (pairs xs) \<Longrightarrow> a \<in> set xs \<and> b \<in> set xs"
  by (induction xs) auto

lemma distinct_pairs: "distinct xs \<Longrightarrow> (a, b) \<in> set (pairs xs) \<Longrightarrow> a \<noteq> b"
  by (induction xs) (auto dest: set_pairs)

lemma validate_support_True:
  assumes "validate_support R t g finding relevant supporting evaluated = Inr True"
  shows "tj_finding_id t = finding" "tj_graph_snapshot_id t = g_snapshot_id g"
    "set (tj_evidence_ids t) \<subseteq> set relevant" "tj_trajectory t \<noteq> Indeterminate"
    "tj_evaluated_at t \<le> evaluated" "validate_available_at g (tj_evaluated_at t) = Inr ()"
    "\<exists>a b v. (a, b) \<in> set (pairs (sorted_set (tj_evidence_ids t)))
       \<and> evaluate_independence R g a b = Inr v \<and> ir_independent v \<and> {a, b} \<subseteq> set supporting"
  using assms
  by (auto simp: validate_support_def res_simps split: if_splits dest!: anyE_Inr_True) blast+

end
