(* ===== verification/Gov_Registry.thy ===== *)
theory Gov_Registry
  imports Gov_Contracts
begin

text \<open>
  Scoped append-only version registries: \<^verbatim>\<open>backend/app/governance/registry.py\<close>, with the ledger
  access of \<^verbatim>\<open>AuthorityDecisionStore\<close> it goes through and the authenticated scope of
  \<^verbatim>\<open>app/engine/sii/behavioral_model_contract.py\<close>. The class is generic in the record type; here its
  properties \<open>registry_scope\<close>, \<open>registry_identity\<close>, \<open>registry_version\<close>, \<open>record_id\<close> and the
  validator of the type are the fields of \<open>registry_ops\<close>. The locale \<open>version_registry\<close> states what the
  registry needs of a record type and proves once what every registry keeps; it is interpreted for
  contexts and for policies in the theories of those records.

  The store keeps one dict of ledgers; the keys of the registries, of the decisions and of the
  adaptation workflow start with different prefixes, so each kind is a map of its own here.
\<close>

subsection \<open>Authenticated scope and ledgers\<close>

record auth_scope =
  tenant_scope_id :: string
  workspace_id :: string
  resource_scope_id :: string
  scope_version :: string

definition scope_dict :: "auth_scope \<Rightarrow> json" where
  "scope_dict s = JObj [(''version'', JStr (scope_version s)),
     (''tenant_scope_id'', JStr (tenant_scope_id s)), (''workspace_id'', JStr (workspace_id s)),
     (''resource_scope_id'', JStr (resource_scope_id s))]"

definition scope_digest :: "runtime \<Rightarrow> auth_scope \<Rightarrow> string" where
  "scope_digest R s = sha256_json R (canonical_json (scope_dict s))"

definition store_key :: "runtime \<Rightarrow> auth_scope \<Rightarrow> string \<Rightarrow> string gov" where
  "store_key R scope system =
     (if strip system = [] then Inl (ValueError ''system_scope_required'')
      else Inr (''evidence_governance_ledger_v1::'' @ scope_digest R scope @ ''::''
                @ content_id R ''system'' (JStr system)))"

record 'r ledger =
  lg_schema :: string
  lg_scope :: auth_scope
  lg_system :: string
  lg_records :: "'r list"

type_synonym 'r ledgers = "string \<Rightarrow> 'r ledger option"

definition open_ledger :: "'r ledger option \<Rightarrow> auth_scope \<Rightarrow> string \<Rightarrow> 'r ledger gov" where
  "open_ledger raw scope system =
     (case raw of
        None \<Rightarrow> Inr \<lparr>lg_schema = ''authority-ledger-v1'', lg_scope = scope, lg_system = system, lg_records = []\<rparr>
      | Some l \<Rightarrow>
          if lg_schema l \<noteq> ''authority-ledger-v1'' \<or> lg_scope l \<noteq> scope \<or> lg_system l \<noteq> system
          then Inl (ValueError ''authority_ledger_scope_or_schema_mismatch'')
          else Inr l)"

lemma open_ledger_fresh [simp]:
  "open_ledger None scope system
     = Inr \<lparr>lg_schema = ''authority-ledger-v1'', lg_scope = scope, lg_system = system, lg_records = []\<rparr>"
  by (simp add: open_ledger_def)

lemma open_ledger_Some: "open_ledger (Some l) scope system = Inr l' \<Longrightarrow> l' = l"
  by (auto simp: open_ledger_def split: if_splits)

lemma open_ledger_header:
  "open_ledger raw scope system = Inr l \<Longrightarrow>
   lg_schema l = ''authority-ledger-v1'' \<and> lg_scope l = scope \<and> lg_system l = system"
  by (auto simp: open_ledger_def split: if_splits option.splits)

lemma reopen_ledger:
  "open_ledger raw scope system = Inr l \<Longrightarrow>
   open_ledger (Some (l\<lparr>lg_records := rs\<rparr>)) scope system = Inr (l\<lparr>lg_records := rs\<rparr>)"
  by (drule open_ledger_header) (simp add: open_ledger_def)

subsection \<open>Effective intervals\<close>

text \<open>Half open: \<open>[start, end)\<close>.\<close>

definition covers :: "timestamp \<Rightarrow> timestamp option \<Rightarrow> timestamp \<Rightarrow> bool" where
  "covers start stop t = (start \<le> t \<and> (case stop of None \<Rightarrow> True | Some e \<Rightarrow> t < e))"

subsection \<open>Operations\<close>

record 'r registry_ops =
  rg_namespace :: string
  rg_validate :: "'r \<Rightarrow> 'r gov"
  rg_scope :: "'r \<Rightarrow> string"
  rg_identity :: "'r \<Rightarrow> string"
  rg_version :: "'r \<Rightarrow> int"
  rg_id :: "'r \<Rightarrow> string"
  rg_supersedes :: "'r \<Rightarrow> string option"
  rg_created :: "'r \<Rightarrow> timestamp"

definition registry_key :: "runtime \<Rightarrow> 'r registry_ops \<Rightarrow> auth_scope \<Rightarrow> string \<Rightarrow> string gov" where
  "registry_key R ops scope system =
     bindE (store_key R scope system) (\<lambda>k. Inr (rg_namespace ops @ ''::'' @ k))"

definition chain_of :: "'r registry_ops \<Rightarrow> string \<Rightarrow> 'r list \<Rightarrow> 'r list" where
  "chain_of ops identity rs = filter (\<lambda>x. rg_identity ops x = identity) rs"

definition registry_update ::
  "'r registry_ops \<Rightarrow> auth_scope \<Rightarrow> 'r \<Rightarrow> 'r ledger option \<Rightarrow> 'r ledger gov" where
  "registry_update ops scope x raw =
     bindE (open_ledger raw scope (rg_scope ops x)) (\<lambda>l.
     bindE (mapE (rg_validate ops) (lg_records l)) (\<lambda>records.
     if x \<in> set records then Inr l
     else
       let chain = chain_of ops (rg_identity ops x) records in
       if chain \<noteq> [] \<and>
          (rg_supersedes ops x \<noteq> Some (rg_id ops (last chain))
           \<or> rg_version ops x \<noteq> rg_version ops (last chain) + 1
           \<or> rg_created ops x < rg_created ops (last chain))
       then Inl (AuthorityRecordConflict ''invalid_registry_successor'')
       else if chain = [] \<and> (rg_version ops x \<noteq> 1 \<or> rg_supersedes ops x \<noteq> None)
       then Inl (AuthorityRecordConflict ''registry_predecessor_missing'')
       else Inr (l\<lparr>lg_records := lg_records l @ [x]\<rparr>)))"

definition registry_append ::
  "runtime \<Rightarrow> 'r registry_ops \<Rightarrow> auth_scope \<Rightarrow> 'r \<Rightarrow> 'r ledgers \<Rightarrow> ('r ledgers \<times> 'r) gov" where
  "registry_append R ops scope x store =
     bindE (rg_validate ops x) (\<lambda>x.
     bindE (registry_key R ops scope (rg_scope ops x)) (\<lambda>key.
     bindE (registry_update ops scope x (store key)) (\<lambda>l.
     bindE (rg_validate ops x) (\<lambda>y. Inr (store(key \<mapsto> l), y)))))"

definition registry_history ::
  "runtime \<Rightarrow> 'r registry_ops \<Rightarrow> auth_scope \<Rightarrow> string \<Rightarrow> 'r ledgers \<Rightarrow> 'r list gov" where
  "registry_history R ops scope system store =
     bindE (registry_key R ops scope system) (\<lambda>key.
     bindE (open_ledger (store key) scope system) (\<lambda>l.
     mapE (rg_validate ops) (lg_records l)))"

definition registry_as_of ::
  "runtime \<Rightarrow> 'r registry_ops \<Rightarrow> auth_scope \<Rightarrow> string \<Rightarrow> timestamp \<Rightarrow> 'r ledgers \<Rightarrow> 'r list gov" where
  "registry_as_of R ops scope system t store =
     bindE (registry_history R ops scope system store) (\<lambda>rs.
     Inr (filter (\<lambda>x. rg_created ops x \<le> t) rs))"

fun registry_appends ::
  "runtime \<Rightarrow> 'r registry_ops \<Rightarrow> (auth_scope \<times> 'r) list \<Rightarrow> 'r ledgers \<Rightarrow> 'r ledgers" where
  "registry_appends R ops [] store = store"
| "registry_appends R ops ((scope, x) # xs) store =
     (case registry_append R ops scope x store of
        Inl e \<Rightarrow> registry_appends R ops xs store
      | Inr (store', y) \<Rightarrow> registry_appends R ops xs store')"

subsection \<open>What a registry keeps\<close>

definition successor_ok :: "'r registry_ops \<Rightarrow> 'r \<Rightarrow> 'r \<Rightarrow> bool" where
  "successor_ok ops p x = (rg_supersedes ops x = Some (rg_id ops p)
     \<and> rg_version ops x = rg_version ops p + 1 \<and> rg_created ops p \<le> rg_created ops x)"

definition chain_ok :: "'r registry_ops \<Rightarrow> 'r list \<Rightarrow> bool" where
  "chain_ok ops xs = ((xs = [] \<or> rg_version ops (hd xs) = 1 \<and> rg_supersedes ops (hd xs) = None)
     \<and> successively (successor_ok ops) xs)"

definition records_ok :: "'r registry_ops \<Rightarrow> string \<Rightarrow> 'r list \<Rightarrow> bool" where
  "records_ok ops system rs \<longleftrightarrow>
     (\<forall>x \<in> set rs. rg_validate ops x = Inr x \<and> rg_scope ops x = system)
     \<and> distinct rs \<and> (\<forall>i. chain_ok ops (chain_of ops i rs))"

definition store_ok :: "'r registry_ops \<Rightarrow> 'r ledgers \<Rightarrow> bool" where
  "store_ok ops store = (\<forall>k l. store k = Some l \<longrightarrow> records_ok ops (lg_system l) (lg_records l))"

lemma chain_of_snoc:
  "chain_of ops i (rs @ [x]) = chain_of ops i rs @ (if rg_identity ops x = i then [x] else [])"
  by (simp add: chain_of_def)

lemma chain_ok_snoc:
  "chain_ok ops (xs @ [x]) \<longleftrightarrow> chain_ok ops xs \<and>
     (if xs = [] then rg_version ops x = 1 \<and> rg_supersedes ops x = None else successor_ok ops (last xs) x)"
  unfolding chain_ok_def successively_append_iff by (cases "xs = []") (auto simp: hd_append)

lemma chain_versions:
  "chain_ok ops xs \<Longrightarrow> map (rg_version ops) xs = map (\<lambda>n. int n + 1) [0..<length xs]"
proof (induction xs rule: rev_induct)
  case (snoc x xs)
  then have IH: "map (rg_version ops) xs = map (\<lambda>n. int n + 1) [0..<length xs]"
    by (simp add: chain_ok_snoc)
  have "rg_version ops x = int (length xs) + 1"
  proof (cases xs rule: rev_cases)
    case Nil
    with snoc.prems show ?thesis by (simp add: chain_ok_def)
  next
    case s: (snoc ys y)
    from IH have "rg_version ops y = int (length ys) + 1" by (simp add: s)
    moreover have "successor_ok ops y x" using snoc.prems chain_ok_snoc [of ops xs x] by (simp add: s)
    ultimately show ?thesis by (simp add: s successor_ok_def)
  qed
  with IH show ?case by simp
qed simp

lemma chain_created_sorted: "chain_ok ops xs \<Longrightarrow> sorted (map (rg_created ops) xs)"
proof (induction xs rule: rev_induct)
  case (snoc x xs)
  then have IH: "sorted (map (rg_created ops) xs)" by (simp add: chain_ok_snoc)
  have "\<forall>y \<in> set xs. rg_created ops y \<le> rg_created ops x"
  proof (cases xs rule: rev_cases)
    case s: (snoc ys y)
    have "rg_created ops y \<le> rg_created ops x"
      using snoc.prems chain_ok_snoc [of ops xs x] by (simp add: s successor_ok_def)
    with IH show ?thesis by (auto simp: s sorted_append)
  qed simp
  with IH show ?case by (simp add: sorted_append)
qed simp

lemma filter_sorted_prefix:
  "sorted (map f xs) \<Longrightarrow> filter (\<lambda>x. f x \<le> t) xs = takeWhile (\<lambda>x. f x \<le> t) xs"
proof (induction xs)
  case (Cons x xs)
  show ?case
  proof (cases "f x \<le> t")
    case False
    with Cons.prems have "\<forall>y \<in> set xs. \<not> f y \<le> t" by auto
    then show ?thesis using False by simp
  qed (use Cons in simp)
qed simp

lemma chain_of_filter: "chain_of ops i (filter P rs) = filter P (chain_of ops i rs)"
  by (simp add: chain_of_def conj_commute)

locale version_registry =
  fixes ops :: "'r registry_ops"
  assumes validate_idem: "rg_validate ops x = Inr y \<Longrightarrow> rg_validate ops y = Inr y"
begin

lemma records_validate: "records_ok ops s rs \<Longrightarrow> mapE (rg_validate ops) rs = Inr rs"
  by (rule mapE_id) (simp add: records_ok_def)

lemma update_cases:
  assumes "registry_update ops scope x raw = Inr l'" and "rg_validate ops x = Inr x"
    and "\<And>l. raw = Some l \<Longrightarrow> records_ok ops (lg_system l) (lg_records l)"
  obtains l where "open_ledger raw scope (rg_scope ops x) = Inr l" and "records_ok ops (rg_scope ops x) (lg_records l')"
    "l' = l \<and> x \<in> set (lg_records l) \<or> l' = l\<lparr>lg_records := lg_records l @ [x]\<rparr> \<and> x \<notin> set (lg_records l)"
proof -
  from assms(1) obtain l where l: "open_ledger raw scope (rg_scope ops x) = Inr l"
    by (auto simp: registry_update_def res_simps)
  have ok: "records_ok ops (rg_scope ops x) (lg_records l)"
  proof (cases raw)
    case None
    with l show ?thesis by (auto simp: records_ok_def chain_of_def chain_ok_def)
  next
    case (Some l0)
    with l assms(3) open_ledger_header [OF l] show ?thesis by (auto dest: open_ledger_Some)
  qed
  note v = records_validate [OF ok]
  show thesis
  proof (cases "x \<in> set (lg_records l)")
    case True
    with assms(1) l v have "l' = l" by (simp add: registry_update_def)
    with that l ok True show thesis by blast
  next
    case False
    let ?c = "chain_of ops (rg_identity ops x) (lg_records l)"
    from assms(1) l v False have l': "l' = l\<lparr>lg_records := lg_records l @ [x]\<rparr>"
      and c: "if ?c = [] then rg_version ops x = 1 \<and> rg_supersedes ops x = None
              else successor_ok ops (last ?c) x"
      by (auto simp: registry_update_def Let_def successor_ok_def split: if_splits)
    have "records_ok ops (rg_scope ops x) (lg_records l')"
      using ok c False assms(2) by (auto simp: records_ok_def l' chain_of_snoc chain_ok_snoc)
    with that l l' False show thesis by blast
  qed
qed

lemma append_cases:
  assumes a: "registry_append R ops scope x store = Inr (store', y)" and ok: "store_ok ops store"
  obtains key l l' where "rg_validate ops x = Inr y" "rg_validate ops y = Inr y"
    "registry_key R ops scope (rg_scope ops y) = Inr key"
    "open_ledger (store key) scope (rg_scope ops y) = Inr l"
    "store' = store(key \<mapsto> l')" "records_ok ops (rg_scope ops y) (lg_records l')" "y \<in> set (lg_records l')"
    "l' = l \<and> y \<in> set (lg_records l) \<or> l' = l\<lparr>lg_records := lg_records l @ [y]\<rparr> \<and> y \<notin> set (lg_records l)"
proof -
  from a obtain z key l' where z: "rg_validate ops x = Inr z" "rg_validate ops z = Inr y"
    and key: "registry_key R ops scope (rg_scope ops z) = Inr key"
    and u: "registry_update ops scope z (store key) = Inr l'" and s: "store' = store(key \<mapsto> l')"
    by (auto simp: registry_append_def res_simps)
  have zy: "z = y" using z validate_idem by (metis sum.inject(2))
  have "records_ok ops (lg_system l) (lg_records l)" if "store key = Some l" for l
    using ok that by (auto simp: store_ok_def)
  with update_cases [OF u] z zy obtain l where
    "open_ledger (store key) scope (rg_scope ops z) = Inr l" "records_ok ops (rg_scope ops z) (lg_records l')"
    "l' = l \<and> z \<in> set (lg_records l) \<or> l' = l\<lparr>lg_records := lg_records l @ [z]\<rparr> \<and> z \<notin> set (lg_records l)"
    by metis
  with z key s zy show thesis by (intro that) auto
qed

lemma append_keeps:
  assumes "registry_append R ops scope x store = Inr (store', y)" and "store_ok ops store"
  shows "store_ok ops store'"
proof -
  from append_cases [OF assms] obtain key l l' where
    "open_ledger (store key) scope (rg_scope ops y) = Inr l" and s: "store' = store(key \<mapsto> l')"
    and r: "records_ok ops (rg_scope ops y) (lg_records l')"
    and l': "l' = l \<or> l' = l\<lparr>lg_records := lg_records l @ [y]\<rparr>" by metis
  then have "lg_system l' = rg_scope ops y" using open_ledger_header by fastforce
  with r s assms(2) show ?thesis by (auto simp: store_ok_def)
qed

lemma appends_keep: "store_ok ops store \<Longrightarrow> store_ok ops (registry_appends R ops xs store)"
proof (induction xs arbitrary: store)
  case (Cons p xs)
  then show ?case by (cases p) (auto split: sum.splits prod.splits dest: append_keeps)
qed simp

lemma history_Inr:
  assumes "registry_history R ops scope system store = Inr rs" and "store_ok ops store"
  shows "records_ok ops system rs"
proof -
  from assms(1) obtain key l where l: "open_ledger (store key) scope system = Inr l"
    and rs: "mapE (rg_validate ops) (lg_records l) = Inr rs"
    by (auto simp: registry_history_def res_simps)
  have "records_ok ops system (lg_records l)"
  proof (cases "store key")
    case None
    with l show ?thesis by (auto simp: records_ok_def chain_of_def chain_ok_def)
  next
    case (Some l0)
    with l open_ledger_header [OF l] assms(2) show ?thesis
      by (auto simp: store_ok_def dest: open_ledger_Some)
  qed
  with records_validate [OF this] rs show ?thesis by simp
qed

lemma history_append:
  assumes a: "registry_append R ops scope x store = Inr (store', y)" and ok: "store_ok ops store"
  shows "\<exists>rs rs'. registry_history R ops scope (rg_scope ops y) store = Inr rs
    \<and> registry_history R ops scope (rg_scope ops y) store' = Inr rs'
    \<and> rs' = (if y \<in> set rs then rs else rs @ [y])"
proof -
  from append_cases [OF a ok] obtain key l l' where
    key: "registry_key R ops scope (rg_scope ops y) = Inr key"
    and l: "open_ledger (store key) scope (rg_scope ops y) = Inr l"
    and s: "store' = store(key \<mapsto> l')" and r: "records_ok ops (rg_scope ops y) (lg_records l')"
    and l': "l' = l \<and> y \<in> set (lg_records l) \<or> l' = l\<lparr>lg_records := lg_records l @ [y]\<rparr> \<and> y \<notin> set (lg_records l)"
    by metis
  have "mapE (rg_validate ops) (lg_records l') = Inr (lg_records l')" by (rule records_validate [OF r])
  moreover have "mapE (rg_validate ops) (lg_records l) = Inr (lg_records l)"
    using r l' by (intro mapE_id) (auto simp: records_ok_def)
  moreover have "open_ledger (store' key) scope (rg_scope ops y) = Inr l'"
    using reopen_ledger [OF l] l' by (auto simp: s) (metis ledger.surjective ledger.update_convs(4))
  ultimately show ?thesis using key l l' by (auto simp: registry_history_def)
qed

lemma append_retry:
  assumes a: "registry_append R ops scope x store = Inr (store', y)" and ok: "store_ok ops store"
  shows "registry_append R ops scope x store' = Inr (store', y)"
proof -
  from append_cases [OF a ok] obtain key l l' where v: "rg_validate ops x = Inr y" "rg_validate ops y = Inr y"
    and key: "registry_key R ops scope (rg_scope ops y) = Inr key"
    and l: "open_ledger (store key) scope (rg_scope ops y) = Inr l"
    and s: "store' = store(key \<mapsto> l')" and r: "records_ok ops (rg_scope ops y) (lg_records l')"
    and y: "y \<in> set (lg_records l')"
    and l': "l' = l \<and> y \<in> set (lg_records l) \<or> l' = l\<lparr>lg_records := lg_records l @ [y]\<rparr> \<and> y \<notin> set (lg_records l)"
    by metis
  have "open_ledger (Some l') scope (rg_scope ops y) = Inr l'"
    using reopen_ledger [OF l] l' by (metis ledger.surjective ledger.update_convs(4))
  with records_validate [OF r] y have "registry_update ops scope y (Some l') = Inr l'"
    by (simp add: registry_update_def)
  with v key s show ?thesis by (simp add: registry_append_def)
qed

lemma as_of_prefix:
  assumes "registry_as_of R ops scope system t store = Inr ks"
    and "registry_history R ops scope system store = Inr rs" and "store_ok ops store"
  shows "chain_of ops i ks = takeWhile (\<lambda>x. rg_created ops x \<le> t) (chain_of ops i rs)"
proof -
  have ks: "ks = filter (\<lambda>x. rg_created ops x \<le> t) rs" using assms(1,2) by (simp add: registry_as_of_def)
  have "chain_ok ops (chain_of ops i rs)"
    using history_Inr [OF assms(2,3)] by (simp add: records_ok_def)
  then show ?thesis
    unfolding ks chain_of_filter by (intro filter_sorted_prefix chain_created_sorted)
qed

lemma empty_store_ok: "store_ok ops (\<lambda>k. None)"
  by (simp add: store_ok_def)

end

end
