(* ===== verification/Gov_Context.thy ===== *)
theory Gov_Context
  imports Gov_Registry
begin

text \<open>
  The context registry, \<^verbatim>\<open>backend/app/governance/context.py\<close>: versioned context records, the frozen
  basis an evaluation qualifies, and the qualification, which names for every record why it counts
  or does not. The registry laws are those of the locale \<open>version_registry\<close>, interpreted here.
\<close>

datatype context_type =
    INFRASTRUCTURE_IDENTITY | OPERATING_CONTEXT | ENGINEERING_CONSTRAINT | COMMISSIONING_REFERENCE
  | MAINTENANCE_EVENT | CALIBRATION_EVENT | SETPOINT_CHANGE | MODEL_HISTORY | BASELINE_HISTORY
  | ADAPTATION_EVENT | EXTERNAL_ANCHOR

fun context_type_value :: "context_type \<Rightarrow> string" where
  "context_type_value INFRASTRUCTURE_IDENTITY = ''infrastructure_identity''"
| "context_type_value OPERATING_CONTEXT = ''operating_context''"
| "context_type_value ENGINEERING_CONSTRAINT = ''engineering_constraint''"
| "context_type_value COMMISSIONING_REFERENCE = ''commissioning_reference''"
| "context_type_value MAINTENANCE_EVENT = ''maintenance_event''"
| "context_type_value CALIBRATION_EVENT = ''calibration_event''"
| "context_type_value SETPOINT_CHANGE = ''setpoint_change''"
| "context_type_value MODEL_HISTORY = ''model_history''"
| "context_type_value BASELINE_HISTORY = ''baseline_history''"
| "context_type_value ADAPTATION_EVENT = ''adaptation_event''"
| "context_type_value EXTERNAL_ANCHOR = ''external_anchor''"

datatype verification_status = Verified | PartiallyVerified | Unverified | Invalidated

fun verification_value :: "verification_status \<Rightarrow> string" where
  "verification_value Verified = ''verified''"
| "verification_value PartiallyVerified = ''partially_verified''"
| "verification_value Unverified = ''unverified''"
| "verification_value Invalidated = ''invalidated''"

record context_object =
  context_id :: string
  context_key :: string
  context_type :: context_type
  cx_system_scope :: string
  cx_source_type :: string
  cx_source_reference :: string
  cx_provenance :: provenance
  verification_status :: verification_status
  cx_effective_from :: timestamp
  cx_effective_to :: "timestamp option"
  cx_created_at :: timestamp
  cx_version :: int
  cx_supersedes :: "string option"
  validity_conditions :: jdict
  cx_payload :: jdict

definition context_body :: "context_object \<Rightarrow> jdict" where
  "context_body x = [(''schema_version'', JStr ''context-v1''),
     (''context_key'', JStr (context_key x)),
     (''context_type'', JStr (context_type_value (context_type x))),
     (''system_scope'', JStr (cx_system_scope x)), (''source_type'', JStr (cx_source_type x)),
     (''source_reference'', JStr (cx_source_reference x)),
     (''provenance'', provenance_dict (cx_provenance x)),
     (''verification_status'', JStr (verification_value (verification_status x))),
     (''effective_from'', JTime (cx_effective_from x)),
     (''effective_to'', jopt JTime (cx_effective_to x)), (''created_at'', JTime (cx_created_at x)),
     (''version'', JInt (cx_version x)), (''supersedes'', jopt JStr (cx_supersedes x)),
     (''validity_conditions'', JObj (validity_conditions x)), (''payload'', JObj (cx_payload x))]"

definition context_dict :: "context_object \<Rightarrow> json" where
  "context_dict x = JObj ((''context_id'', JStr (context_id x)) # context_body x)"

definition context_fields :: "runtime \<Rightarrow> context_object \<Rightarrow> (string \<times> bool) list" where
  "context_fields R x = [(''context_key'', text_ok (context_key x)),
     (''system_scope'', text_ok (cx_system_scope x)), (''source_type'', text_ok (cx_source_type x)),
     (''source_reference'', text_ok (cx_source_reference x)),
     (''provenance'', provenance_ok (cx_provenance x)), (''version'', version_ok (cx_version x)),
     (''supersedes'', text_opt_ok (cx_supersedes x)),
     (''validity_conditions'', bounded R (validity_conditions x)),
     (''payload'', bounded R (cx_payload x))]"

definition context_interval :: "context_object \<Rightarrow> context_object gov" where
  "context_interval x =
     (if (case cx_effective_to x of None \<Rightarrow> False | Some e \<Rightarrow> e \<le> cx_effective_from x)
      then Inl (ValueError ''empty_or_reversed_context_interval'')
      else if (cx_version x = 1) \<noteq> (cx_supersedes x = None)
      then Inl (ValueError ''context_version_requires_predecessor'')
      else Inr x)"

definition validate_context :: "runtime \<Rightarrow> context_object \<Rightarrow> context_object gov" where
  "validate_context R x =
     bindE (check_fields (context_fields R x)) (\<lambda>_.
     bindE (validate_identity R ''context'' ''context_id'' (JObj (context_body x)) (context_id x)) (\<lambda>i.
     context_interval (x\<lparr>context_id := i\<rparr>)))"

lemma validate_context_form:
  "validate_context R x = Inr y \<Longrightarrow>
   y = x\<lparr>context_id := content_id R ''context'' (JObj (context_body x))\<rparr>"
  by (auto simp: validate_context_def res_simps validate_identity_Inr context_interval_def split: if_splits)

lemma context_simps [simp]:
  "context_body (x\<lparr>context_id := i\<rparr>) = context_body x"
  "context_fields R (x\<lparr>context_id := i\<rparr>) = context_fields R x"
  by (simp_all add: context_body_def context_fields_def)

lemma validate_context_idem:
  assumes "validate_context R x = Inr y"
  shows "validate_context R y = Inr y"
  using assms validate_context_form [OF assms]
  by (auto simp: validate_context_def res_simps validate_identity_Inr context_interval_def split: if_splits)

definition context_ops :: "runtime \<Rightarrow> context_object registry_ops" where
  "context_ops R = \<lparr>rg_namespace = ''context-registry-v1'', rg_validate = validate_context R,
     rg_scope = cx_system_scope, rg_identity = context_key, rg_version = cx_version,
     rg_id = context_id, rg_supersedes = cx_supersedes, rg_created = cx_created_at\<rparr>"

interpretation contexts: version_registry "context_ops R" for R
  by unfold_locales (auto simp: context_ops_def intro: validate_context_idem)

subsection \<open>The frozen basis\<close>

record context_basis =
  cb_system_scope :: string
  cb_evaluated_at :: timestamp
  cb_relevant_at :: timestamp
  cb_records :: "context_object list"
  cb_facts :: jdict
  cb_facts_available_at :: timestamp
  cb_facts_provenance :: provenance

definition basis_dict :: "context_basis \<Rightarrow> jdict" where
  "basis_dict b = [(''system_scope'', JStr (cb_system_scope b)),
     (''evaluated_at'', JTime (cb_evaluated_at b)), (''relevant_at'', JTime (cb_relevant_at b)),
     (''records'', JList (map context_dict (cb_records b))), (''facts'', JObj (cb_facts b)),
     (''facts_available_at'', JTime (cb_facts_available_at b)),
     (''facts_provenance'', provenance_dict (cb_facts_provenance b))]"

definition record_order :: "context_object \<Rightarrow> string \<times> string \<times> int" where
  "record_order x = (cx_system_scope x, context_key x, cx_version x)"

definition ordered_records :: "context_object list \<Rightarrow> context_object list" where
  "ordered_records xs = sort_key record_order xs"

text \<open>
  A chain of the basis, its records of one scope and key sorted by version. The source groups the
  records in a dict and then sorts each group; the first record of each group names it here.
\<close>

definition basis_chain :: "context_object list \<Rightarrow> context_object \<Rightarrow> context_object list" where
  "basis_chain xs y = sort_key cx_version
     (filter (\<lambda>x. cx_system_scope x = cx_system_scope y \<and> context_key x = context_key y) xs)"

fun complete_chain :: "int \<Rightarrow> context_object option \<Rightarrow> context_object list \<Rightarrow> bool" where
  "complete_chain n prev [] = True"
| "complete_chain n prev (x # xs) =
     (cx_version x = n + 1
      \<and> (case prev of None \<Rightarrow> True
         | Some p \<Rightarrow> cx_supersedes x = Some (context_id p) \<and> cx_created_at p \<le> cx_created_at x)
      \<and> complete_chain (n + 1) (Some x) xs)"

definition basis_available :: "context_basis \<Rightarrow> context_basis gov" where
  "basis_available b =
     (if cb_relevant_at b > cb_evaluated_at b \<or> cb_facts_available_at b > cb_evaluated_at b
      then Inl (ValueError ''future_context_facts_or_relevant_time'')
      else if list_ex (\<lambda>x. cx_created_at x > cb_evaluated_at b) (cb_records b)
      then Inl (ValueError ''future_context_knowledge'')
      else if \<not> distinct (map context_id (cb_records b))
      then Inl (ValueError ''duplicate_context_version'')
      else if list_ex (\<lambda>x. \<not> complete_chain 0 None (basis_chain (cb_records b) x)) (cb_records b)
      then Inl (ValueError ''incomplete_or_ambiguous_context_history'')
      else Inr b)"

definition basis_fields :: "runtime \<Rightarrow> context_basis \<Rightarrow> (string \<times> bool) list" where
  "basis_fields R b = [(''system_scope'', text_ok (cb_system_scope b)), (''facts'', bounded R (cb_facts b)),
     (''facts_provenance'', provenance_ok (cb_facts_provenance b))]"

definition validate_basis :: "runtime \<Rightarrow> context_basis \<Rightarrow> context_basis gov" where
  "validate_basis R b =
     bindE (check_fields (basis_fields R b)) (\<lambda>_.
     bindE (mapE (validate_context R) (cb_records b)) (\<lambda>rs.
     basis_available (b\<lparr>cb_records := ordered_records rs\<rparr>)))"

definition validate_historical_basis :: "runtime \<Rightarrow> context_basis \<Rightarrow> context_basis \<Rightarrow> unit gov" where
  "validate_historical_basis R b original =
     (let known = filter (\<lambda>x. cx_created_at x \<le> cb_evaluated_at original) (cb_records b) in
      bindE (validate_basis R (original\<lparr>cb_records := known\<rparr>)) (\<lambda>reconstructed.
      if reconstructed \<noteq> original then Inl (ValueError ''maturity_context_history_mismatch'')
      else Inr ()))"

lemma basis_available_Inr: "basis_available b = Inr c \<Longrightarrow> c = b"
  by (auto simp: basis_available_def split: if_splits)

lemma ordered_records_idem [simp]: "ordered_records (ordered_records xs) = ordered_records xs"
  by (simp add: ordered_records_def)

lemma set_ordered_records [simp]: "set (ordered_records xs) = set xs"
  by (simp add: ordered_records_def)

lemma basis_fields_records [simp]: "basis_fields R (b\<lparr>cb_records := rs\<rparr>) = basis_fields R b"
  by (simp add: basis_fields_def)

lemma validate_basis_Inr:
  assumes "validate_basis R b = Inr c"
  shows "(\<forall>x \<in> set (cb_records c). validate_context R x = Inr x) \<and> ordered_records (cb_records c) = cb_records c
    \<and> basis_available c = Inr c \<and> check_fields (basis_fields R c) = Inr ()
    \<and> cb_system_scope c = cb_system_scope b \<and> cb_evaluated_at c = cb_evaluated_at b
    \<and> cb_relevant_at c = cb_relevant_at b \<and> cb_facts c = cb_facts b"
proof -
  from assms obtain rs where rs: "mapE (validate_context R) (cb_records b) = Inr rs"
    and f: "check_fields (basis_fields R b) = Inr ()"
    and a: "basis_available (b\<lparr>cb_records := ordered_records rs\<rparr>) = Inr c"
    by (auto simp: validate_basis_def res_simps)
  have c: "c = b\<lparr>cb_records := ordered_records rs\<rparr>" using a by (rule basis_available_Inr)
  have "validate_context R x = Inr x" if "x \<in> set (cb_records c)" for x
  proof -
    have "x \<in> set rs" using that by (simp add: c)
    from mapE_Inr_mem [OF rs this] show ?thesis by (auto intro: validate_context_idem)
  qed
  then show ?thesis using a f by (simp add: c)
qed

lemma validate_basis_idem: "validate_basis R b = Inr c \<Longrightarrow> validate_basis R c = Inr c"
  by (drule validate_basis_Inr) (simp add: validate_basis_def mapE_id)

subsection \<open>Qualification\<close>

record qualification =
  applicable_context_ids :: "string list"
  rejected_context_ids :: "string list"
  verification_statuses :: "(string \<times> verification_status) list"
  qualification_reasons :: "string list"
  limiting_context :: "string list"
  unavailable_context :: "string list"
  cq_evaluated_at :: timestamp

definition QUALIFYING_TYPES :: "context_type list" where
  "QUALIFYING_TYPES = [ENGINEERING_CONSTRAINT, COMMISSIONING_REFERENCE, MAINTENANCE_EVENT,
     CALIBRATION_EVENT, SETPOINT_CHANGE, EXTERNAL_ANCHOR]"

text \<open>\<open>latest\<close>: the record of the highest version per scope and key, the first of equals.\<close>

type_synonym latest_map = "(string \<times> string) \<Rightarrow> context_object option"

fun latest_of :: "context_object list \<Rightarrow> latest_map \<Rightarrow> latest_map" where
  "latest_of [] m = m"
| "latest_of (x # xs) m =
     (let k = (cx_system_scope x, context_key x) in
      latest_of xs (case m k of
          None \<Rightarrow> m(k \<mapsto> x)
        | Some y \<Rightarrow> if cx_version x > cx_version y then m(k \<mapsto> x) else m))"

definition conditions_hold :: "jdict \<Rightarrow> jdict \<Rightarrow> bool" where
  "conditions_hold facts conditions =
     list_all (\<lambda>(k, v). (case map_of facts k of
         None \<Rightarrow> False | Some f \<Rightarrow> canonical_json f = canonical_json v)) conditions"

definition qualification_reason ::
  "context_object \<Rightarrow> context_basis \<Rightarrow> latest_map \<Rightarrow> bool \<Rightarrow> string option" where
  "qualification_reason x b latest external_only =
     (if cx_system_scope x \<noteq> cb_system_scope b then Some ''scope_mismatch''
      else if latest (cx_system_scope x, context_key x) \<noteq> Some x then Some ''superseded''
      else if verification_status x = Invalidated then Some ''invalidated''
      else if \<not> covers (cx_effective_from x) (cx_effective_to x) (cb_relevant_at b)
      then Some ''outside_effective_interval''
      else if \<not> conditions_hold (cb_facts b) (validity_conditions x)
      then Some ''validity_conditions_unsatisfied''
      else if external_only \<and> context_type x \<notin> set QUALIFYING_TYPES
      then Some ''not_external_qualification''
      else if verification_status x \<noteq> Verified then Some ''verification_limited''
      else None)"

definition qualify_in :: "context_basis \<Rightarrow> bool \<Rightarrow> qualification" where
  "qualify_in b external_only =
     (let latest = latest_of (cb_records b) (\<lambda>_. None);
          reason = (\<lambda>x. qualification_reason x b latest external_only);
          items = sort_key context_id (cb_records b);
          accepted = map context_id (filter (\<lambda>x. reason x = None) items);
          rejected = map context_id (filter (\<lambda>x. reason x \<noteq> None) items)
      in \<lparr>applicable_context_ids = accepted, rejected_context_ids = rejected,
          verification_statuses = map (\<lambda>x. (context_id x, verification_status x)) (cb_records b),
          qualification_reasons = map (\<lambda>x. context_id x @ '':'' @
             (case reason x of None \<Rightarrow> ''verified_applicable_anchor'' | Some r \<Rightarrow> r)) items,
          limiting_context = rejected,
          unavailable_context = (if accepted \<noteq> [] then [] else [''verified_applicable_external_anchor'']),
          cq_evaluated_at = cb_evaluated_at b\<rparr>)"

definition qualify_context :: "runtime \<Rightarrow> context_basis \<Rightarrow> bool \<Rightarrow> qualification gov" where
  "qualify_context R b external_only =
     bindE (validate_basis R b) (\<lambda>b. Inr (qualify_in b external_only))"

definition newer :: "context_object option \<Rightarrow> context_object \<Rightarrow> context_object option" where
  "newer m x = (case m of None \<Rightarrow> Some x | Some y \<Rightarrow> if cx_version x > cx_version y then Some x else Some y)"

lemma latest_of_at:
  "latest_of xs m k = foldl newer (m k) (filter (\<lambda>x. (cx_system_scope x, context_key x) = k) xs)"
  by (induction xs arbitrary: m) (auto simp: Let_def newer_def fun_upd_def split: option.splits)

lemma newest_Some:
  "foldl newer m xs = Some y \<Longrightarrow>
   (y \<in> set xs \<or> m = Some y) \<and> (\<forall>x \<in> set xs. cx_version x \<le> cx_version y)
   \<and> (\<forall>z. m = Some z \<longrightarrow> cx_version z \<le> cx_version y)"
proof (induction xs arbitrary: m)
  case (Cons x xs)
  from Cons.IH [of "newer m x"] Cons.prems show ?case
    by (cases m) (auto simp: newer_def split: if_splits)
qed simp

lemma newest_None: "foldl newer m xs = None \<longleftrightarrow> m = None \<and> xs = []"
  by (induction xs arbitrary: m) (auto simp: newer_def split: option.splits)

lemma latest_of_Some:
  assumes "latest_of xs (\<lambda>_. None) (cx_system_scope x, context_key x) = Some y"
  shows "y \<in> set xs \<and> cx_system_scope y = cx_system_scope x \<and> context_key y = context_key x
    \<and> (\<forall>z \<in> set xs. cx_system_scope z = cx_system_scope x \<and> context_key z = context_key x
         \<longrightarrow> cx_version z \<le> cx_version y)"
  using newest_Some [OF assms [unfolded latest_of_at]] by auto

lemma latest_of_exists:
  "x \<in> set xs \<Longrightarrow> \<exists>y. latest_of xs (\<lambda>_. None) (cx_system_scope x, context_key x) = Some y"
  by (simp add: latest_of_at newest_None filter_empty_conv flip: not_None_eq) auto

text \<open>In a complete chain no two records have the same version.\<close>

lemma complete_chain_versions:
  "complete_chain n prev xs \<Longrightarrow> (\<forall>x \<in> set xs. n < cx_version x) \<and> distinct (map cx_version xs)"
proof (induction xs arbitrary: n prev)
  case (Cons x xs)
  from Cons.IH [of "n + 1" "Some x"] Cons.prems show ?case by fastforce
qed simp

lemma basis_unique_version:
  assumes "basis_available b = Inr b" and "x \<in> set (cb_records b)" and "y \<in> set (cb_records b)"
    and "cx_system_scope y = cx_system_scope x" and "context_key y = context_key x"
    and "cx_version y = cx_version x"
  shows "y = x"
proof -
  let ?c = "basis_chain (cb_records b) x"
  have "complete_chain 0 None ?c"
    using assms(1,2) by (auto simp: basis_available_def list_ex_iff split: if_splits)
  from complete_chain_versions [OF this] have "distinct (map cx_version ?c)" by simp
  moreover have "x \<in> set ?c" "y \<in> set ?c" using assms by (simp_all add: basis_chain_def)
  ultimately show ?thesis using assms(6) by (auto simp: distinct_map dest: inj_onD)
qed

lemma latest_iff:
  assumes "basis_available b = Inr b" and "x \<in> set (cb_records b)"
  shows "latest_of (cb_records b) (\<lambda>_. None) (cx_system_scope x, context_key x) = Some x \<longleftrightarrow>
    (\<forall>y \<in> set (cb_records b). cx_system_scope y = cx_system_scope x \<and> context_key y = context_key x
      \<longrightarrow> cx_version y \<le> cx_version x)" (is "?l = Some x \<longleftrightarrow> ?max")
proof
  assume ?max
  from latest_of_exists [OF assms(2)] obtain y where y: "?l = Some y" by blast
  from latest_of_Some [OF y] \<open>?max\<close> assms(2) have "y \<in> set (cb_records b)" "cx_system_scope y = cx_system_scope x"
    "context_key y = context_key x" "cx_version y = cx_version x" by force+
  with basis_unique_version [OF assms] y show "?l = Some x" by simp
next
  assume "?l = Some x"
  from latest_of_Some [OF this] show ?max by blast
qed

lemma reason_None:
  "qualification_reason x b latest ext = None \<longleftrightarrow>
     cx_system_scope x = cb_system_scope b \<and> latest (cx_system_scope x, context_key x) = Some x
     \<and> verification_status x = Verified
     \<and> covers (cx_effective_from x) (cx_effective_to x) (cb_relevant_at b)
     \<and> conditions_hold (cb_facts b) (validity_conditions x)
     \<and> (ext \<longrightarrow> context_type x \<in> set QUALIFYING_TYPES)"
  by (auto simp: qualification_reason_def)

lemma set_applicable:
  "set (applicable_context_ids (qualify_in b ext)) = context_id ` {x \<in> set (cb_records b).
     qualification_reason x b (latest_of (cb_records b) (\<lambda>_. None)) ext = None}"
  by (simp add: qualify_in_def Let_def)

lemma set_rejected:
  "set (rejected_context_ids (qualify_in b ext)) = context_id ` {x \<in> set (cb_records b).
     qualification_reason x b (latest_of (cb_records b) (\<lambda>_. None)) ext \<noteq> None}"
  by (simp add: qualify_in_def Let_def)

lemma qualify_in_partition:
  "set (applicable_context_ids (qualify_in b ext)) \<union> set (rejected_context_ids (qualify_in b ext))
     = context_id ` set (cb_records b)"
  unfolding set_applicable set_rejected by blast

lemma qualify_in_disjoint:
  assumes "inj_on context_id (set (cb_records b))"
  shows "set (applicable_context_ids (qualify_in b ext)) \<inter> set (rejected_context_ids (qualify_in b ext)) = {}"
  unfolding set_applicable set_rejected by (rule inj_on_split_disjoint [OF assms])

lemma qualify_in_applicable:
  assumes b: "basis_available b = Inr b" and x: "x \<in> set (cb_records b)"
  shows "context_id x \<in> set (applicable_context_ids (qualify_in b ext)) \<longleftrightarrow>
     cx_system_scope x = cb_system_scope b
     \<and> (\<forall>y \<in> set (cb_records b). cx_system_scope y = cx_system_scope x \<and> context_key y = context_key x
          \<longrightarrow> cx_version y \<le> cx_version x)
     \<and> verification_status x = Verified
     \<and> covers (cx_effective_from x) (cx_effective_to x) (cb_relevant_at b)
     \<and> conditions_hold (cb_facts b) (validity_conditions x)
     \<and> (ext \<longrightarrow> context_type x \<in> set QUALIFYING_TYPES)"
proof -
  have d: "distinct (map context_id (cb_records b))"
    using b by (auto simp: basis_available_def split: if_splits)
  have "context_id x \<in> set (applicable_context_ids (qualify_in b ext)) \<longleftrightarrow>
      qualification_reason x b (latest_of (cb_records b) (\<lambda>_. None)) ext = None"
    unfolding set_applicable using d x by (intro inj_on_mem_image) (simp_all add: distinct_map)
  also have "\<dots> \<longleftrightarrow> cx_system_scope x = cb_system_scope b
     \<and> latest_of (cb_records b) (\<lambda>_. None) (cx_system_scope x, context_key x) = Some x
     \<and> verification_status x = Verified
     \<and> covers (cx_effective_from x) (cx_effective_to x) (cb_relevant_at b)
     \<and> conditions_hold (cb_facts b) (validity_conditions x)
     \<and> (ext \<longrightarrow> context_type x \<in> set QUALIFYING_TYPES)"
    by (rule reason_None)
  finally show ?thesis using latest_iff [OF b x] by blast
qed

subsection \<open>Properties\<close>

definition demo_scope :: auth_scope where
  "demo_scope = \<lparr>tenant_scope_id = ''t'', workspace_id = ''w'', resource_scope_id = ''r'', scope_version = ''v1''\<rparr>"

definition demo_context :: context_object where
  "demo_context = \<lparr>context_id = [], context_key = ''k'', context_type = EXTERNAL_ANCHOR,
     cx_system_scope = ''plant'', cx_source_type = ''cmms'', cx_source_reference = ''wo-1'',
     cx_provenance = demo_provenance, verification_status = Verified, cx_effective_from = 0,
     cx_effective_to = Some 100, cx_created_at = 5, cx_version = 1, cx_supersedes = None,
     validity_conditions = [(''mode'', JStr ''auto'')], cx_payload = []\<rparr>"

definition demo_context_checked :: context_object where
  "demo_context_checked = demo_context\<lparr>context_id := ''context:0''\<rparr>"

definition demo_basis :: context_basis where
  "demo_basis = \<lparr>cb_system_scope = ''plant'', cb_evaluated_at = 20, cb_relevant_at = 20,
     cb_records = [demo_context], cb_facts = [(''mode'', JStr ''auto'')], cb_facts_available_at = 10,
     cb_facts_provenance = demo_provenance\<rparr>"

lemma demo_context_valid: "validate_context demo_runtime demo_context = Inr demo_context_checked"
  by code_simp

lemma demo_context_append:
  "\<exists>store. registry_append demo_runtime (context_ops demo_runtime) demo_scope demo_context (\<lambda>k. None)
     = Inr (store, demo_context_checked)"
proof -
  have v: "validate_context demo_runtime demo_context_checked = Inr demo_context_checked"
    by (rule validate_context_idem [OF demo_context_valid])
  have "strip ''plant'' \<noteq> []" by code_simp
  then show ?thesis using demo_context_valid v
    by (simp add: registry_append_def context_ops_def registry_key_def store_key_def registry_update_def
        chain_of_def demo_context_checked_def demo_context_def)
qed

text \<open>
  However contexts are submitted to an empty registry, the history of a system holds validated
  records of that system without repetition, and the versions of each context key are \<open>1, 2, \<dots>, n\<close>
  in order, each superseding the one before and created no earlier.
\<close>

theorem context_history_chains:
  assumes "registry_history R (context_ops R) scope system
             (registry_appends R (context_ops R) submissions (\<lambda>k. None)) = Inr rs"
    and "chain = filter (\<lambda>x. context_key x = key) rs"
  shows "distinct rs \<and> (\<forall>x \<in> set rs. validate_context R x = Inr x \<and> cx_system_scope x = system)
    \<and> map cx_version chain = map (\<lambda>n. int n + 1) [0..<length chain]
    \<and> successively (\<lambda>p x. cx_supersedes x = Some (context_id p) \<and> cx_created_at p \<le> cx_created_at x) chain"
proof -
  have "records_ok (context_ops R) system rs"
    by (rule contexts.history_Inr [OF assms(1) contexts.appends_keep [OF contexts.empty_store_ok]])
  then have r: "distinct rs" "\<forall>x \<in> set rs. validate_context R x = Inr x \<and> cx_system_scope x = system"
    and c: "chain_ok (context_ops R) chain"
    by (auto simp: records_ok_def assms(2) chain_of_def context_ops_def)
  have "successively (\<lambda>p x. cx_supersedes x = Some (context_id p) \<and> cx_created_at p \<le> cx_created_at x) chain"
    using c by (auto simp: chain_ok_def successor_ok_def context_ops_def elim!: successively_mono)
  then show ?thesis using r chain_versions [OF c] by (simp add: context_ops_def)
qed

theorem context_history_chains_witness:
  "\<exists>rs. registry_history demo_runtime (context_ops demo_runtime) demo_scope ''plant''
      (registry_appends demo_runtime (context_ops demo_runtime) [(demo_scope, demo_context)] (\<lambda>k. None)) = Inr rs
    \<and> rs \<noteq> [] \<and> distinct rs"
proof -
  obtain store where a: "registry_append demo_runtime (context_ops demo_runtime) demo_scope demo_context (\<lambda>k. None)
      = Inr (store, demo_context_checked)" using demo_context_append by blast
  have "rg_scope (context_ops demo_runtime) demo_context_checked = ''plant''"
    by (simp add: context_ops_def demo_context_checked_def demo_context_def)
  with contexts.history_append [OF a contexts.empty_store_ok] a obtain rs where
    h: "registry_history demo_runtime (context_ops demo_runtime) demo_scope ''plant''
      (registry_appends demo_runtime (context_ops demo_runtime) [(demo_scope, demo_context)] (\<lambda>k. None)) = Inr rs"
    and "rs \<noteq> []" by (auto split: if_splits) (metis empty_iff list.set(1))
  with context_history_chains [OF h refl] show ?thesis by blast
qed

text \<open>
  Appending a context to a well-formed registry keeps it well formed, changes the history of its
  system by at most that record at its end, and submitting the same record again changes nothing.
\<close>

theorem context_append_only:
  assumes "registry_append R (context_ops R) scope x store = Inr (store', y)"
    and "store_ok (context_ops R) store"
  shows "store_ok (context_ops R) store'
    \<and> (\<exists>rs. registry_history R (context_ops R) scope (cx_system_scope y) store = Inr rs
         \<and> registry_history R (context_ops R) scope (cx_system_scope y) store'
              = Inr (if y \<in> set rs then rs else rs @ [y]))
    \<and> registry_append R (context_ops R) scope x store' = Inr (store', y)"
proof -
  have "rg_scope (context_ops R) y = cx_system_scope y" by (simp add: context_ops_def)
  then show ?thesis
    using contexts.append_keeps [OF assms] contexts.history_append [OF assms]
      contexts.append_retry [OF assms] by auto
qed

theorem context_append_only_witness:
  "\<exists>store. registry_append demo_runtime (context_ops demo_runtime) demo_scope demo_context store
     = Inr (store, demo_context_checked)"
  using demo_context_append context_append_only [OF _ contexts.empty_store_ok] by blast

text \<open>
  Qualification: every record of a basis is either applicable or rejected, and it is applicable
  exactly when it is of the evaluated system, the highest version of its key, verified, effective at
  the relevant time, its validity conditions hold of the frozen facts, and (where only external
  anchors count) its type is a qualifying one.
\<close>

theorem qualify_context_exact:
  assumes "validate_basis R b = Inr c" and "qualify_context R b external_only = Inr q"
  shows "set (applicable_context_ids q) \<union> set (rejected_context_ids q) = context_id ` set (cb_records c)
    \<and> set (applicable_context_ids q) \<inter> set (rejected_context_ids q) = {}
    \<and> (\<forall>x \<in> set (cb_records c). context_id x \<in> set (applicable_context_ids q) \<longleftrightarrow>
         cx_system_scope x = cb_system_scope c
         \<and> (\<forall>y \<in> set (cb_records c). cx_system_scope y = cx_system_scope x \<and> context_key y = context_key x
              \<longrightarrow> cx_version y \<le> cx_version x)
         \<and> verification_status x = Verified
         \<and> covers (cx_effective_from x) (cx_effective_to x) (cb_relevant_at c)
         \<and> conditions_hold (cb_facts c) (validity_conditions x)
         \<and> (external_only \<longrightarrow> context_type x \<in> set QUALIFYING_TYPES))"
proof -
  from assms have q: "q = qualify_in c external_only" by (simp add: qualify_context_def)
  have a: "basis_available c = Inr c" using validate_basis_Inr [OF assms(1)] by blast
  then have "inj_on context_id (set (cb_records c))"
    by (auto simp: basis_available_def distinct_map split: if_splits)
  then show ?thesis
    unfolding q using qualify_in_partition qualify_in_disjoint qualify_in_applicable [OF a] by blast
qed

theorem qualify_context_exact_witness:
  "\<exists>q. qualify_context demo_runtime demo_basis True = Inr q \<and> ''context:0'' \<in> set (applicable_context_ids q)"
proof -
  let ?c = "projr (validate_basis demo_runtime demo_basis)"
  let ?q = "projr (qualify_context demo_runtime demo_basis True)"
  have c: "validate_basis demo_runtime demo_basis = Inr ?c" by code_simp
  have q: "qualify_context demo_runtime demo_basis True = Inr ?q" by code_simp
  have "cb_records ?c = [demo_context_checked]" by code_simp
  moreover have "context_id demo_context_checked = ''context:0'' \<and> cx_system_scope demo_context_checked = cb_system_scope ?c
    \<and> verification_status demo_context_checked = Verified
    \<and> covers (cx_effective_from demo_context_checked) (cx_effective_to demo_context_checked) (cb_relevant_at ?c)
    \<and> conditions_hold (cb_facts ?c) (validity_conditions demo_context_checked)
    \<and> context_type demo_context_checked \<in> set QUALIFYING_TYPES" by code_simp
  ultimately show ?thesis using qualify_context_exact [OF c q] q by force
qed

end
