(* ===== verification/Gov_Maturity.thy ===== *)
theory Gov_Maturity
  imports Gov_Characterization Gov_Context
begin

text \<open>
  Evidence maturity, \<^verbatim>\<open>backend/app/governance/maturity.py\<close>: the finding-specific level L0--L2 of the
  first evaluator, its refinement to L0--L4 by the second, which also demands usable lineages, a
  supported trajectory and a current verified context, and the replay of a stored evaluation.
  \<open>MaturityEvaluationV2\<close> extends \<open>MaturityEvaluation\<close> with three fields; one record with a schema
  tag models both, the three fields being \<open>None\<close> under the first schema.
\<close>

subsection \<open>Records\<close>

record persistence_gate =
  pg_requirement_id :: string
  pg_requirement_version :: string
  pg_fixed_observations :: bool
  pg_satisfied :: bool
  pg_evidence_ids :: "string list"
  pg_reasons :: "string list"

record persistence =
  pa_finding_id :: string
  pa_gates :: "persistence_gate list"

definition gate_dict :: "persistence_gate \<Rightarrow> json" where
  "gate_dict x = JObj [(''requirement_id'', JStr (pg_requirement_id x)),
     (''requirement_version'', JStr (pg_requirement_version x)),
     (''basis'', JStr (if pg_fixed_observations x then ''fixed_observations'' else ''elapsed_time'')),
     (''satisfied'', JBool (pg_satisfied x)), (''evidence_ids'', jstrs (pg_evidence_ids x)),
     (''reasons'', jstrs (pg_reasons x))]"

definition persistence_dict :: "persistence \<Rightarrow> json" where
  "persistence_dict p = JObj [(''finding_id'', JStr (pa_finding_id p)),
     (''gates'', JList (map gate_dict (pa_gates p)))]"

definition gate_ok :: "persistence_gate \<Rightarrow> bool" where
  "gate_ok x = (text_ok (pg_requirement_id x) \<and> text_ok (pg_requirement_version x)
     \<and> pg_evidence_ids x \<noteq> [] \<and> texts_ok (pg_evidence_ids x)
     \<and> pg_reasons x \<noteq> [] \<and> texts_ok (pg_reasons x))"

definition validate_persistence :: "persistence \<Rightarrow> persistence gov" where
  "validate_persistence p =
     bindE (check_fields [(''finding_id'', text_ok (pa_finding_id p)),
       (''gates'', list_all gate_ok (pa_gates p))]) (\<lambda>_. Inr p)"

definition independence_dict :: "independence_result \<Rightarrow> json" where
  "independence_dict v = JObj [
     (''evidence_ids'', jstrs [fst (ir_evidence_ids v), snd (ir_evidence_ids v)]),
     (''independent'', JBool (ir_independent v)), (''reasons'', jstrs (ir_reasons v)),
     (''shared_dependency_ids'', jstrs (ir_shared_dependency_ids v)),
     (''shared_source_ids'', jstrs (ir_shared_source_ids v)),
     (''shared_window_ids'', jstrs (ir_shared_window_ids v)),
     (''shared_signals'', jstrs (ir_shared_signals v)),
     (''shared_context_ids'', jstrs (ir_shared_context_ids v)),
     (''shared_assumptions'', jstrs (ir_shared_assumptions v)),
     (''rule_version'', JStr ''declared-lineage-independence-v1'')]"

definition qualification_dict :: "qualification \<Rightarrow> json" where
  "qualification_dict q = JObj [
     (''applicable_context_ids'', jstrs (applicable_context_ids q)),
     (''rejected_context_ids'', jstrs (rejected_context_ids q)),
     (''verification_statuses'',
        JObj (map (\<lambda>(k, v). (k, JStr (verification_value v))) (verification_statuses q))),
     (''qualification_reasons'', jstrs (qualification_reasons q)),
     (''limiting_context'', jstrs (limiting_context q)),
     (''unavailable_context'', jstrs (unavailable_context q)),
     (''evaluated_at'', JTime (cq_evaluated_at q))]"

datatype maturity_schema = MaturityV1 | MaturityV2

record maturity =
  mt_schema :: maturity_schema
  mt_evaluation_id :: string
  mt_finding_id :: string
  mt_system_scope :: string
  mt_evaluated_at :: timestamp
  mt_source_run_id :: string
  mt_level :: maturity_level
  mt_relevant :: "string list"
  mt_supporting :: "string list"
  mt_graph_snapshot_id :: string
  mt_persistence :: persistence
  mt_pairs :: "independence_result list"
  mt_reasons :: "string list"
  mt_trajectory :: "trajectory option"
  mt_context_basis :: "context_basis option"
  mt_qualification :: "qualification option"

definition schema_text :: "maturity_schema \<Rightarrow> string" where
  "schema_text s = (case s of MaturityV1 \<Rightarrow> ''evidence-maturity-v1'' | MaturityV2 \<Rightarrow> ''evidence-maturity-v2'')"

definition maturity_body :: "maturity \<Rightarrow> jdict" where
  "maturity_body m = [(''schema_version'', JStr (schema_text (mt_schema m))),
     (''finding_id'', JStr (mt_finding_id m)), (''system_scope'', JStr (mt_system_scope m)),
     (''evaluated_at'', JTime (mt_evaluated_at m)), (''source_run_id'', JStr (mt_source_run_id m)),
     (''policy_id'', JStr (schema_text (mt_schema m))),
     (''policy_version'', JStr (if mt_schema m = MaturityV1 then ''1'' else ''2'')),
     (''level'', JStr (level_value (mt_level m))), (''relevant_evidence_ids'', jstrs (mt_relevant m)),
     (''supporting_evidence_ids'', jstrs (mt_supporting m)),
     (''dependency_graph_snapshot_id'', JStr (mt_graph_snapshot_id m)),
     (''persistence'', persistence_dict (mt_persistence m)),
     (''pair_evaluations'', JList (map independence_dict (mt_pairs m))),
     (''reasons'', jstrs (mt_reasons m))]
   @ (if mt_schema m = MaturityV1 then []
      else [(''trajectory'', jopt trajectory_dict (mt_trajectory m)),
            (''context_basis'', jopt (\<lambda>b. JObj (basis_dict b)) (mt_context_basis m)),
            (''context_qualification'', jopt qualification_dict (mt_qualification m))])"

definition maturity_fields :: "maturity \<Rightarrow> (string \<times> bool) list" where
  "maturity_fields m = [(''finding_id'', text_ok (mt_finding_id m)),
     (''system_scope'', text_ok (mt_system_scope m)), (''source_run_id'', text_ok (mt_source_run_id m)),
     (''relevant_evidence_ids'', texts_ok (mt_relevant m)),
     (''supporting_evidence_ids'', texts_ok (mt_supporting m)),
     (''dependency_graph_snapshot_id'', text_ok (mt_graph_snapshot_id m)),
     (''pair_evaluations'', list_all (\<lambda>v. texts_ok (ir_reasons v)
        \<and> texts_ok (ir_shared_dependency_ids v) \<and> texts_ok (ir_shared_source_ids v)
        \<and> texts_ok (ir_shared_window_ids v) \<and> texts_ok (ir_shared_signals v)
        \<and> texts_ok (ir_shared_context_ids v) \<and> texts_ok (ir_shared_assumptions v)) (mt_pairs m)),
     (''reasons'', texts_ok (mt_reasons m)),
     (''context_qualification'', (case mt_qualification m of None \<Rightarrow> True | Some q \<Rightarrow>
        texts_ok (applicable_context_ids q) \<and> texts_ok (rejected_context_ids q)
        \<and> texts_ok (qualification_reasons q) \<and> texts_ok (limiting_context q)
        \<and> texts_ok (unavailable_context q)))]"

definition optE :: "('a \<Rightarrow> 'b gov) \<Rightarrow> 'a option \<Rightarrow> 'b option gov" where
  "optE f x = (case x of None \<Rightarrow> Inr None | Some y \<Rightarrow> bindE (f y) (\<lambda>z. Inr (Some z)))"

definition validate_maturity :: "runtime \<Rightarrow> maturity \<Rightarrow> maturity gov" where
  "validate_maturity R m =
     bindE (check_fields (maturity_fields m)) (\<lambda>_.
     bindE (validate_persistence (mt_persistence m)) (\<lambda>p.
     bindE (optE validate_trajectory (mt_trajectory m)) (\<lambda>t.
     bindE (optE (validate_basis R) (mt_context_basis m)) (\<lambda>b.
     let n = m\<lparr>mt_persistence := p, mt_trajectory := t, mt_context_basis := b\<rparr> in
     bindE (validate_identity R ''maturity-evaluation'' ''evaluation_id'' (JObj (maturity_body n))
              (mt_evaluation_id n)) (\<lambda>i.
     if mt_schema n = MaturityV1 \<and> (mt_level n = L3 \<or> mt_level n = L4)
     then Inl (ValueError ''v1_maturity_supports_only_L0_L2'')
     else Inr (n\<lparr>mt_evaluation_id := i\<rparr>))))))"

subsection \<open>The first evaluator\<close>

definition persistent :: "persistence \<Rightarrow> bool" where
  "persistent p = (pa_gates p \<noteq> [] \<and> list_all pg_satisfied (pa_gates p))"

definition persistent_ids :: "persistence \<Rightarrow> string list" where
  "persistent_ids p = concat (map pg_evidence_ids (filter pg_satisfied (pa_gates p)))"

definition pair_ids :: "independence_result \<Rightarrow> string list" where
  "pair_ids v = [fst (ir_evidence_ids v), snd (ir_evidence_ids v)]"

definition qualifying :: "persistence \<Rightarrow> independence_result \<Rightarrow> bool" where
  "qualifying p v = (ir_independent v \<and> inter_list (persistent_ids p) (pair_ids v) \<noteq> [])"

definition base_maturity ::
  "string \<Rightarrow> string list \<Rightarrow> graph \<Rightarrow> persistence \<Rightarrow> timestamp \<Rightarrow> string \<Rightarrow> independence_result list
   \<Rightarrow> maturity" where
  "base_maturity finding ids g p evaluated run vs =
     (let qs = filter (qualifying p) vs in
      \<lparr>mt_schema = MaturityV1, mt_evaluation_id = [], mt_finding_id = finding,
       mt_system_scope = g_system_scope g, mt_evaluated_at = evaluated, mt_source_run_id = run,
       mt_level = (if persistent p then (if qs \<noteq> [] then L2 else L1) else L0),
       mt_relevant = ids,
       mt_supporting = (if persistent p then sorted_set (persistent_ids p @ concat (map pair_ids qs))
                        else sorted_set ids),
       mt_graph_snapshot_id = g_snapshot_id g, mt_persistence = p, mt_pairs = vs,
       mt_reasons = (if persistent p
         then [''all_applicable_persistence_gates_satisfied'',
               (if qs \<noteq> [] then ''independent_corroboration_established''
                else ''no_independent_corroboration_of_persistent_evidence'')]
         else [''persistence_not_established'']),
       mt_trajectory = None, mt_context_basis = None, mt_qualification = None\<rparr>)"

definition evaluate_maturity ::
  "runtime \<Rightarrow> string \<Rightarrow> string list \<Rightarrow> graph \<Rightarrow> persistence \<Rightarrow> timestamp \<Rightarrow> string \<Rightarrow> maturity gov" where
  "evaluate_maturity R finding relevant g p evaluated run =
     bindE (validate_graph R g) (\<lambda>g.
     bindE (validate_persistence p) (\<lambda>p.
     let ids = sorted_set relevant in
     if ids = [] \<or> \<not> subset_list ids (evidence_ids g)
     then Inl (ValueError ''relevant_evidence_required_for_L0'')
     else bindE (validate_available_at g evaluated) (\<lambda>_.
     if finding \<noteq> pa_finding_id p then Inl (ValueError ''persistence_finding_mismatch'')
     else if \<not> distinct (map pg_requirement_id (pa_gates p))
     then Inl (ValueError ''duplicate_persistence_requirement'')
     else if list_ex (\<lambda>x. \<not> subset_list (pg_evidence_ids x) ids) (pa_gates p)
     then Inl (ValueError ''persistence_support_outside_finding_evidence'')
     else bindE (mapE (\<lambda>(a, b). evaluate_independence R g a b) (pairs ids)) (\<lambda>vs.
     validate_maturity R (base_maturity finding ids g p evaluated run vs)))))"

subsection \<open>The second evaluator\<close>

definition usable_ids :: "runtime \<Rightarrow> graph \<Rightarrow> string list gov" where
  "usable_ids R g =
     bindE (mapE (\<lambda>x. bindE (usable_lineage R g (evidence_id x)) (\<lambda>u. Inr (evidence_id x,
         u \<and> (evidence_family x \<noteq> TREND \<or> payload_get x ''status'' JNull = JStr ''available''))))
       (g_evidence g)) (\<lambda>us. Inr (map fst (filter snd us)))"

definition available_support ::
  "maturity \<Rightarrow> string list \<Rightarrow> maturity_level \<times> string list" where
  "available_support base usable =
     (let p = mt_persistence base;
          (level, reasons) =
            (if mt_level base \<noteq> L0 \<and> \<not> subset_list (persistent_ids p) usable
             then (L0, mt_reasons base @ [''persistence_support_unavailable''])
             else if mt_level base = L2 \<and>
               \<not> list_ex (\<lambda>v. qualifying p v \<and> subset_list (pair_ids v) usable) (mt_pairs base)
             then (L1, mt_reasons base @ [''corroborating_support_unavailable''])
             else (mt_level base, mt_reasons base))
      in (level, if (level = L0 \<or> level = L1) \<and> mt_level base = L2
                 then remove1 ''independent_corroboration_established'' reasons else reasons))"

definition validate_current_context :: "maturity \<Rightarrow> context_basis \<Rightarrow> unit gov" where
  "validate_current_context base b =
     (if cb_system_scope b \<noteq> mt_system_scope base \<or> cb_evaluated_at b \<noteq> mt_evaluated_at base
      then Inl (ValueError ''maturity_context_basis_mismatch'')
      else if cb_relevant_at b \<noteq> mt_evaluated_at base
      then Inl (ValueError ''maturity_requires_current_context'')
      else Inr ())"

definition apply_trajectory ::
  "runtime \<Rightarrow> graph \<Rightarrow> maturity \<Rightarrow> string list \<Rightarrow> maturity_level \<Rightarrow> string list \<Rightarrow> trajectory option
   \<Rightarrow> (maturity_level \<times> string list \<times> trajectory option) gov" where
  "apply_trajectory R g base usable level reasons traj =
     (case traj of
        None \<Rightarrow> Inr (level, reasons, None)
      | Some t \<Rightarrow>
          bindE (validate_trajectory t) (\<lambda>t.
          bindE (validate_support R t g (mt_finding_id base) (mt_relevant base)
                   (sorted_set (inter_list (mt_supporting base) usable)) (mt_evaluated_at base)) (\<lambda>s.
          Inr (if level = L2 \<and> s \<and> subset_list (tj_evidence_ids t) usable
               then (L3, reasons @ [''supported_trajectory_characterization''], Some t)
               else (level, reasons @ [''trajectory_insufficient_or_indeterminate''], Some t)))))"

definition apply_context ::
  "runtime \<Rightarrow> maturity \<Rightarrow> maturity_level \<Rightarrow> string list \<Rightarrow> context_basis option
   \<Rightarrow> (maturity_level \<times> string list \<times> context_basis option \<times> qualification option) gov" where
  "apply_context R base level reasons basis =
     (case basis of
        None \<Rightarrow> Inr (level, reasons, None, None)
      | Some b \<Rightarrow>
          bindE (validate_basis R b) (\<lambda>b.
          bindE (validate_current_context base b) (\<lambda>_.
          bindE (qualify_context R b True) (\<lambda>q.
          Inr (if level = L3 \<and> applicable_context_ids q \<noteq> []
               then (L4, reasons @ [''verified_external_context_qualification''], Some b, Some q)
               else (level, reasons @ [''context_insufficient_or_L3_unavailable''], Some b, Some q))))))"

text \<open>
  The body of the second record is the first with its identity cleared; \<open>trajectory\<close>, \<open>context_basis\<close>
  and the qualification join it. The graph the evaluator reads is the caller's, already validated
  like every constructed record.
\<close>

definition evaluate_maturity_v2 ::
  "runtime \<Rightarrow> string \<Rightarrow> string list \<Rightarrow> graph \<Rightarrow> persistence \<Rightarrow> timestamp \<Rightarrow> string
   \<Rightarrow> trajectory option \<Rightarrow> context_basis option \<Rightarrow> maturity gov" where
  "evaluate_maturity_v2 R finding relevant g p evaluated run traj basis =
     bindE (evaluate_maturity R finding relevant g p evaluated run) (\<lambda>base.
     bindE (usable_ids R g) (\<lambda>usable.
     let (level0, reasons0) = available_support base usable in
     bindE (apply_trajectory R g base usable level0 reasons0 traj) (\<lambda>(level1, reasons1, t).
     bindE (apply_context R base level1 reasons1 basis) (\<lambda>(level2, reasons2, b, q).
     validate_maturity R (base\<lparr>mt_schema := MaturityV2, mt_evaluation_id := [], mt_level := level2,
       mt_supporting := sorted_set (inter_list (mt_supporting base) usable),
       mt_reasons := reasons2, mt_trajectory := t, mt_context_basis := b, mt_qualification := q\<rparr>)))))"

definition replay_maturity :: "runtime \<Rightarrow> maturity \<Rightarrow> graph \<Rightarrow> maturity gov" where
  "replay_maturity R m g =
     (case mt_schema m of
        MaturityV2 \<Rightarrow> evaluate_maturity_v2 R (mt_finding_id m) (mt_relevant m) g (mt_persistence m)
          (mt_evaluated_at m) (mt_source_run_id m) (mt_trajectory m) (mt_context_basis m)
      | MaturityV1 \<Rightarrow> evaluate_maturity R (mt_finding_id m) (mt_relevant m) g (mt_persistence m)
          (mt_evaluated_at m) (mt_source_run_id m))"

subsection \<open>What the evaluators return\<close>

lemma validate_persistence_Inr: "validate_persistence p = Inr q \<Longrightarrow> q = p"
  by (auto simp: validate_persistence_def res_simps)

lemma optE_None [simp]: "optE f None = Inr None"
  by (simp add: optE_def)

lemma optE_Some: "optE f (Some x) = Inr y \<longleftrightarrow> (\<exists>z. f x = Inr z \<and> y = Some z)"
  by (auto simp: optE_def res_simps)

lemma validate_maturity_Inr:
  assumes "validate_maturity R m = Inr n"
  obtains t b i where "optE validate_trajectory (mt_trajectory m) = Inr t"
    "optE (validate_basis R) (mt_context_basis m) = Inr b"
    "n = m\<lparr>mt_trajectory := t, mt_context_basis := b, mt_evaluation_id := i\<rparr>"
    "mt_schema m = MaturityV1 \<longrightarrow> level_rank (mt_level m) \<le> 2"
proof -
  from assms obtain q t b where q: "validate_persistence (mt_persistence m) = Inr q"
    and t: "optE validate_trajectory (mt_trajectory m) = Inr t"
    and b: "optE (validate_basis R) (mt_context_basis m) = Inr b"
    and n: "\<exists>i. n = m\<lparr>mt_persistence := q, mt_trajectory := t, mt_context_basis := b, mt_evaluation_id := i\<rparr>"
    and s: "mt_schema m = MaturityV1 \<longrightarrow> level_rank (mt_level m) \<le> 2"
    by (cases "mt_level m") (auto simp: validate_maturity_def res_simps Let_def split: if_splits)
  from n obtain i where "n = m\<lparr>mt_persistence := q, mt_trajectory := t, mt_context_basis := b, mt_evaluation_id := i\<rparr>"
    by blast
  moreover have "q = mt_persistence m" using q by (rule validate_persistence_Inr)
  ultimately show thesis by (intro that [OF t b _ s]) simp
qed

lemma base_maturity_simps [simp]:
  "mt_schema (base_maturity f ids g p e run vs) = MaturityV1"
  "mt_finding_id (base_maturity f ids g p e run vs) = f"
  "mt_system_scope (base_maturity f ids g p e run vs) = g_system_scope g"
  "mt_evaluated_at (base_maturity f ids g p e run vs) = e"
  "mt_source_run_id (base_maturity f ids g p e run vs) = run"
  "mt_relevant (base_maturity f ids g p e run vs) = ids"
  "mt_persistence (base_maturity f ids g p e run vs) = p"
  "mt_pairs (base_maturity f ids g p e run vs) = vs"
  "mt_trajectory (base_maturity f ids g p e run vs) = None"
  "mt_context_basis (base_maturity f ids g p e run vs) = None"
  "mt_qualification (base_maturity f ids g p e run vs) = None"
  "mt_level (base_maturity f ids g p e run vs) =
     (if persistent p then (if \<exists>v \<in> set vs. qualifying p v then L2 else L1) else L0)"
  by (simp_all add: base_maturity_def Let_def filter_empty_conv)

lemma evaluate_maturity_Inr:
  assumes "evaluate_maturity R finding relevant g p evaluated run = Inr m"
  obtains h vs i where "validate_graph R g = Inr h" "validate_persistence p = Inr p" "relevant \<noteq> []"
    "set relevant \<subseteq> set (evidence_ids h)" "validate_available_at h evaluated = Inr ()"
    "finding = pa_finding_id p" "distinct (map pg_requirement_id (pa_gates p))"
    "\<forall>x \<in> set (pa_gates p). set (pg_evidence_ids x) \<subseteq> set relevant"
    "mapE (\<lambda>(a, b). evaluate_independence R h a b) (pairs (sorted_set relevant)) = Inr vs"
    "m = (base_maturity finding (sorted_set relevant) h p evaluated run vs)\<lparr>mt_evaluation_id := i\<rparr>"
proof -
  from assms obtain h q vs where h: "validate_graph R g = Inr h" and q: "validate_persistence p = Inr q"
    and c: "relevant \<noteq> []" "set relevant \<subseteq> set (evidence_ids h)" "validate_available_at h evaluated = Inr ()"
    "finding = pa_finding_id q" "distinct (map pg_requirement_id (pa_gates q))"
    "\<forall>x \<in> set (pa_gates q). set (pg_evidence_ids x) \<subseteq> set relevant"
    "mapE (\<lambda>(a, b). evaluate_independence R h a b) (pairs (sorted_set relevant)) = Inr vs"
    and m: "validate_maturity R (base_maturity finding (sorted_set relevant) h q evaluated run vs) = Inr m"
    by (auto simp: evaluate_maturity_def res_simps Let_def list_ex_iff split: if_splits)
  have qp: "q = p" using q by (rule validate_persistence_Inr)
  from m obtain i where "m = (base_maturity finding (sorted_set relevant) h q evaluated run vs)
      \<lparr>mt_trajectory := None, mt_context_basis := None, mt_evaluation_id := i\<rparr>"
    by (rule validate_maturity_Inr) simp
  then have "m = (base_maturity finding (sorted_set relevant) h p evaluated run vs)\<lparr>mt_evaluation_id := i\<rparr>"
    by (simp add: qp base_maturity_def Let_def)
  with h q c show thesis unfolding qp by (intro that)
qed

lemma usable_ids_Inr:
  assumes "usable_ids R g = Inr us"
  shows "set us = {evidence_id x | x. x \<in> set (g_evidence g) \<and> usable_lineage R g (evidence_id x) = Inr True
     \<and> (evidence_family x \<noteq> TREND \<or> payload_get x ''status'' JNull = JStr ''available'')}"
proof -
  let ?f = "\<lambda>x. bindE (usable_lineage R g (evidence_id x)) (\<lambda>u. Inr (evidence_id x,
         u \<and> (evidence_family x \<noteq> TREND \<or> payload_get x ''status'' JNull = JStr ''available'')))"
  from assms obtain ps where ps: "list_all2 (\<lambda>x y. ?f x = Inr y) (g_evidence g) ps"
    and us: "us = map fst (filter snd ps)"
    by (auto simp: usable_ids_def res_simps mapE_eq_Inr)
  have "set (map fst (filter snd ps)) = {evidence_id x | x. x \<in> set xs \<and> usable_lineage R g (evidence_id x) = Inr True
     \<and> (evidence_family x \<noteq> TREND \<or> payload_get x ''status'' JNull = JStr ''available'')}"
    if "list_all2 (\<lambda>x y. ?f x = Inr y) xs ps" for xs
    using that by (induction xs ps rule: list_all2_induct) (auto simp: res_simps)
  from this [OF ps] show ?thesis by (simp add: us)
qed

lemma available_support_level:
  "level_rank (fst (available_support base us)) =
     (if mt_level base = L0 \<or> \<not> set (persistent_ids (mt_persistence base)) \<subseteq> set us
         \<and> level_rank (mt_level base) \<ge> 1 then 0
      else if mt_level base = L2 \<and>
        \<not> (\<exists>v \<in> set (mt_pairs base). qualifying (mt_persistence base) v \<and> set (pair_ids v) \<subseteq> set us) then 1
      else level_rank (mt_level base))"
  by (cases "mt_level base") (auto simp: available_support_def Let_def list_ex_iff split: prod.splits)

lemma apply_trajectory_Inr:
  assumes "apply_trajectory R g base us level reasons traj = Inr (level', reasons', t')"
    and "level_rank level \<le> 2"
  shows "(case t' of None \<Rightarrow> traj = None | Some u \<Rightarrow> \<exists>t. traj = Some t \<and> validate_trajectory t = Inr u)
    \<and> (level' = level \<or> level = L2 \<and> level' = L3)
    \<and> (level' = L3 \<longleftrightarrow> level = L2 \<and> (\<exists>u. t' = Some u \<and> set (tj_evidence_ids u) \<subseteq> set us
         \<and> validate_support R u g (mt_finding_id base) (mt_relevant base)
             (sorted_set (inter_list (mt_supporting base) us)) (mt_evaluated_at base) = Inr True))"
  using assms by (auto simp: apply_trajectory_def res_simps split: option.splits if_splits)

lemma apply_context_Inr:
  assumes "apply_context R base level reasons basis = Inr (level', reasons', b', q')"
    and "level_rank level \<le> 3"
  shows "(case b' of None \<Rightarrow> basis = None \<and> q' = None
      | Some c \<Rightarrow> \<exists>b q. basis = Some b \<and> validate_basis R b = Inr c \<and> validate_current_context base c = Inr ()
           \<and> qualify_context R c True = Inr q \<and> q' = Some q)
    \<and> (level' = level \<or> level = L3 \<and> level' = L4)
    \<and> (level' = L4 \<longleftrightarrow> level = L3 \<and> (\<exists>q. q' = Some q \<and> applicable_context_ids q \<noteq> []))"
  using assms by (auto simp: apply_context_def res_simps split: option.splits if_splits)

lemma apply_trajectory_again:
  assumes "apply_trajectory R g base us level reasons traj = Inr (level', reasons', t')"
    and "optE validate_trajectory t' = Inr t''"
  shows "t'' = t' \<and> apply_trajectory R g base us level reasons t' = Inr (level', reasons', t')"
proof (cases traj)
  case None
  with assms show ?thesis by (auto simp: apply_trajectory_def)
next
  case (Some t)
  with assms(1) obtain u where u: "validate_trajectory t = Inr u" and t': "t' = Some u"
    by (auto simp: apply_trajectory_def res_simps split: if_splits)
  from assms(2) obtain w where w: "validate_trajectory u = Inr w" "t'' = Some w"
    by (auto simp: t' optE_Some)
  have "w = u" by (rule validate_trajectory_again [OF u w(1)])
  with assms(1) u w show ?thesis by (simp add: apply_trajectory_def Some t')
qed

lemma apply_context_again:
  assumes "apply_context R base level reasons basis = Inr (level', reasons', b', q')"
    and "optE (validate_basis R) b' = Inr b''"
  shows "b'' = b' \<and> apply_context R base level reasons b' = Inr (level', reasons', b', q')"
proof (cases basis)
  case None
  with assms show ?thesis by (auto simp: apply_context_def)
next
  case (Some b)
  with assms(1) obtain c where c: "validate_basis R b = Inr c" and b': "b' = Some c"
    by (auto simp: apply_context_def res_simps split: if_splits)
  from validate_basis_idem [OF c] assms c show ?thesis
    by (auto simp: apply_context_def Some b' optE_Some)
qed

lemma evaluate_maturity_v2_Inr:
  assumes "evaluate_maturity_v2 R finding relevant g p evaluated run traj basis = Inr m"
  obtains base us l0 r0 l1 r1 t l2 r2 b q i where
    "evaluate_maturity R finding relevant g p evaluated run = Inr base" "usable_ids R g = Inr us"
    "available_support base us = (l0, r0)"
    "apply_trajectory R g base us l0 r0 traj = Inr (l1, r1, t)"
    "apply_trajectory R g base us l0 r0 t = Inr (l1, r1, t)"
    "apply_context R base l1 r1 basis = Inr (l2, r2, b, q)"
    "apply_context R base l1 r1 b = Inr (l2, r2, b, q)"
    "validate_maturity R (base\<lparr>mt_schema := MaturityV2, mt_evaluation_id := [], mt_level := l2,
       mt_supporting := sorted_set (inter_list (mt_supporting base) us),
       mt_reasons := r2, mt_trajectory := t, mt_context_basis := b, mt_qualification := q\<rparr>) = Inr m"
    "m = base\<lparr>mt_schema := MaturityV2, mt_evaluation_id := i, mt_level := l2,
       mt_supporting := sorted_set (inter_list (mt_supporting base) us),
       mt_reasons := r2, mt_trajectory := t, mt_context_basis := b, mt_qualification := q\<rparr>"
proof -
  from assms obtain base us where
    base: "evaluate_maturity R finding relevant g p evaluated run = Inr base" and us: "usable_ids R g = Inr us"
    by (auto simp: evaluate_maturity_v2_def res_simps)
  obtain l0 r0 where l0: "available_support base us = (l0, r0)" by (cases "available_support base us")
  from assms base us l0 obtain l1 r1 t l2 r2 b q where
    t: "apply_trajectory R g base us l0 r0 traj = Inr (l1, r1, t)"
    and b: "apply_context R base l1 r1 basis = Inr (l2, r2, b, q)"
    and v: "validate_maturity R (base\<lparr>mt_schema := MaturityV2, mt_evaluation_id := [], mt_level := l2,
       mt_supporting := sorted_set (inter_list (mt_supporting base) us),
       mt_reasons := r2, mt_trajectory := t, mt_context_basis := b, mt_qualification := q\<rparr>) = Inr m"
    by (auto simp: evaluate_maturity_v2_def res_simps)
  let ?m = "base\<lparr>mt_schema := MaturityV2, mt_evaluation_id := [], mt_level := l2,
       mt_supporting := sorted_set (inter_list (mt_supporting base) us),
       mt_reasons := r2, mt_trajectory := t, mt_context_basis := b, mt_qualification := q\<rparr>"
  from validate_maturity_Inr [OF v] obtain t' b' i where
    "optE validate_trajectory (mt_trajectory ?m) = Inr t'"
    and "optE (validate_basis R) (mt_context_basis ?m) = Inr b'"
    and "m = ?m\<lparr>mt_trajectory := t', mt_context_basis := b', mt_evaluation_id := i\<rparr>" .
  then have t': "optE validate_trajectory t = Inr t'" and b': "optE (validate_basis R) b = Inr b'"
    and m: "m = base\<lparr>mt_schema := MaturityV2, mt_evaluation_id := i, mt_level := l2,
       mt_supporting := sorted_set (inter_list (mt_supporting base) us),
       mt_reasons := r2, mt_trajectory := t', mt_context_basis := b', mt_qualification := q\<rparr>"
    by simp_all
  from apply_trajectory_again [OF t t'] apply_context_again [OF b b'] m base us l0 t b v
  show thesis by (intro that) auto
qed

lemma evaluate_maturity_sorted:
  "evaluate_maturity R finding (sorted_set relevant) g p evaluated run
   = evaluate_maturity R finding relevant g p evaluated run"
  by (simp add: evaluate_maturity_def)

lemma level_rank_bounds [simp]: "level_rank l \<le> 4" "level_rank l = 4 \<longleftrightarrow> l = L4"
  "level_rank l = 0 \<longleftrightarrow> l = L0" "level_rank l \<le> 2 \<longleftrightarrow> l \<noteq> L3 \<and> l \<noteq> L4" "level_rank l \<le> 3 \<longleftrightarrow> l \<noteq> L4"
  by (cases l; simp)+

subsection \<open>Properties\<close>

definition demo_gate :: persistence_gate where
  "demo_gate = \<lparr>pg_requirement_id = ''g'', pg_requirement_version = ''1'', pg_fixed_observations = True,
     pg_satisfied = True, pg_evidence_ids = [''evidence:a''], pg_reasons = [''ok'']\<rparr>"

definition demo_persistence :: persistence where
  "demo_persistence = \<lparr>pa_finding_id = ''f'', pa_gates = [demo_gate]\<rparr>"

definition demo_maturity :: maturity where
  "demo_maturity = \<lparr>mt_schema = MaturityV2, mt_evaluation_id = ''maturity-evaluation:run'',
     mt_finding_id = ''f'', mt_system_scope = ''plant'', mt_evaluated_at = 50, mt_source_run_id = ''run'',
     mt_level = L2, mt_relevant = [''evidence:a'', ''evidence:b''],
     mt_supporting = [''evidence:a'', ''evidence:b''], mt_graph_snapshot_id = ''dependency-graph:0'',
     mt_persistence = demo_persistence,
     mt_pairs = [\<lparr>ir_evidence_ids = (''evidence:a'', ''evidence:b''), ir_independent = True,
       ir_reasons = [''distinct_families_with_complete_disjoint_declared_inputs''],
       ir_shared_dependency_ids = [], ir_shared_source_ids = [], ir_shared_window_ids = [],
       ir_shared_signals = [], ir_shared_context_ids = [], ir_shared_assumptions = []\<rparr>],
     mt_reasons = [''all_applicable_persistence_gates_satisfied'', ''independent_corroboration_established''],
     mt_trajectory = None, mt_context_basis = None, mt_qualification = None\<rparr>"

lemma demo_maturity: "evaluate_maturity_v2 demo_runtime ''f'' [''evidence:b'', ''evidence:a''] demo_checked
     demo_persistence 50 ''run'' None None = Inr demo_maturity"
  by code_simp

text \<open>
  The level of the first evaluator: \<open>L0\<close> unless there is a gate and every gate is satisfied,
  \<open>L2\<close> exactly when some independent pair of the finding's evidence also includes evidence of a
  satisfied gate, otherwise \<open>L1\<close>. It reads only evidence the graph holds and knows by the evaluation.
\<close>

theorem maturity_level_exact:
  assumes "validate_graph R g = Inr h" and "evaluate_maturity R finding relevant g p evaluated run = Inr m"
  shows "(mt_level m = L0 \<longleftrightarrow> pa_gates p = [] \<or> (\<exists>x \<in> set (pa_gates p). \<not> pg_satisfied x))
    \<and> (mt_level m = L2 \<longleftrightarrow> mt_level m \<noteq> L0 \<and> (\<exists>a b v. (a, b) \<in> set (pairs (sorted_set relevant))
         \<and> evaluate_independence R h a b = Inr v \<and> ir_independent v
         \<and> set (persistent_ids p) \<inter> set (pair_ids v) \<noteq> {}))
    \<and> mt_level m \<noteq> L3 \<and> mt_level m \<noteq> L4
    \<and> set relevant \<subseteq> set (evidence_ids h) \<and> validate_available_at h evaluated = Inr ()"
proof -
  from assms(2) obtain h' vs i where h': "validate_graph R g = Inr h'"
    and sub: "set relevant \<subseteq> set (evidence_ids h')" and av: "validate_available_at h' evaluated = Inr ()"
    and vs: "mapE (\<lambda>(a, b). evaluate_independence R h' a b) (pairs (sorted_set relevant)) = Inr vs"
    and m: "m = (base_maturity finding (sorted_set relevant) h' p evaluated run vs)\<lparr>mt_evaluation_id := i\<rparr>"
    by (rule evaluate_maturity_Inr)
  have hh: "h' = h" using h' assms(1) by simp
  have all: "(\<exists>v \<in> set vs. qualifying p v) \<longleftrightarrow> (\<exists>a b v. (a, b) \<in> set ps
      \<and> evaluate_independence R h a b = Inr v \<and> qualifying p v)"
    if "list_all2 (\<lambda>ab v. (case ab of (a, b) \<Rightarrow> evaluate_independence R h a b) = Inr v) ps vs" for ps vs
    using that by (induction ps vs rule: list_all2_induct) auto
  have q: "qualifying p v \<longleftrightarrow> ir_independent v \<and> set (persistent_ids p) \<inter> set (pair_ids v) \<noteq> {}" for v
    by (auto simp: qualifying_def simp flip: set_empty)
  have Q: "(\<exists>v \<in> set vs. qualifying p v) \<longleftrightarrow> (\<exists>a b v. (a, b) \<in> set (pairs (sorted_set relevant))
         \<and> evaluate_independence R h a b = Inr v \<and> ir_independent v
         \<and> set (persistent_ids p) \<inter> set (pair_ids v) \<noteq> {})"
    using all [OF vs [unfolded hh mapE_eq_Inr]] unfolding q by blast
  have P: "persistent p \<longleftrightarrow> \<not> (pa_gates p = [] \<or> (\<exists>x \<in> set (pa_gates p). \<not> pg_satisfied x))"
    by (auto simp: persistent_def list_all_iff)
  have L: "mt_level m = (if persistent p then (if \<exists>v \<in> set vs. qualifying p v then L2 else L1) else L0)"
    by (simp add: m)
  show ?thesis unfolding L Q P using sub av hh by (simp del: disj_not1 not_all not_ex)
qed

theorem maturity_level_exact_witness:
  "\<exists>m. evaluate_maturity demo_runtime ''f'' [''evidence:b'', ''evidence:a''] demo_graph
     demo_persistence 50 ''run'' = Inr m \<and> mt_level m \<noteq> L0"
proof -
  let ?m = "projr (evaluate_maturity demo_runtime ''f'' [''evidence:b'', ''evidence:a''] demo_graph
     demo_persistence 50 ''run'')"
  have m: "evaluate_maturity demo_runtime ''f'' [''evidence:b'', ''evidence:a''] demo_graph
     demo_persistence 50 ''run'' = Inr ?m" by code_simp
  have "pa_gates demo_persistence \<noteq> [] \<and> (\<forall>x \<in> set (pa_gates demo_persistence). pg_satisfied x)"
    by (simp add: demo_persistence_def demo_gate_def)
  with maturity_level_exact [OF demo_checked m] m show ?thesis by blast
qed

text \<open>
  The ladder of the second evaluator, each rung resting on the one below: the first on satisfied
  gates whose evidence all has a usable lineage, the second on an independent usable pair that meets
  the persistent evidence, the third on a supported trajectory over usable evidence, the fourth on
  a current verified external context.
\<close>

theorem maturity_ladder:
  assumes "evaluate_maturity_v2 R finding relevant g p evaluated run traj basis = Inr m"
    and "usable_ids R g = Inr usable"
  shows "(1 \<le> level_rank (mt_level m) \<longleftrightarrow> persistent p \<and> set (persistent_ids p) \<subseteq> set usable)
    \<and> (2 \<le> level_rank (mt_level m) \<longleftrightarrow> 1 \<le> level_rank (mt_level m) \<and>
         (\<exists>v \<in> set (mt_pairs m). qualifying p v \<and> set (pair_ids v) \<subseteq> set usable))
    \<and> (3 \<le> level_rank (mt_level m) \<longleftrightarrow> 2 \<le> level_rank (mt_level m) \<and>
         (\<exists>t. mt_trajectory m = Some t \<and> set (tj_evidence_ids t) \<subseteq> set usable
            \<and> validate_support R t g finding (mt_relevant m) (mt_supporting m) evaluated = Inr True))
    \<and> (mt_level m = L4 \<longleftrightarrow> 3 \<le> level_rank (mt_level m) \<and>
         (\<exists>b q. mt_context_basis m = Some b \<and> cb_relevant_at b = evaluated
            \<and> qualify_context R b True = Inr q \<and> applicable_context_ids q \<noteq> []))"
  using assms(1)
proof (rule evaluate_maturity_v2_Inr)
  fix base us l0 r0 l1 r1 t l2 r2 b q i
  assume base: "evaluate_maturity R finding relevant g p evaluated run = Inr base"
    and us: "usable_ids R g = Inr us" and l0: "available_support base us = (l0, r0)"
    and t: "apply_trajectory R g base us l0 r0 traj = Inr (l1, r1, t)"
    and b: "apply_context R base l1 r1 basis = Inr (l2, r2, b, q)"
    and m: "m = base\<lparr>mt_schema := MaturityV2, mt_evaluation_id := i, mt_level := l2,
       mt_supporting := sorted_set (inter_list (mt_supporting base) us),
       mt_reasons := r2, mt_trajectory := t, mt_context_basis := b, mt_qualification := q\<rparr>"
  have u: "us = usable" using us assms(2) by simp
  from base obtain h vs j where
    eq: "base = (base_maturity finding (sorted_set relevant) h p evaluated run vs)\<lparr>mt_evaluation_id := j\<rparr>"
    by (rule evaluate_maturity_Inr)
  have f: "mt_finding_id base = finding" "mt_evaluated_at base = evaluated" "mt_persistence base = p"
    "mt_level base = (if persistent p then (if \<exists>v \<in> set (mt_pairs base). qualifying p v then L2 else L1) else L0)"
    by (simp_all add: eq)
  have r0: "level_rank l0 = (if persistent p \<and> set (persistent_ids p) \<subseteq> set usable
      then (if \<exists>v \<in> set (mt_pairs base). qualifying p v \<and> set (pair_ids v) \<subseteq> set usable then 2 else 1) else 0)"
    using available_support_level [of base us] unfolding l0 fst_conv f(3,4) unfolding u
    by (auto split: if_splits)
  then have le: "level_rank l0 \<le> 2" by simp
  note T = apply_trajectory_Inr [OF t le]
  from T le have "level_rank l1 \<le> 3" by auto
  note C = apply_context_Inr [OF b this]
  have c4: "l2 = L4 \<longleftrightarrow> l1 = L3 \<and> (\<exists>c q'. b = Some c \<and> cb_relevant_at c = evaluated
      \<and> qualify_context R c True = Inr q' \<and> applicable_context_ids q' \<noteq> [])"
    using C by (cases b) (auto simp: validate_current_context_def f split: if_splits)
  have t3: "l1 = L3 \<longleftrightarrow> l0 = L2 \<and> (\<exists>u. t = Some u \<and> set (tj_evidence_ids u) \<subseteq> set usable
      \<and> validate_support R u g finding (mt_relevant m) (mt_supporting m) evaluated = Inr True)"
    using T by (simp add: m f u)
  have lv: "mt_level m = l2" "mt_pairs m = mt_pairs base" "mt_trajectory m = t" "mt_context_basis m = b"
    by (simp_all add: m)
  have k0: "l0 = L0 \<or> l0 = L1 \<or> l0 = L2" using le by (cases l0) auto
  have k1: "l1 = l0 \<or> l0 = L2 \<and> l1 = L3" and k2: "l2 = l1 \<or> l1 = L3 \<and> l2 = L4" using T C by blast+
  show ?thesis
    unfolding lv using r0 c4 t3 k0 k1 k2 by (elim disjE conjE) (auto split: if_splits)
qed

theorem maturity_ladder_witness:
  "\<exists>usable. usable_ids demo_runtime demo_checked = Inr usable \<and>
     (1 \<le> level_rank (mt_level demo_maturity)
        \<longleftrightarrow> persistent demo_persistence \<and> set (persistent_ids demo_persistence) \<subseteq> set usable)"
proof -
  have "usable_ids demo_runtime demo_checked = Inr (projr (usable_ids demo_runtime demo_checked))" by code_simp
  from maturity_ladder [OF demo_maturity this] this show ?thesis by blast
qed

lemma replay_evaluated:
  "(evaluate_maturity R finding relevant g p evaluated run = Inr m \<longrightarrow> replay_maturity R m g = Inr m)
   \<and> (evaluate_maturity_v2 R finding relevant g p evaluated run traj basis = Inr m \<longrightarrow>
        replay_maturity R m g = Inr m)"
proof (intro conjI impI)
  assume a: "evaluate_maturity R finding relevant g p evaluated run = Inr m"
  then obtain h vs i where
    "m = (base_maturity finding (sorted_set relevant) h p evaluated run vs)\<lparr>mt_evaluation_id := i\<rparr>"
    by (rule evaluate_maturity_Inr)
  then show "replay_maturity R m g = Inr m"
    using a by (simp add: replay_maturity_def evaluate_maturity_sorted)
next
  assume "evaluate_maturity_v2 R finding relevant g p evaluated run traj basis = Inr m"
  then show "replay_maturity R m g = Inr m"
  proof (rule evaluate_maturity_v2_Inr)
    fix base us l0 r0 l1 r1 t l2 r2 b q i
    assume base: "evaluate_maturity R finding relevant g p evaluated run = Inr base"
      and us: "usable_ids R g = Inr us" and l0: "available_support base us = (l0, r0)"
      and t: "apply_trajectory R g base us l0 r0 t = Inr (l1, r1, t)"
      and b: "apply_context R base l1 r1 b = Inr (l2, r2, b, q)"
      and v: "validate_maturity R (base\<lparr>mt_schema := MaturityV2, mt_evaluation_id := [], mt_level := l2,
       mt_supporting := sorted_set (inter_list (mt_supporting base) us),
       mt_reasons := r2, mt_trajectory := t, mt_context_basis := b, mt_qualification := q\<rparr>) = Inr m"
      and m: "m = base\<lparr>mt_schema := MaturityV2, mt_evaluation_id := i, mt_level := l2,
       mt_supporting := sorted_set (inter_list (mt_supporting base) us),
       mt_reasons := r2, mt_trajectory := t, mt_context_basis := b, mt_qualification := q\<rparr>"
    from base obtain h vs j where
      "base = (base_maturity finding (sorted_set relevant) h p evaluated run vs)\<lparr>mt_evaluation_id := j\<rparr>"
      by (rule evaluate_maturity_Inr)
    then have f: "mt_schema m = MaturityV2" "mt_finding_id m = finding" "mt_relevant m = sorted_set relevant"
      "mt_persistence m = p" "mt_evaluated_at m = evaluated" "mt_source_run_id m = run"
      "mt_trajectory m = t" "mt_context_basis m = b"
      by (simp_all add: m)
    show ?thesis
      by (simp add: replay_maturity_def f evaluate_maturity_v2_def evaluate_maturity_sorted base us l0 t b v)
  qed
qed

text \<open>
  Replaying a stored evaluation of either schema against the same graph reproduces it exactly,
  identity included.
\<close>

theorem maturity_replay:
  "(evaluate_maturity R finding relevant g p evaluated run = Inr m \<longrightarrow> replay_maturity R m g = Inr m)
   \<and> (evaluate_maturity_v2 R finding relevant g p evaluated run traj basis = Inr m \<longrightarrow>
        replay_maturity R m g = Inr m)"
  by (rule replay_evaluated)

theorem maturity_replay_witness: "replay_maturity demo_runtime demo_maturity demo_checked = Inr demo_maturity"
  using maturity_replay [of demo_runtime "''f''" "[''evidence:b'', ''evidence:a'']" demo_checked demo_persistence 50
     "''run''" demo_maturity None None] demo_maturity by blast

end
