(* ===== verification/Gov_Policy.thy ===== *)
theory Gov_Policy
  imports Gov_Maturity
begin

text \<open>
  Authority policies, \<^verbatim>\<open>backend/app/governance/policy.py\<close>: the versioned policy record, its registry
  with the resolution of the policy in force, and the evaluation of a request against a policy. An
  outcome is eligibility only; nothing executes.
\<close>

subsection \<open>The policy record\<close>

record outcome_rules =
  or_satisfied :: authority_outcome
  or_insufficient :: authority_outcome
  or_prohibited :: authority_outcome
  or_tier_b :: authority_outcome

definition rules_ok :: "outcome_rules \<Rightarrow> bool" where
  "rules_ok r = (or_satisfied r \<in> {PERMITTED, RELEASED, ESCALATED}
     \<and> or_insufficient r \<in> {DEFERRED, BLOCKED}
     \<and> or_prohibited r \<in> {BLOCKED, HUMAN_REVIEW_REQUIRED}
     \<and> or_tier_b r \<in> {HUMAN_REVIEW_REQUIRED, BLOCKED, DEFERRED})"

definition rules_dict :: "outcome_rules \<Rightarrow> json" where
  "rules_dict r = JObj [(''satisfied'', JStr (outcome_value (or_satisfied r))),
     (''insufficient'', JStr (outcome_value (or_insufficient r))),
     (''prohibited'', JStr (outcome_value (or_prohibited r))),
     (''tier_b'', JStr (outcome_value (or_tier_b r)))]"

record policy =
  policy_record_id :: string
  po_policy_id :: string
  po_policy_version :: int
  applicable_system_scope :: string
  po_requested_operation :: requested_operation
  minimum_maturity :: maturity_level
  allowed_lifecycle_states :: "lifecycle_state list"
  required_evidence_families :: "evidence_family list"
  prohibited_evidence_conditions :: "evidence_condition list"
  required_context_types :: "context_type list"
  human_review_requirement :: bool
  decision_outcome_rules :: outcome_rules
  po_effective_from :: timestamp
  po_effective_to :: "timestamp option"
  po_created_at :: timestamp
  po_supersedes :: "string option"
  po_provenance :: provenance

text \<open>\<open>tuple(sorted(set(value)))\<close> over a string enum.\<close>

definition ordered_enum :: "('a \<Rightarrow> string) \<Rightarrow> 'a list \<Rightarrow> 'a list" where
  "ordered_enum f xs = sort_key f (remdups xs)"

definition policy_body :: "policy \<Rightarrow> jdict" where
  "policy_body p = [(''schema_version'', JStr ''authority-policy-v1''),
     (''policy_id'', JStr (po_policy_id p)), (''policy_version'', JInt (po_policy_version p)),
     (''applicable_system_scope'', JStr (applicable_system_scope p)),
     (''requested_operation'', JStr (operation_value (po_requested_operation p))),
     (''minimum_maturity'', JStr (level_value (minimum_maturity p))),
     (''allowed_lifecycle_states'', jstrs (map lifecycle_value (allowed_lifecycle_states p))),
     (''required_evidence_families'', jstrs (map family_value (required_evidence_families p))),
     (''prohibited_evidence_conditions'', jstrs (map condition_value (prohibited_evidence_conditions p))),
     (''required_context_types'', jstrs (map context_type_value (required_context_types p))),
     (''human_review_requirement'', JBool (human_review_requirement p)),
     (''decision_outcome_rules'', rules_dict (decision_outcome_rules p)),
     (''effective_from'', JTime (po_effective_from p)), (''effective_to'', jopt JTime (po_effective_to p)),
     (''created_at'', JTime (po_created_at p)), (''supersedes'', jopt JStr (po_supersedes p)),
     (''provenance'', provenance_dict (po_provenance p))]"

definition policy_dict :: "policy \<Rightarrow> jdict" where
  "policy_dict p = (''policy_record_id'', JStr (policy_record_id p)) # policy_body p"

definition normalize_policy :: "policy \<Rightarrow> policy" where
  "normalize_policy p = p\<lparr>
     allowed_lifecycle_states := ordered_enum lifecycle_value (allowed_lifecycle_states p),
     required_evidence_families := ordered_enum family_value (required_evidence_families p),
     prohibited_evidence_conditions := ordered_enum condition_value (prohibited_evidence_conditions p),
     required_context_types := ordered_enum context_type_value (required_context_types p)\<rparr>"

definition policy_fields :: "policy \<Rightarrow> (string \<times> bool) list" where
  "policy_fields p = [(''policy_id'', text_ok (po_policy_id p)),
     (''policy_version'', version_ok (po_policy_version p)),
     (''applicable_system_scope'', text_ok (applicable_system_scope p)),
     (''decision_outcome_rules'', rules_ok (decision_outcome_rules p)),
     (''supersedes'', text_opt_ok (po_supersedes p)),
     (''provenance'', provenance_ok (po_provenance p))]"

definition policy_interval :: "policy \<Rightarrow> policy gov" where
  "policy_interval p =
     (if (case po_effective_to p of None \<Rightarrow> False | Some e \<Rightarrow> e \<le> po_effective_from p)
      then Inl (ValueError ''empty_or_reversed_policy_interval'')
      else if (po_policy_version p = 1) \<noteq> (po_supersedes p = None)
      then Inl (ValueError ''policy_version_requires_predecessor'')
      else Inr p)"

definition validate_policy :: "runtime \<Rightarrow> policy \<Rightarrow> policy gov" where
  "validate_policy R p =
     bindE (check_fields (policy_fields p)) (\<lambda>_.
     let q = normalize_policy p in
     bindE (validate_identity R ''authority-policy'' ''policy_record_id'' (JObj (policy_body q))
              (policy_record_id q)) (\<lambda>i.
     policy_interval (q\<lparr>policy_record_id := i\<rparr>)))"

lemma ordered_enum_idem [simp]: "ordered_enum f (ordered_enum f xs) = ordered_enum f xs"
  by (simp add: ordered_enum_def distinct_remdups_id)

lemma set_ordered_enum [simp]: "set (ordered_enum f xs) = set xs"
  by (simp add: ordered_enum_def)

lemma policy_simps [simp]:
  "policy_body (p\<lparr>policy_record_id := i\<rparr>) = policy_body p"
  "policy_fields (p\<lparr>policy_record_id := i\<rparr>) = policy_fields p"
  "policy_fields (normalize_policy p) = policy_fields p"
  "normalize_policy (p\<lparr>policy_record_id := i\<rparr>) = (normalize_policy p)\<lparr>policy_record_id := i\<rparr>"
  "normalize_policy (normalize_policy p) = normalize_policy p"
  by (simp_all add: policy_body_def policy_fields_def normalize_policy_def)

lemma policy_interval_Inr: "policy_interval p = Inr q \<Longrightarrow> q = p"
  by (auto simp: policy_interval_def split: if_splits)

lemma validate_policy_form:
  assumes "validate_policy R p = Inr q"
  shows "q = (normalize_policy p)\<lparr>policy_record_id :=
            content_id R ''authority-policy'' (JObj (policy_body (normalize_policy p)))\<rparr>"
    and "check_fields (policy_fields q) = Inr ()" and "policy_interval q = Inr q"
proof -
  let ?i = "content_id R ''authority-policy'' (JObj (policy_body (normalize_policy p)))"
  from assms have f: "check_fields (policy_fields p) = Inr ()"
    and v: "policy_interval ((normalize_policy p)\<lparr>policy_record_id := ?i\<rparr>) = Inr q"
    by (cases "check_fields (policy_fields p)";
        auto simp: validate_policy_def bindE_eq_Inr Let_def validate_identity_Inr)+
  show q: "q = (normalize_policy p)\<lparr>policy_record_id := ?i\<rparr>" by (rule policy_interval_Inr [OF v])
  show "check_fields (policy_fields q) = Inr ()" using f by (simp add: q)
  show "policy_interval q = Inr q" using v by (simp add: q)
qed

lemma validate_policy_idem:
  assumes "validate_policy R p = Inr q"
  shows "validate_policy R q = Inr q"
proof -
  note q = validate_policy_form [OF assms]
  from q(1) have n: "normalize_policy q = q" and i: "policy_record_id q = content_id R ''authority-policy'' (JObj (policy_body q))"
    by simp_all
  have "validate_identity R ''authority-policy'' ''policy_record_id'' (JObj (policy_body q)) (policy_record_id q)
      = Inr (policy_record_id q)"
    using i by (simp add: validate_identity_Inr)
  then show ?thesis using q(2,3) by (simp add: validate_policy_def n Let_def)
qed

definition policy_ops :: "runtime \<Rightarrow> policy registry_ops" where
  "policy_ops R = \<lparr>rg_namespace = ''authority-policy-registry-v1'', rg_validate = validate_policy R,
     rg_scope = applicable_system_scope, rg_identity = po_policy_id, rg_version = po_policy_version,
     rg_id = policy_record_id, rg_supersedes = po_supersedes, rg_created = po_created_at\<rparr>"

interpretation policies: version_registry "policy_ops R" for R
  by unfold_locales (auto simp: policy_ops_def intro: validate_policy_idem)

subsection \<open>Resolution\<close>

text \<open>\<open>max(known, key=version)\<close>: the first of the highest version.\<close>

fun max_version :: "policy \<Rightarrow> policy list \<Rightarrow> policy" where
  "max_version p [] = p"
| "max_version p (q # qs) = max_version (if po_policy_version q > po_policy_version p then q else p) qs"

definition resolve_policy ::
  "runtime \<Rightarrow> auth_scope \<Rightarrow> string \<Rightarrow> string \<Rightarrow> timestamp \<Rightarrow> policy ledgers \<Rightarrow> policy gov" where
  "resolve_policy R scope system policy_id evaluated store =
     bindE (registry_as_of R (policy_ops R) scope system evaluated store) (\<lambda>rs.
     let known = filter (\<lambda>p. po_policy_id p = policy_id \<and> po_effective_from p \<le> evaluated) rs in
     (case known of
        [] \<Rightarrow> Inl (ValueError ''policy_unavailable_at_decision'')
      | p # ps \<Rightarrow>
          let best = max_version p ps in
          if \<not> covers (po_effective_from best) (po_effective_to best) evaluated
          then Inl (ValueError ''policy_expired_at_decision'')
          else Inr best))"

lemma max_version_spec:
  "max_version p qs \<in> set (p # qs) \<and> (\<forall>q \<in> set (p # qs). po_policy_version q \<le> po_policy_version (max_version p qs))"
proof (induction qs arbitrary: p)
  case (Cons q qs)
  from Cons.IH [of "if po_policy_version q > po_policy_version p then q else p"] show ?case
    by (auto split: if_splits)
qed simp

subsection \<open>Evaluation\<close>

record policy_evaluation =
  pe_evaluation_id :: string
  pe_policy_id :: string
  pe_policy_version :: int
  pe_policy_record_id :: string
  pe_evaluated_at :: timestamp
  pe_requested_operation :: requested_operation
  pe_graph_snapshot_id :: string
  pe_maturity_snapshot_id :: string
  pe_context_basis_id :: string
  pe_lifecycle_state :: lifecycle_state
  pe_outcome :: authority_outcome
  pe_reasons :: "string list"
  pe_satisfied_rules :: "string list"
  pe_failed_rules :: "string list"
  pe_limiting_evidence :: "string list"
  pe_contradicting_evidence :: "string list"
  pe_limiting_context :: "string list"
  pe_classification :: "classification option"

definition assessment_dict :: "assessment \<Rightarrow> json" where
  "assessment_dict a = JObj [(''condition'', JStr (condition_value (ca_condition a))),
     (''status'', JStr (status_value (ca_status a))), (''evidence_ids'', jstrs (ca_evidence_ids a))]"

definition classification_dict :: "classification \<Rightarrow> json" where
  "classification_dict c = JObj [(''tier'', JStr (tier_value (tc_tier c))),
     (''eligible_candidate'', JBool (tc_eligible_candidate c)), (''reasons'', jstrs (tc_reasons c)),
     (''assessments'', JList (map assessment_dict (tc_assessments c))),
     (''limiting_evidence'', jstrs (tc_limiting_evidence c)), (''execution_authorized'', JBool False)]"

definition evaluation_body :: "policy_evaluation \<Rightarrow> jdict" where
  "evaluation_body e = [(''evaluator_version'', JStr ''authority-evaluator-v1''),
     (''policy_id'', JStr (pe_policy_id e)), (''policy_version'', JInt (pe_policy_version e)),
     (''policy_record_id'', JStr (pe_policy_record_id e)), (''evaluated_at'', JTime (pe_evaluated_at e)),
     (''requested_operation'', JStr (operation_value (pe_requested_operation e))),
     (''dependency_graph_snapshot_id'', JStr (pe_graph_snapshot_id e)),
     (''maturity_snapshot_id'', JStr (pe_maturity_snapshot_id e)),
     (''context_basis_id'', JStr (pe_context_basis_id e)),
     (''lifecycle_state'', JStr (lifecycle_value (pe_lifecycle_state e))),
     (''outcome'', JStr (outcome_value (pe_outcome e))), (''reasons'', jstrs (pe_reasons e)),
     (''satisfied_rules'', jstrs (pe_satisfied_rules e)), (''failed_rules'', jstrs (pe_failed_rules e)),
     (''limiting_evidence'', jstrs (pe_limiting_evidence e)),
     (''contradicting_evidence'', jstrs (pe_contradicting_evidence e)),
     (''limiting_context'', jstrs (pe_limiting_context e)),
     (''classification'', jopt classification_dict (pe_classification e)),
     (''execution_authorized'', JBool False)]"

definition evaluation_fields :: "policy_evaluation \<Rightarrow> (string \<times> bool) list" where
  "evaluation_fields e = [(''policy_id'', text_ok (pe_policy_id e)),
     (''policy_version'', version_ok (pe_policy_version e)),
     (''policy_record_id'', text_ok (pe_policy_record_id e)),
     (''dependency_graph_snapshot_id'', text_ok (pe_graph_snapshot_id e)),
     (''maturity_snapshot_id'', text_ok (pe_maturity_snapshot_id e)),
     (''context_basis_id'', text_ok (pe_context_basis_id e)), (''reasons'', texts_ok (pe_reasons e)),
     (''satisfied_rules'', texts_ok (pe_satisfied_rules e)),
     (''failed_rules'', texts_ok (pe_failed_rules e)),
     (''limiting_evidence'', texts_ok (pe_limiting_evidence e)),
     (''contradicting_evidence'', texts_ok (pe_contradicting_evidence e)),
     (''limiting_context'', texts_ok (pe_limiting_context e)),
     (''classification'', (case pe_classification e of None \<Rightarrow> True | Some c \<Rightarrow>
        texts_ok (tc_reasons c) \<and> texts_ok (tc_limiting_evidence c)
        \<and> list_all (\<lambda>a. texts_ok (ca_evidence_ids a)) (tc_assessments c)))]"

definition validate_evaluation :: "runtime \<Rightarrow> policy_evaluation \<Rightarrow> policy_evaluation gov" where
  "validate_evaluation R e =
     bindE (check_fields (evaluation_fields e)) (\<lambda>_.
     bindE (validate_identity R ''authority-policy-evaluation'' ''evaluation_id'' (JObj (evaluation_body e))
              (pe_evaluation_id e)) (\<lambda>i.
     Inr (e\<lparr>pe_evaluation_id := i\<rparr>)))"

definition ADAPTATION_OPERATIONS :: "requested_operation list" where
  "ADAPTATION_OPERATIONS = [EVALUATE_ADAPTATION, ADAPT_STATE_LOCATION, ADAPT_STRUCTURE]"

definition validate_policy_basis ::
  "runtime \<Rightarrow> policy \<Rightarrow> graph \<Rightarrow> maturity \<Rightarrow> context_basis \<Rightarrow> timestamp \<Rightarrow> unit gov" where
  "validate_policy_basis R p g m c evaluated =
     bindE (replay_maturity R m g) (\<lambda>r.
     if r \<noteq> m then Inl (ValueError ''policy_maturity_replay_mismatch'')
     else if po_created_at p > evaluated \<or> mt_evaluated_at m > evaluated \<or> cb_evaluated_at c > evaluated
     then Inl (ValueError ''policy_basis_contains_future_knowledge'')
     else bindE (validate_available_at g evaluated) (\<lambda>_.
     if g_system_scope g \<noteq> mt_system_scope m \<or> g_system_scope g \<noteq> cb_system_scope c
     then Inl (ValueError ''policy_basis_scope_mismatch'')
     else (case mt_context_basis m of
             None \<Rightarrow> Inr ()
           | Some b \<Rightarrow> validate_historical_basis R c b)))"

definition usable_relevant :: "runtime \<Rightarrow> graph \<Rightarrow> maturity \<Rightarrow> evidence list gov" where
  "usable_relevant R g m =
     bindE (mapE (\<lambda>x. bindE (usable_lineage R g (evidence_id x)) (\<lambda>u. Inr (x,
         u \<and> payload_get x ''status'' (JStr ''available'') = JStr ''available'')))
       (filter (\<lambda>x. evidence_id x \<in> set (mt_relevant m)) (g_evidence g))) (\<lambda>us.
     Inr (map fst (filter snd us)))"

definition assessment_of :: "assessment list \<Rightarrow> evidence_condition \<Rightarrow> assessment option" where
  "assessment_of as c = next_or (\<lambda>a. ca_condition a = c) as"

definition condition_is :: "condition_status \<Rightarrow> assessment list \<Rightarrow> evidence_condition \<Rightarrow> bool" where
  "condition_is s as c = (case assessment_of as c of None \<Rightarrow> False | Some a \<Rightarrow> ca_status a = s)"

definition adaptation_checks ::
  "classification option \<Rightarrow> requested_operation \<Rightarrow> (string \<times> bool) list" where
  "adaptation_checks c operation =
     (case c of
        None \<Rightarrow> []
      | Some c \<Rightarrow>
          [(''adaptation_candidate_classified'', tc_eligible_candidate c)]
          @ (if operation = ADAPT_STATE_LOCATION then [(''tier_a_operation_match'', tc_tier c = TierA)] else [])
          @ (if operation = ADAPT_STRUCTURE then [(''tier_b_operation_match'', tc_tier c = TierB)] else []))"

text \<open>The calls of \<open>check\<close> in order: each appends its rule to \<open>satisfied\<close> or to \<open>failed\<close>.\<close>

definition policy_checks ::
  "policy \<Rightarrow> graph \<Rightarrow> maturity \<Rightarrow> lifecycle_state \<Rightarrow> context_basis \<Rightarrow> qualification \<Rightarrow> requested_operation
   \<Rightarrow> timestamp \<Rightarrow> evidence list \<Rightarrow> assessment list \<Rightarrow> classification option \<Rightarrow> (string \<times> bool) list" where
  "policy_checks p g m state current q operation evaluated usable conditions classification =
     (let applicable = filter (\<lambda>x. context_id x \<in> set (applicable_context_ids q)) (cb_records current) in
      [(''policy_scope'', applicable_system_scope p = g_system_scope g),
       (''requested_operation'', po_requested_operation p = operation),
       (''policy_effective_interval'', covers (po_effective_from p) (po_effective_to p) evaluated),
       (''minimum_maturity'', level_rank (minimum_maturity p) \<le> level_rank (mt_level m)),
       (''allowed_lifecycle_state'', state \<in> set (allowed_lifecycle_states p))]
      @ (if minimum_maturity p = L4
         then [(''current_L4_context'', list_ex (\<lambda>x. context_type x \<in> set QUALIFYING_TYPES) applicable)]
         else [])
      @ [(''maturity_support_available'', subset_list (mt_supporting m) (map evidence_id usable))]
      @ map (\<lambda>f. (''evidence_family:'' @ family_value f, list_ex (\<lambda>x. evidence_family x = f) usable))
          (ordered_enum family_value (required_evidence_families p))
      @ map (\<lambda>c. (''prohibited_condition_absent:'' @ condition_value c, condition_is Absent conditions c))
          (ordered_enum condition_value (prohibited_evidence_conditions p))
      @ map (\<lambda>k. (''context_type:'' @ context_type_value k, list_ex (\<lambda>x. context_type x = k) applicable))
          (ordered_enum context_type_value (required_context_types p))
      @ adaptation_checks classification operation)"

definition policy_outcome ::
  "policy \<Rightarrow> string list \<Rightarrow> bool \<Rightarrow> classification option \<Rightarrow> authority_outcome \<times> string list" where
  "policy_outcome p failed prohibited classification =
     (let rules = decision_outcome_rules p in
      if list_ex (\<lambda>r. r \<in> set failed) [''policy_scope'', ''requested_operation'', ''policy_effective_interval'']
      then (BLOCKED, failed)
      else if prohibited then (or_prohibited rules, failed)
      else if failed \<noteq> [] then (or_insufficient rules, failed)
      else if (case classification of None \<Rightarrow> False | Some c \<Rightarrow> tc_tier c = TierB)
      then (or_tier_b rules, failed @ [''tier_b_requires_review_no_automatic_authority''])
      else if human_review_requirement p
      then (HUMAN_REVIEW_REQUIRED, failed @ [''human_review_pending''])
      else (or_satisfied rules, failed))"

definition limiting_of ::
  "policy \<Rightarrow> maturity \<Rightarrow> evidence list \<Rightarrow> assessment list \<Rightarrow> classification option \<Rightarrow> string list" where
  "limiting_of p m usable conditions classification =
     filter (\<lambda>i. i \<notin> set (map evidence_id usable)) (mt_supporting m)
     @ concat (map (\<lambda>c. case assessment_of conditions c of
           None \<Rightarrow> [] | Some a \<Rightarrow> if ca_status a \<noteq> Absent then ca_evidence_ids a else [])
         (prohibited_evidence_conditions p))
     @ (case classification of None \<Rightarrow> [] | Some c \<Rightarrow> tc_limiting_evidence c)"

definition contradicting_of :: "assessment list \<Rightarrow> string list" where
  "contradicting_of conditions = concat (map ca_evidence_ids
     (filter (\<lambda>a. ca_status a = Present \<and> ca_condition a \<noteq> LOCATION_SHIFT) conditions))"

definition evaluate_policy ::
  "runtime \<Rightarrow> policy \<Rightarrow> graph \<Rightarrow> maturity \<Rightarrow> lifecycle_state \<Rightarrow> context_basis \<Rightarrow> requested_operation
   \<Rightarrow> timestamp \<Rightarrow> policy_evaluation gov" where
  "evaluate_policy R p g m state c operation evaluated =
     bindE (validate_policy R p) (\<lambda>p.
     bindE (validate_graph R g) (\<lambda>g.
     bindE (validate_basis R c) (\<lambda>c.
     bindE (validate_policy_basis R p g m c evaluated) (\<lambda>_.
     bindE (validate_basis R (c\<lparr>cb_evaluated_at := evaluated, cb_relevant_at := evaluated\<rparr>)) (\<lambda>current.
     bindE (qualify_context R current False) (\<lambda>q.
     bindE (usable_relevant R g m) (\<lambda>usable.
     bindE (assess_conditions R g (mt_relevant m)) (\<lambda>conditions.
     bindE (if operation \<in> set ADAPTATION_OPERATIONS
            then bindE (classify_tier R g (mt_relevant m)) (\<lambda>c. Inr (Some c)) else Inr None) (\<lambda>classification.
     let checks = policy_checks p g m state current q operation evaluated usable conditions classification;
         satisfied = map fst (filter snd checks);
         prohibited = list_ex (condition_is Present conditions) (prohibited_evidence_conditions p);
         (outcome, failed) = policy_outcome p (map fst (filter (\<lambda>(r, ok). \<not> ok) checks)) prohibited classification
     in validate_evaluation R \<lparr>pe_evaluation_id = [], pe_policy_id = po_policy_id p,
          pe_policy_version = po_policy_version p, pe_policy_record_id = policy_record_id p,
          pe_evaluated_at = evaluated, pe_requested_operation = operation,
          pe_graph_snapshot_id = g_snapshot_id g, pe_maturity_snapshot_id = mt_evaluation_id m,
          pe_context_basis_id = content_id R ''policy-context-basis'' (JObj (basis_dict current)),
          pe_lifecycle_state = state, pe_outcome = outcome,
          pe_reasons = (if failed \<noteq> [] then failed else [''all_policy_rules_satisfied'']),
          pe_satisfied_rules = satisfied, pe_failed_rules = failed,
          pe_limiting_evidence = sorted_set (limiting_of p m usable conditions classification),
          pe_contradicting_evidence = sorted_set (contradicting_of conditions),
          pe_limiting_context = sorted_set (limiting_context q @ unavailable_context q
            @ filter (\<lambda>r. starts_with r ''context_type:'') failed),
          pe_classification = classification\<rparr>)))))))))"

subsection \<open>What an evaluation says\<close>

definition granted :: "authority_outcome \<Rightarrow> bool" where
  "granted a = (a \<in> {PERMITTED, RELEASED, ESCALATED})"

lemma failed_Nil_iff: "map fst (filter (\<lambda>(r, ok). \<not> ok) checks) = [] \<longleftrightarrow> (\<forall>(r, ok) \<in> set checks. ok)"
  by (auto simp: filter_empty_conv)

lemma granted_simps [simp]: "\<not> granted BLOCKED" "\<not> granted DEFERRED" "\<not> granted HUMAN_REVIEW_REQUIRED"
  by (simp_all add: granted_def)

lemma rules_granted:
  "rules_ok r \<Longrightarrow> granted (or_satisfied r) \<and> \<not> granted (or_insufficient r)
     \<and> \<not> granted (or_prohibited r) \<and> \<not> granted (or_tier_b r)"
  by (auto simp: rules_ok_def granted_def)

lemma policy_outcome_granted:
  assumes "policy_outcome p failed prohibited c = (outcome, failed')" and "rules_ok (decision_outcome_rules p)"
  shows "granted outcome \<longleftrightarrow> failed' = [] \<and> \<not> prohibited"
    and "granted outcome \<longleftrightarrow> failed = [] \<and> \<not> prohibited \<and> \<not> human_review_requirement p
           \<and> (case c of None \<Rightarrow> True | Some k \<Rightarrow> tc_tier k \<noteq> TierB)"
  using assms(1) rules_granted [OF assms(2)] unfolding policy_outcome_def Let_def
  by (simp_all split: if_split_asm option.split_asm) (auto split: option.splits)

lemma policy_outcome_keeps:
  "policy_outcome p failed prohibited c = (outcome, failed') \<Longrightarrow> set failed \<subseteq> set failed'"
  by (auto simp: policy_outcome_def Let_def split: if_splits option.splits)

lemma validate_evaluation_Inr:
  "validate_evaluation R e = Inr e' \<Longrightarrow> \<exists>i. e' = e\<lparr>pe_evaluation_id := i\<rparr>"
  by (auto simp: validate_evaluation_def res_simps)

lemma evaluate_policy_Inr:
  assumes "evaluate_policy R p g m state c operation evaluated = Inr e"
  obtains p' h c' current q usable conditions classification checks prohibited where
    "validate_policy R p = Inr p'" "validate_graph R g = Inr h" "validate_basis R c = Inr c'"
    "validate_policy_basis R p' h m c' evaluated = Inr ()"
    "validate_basis R (c'\<lparr>cb_evaluated_at := evaluated, cb_relevant_at := evaluated\<rparr>) = Inr current"
    "qualify_context R current False = Inr q" "usable_relevant R h m = Inr usable"
    "assess_conditions R h (mt_relevant m) = Inr conditions"
    "if operation \<in> set ADAPTATION_OPERATIONS
     then \<exists>k. classify_tier R h (mt_relevant m) = Inr k \<and> classification = Some k else classification = None"
    "checks = policy_checks p' h m state current q operation evaluated usable conditions classification"
    "policy_outcome p' (map fst (filter (\<lambda>(r, ok). \<not> ok) checks)) prohibited classification
       = (pe_outcome e, pe_failed_rules e)"
    "prohibited = list_ex (condition_is Present conditions) (prohibited_evidence_conditions p')"
    "pe_classification e = classification"
proof -
  from assms obtain p' h c' current q usable conditions where
    a: "validate_policy R p = Inr p'" "validate_graph R g = Inr h" "validate_basis R c = Inr c'"
    "validate_policy_basis R p' h m c' evaluated = Inr ()"
    "validate_basis R (c'\<lparr>cb_evaluated_at := evaluated, cb_relevant_at := evaluated\<rparr>) = Inr current"
    "qualify_context R current False = Inr q" "usable_relevant R h m = Inr usable"
    "assess_conditions R h (mt_relevant m) = Inr conditions"
    unfolding evaluate_policy_def bindE_eq_Inr by (elim exE conjE) (simp (no_asm_use))
  from assms a obtain cl where
    cl: "(if operation \<in> set ADAPTATION_OPERATIONS
         then bindE (classify_tier R h (mt_relevant m)) (\<lambda>c. Inr (Some c)) else Inr None) = Inr cl"
    unfolding evaluate_policy_def by (auto simp: bindE_eq_Inr)
  let ?checks = "policy_checks p' h m state current q operation evaluated usable conditions cl"
  let ?pro = "list_ex (condition_is Present conditions) (prohibited_evidence_conditions p')"
  obtain outcome failed where
    o: "policy_outcome p' (map fst (filter (\<lambda>(r, ok). \<not> ok) ?checks)) ?pro cl = (outcome, failed)"
    by (cases "policy_outcome p' (map fst (filter (\<lambda>(r, ok). \<not> ok) ?checks)) ?pro cl")
  from assms a cl o have "pe_outcome e = outcome \<and> pe_failed_rules e = failed \<and> pe_classification e = cl"
    unfolding evaluate_policy_def by (auto simp: Let_def dest!: validate_evaluation_Inr)
  moreover have "if operation \<in> set ADAPTATION_OPERATIONS
     then \<exists>k. classify_tier R h (mt_relevant m) = Inr k \<and> cl = Some k else cl = None"
    using cl by (auto simp: bindE_eq_Inr split: if_splits)
  ultimately show thesis using that [OF a _ refl _ refl, of cl] o by simp
qed

lemma usable_relevant_Inr:
  assumes "usable_relevant R g m = Inr us"
  shows "set us = {x \<in> set (g_evidence g). evidence_id x \<in> set (mt_relevant m)
     \<and> usable_lineage R g (evidence_id x) = Inr True
     \<and> payload_get x ''status'' (JStr ''available'') = JStr ''available''}"
proof -
  let ?f = "\<lambda>x. bindE (usable_lineage R g (evidence_id x)) (\<lambda>u. Inr (x,
         u \<and> payload_get x ''status'' (JStr ''available'') = JStr ''available''))"
  from assms obtain ps where
    ps: "list_all2 (\<lambda>x y. ?f x = Inr y) (filter (\<lambda>x. evidence_id x \<in> set (mt_relevant m)) (g_evidence g)) ps"
    and us: "us = map fst (filter snd ps)"
    by (auto simp: usable_relevant_def res_simps mapE_eq_Inr)
  have "set (map fst (filter snd ps)) = {x \<in> set xs. usable_lineage R g (evidence_id x) = Inr True
     \<and> payload_get x ''status'' (JStr ''available'') = JStr ''available''}"
    if "list_all2 (\<lambda>x y. ?f x = Inr y) xs ps" for xs
    using that by (induction xs ps rule: list_all2_induct) (auto simp: res_simps)
  from this [OF ps] show ?thesis by (auto simp: us)
qed

lemma adaptation_never_granted:
  assumes c: "classify_tier R h relevant = Inr k"
    and ok: "\<forall>(r, ok) \<in> set (adaptation_checks (Some k) operation). ok"
  shows "tc_tier k = TierB"
  using ok classify_tier_eligible [OF c] by (simp add: adaptation_checks_def)

text \<open>All the checks passed, spelled out.\<close>

lemma policy_checks_iff:
  "(\<forall>(r, ok) \<in> set (policy_checks p g m state current q operation t usable conditions cl). ok) \<longleftrightarrow>
     applicable_system_scope p = g_system_scope g \<and> po_requested_operation p = operation
   \<and> covers (po_effective_from p) (po_effective_to p) t \<and> level_rank (minimum_maturity p) \<le> level_rank (mt_level m)
   \<and> state \<in> set (allowed_lifecycle_states p)
   \<and> (minimum_maturity p = L4 \<longrightarrow> (\<exists>x \<in> set (cb_records current).
        context_id x \<in> set (applicable_context_ids q) \<and> context_type x \<in> set QUALIFYING_TYPES))
   \<and> set (mt_supporting m) \<subseteq> evidence_id ` set usable
   \<and> (\<forall>f \<in> set (required_evidence_families p). \<exists>x \<in> set usable. evidence_family x = f)
   \<and> (\<forall>c \<in> set (prohibited_evidence_conditions p). condition_is Absent conditions c)
   \<and> (\<forall>k \<in> set (required_context_types p). \<exists>x \<in> set (cb_records current).
        context_id x \<in> set (applicable_context_ids q) \<and> context_type x = k)
   \<and> (\<forall>(r, ok) \<in> set (adaptation_checks cl operation). ok)"
  unfolding policy_checks_def Let_def set_append ball_Un set_map ball_simps
  by (simp add: list_ex_iff) blast

lemma normalize_policy_simps [simp]:
  "applicable_system_scope (normalize_policy p) = applicable_system_scope p"
  "po_requested_operation (normalize_policy p) = po_requested_operation p"
  "po_effective_from (normalize_policy p) = po_effective_from p"
  "po_effective_to (normalize_policy p) = po_effective_to p"
  "minimum_maturity (normalize_policy p) = minimum_maturity p"
  "human_review_requirement (normalize_policy p) = human_review_requirement p"
  "decision_outcome_rules (normalize_policy p) = decision_outcome_rules p"
  "set (allowed_lifecycle_states (normalize_policy p)) = set (allowed_lifecycle_states p)"
  "set (required_evidence_families (normalize_policy p)) = set (required_evidence_families p)"
  "set (prohibited_evidence_conditions (normalize_policy p)) = set (prohibited_evidence_conditions p)"
  "set (required_context_types (normalize_policy p)) = set (required_context_types p)"
  by (simp_all add: normalize_policy_def)

lemma validate_policy_rules: "validate_policy R p = Inr q \<Longrightarrow> rules_ok (decision_outcome_rules q)"
  using validate_policy_form(2) [of R p q] by (simp add: policy_fields_def split: if_splits)

lemma policy_basis_Inr:
  assumes "validate_policy_basis R p g m c t = Inr ()"
  shows "replay_maturity R m g = Inr m" "po_created_at p \<le> t" "mt_evaluated_at m \<le> t" "cb_evaluated_at c \<le> t"
    "validate_available_at g t = Inr ()" "mt_system_scope m = g_system_scope g" "cb_system_scope c = g_system_scope g"
  using assms unfolding validate_policy_basis_def by (auto elim!: bindE_elim split: if_split_asm)

text \<open>
  What a grant rests on, over the context basis \<open>b\<close> re-dated to the decision, its qualification \<open>q\<close> and the
  assessed conditions \<open>as\<close>.
\<close>

definition grant_basis ::
  "runtime \<Rightarrow> policy \<Rightarrow> graph \<Rightarrow> maturity \<Rightarrow> lifecycle_state \<Rightarrow> requested_operation \<Rightarrow> timestamp \<Rightarrow> context_basis
   \<Rightarrow> qualification \<Rightarrow> assessment list \<Rightarrow> bool" where
  "grant_basis R p h m state operation t b q as \<longleftrightarrow>
     applicable_system_scope p = g_system_scope h \<and> po_requested_operation p = operation
   \<and> covers (po_effective_from p) (po_effective_to p) t \<and> level_rank (minimum_maturity p) \<le> level_rank (mt_level m)
   \<and> state \<in> set (allowed_lifecycle_states p)
   \<and> (minimum_maturity p = L4 \<longrightarrow> (\<exists>x \<in> set (cb_records b).
        context_id x \<in> set (applicable_context_ids q) \<and> context_type x \<in> set QUALIFYING_TYPES))
   \<and> (\<forall>i \<in> set (mt_supporting m). \<exists>x \<in> set (g_evidence h). evidence_id x = i \<and> i \<in> set (mt_relevant m)
        \<and> usable_lineage R h i = Inr True \<and> payload_get x ''status'' (JStr ''available'') = JStr ''available'')
   \<and> (\<forall>f \<in> set (required_evidence_families p). \<exists>x \<in> set (g_evidence h). evidence_family x = f
        \<and> evidence_id x \<in> set (mt_relevant m) \<and> usable_lineage R h (evidence_id x) = Inr True
        \<and> payload_get x ''status'' (JStr ''available'') = JStr ''available'')
   \<and> (\<forall>k \<in> set (prohibited_evidence_conditions p). condition_is Absent as k)
   \<and> (\<forall>k \<in> set (required_context_types p). \<exists>x \<in> set (cb_records b).
        context_id x \<in> set (applicable_context_ids q) \<and> context_type x = k)
   \<and> \<not> human_review_requirement p \<and> operation \<notin> set ADAPTATION_OPERATIONS"

lemma condition_not_both: "condition_is Absent as c \<Longrightarrow> \<not> condition_is Present as c"
  by (simp add: condition_is_def split: option.splits)

lemma granted_exactly:
  assumes "evaluate_policy R p g m state c operation t = Inr e"
  obtains h c' b q as where "validate_graph R g = Inr h" "validate_basis R c = Inr c'"
    "validate_basis R (c'\<lparr>cb_evaluated_at := t, cb_relevant_at := t\<rparr>) = Inr b" "qualify_context R b False = Inr q"
    "assess_conditions R h (mt_relevant m) = Inr as" "validate_policy_basis R p h m c' t = Inr ()"
    "granted (pe_outcome e) \<longleftrightarrow> pe_failed_rules e = []"
    "granted (pe_outcome e) \<longleftrightarrow> grant_basis R p h m state operation t b q as"
  using assms
proof (rule evaluate_policy_Inr)
  fix p' h c' b q usable as cl checks prohibited
  assume p': "validate_policy R p = Inr p'" and h: "validate_graph R g = Inr h" and c': "validate_basis R c = Inr c'"
    and basis: "validate_policy_basis R p' h m c' t = Inr ()"
    and b: "validate_basis R (c'\<lparr>cb_evaluated_at := t, cb_relevant_at := t\<rparr>) = Inr b"
    and q: "qualify_context R b False = Inr q" and usable: "usable_relevant R h m = Inr usable"
    and as: "assess_conditions R h (mt_relevant m) = Inr as"
    and cl: "if operation \<in> set ADAPTATION_OPERATIONS
       then \<exists>k. classify_tier R h (mt_relevant m) = Inr k \<and> cl = Some k else cl = None"
    and checks: "checks = policy_checks p' h m state b q operation t usable as cl"
    and out: "policy_outcome p' (map fst (filter (\<lambda>(r, ok). \<not> ok) checks)) prohibited cl = (pe_outcome e, pe_failed_rules e)"
    and pro: "prohibited = list_ex (condition_is Present as) (prohibited_evidence_conditions p')"
  obtain i where n: "p' = (normalize_policy p)\<lparr>policy_record_id := i\<rparr>" using validate_policy_form(1) [OF p'] by blast
  note O = policy_outcome_granted [OF out validate_policy_rules [OF p']]
  have pro: "\<not> prohibited" if "\<forall>(r, ok) \<in> set checks. ok"
    using that condition_not_both unfolding checks policy_checks_iff pro list_ex_iff by blast
  have "\<forall>(r, ok) \<in> set checks. ok" if "pe_failed_rules e = []"
  proof -
    have "map fst (filter (\<lambda>(r, ok). \<not> ok) checks) = []"
      using policy_outcome_keeps [OF out] unfolding that by (simp only: list.set subset_empty set_empty)
    then show ?thesis unfolding failed_Nil_iff .
  qed
  then have rules: "granted (pe_outcome e) \<longleftrightarrow> pe_failed_rules e = []" using O(1) pro by blast
  have adapt: "(\<forall>(r, ok) \<in> set (adaptation_checks cl operation). ok) \<and> (case cl of None \<Rightarrow> True | Some k \<Rightarrow> tc_tier k \<noteq> TierB)
      \<longleftrightarrow> operation \<notin> set ADAPTATION_OPERATIONS"
  proof (cases "operation \<in> set ADAPTATION_OPERATIONS")
    case True
    with cl obtain k where "classify_tier R h (mt_relevant m) = Inr k" "cl = Some k" by auto
    with True adaptation_never_granted [of R h "mt_relevant m" k operation] show ?thesis by auto
  qed (use cl in \<open>simp add: adaptation_checks_def\<close>)
  have "granted (pe_outcome e) \<longleftrightarrow> (\<forall>(r, ok) \<in> set checks. ok) \<and> \<not> human_review_requirement p'
      \<and> (case cl of None \<Rightarrow> True | Some k \<Rightarrow> tc_tier k \<noteq> TierB)"
    using O(2) pro unfolding failed_Nil_iff by blast
  also have "\<dots> \<longleftrightarrow> grant_basis R p h m state operation t b q as"
  proof -
    note U = usable_relevant_Inr [OF usable]
    have S: "set (mt_supporting m) \<subseteq> evidence_id ` set usable \<longleftrightarrow> (\<forall>i \<in> set (mt_supporting m). \<exists>x \<in> set (g_evidence h). evidence_id x = i
        \<and> i \<in> set (mt_relevant m) \<and> usable_lineage R h i = Inr True \<and> payload_get x ''status'' (JStr ''available'') = JStr ''available'')"
      unfolding U by auto
    have F: "(\<exists>x \<in> set usable. evidence_family x = f) \<longleftrightarrow> (\<exists>x \<in> set (g_evidence h). evidence_family x = f
        \<and> evidence_id x \<in> set (mt_relevant m) \<and> usable_lineage R h (evidence_id x) = Inr True
        \<and> payload_get x ''status'' (JStr ''available'') = JStr ''available'')" for f
      unfolding U by auto
    show ?thesis unfolding checks policy_checks_iff grant_basis_def adapt [symmetric] n S F by (simp add: conj_ac)
  qed
  finally have exact: "granted (pe_outcome e) \<longleftrightarrow> grant_basis R p h m state operation t b q as" .
  have "po_created_at p = po_created_at p'" by (simp add: n normalize_policy_def)
  then have "validate_policy_basis R p h m c' t = validate_policy_basis R p' h m c' t" by (simp only: validate_policy_basis_def)
  with basis have "validate_policy_basis R p h m c' t = Inr ()" by simp
  from that [OF h c' b q as this rules exact] show thesis .
qed

lemma granted_no_adaptation:
  "evaluate_policy R p g m state c operation t = Inr e \<Longrightarrow> granted (pe_outcome e) \<Longrightarrow> operation \<notin> set ADAPTATION_OPERATIONS"
  by (erule granted_exactly) (simp add: grant_basis_def)

lemma adaptation_outcome:
  assumes e: "evaluate_policy R p g m state c operation t = Inr e"
    and op: "operation \<in> set ADAPTATION_OPERATIONS"
  obtains k where "pe_classification e = Some k" "tc_tier k \<noteq> TierA"
    "\<exists>a \<in> set (tc_assessments k). ca_condition a = EXCESSIVE_EVOLUTION_RATE \<and> ca_status a \<noteq> Absent"
    "operation = ADAPT_STATE_LOCATION \<longrightarrow> ''tier_a_operation_match'' \<in> set (pe_failed_rules e)"
  using e
proof (rule evaluate_policy_Inr)
  fix p' h' c' current q usable conditions cl checks prohibited
  assume cl: "if operation \<in> set ADAPTATION_OPERATIONS
       then \<exists>k. classify_tier R h' (mt_relevant m) = Inr k \<and> cl = Some k else cl = None"
    and checks: "checks = policy_checks p' h' m state current q operation t usable conditions cl"
    and out: "policy_outcome p' (map fst (filter (\<lambda>(r, ok). \<not> ok) checks)) prohibited cl
       = (pe_outcome e, pe_failed_rules e)"
    and ec: "pe_classification e = cl"
  from cl op obtain k where k: "classify_tier R h' (mt_relevant m) = Inr k" "cl = Some k" by auto
  have A: "tc_tier k \<noteq> TierA" by (rule classify_tier_not_TierA [OF k(1)])
  have "''tier_a_operation_match'' \<in> set (pe_failed_rules e)" if "operation = ADAPT_STATE_LOCATION"
  proof -
    have "(''tier_a_operation_match'', False) \<in> set checks"
      using that A by (simp add: checks policy_checks_def Let_def k(2) adaptation_checks_def)
    then have "''tier_a_operation_match'' \<in> set (map fst (filter (\<lambda>(r, ok). \<not> ok) checks))" by force
    with policy_outcome_keeps [OF out] show ?thesis by blast
  qed
  with classify_tier_rate [OF k(1)] A ec k(2) show thesis by (metis that)
qed

lemma resolve_policy_spec:
  assumes "registry_history R (policy_ops R) scope system store = Inr rs"
    and "resolve_policy R scope system policy_id t store = Inr p"
  shows "p \<in> set rs \<and> po_policy_id p = policy_id \<and> po_created_at p \<le> t
    \<and> covers (po_effective_from p) (po_effective_to p) t
    \<and> (\<forall>q \<in> set rs. po_policy_id q = policy_id \<and> po_created_at q \<le> t \<and> po_effective_from q \<le> t
         \<longrightarrow> po_policy_version q \<le> po_policy_version p)"
proof -
  have c: "rg_created (policy_ops R) x = po_created_at x" for x by (simp add: policy_ops_def)
  let ?known = "filter (\<lambda>p. po_policy_id p = policy_id \<and> po_effective_from p \<le> t)
      (filter (\<lambda>x. po_created_at x \<le> t) rs)"
  from assms obtain k ks where k: "?known = k # ks" and p: "p = max_version k ks"
    and cov: "covers (po_effective_from p) (po_effective_to p) t"
    by (auto simp: resolve_policy_def registry_as_of_def c Let_def split: list.splits if_splits)
  have "set (k # ks) = {q \<in> set rs. po_created_at q \<le> t \<and> po_policy_id q = policy_id \<and> po_effective_from q \<le> t}"
    unfolding k [symmetric] by auto
  with max_version_spec [of k ks] cov show ?thesis unfolding p [symmetric] by blast
qed

subsection \<open>Properties\<close>

lemma demo_replay: "replay_maturity demo_runtime demo_maturity demo_checked = Inr demo_maturity"
  using replay_evaluated demo_maturity by blast

definition demo_policy :: "requested_operation \<Rightarrow> policy" where
  "demo_policy operation = \<lparr>policy_record_id = [], po_policy_id = ''p'', po_policy_version = 1,
     applicable_system_scope = ''plant'', po_requested_operation = operation, minimum_maturity = L2,
     allowed_lifecycle_states = [PERSISTENT], required_evidence_families = [TEMPORAL],
     prohibited_evidence_conditions = [], required_context_types = [EXTERNAL_ANCHOR],
     human_review_requirement = False,
     decision_outcome_rules = \<lparr>or_satisfied = PERMITTED, or_insufficient = DEFERRED,
       or_prohibited = BLOCKED, or_tier_b = HUMAN_REVIEW_REQUIRED\<rparr>,
     po_effective_from = 0, po_effective_to = Some 1000, po_created_at = 5, po_supersedes = None,
     po_provenance = demo_provenance\<rparr>"

definition demo_evaluation :: policy_evaluation where
  "demo_evaluation = \<lparr>pe_evaluation_id = ''authority-policy-evaluation:0'', pe_policy_id = ''p'',
     pe_policy_version = 1, pe_policy_record_id = ''authority-policy:0'', pe_evaluated_at = 60,
     pe_requested_operation = PRESENT_EVIDENCE, pe_graph_snapshot_id = ''dependency-graph:0'',
     pe_maturity_snapshot_id = ''maturity-evaluation:run'', pe_context_basis_id = ''policy-context-basis:0'',
     pe_lifecycle_state = PERSISTENT, pe_outcome = PERMITTED, pe_reasons = [''all_policy_rules_satisfied''],
     pe_satisfied_rules = [''policy_scope'', ''requested_operation'', ''policy_effective_interval'',
       ''minimum_maturity'', ''allowed_lifecycle_state'', ''maturity_support_available'',
       ''evidence_family:temporal'', ''context_type:external_anchor''],
     pe_failed_rules = [], pe_limiting_evidence = [], pe_contradicting_evidence = [],
     pe_limiting_context = [], pe_classification = None\<rparr>"

lemma demo_evaluation: "evaluate_policy demo_runtime (demo_policy PRESENT_EVIDENCE) demo_checked demo_maturity
   PERSISTENT demo_basis PRESENT_EVIDENCE 60 = Inr demo_evaluation"
  by code_simp

lemma demo_adaptation: "\<not> isl (evaluate_policy demo_runtime (demo_policy ADAPT_STATE_LOCATION) demo_checked demo_maturity
   PERSISTENT demo_basis ADAPT_STATE_LOCATION 60)"
  by code_simp

text \<open>
  C7. What a granted request rests on, exactly. The evaluation's graph, maturity and context are those
  given: the maturity replays on the validated graph, nothing in the basis is dated after the
  decision, the three name one system, and the context is qualified as re-dated to the
  decision. The evaluation is permitted, released or escalated exactly when no rule failed, which is
  exactly when the policy is for this system and operation and in force, the maturity reaches the minimum,
  the lifecycle state is allowed, a policy that asks for the highest maturity finds an applicable context of a
  qualifying type, every piece of evidence supporting the maturity is among its relevant evidence, has a
  usable lineage and is available, so is some evidence of every required family, every
  prohibited condition is assessed as absent, every required context type has a context applicable
  now, no human review is required, and the operation is not an adaptation.
\<close>

theorem policy_grant_conditions:
  assumes "validate_graph R g = Inr h" and "evaluate_policy R p g m state c operation t = Inr e"
  shows "(pe_outcome e \<in> {PERMITTED, RELEASED, ESCALATED} \<longleftrightarrow> pe_failed_rules e = [])
    \<and> replay_maturity R m h = Inr m \<and> po_created_at p \<le> t \<and> mt_evaluated_at m \<le> t \<and> validate_available_at h t = Inr ()
    \<and> mt_system_scope m = g_system_scope h
    \<and> (\<exists>c' b q as. validate_basis R c = Inr c' \<and> cb_evaluated_at c' \<le> t \<and> cb_system_scope c' = g_system_scope h
      \<and> validate_basis R (c'\<lparr>cb_evaluated_at := t, cb_relevant_at := t\<rparr>) = Inr b \<and> qualify_context R b False = Inr q
      \<and> assess_conditions R h (mt_relevant m) = Inr as
      \<and> (pe_outcome e \<in> {PERMITTED, RELEASED, ESCALATED} \<longleftrightarrow>
           applicable_system_scope p = g_system_scope h \<and> po_requested_operation p = operation
         \<and> covers (po_effective_from p) (po_effective_to p) t
         \<and> level_rank (minimum_maturity p) \<le> level_rank (mt_level m)
         \<and> state \<in> set (allowed_lifecycle_states p)
         \<and> (minimum_maturity p = L4 \<longrightarrow> (\<exists>x \<in> set (cb_records b).
              context_id x \<in> set (applicable_context_ids q) \<and> context_type x \<in> set QUALIFYING_TYPES))
         \<and> (\<forall>i \<in> set (mt_supporting m). \<exists>x \<in> set (g_evidence h). evidence_id x = i \<and> i \<in> set (mt_relevant m)
              \<and> usable_lineage R h i = Inr True \<and> payload_get x ''status'' (JStr ''available'') = JStr ''available'')
         \<and> (\<forall>f \<in> set (required_evidence_families p). \<exists>x \<in> set (g_evidence h). evidence_family x = f
              \<and> evidence_id x \<in> set (mt_relevant m) \<and> usable_lineage R h (evidence_id x) = Inr True
              \<and> payload_get x ''status'' (JStr ''available'') = JStr ''available'')
         \<and> (\<forall>k \<in> set (prohibited_evidence_conditions p). condition_is Absent as k)
         \<and> (\<forall>k \<in> set (required_context_types p). \<exists>x \<in> set (cb_records b).
              context_id x \<in> set (applicable_context_ids q) \<and> context_type x = k)
         \<and> \<not> human_review_requirement p \<and> operation \<notin> set ADAPTATION_OPERATIONS))"
proof -
  obtain h' c' b q as where h': "validate_graph R g = Inr h'" and c: "validate_basis R c = Inr c'"
      "validate_basis R (c'\<lparr>cb_evaluated_at := t, cb_relevant_at := t\<rparr>) = Inr b" "qualify_context R b False = Inr q"
      "assess_conditions R h' (mt_relevant m) = Inr as" and basis: "validate_policy_basis R p h' m c' t = Inr ()"
    and gr: "granted (pe_outcome e) \<longleftrightarrow> pe_failed_rules e = []" "granted (pe_outcome e) \<longleftrightarrow> grant_basis R p h' m state operation t b q as"
    by (rule granted_exactly [OF assms(2)])
  have hh: "h' = h" using assms(1) h' by simp
  show ?thesis
    using gr(1) policy_basis_Inr [OF basis] c gr(2) unfolding hh grant_basis_def granted_def
    by (intro conjI exI [of _ c'] exI [of _ b] exI [of _ q] exI [of _ as])
qed

theorem policy_grant_conditions_witness:
  "pe_outcome demo_evaluation = PERMITTED
   \<and> (\<exists>x. x \<in> set (g_evidence demo_checked) \<and> evidence_id x = ''evidence:a''
        \<and> usable_lineage demo_runtime demo_checked ''evidence:a'' = Inr True
        \<and> payload_get x ''status'' (JStr ''available'') = JStr ''available'')"
proof -
  have "pe_outcome demo_evaluation = PERMITTED" "''evidence:a'' \<in> set (mt_supporting demo_maturity)"
    by (simp_all add: demo_evaluation_def demo_maturity_def)
  with policy_grant_conditions [OF validate_graph_idem [OF demo_checked] demo_evaluation] show ?thesis by blast
qed

text \<open>
  No adaptation is granted by policy alone. Evaluating an adaptation operation never permits,
  releases or escalates it, always retains a classification that is not \<open>tier_a\<close> and whose
  evolution-rate assessment is not the absent one a safe candidate needs; a request to adapt the
  state location always fails its tier rule.
\<close>

theorem no_automatic_adaptation:
  assumes "evaluate_policy R p g m state c operation t = Inr e"
    and "operation \<in> {EVALUATE_ADAPTATION, ADAPT_STATE_LOCATION, ADAPT_STRUCTURE}"
  shows "pe_outcome e \<notin> {PERMITTED, RELEASED, ESCALATED}
    \<and> (\<exists>k. pe_classification e = Some k \<and> tc_tier k \<noteq> TierA
         \<and> (\<exists>a \<in> set (tc_assessments k). ca_condition a = EXCESSIVE_EVOLUTION_RATE \<and> ca_status a \<noteq> Absent))
    \<and> (operation = ADAPT_STATE_LOCATION \<longrightarrow> ''tier_a_operation_match'' \<in> set (pe_failed_rules e))"
proof -
  have op: "operation \<in> set ADAPTATION_OPERATIONS" using assms(2) by (simp add: ADAPTATION_OPERATIONS_def)
  have "\<not> granted (pe_outcome e)" using granted_no_adaptation [OF assms(1)] op by blast
  then show ?thesis
    using adaptation_outcome [OF assms(1) op] unfolding granted_def by metis
qed

theorem no_automatic_adaptation_witness:
  "\<exists>e. evaluate_policy demo_runtime (demo_policy ADAPT_STATE_LOCATION) demo_checked demo_maturity
     PERSISTENT demo_basis ADAPT_STATE_LOCATION 60 = Inr e \<and> ''tier_a_operation_match'' \<in> set (pe_failed_rules e)"
proof -
  obtain e where e: "evaluate_policy demo_runtime (demo_policy ADAPT_STATE_LOCATION) demo_checked demo_maturity
     PERSISTENT demo_basis ADAPT_STATE_LOCATION 60 = Inr e" using demo_adaptation by (metis sum.collapse(2))
  with no_automatic_adaptation [OF e] show ?thesis by simp
qed

text \<open>
  Resolution: the policy returned is known by the evaluation time and in force at it, and no
  known version that has become effective supersedes it, so an expired successor never falls back
  to an older, more permissive policy.
\<close>

theorem resolve_policy_latest:
  assumes "registry_history R (policy_ops R) scope system store = Inr rs"
    and "resolve_policy R scope system policy_id t store = Inr p"
  shows "p \<in> set rs \<and> po_policy_id p = policy_id \<and> po_created_at p \<le> t
    \<and> covers (po_effective_from p) (po_effective_to p) t
    \<and> (\<forall>q \<in> set rs. po_policy_id q = policy_id \<and> po_created_at q \<le> t \<and> po_effective_from q \<le> t
         \<longrightarrow> po_policy_version q \<le> po_policy_version p)"
  by (rule resolve_policy_spec [OF assms])

lemma demo_policy_append:
  "\<exists>store y. registry_append demo_runtime (policy_ops demo_runtime) demo_scope (demo_policy PRESENT_EVIDENCE) (\<lambda>k. None)
     = Inr (store, y) \<and> y = (demo_policy PRESENT_EVIDENCE)\<lparr>policy_record_id := ''authority-policy:0''\<rparr>"
proof -
  have v: "validate_policy demo_runtime (demo_policy PRESENT_EVIDENCE)
      = Inr ((demo_policy PRESENT_EVIDENCE)\<lparr>policy_record_id := ''authority-policy:0''\<rparr>)" by code_simp
  have "strip ''plant'' \<noteq> []" by code_simp
  then show ?thesis using v validate_policy_idem [OF v]
    by (simp add: registry_append_def policy_ops_def registry_key_def store_key_def registry_update_def
        chain_of_def demo_policy_def)
qed

theorem resolve_policy_latest_witness:
  "\<exists>store p. resolve_policy demo_runtime demo_scope ''plant'' ''p'' 60 store = Inr p \<and> po_policy_id p = ''p''"
proof -
  let ?y = "(demo_policy PRESENT_EVIDENCE)\<lparr>policy_record_id := ''authority-policy:0''\<rparr>"
  obtain store where a: "registry_append demo_runtime (policy_ops demo_runtime) demo_scope (demo_policy PRESENT_EVIDENCE)
      (\<lambda>k. None) = Inr (store, ?y)" using demo_policy_append by blast
  have "rg_scope (policy_ops demo_runtime) ?y = ''plant''" by (simp add: policy_ops_def demo_policy_def)
  with policies.history_append [OF a policies.empty_store_ok] obtain rs rs' where
    h0: "registry_history demo_runtime (policy_ops demo_runtime) demo_scope ''plant'' (\<lambda>k. None) = Inr rs"
    and h: "registry_history demo_runtime (policy_ops demo_runtime) demo_scope ''plant'' store = Inr rs'"
    and r: "rs' = (if ?y \<in> set rs then rs else rs @ [?y])" by auto
  have "rs = []" using h0 by (auto simp: registry_history_def bindE_eq_Inr)
  with r have rs': "rs' = [?y]" by simp
  have "resolve_policy demo_runtime demo_scope ''plant'' ''p'' 60 store = Inr ?y"
    using h unfolding rs' by (simp add: resolve_policy_def registry_as_of_def policy_ops_def Let_def covers_def demo_policy_def)
  with resolve_policy_latest [OF h this] show ?thesis by blast
qed

end
