(* ===== verification/Gov_Store.thy ===== *)
theory Gov_Store
  imports Gov_Policy
begin

text \<open>
  The append-only authority history, \<^verbatim>\<open>backend/app/governance/authority_store.py\<close>: decisions of both
  schemas with the frozen basis each rests on, the validation of a basis for a decision, the
  atomic append, and the admission of a new policy decision. A record of the second schema is one
  of the first with the extra fields in its \<open>dc_v2\<close> or \<open>bs_v2\<close> part. The in-memory and the runtime
  store run the same update under one lock or transaction, which is one step here; a failing
  update leaves the store as it was.
\<close>

subsection \<open>Decisions and bases of both schemas\<close>

record v2_decision =
  vd_scope :: auth_scope
  vd_policy_evaluation_id :: string
  vd_tier :: "tier option"

record decision =
  dc_core :: authority_decision
  dc_v2 :: "v2_decision option"

abbreviation dc_id :: "decision \<Rightarrow> string" where
  "dc_id d \<equiv> decision_id (dc_core d)"

definition decision_body :: "decision \<Rightarrow> jdict" where
  "decision_body d = (case dc_v2 d of
       None \<Rightarrow> decision_body_v1 ''authority-decision-v1'' (dc_core d)
     | Some v \<Rightarrow> decision_body_v1 ''authority-decision-v2'' (dc_core d)
         @ [(''authenticated_scope'', scope_dict (vd_scope v)),
            (''policy_evaluation_id'', JStr (vd_policy_evaluation_id v)),
            (''tier_classification'', jopt (\<lambda>t. JStr (tier_value t)) (vd_tier v)),
            (''execution_authorized'', JBool False)])"

text \<open>\<open>parse_decision\<close>: the schema tag selects the class, whose validators then run.\<close>

definition parse_decision :: "runtime \<Rightarrow> decision \<Rightarrow> decision gov" where
  "parse_decision R d =
     bindE (check_fields (decision_fields (dc_core d) @ (case dc_v2 d of None \<Rightarrow> []
       | Some v \<Rightarrow> [(''policy_evaluation_id'', text_ok (vd_policy_evaluation_id v))]))) (\<lambda>_.
     bindE (validate_human_review (ad_human_review (dc_core d))) (\<lambda>_.
     bindE (validate_identity R ''authority-decision'' ''decision_id'' (JObj (decision_body d)) (dc_id d)) (\<lambda>i.
     bindE (review_outcome ((dc_core d)\<lparr>decision_id := i\<rparr>)) (\<lambda>c. Inr (d\<lparr>dc_core := c\<rparr>)))))"

record v2_basis =
  vb_scope :: auth_scope
  vb_context :: context_basis
  vb_policy :: policy
  vb_evaluation :: policy_evaluation

record decision_basis =
  bs_graph :: graph
  bs_maturity :: maturity
  bs_lifecycle :: lifecycle_event
  bs_snapshots :: "audit_snapshot list"
  bs_v2 :: "v2_basis option"

definition parse_v2_basis :: "runtime \<Rightarrow> v2_basis \<Rightarrow> v2_basis gov" where
  "parse_v2_basis R v =
     bindE (validate_basis R (vb_context v)) (\<lambda>c.
     bindE (validate_policy R (vb_policy v)) (\<lambda>p.
     bindE (validate_evaluation R (vb_evaluation v)) (\<lambda>e.
     Inr (v\<lparr>vb_context := c, vb_policy := p, vb_evaluation := e\<rparr>))))"

definition parse_basis :: "runtime \<Rightarrow> decision_basis \<Rightarrow> decision_basis gov" where
  "parse_basis R b =
     bindE (validate_graph R (bs_graph b)) (\<lambda>g.
     bindE (validate_maturity R (bs_maturity b)) (\<lambda>m.
     bindE (validate_lifecycle_event (bs_lifecycle b)) (\<lambda>l.
     bindE (mapE (validate_snapshot R) (bs_snapshots b)) (\<lambda>ss.
     bindE (optE (parse_v2_basis R) (bs_v2 b)) (\<lambda>v.
     if v = None \<and> mt_schema m = MaturityV2 then Inl (ValueError ''phase2_basis_schema_required'')
     else Inr \<lparr>bs_graph = g, bs_maturity = m, bs_lifecycle = l, bs_snapshots = ss, bs_v2 = v\<rparr>)))))"

subsection \<open>Validating a basis for a decision\<close>

fun reject_first :: "(bool \<times> string) list \<Rightarrow> unit gov" where
  "reject_first [] = Inr ()"
| "reject_first ((bad, msg) # cs) = (if bad then Inl (ValueError msg) else reject_first cs)"

lemma reject_first_Inr [res_simps]: "reject_first cs = Inr u \<longleftrightarrow> (\<forall>(bad, msg) \<in> set cs. \<not> bad)"
  by (induction cs rule: reject_first.induct) auto

definition snapshot_of :: "audit_snapshot list \<Rightarrow> string \<Rightarrow> audit_snapshot option" where
  "snapshot_of ss i = next_or (\<lambda>s. as_snapshot_id s = i) ss"

definition has_snapshot :: "audit_snapshot list \<Rightarrow> snapshot_kind \<Rightarrow> string \<Rightarrow> bool" where
  "has_snapshot ss k i = (case snapshot_of ss i of None \<Rightarrow> False | Some s \<Rightarrow> as_kind s = k)"

definition decision_references :: "authority_decision \<Rightarrow> (string option \<times> snapshot_kind) list" where
  "decision_references d = [(Some (policy_snapshot_id d), KPolicy), (Some (context_snapshot_id d), KContext),
     (active_model_before d, KModel), (candidate_model d, KModel), (active_model_after d, KModel)]"

definition reference_checks :: "audit_snapshot list \<Rightarrow> authority_decision \<Rightarrow> (bool \<times> string) list" where
  "reference_checks ss d = concat (map (\<lambda>(r, k). case r of None \<Rightarrow> []
       | Some i \<Rightarrow> [(\<not> has_snapshot ss k i,
           ''decision_'' @ snapshot_kind_value k @ ''_snapshot_missing:'' @ i)]) (decision_references d))"

definition evidence_context_checks :: "audit_snapshot list \<Rightarrow> graph \<Rightarrow> (bool \<times> string) list" where
  "evidence_context_checks ss g = map (\<lambda>i. (\<not> has_snapshot ss KContext i, ''evidence_context_snapshot_missing:'' @ i))
     (concat (map context_refs (g_evidence g)))"

definition known_times :: "decision_basis \<Rightarrow> authority_decision \<Rightarrow> timestamp list" where
  "known_times b d =
     map as_created_at (bs_snapshots b) @ map ev_created_at (g_evidence (bs_graph b))
     @ concat (map (\<lambda>w. case ended_at w of None \<Rightarrow> [] | Some t \<Rightarrow> [t])
         (map ev_source_window (g_evidence (bs_graph b)) @ map ob_source_window (g_observations (bs_graph b))))
     @ [mt_evaluated_at (bs_maturity b), le_recorded_at (bs_lifecycle b)]
     @ (case hr_reviewed_at (ad_human_review d) of None \<Rightarrow> [] | Some t \<Rightarrow> [t])"

definition validate_for_v1 :: "runtime \<Rightarrow> decision_basis \<Rightarrow> authority_decision \<Rightarrow> unit gov" where
  "validate_for_v1 R b d =
     (let g = bs_graph b; m = bs_maturity b; ss = bs_snapshots b; l = bs_lifecycle b; ids = evidence_ids g in
      bindE (reject_first [
        (\<not> distinct (map as_snapshot_id ss), ''duplicate_audit_snapshot''),
        (list_ex (\<lambda>s. as_system_scope s \<noteq> ad_system_scope d) ss \<or> g_system_scope g \<noteq> ad_system_scope d
           \<or> mt_system_scope m \<noteq> ad_system_scope d, ''decision_basis_system_scope_mismatch''),
        (g_snapshot_id g \<noteq> dependency_graph_snapshot_id d, ''decision_graph_snapshot_mismatch''),
        (\<not> subset_list (evidence_snapshot_ids d @ ad_limiting_evidence d @ ad_contradicting_evidence d) ids,
           ''decision_evidence_snapshot_missing''),
        (mt_evaluation_id m \<noteq> maturity_snapshot_id d \<or> mt_finding_id m \<noteq> ad_finding_id d,
           ''decision_maturity_snapshot_mismatch''),
        (mt_level m \<noteq> maturity_at_decision d \<or> set (mt_relevant m) \<noteq> set (evidence_snapshot_ids d),
           ''decision_maturity_evidence_mismatch'')]) (\<lambda>_.
      bindE (validate_available_at g (mt_evaluated_at m)) (\<lambda>_.
      bindE (replay_maturity R m g) (\<lambda>r.
      reject_first ([
        (r \<noteq> m, ''maturity_replay_mismatch''),
        (le_event_id l \<noteq> lifecycle_event_id d \<or> le_finding_id l \<noteq> ad_finding_id d
           \<or> lc_state l \<noteq> lifecycle_state_at_decision d, ''decision_lifecycle_snapshot_mismatch''),
        (\<not> subset_list (lc_evidence_ids l) ids, ''lifecycle_evidence_snapshot_missing''),
        (lc_effective_at l > decision_timestamp d, ''decision_lifecycle_not_yet_effective'')]
        @ reference_checks ss d @ evidence_context_checks ss g
        @ [(case snapshot_of ss (policy_snapshot_id d) of None \<Rightarrow> True
            | Some s \<Rightarrow> (as_object_id s, as_version s) \<noteq> (ad_policy_id d, ad_policy_version d),
             ''decision_policy_version_mismatch''),
           (list_ex (\<lambda>t. t > decision_timestamp d) (known_times b d),
             ''decision_basis_contains_later_knowledge'')])))))"

text \<open>Equality of dicts, which does not depend on the order of the keys.\<close>

definition same_dict :: "jdict \<Rightarrow> jdict \<Rightarrow> bool" where
  "same_dict a b = (canonical_json (JObj a) = canonical_json (JObj b))"

definition payload_of :: "audit_snapshot list \<Rightarrow> string \<Rightarrow> jdict" where
  "payload_of ss i = (case snapshot_of ss i of None \<Rightarrow> [] | Some s \<Rightarrow> as_payload s)"

definition model_refs_ok :: "jdict \<Rightarrow> bool" where
  "model_refs_ok payload = list_all (\<lambda>k. case map_of payload k of
       Some (JStr s) \<Rightarrow> strip s \<noteq> [] | Some (JTime t) \<Rightarrow> True | _ \<Rightarrow> False) [''model_ref'', ''baseline_ref'']"

definition inactive_execution_checks ::
  "audit_snapshot list \<Rightarrow> authority_decision \<Rightarrow> policy_evaluation \<Rightarrow> (bool \<times> string) list" where
  "inactive_execution_checks ss d e =
     (let required = (pe_outcome e = HUMAN_REVIEW_REQUIRED) in [
       (active_model_before d = None, ''phase2_active_model_basis_required''),
       (case active_model_before d of None \<Rightarrow> False | Some i \<Rightarrow> \<not> model_refs_ok (payload_of ss i),
         ''phase2_immutable_model_and_baseline_refs_required''),
       (active_model_after d \<noteq> active_model_before d, ''phase2_model_transition_inactive''),
       (ad_human_review d \<noteq> \<lparr>hr_required = required, hr_status = (if required then Pending else NotRequired),
          hr_reviewer_identity = None, hr_reviewed_at = None, hr_rationale = None\<rparr>,
         ''phase2_review_completion_inactive'')])"

definition validate_for_v2 :: "runtime \<Rightarrow> decision_basis \<Rightarrow> v2_basis \<Rightarrow> decision \<Rightarrow> unit gov" where
  "validate_for_v2 R b v dd =
     (case dc_v2 dd of
        None \<Rightarrow> Inl (ValueError ''phase2_decision_schema_required'')
      | Some w \<Rightarrow>
        if vb_scope v \<noteq> vd_scope w then Inl (ValueError ''decision_basis_authenticated_scope_mismatch'')
        else let d = dc_core dd; ss = bs_snapshots b in
        bindE (validate_for_v1 R b d) (\<lambda>_.
        bindE (reject_first [
          (\<not> same_dict (payload_of ss (context_snapshot_id d)) (basis_dict (vb_context v)),
            ''decision_context_contents_mismatch''),
          (\<not> same_dict (payload_of ss (policy_snapshot_id d)) (policy_dict (vb_policy v)),
            ''decision_policy_contents_mismatch''),
          (po_policy_id (vb_policy v) \<noteq> ad_policy_id d
             \<or> str_of_int (po_policy_version (vb_policy v)) \<noteq> ad_policy_version d,
            ''decision_policy_contract_mismatch''),
          (cb_evaluated_at (vb_context v) \<noteq> decision_timestamp d
             \<or> cb_relevant_at (vb_context v) \<noteq> decision_timestamp d,
            ''decision_context_timestamp_mismatch'')]) (\<lambda>_.
        bindE (case mt_context_basis (bs_maturity b) of None \<Rightarrow> Inr ()
               | Some o_basis \<Rightarrow> validate_historical_basis R (vb_context v) o_basis) (\<lambda>_.
        bindE (evaluate_policy R (vb_policy v) (bs_graph b) (bs_maturity b) (lc_state (bs_lifecycle b))
                 (vb_context v) (ad_requested_operation d) (decision_timestamp d)) (\<lambda>e.
        reject_first ([
          (e \<noteq> vb_evaluation v \<or> vd_policy_evaluation_id w \<noteq> pe_evaluation_id e, ''policy_replay_mismatch''),
          (decision_outcome d \<noteq> pe_outcome e \<or> decision_reasons d \<noteq> pe_reasons e
             \<or> ad_limiting_evidence d \<noteq> pe_limiting_evidence e
             \<or> vd_tier w \<noteq> map_option tc_tier (pe_classification e)
             \<or> ad_contradicting_evidence d \<noteq> pe_contradicting_evidence e,
            ''decision_policy_result_mismatch'')]
          @ inactive_execution_checks ss d e))))))"

definition validate_for :: "runtime \<Rightarrow> decision_basis \<Rightarrow> decision \<Rightarrow> unit gov" where
  "validate_for R b d = (case bs_v2 b of
       None \<Rightarrow> validate_for_v1 R b (dc_core d) | Some v \<Rightarrow> validate_for_v2 R b v d)"

subsection \<open>The identities a basis binds\<close>

definition snapshot_dict :: "audit_snapshot \<Rightarrow> json" where
  "snapshot_dict s = JObj ((''snapshot_id'', JStr (as_snapshot_id s)) # snapshot_body s)"

definition graph_dict :: "graph \<Rightarrow> json" where
  "graph_dict g = JObj ((''snapshot_id'', JStr (g_snapshot_id g)) # graph_body g)"

definition maturity_dict :: "maturity \<Rightarrow> json" where
  "maturity_dict m = JObj ((''evaluation_id'', JStr (mt_evaluation_id m)) # maturity_body m)"

definition evaluation_dict :: "policy_evaluation \<Rightarrow> json" where
  "evaluation_dict e = JObj ((''evaluation_id'', JStr (pe_evaluation_id e)) # evaluation_body e)"

definition lifecycle_dict :: "lifecycle_event \<Rightarrow> json" where
  "lifecycle_dict l = JObj [(''schema_version'', JStr ''finding-lifecycle-v1''),
     (''state'', JStr (lifecycle_value (lc_state l))),
     (''previous_event_id'', jopt JStr (lc_previous_event_id l)), (''effective_at'', JTime (lc_effective_at l)),
     (''evidence_ids'', jstrs (lc_evidence_ids l)), (''reasons'', jstrs (lc_reasons l)),
     (''source_run_id'', JStr (lc_source_run_id l)), (''provenance'', provenance_dict (lc_provenance l)),
     (''event_id'', JStr (le_event_id l)), (''finding_id'', JStr (le_finding_id l)),
     (''version'', JInt (le_version l)), (''recorded_at'', JTime (le_recorded_at l)),
     (''actor'', JStr (le_actor l))]"

definition basis_entries :: "decision_basis \<Rightarrow> (string \<times> json) list" where
  "basis_entries b =
     map (\<lambda>s. (as_snapshot_id s, snapshot_dict s)) (bs_snapshots b)
     @ map (\<lambda>x. (evidence_id x, evidence_dict x)) (g_evidence (bs_graph b))
     @ map (\<lambda>x. (observation_id x, observation_dict x)) (g_observations (bs_graph b))
     @ [(g_snapshot_id (bs_graph b), graph_dict (bs_graph b)),
        (mt_evaluation_id (bs_maturity b), maturity_dict (bs_maturity b)),
        (le_event_id (bs_lifecycle b), lifecycle_dict (bs_lifecycle b))]
     @ (case bs_v2 b of None \<Rightarrow> [] | Some v \<Rightarrow>
         [(policy_record_id (vb_policy v), JObj (policy_dict (vb_policy v))),
          (pe_evaluation_id (vb_evaluation v), evaluation_dict (vb_evaluation v))]
         @ map (\<lambda>x. (context_id x, context_dict x)) (cb_records (vb_context v)))"

definition identity_conflict :: "string \<Rightarrow> gov_error" where
  "identity_conflict i = AuthorityRecordConflict (''immutable_basis_identity_conflict:'' @ i)"

fun collect_objects :: "(string \<times> json) list \<Rightarrow> (string \<times> json) list \<Rightarrow> (string \<times> json) list gov" where
  "collect_objects [] objects = Inr objects"
| "collect_objects ((i, x) # es) objects =
     (case map_of objects i of
        None \<Rightarrow> collect_objects es ((i, x) # objects)
      | Some y \<Rightarrow> if y \<noteq> x then Inl (identity_conflict i) else collect_objects es objects)"

definition basis_objects :: "decision_basis \<Rightarrow> (string \<times> json) list gov" where
  "basis_objects b = collect_objects (basis_entries b) []"

definition clash :: "(string \<times> json) list \<Rightarrow> (string \<times> json) list \<Rightarrow> string option" where
  "clash prior candidate = map_option fst (next_or (\<lambda>(i, x).
     case map_of candidate i of None \<Rightarrow> False | Some y \<Rightarrow> x \<noteq> y) prior)"

subsection \<open>The append\<close>

record entry =
  en_decision :: decision
  en_basis :: decision_basis

record gov_store =
  gs_decisions :: "entry ledgers"
  gs_contexts :: "context_object ledgers"
  gs_policies :: "policy ledgers"

definition find_entry :: "entry list \<Rightarrow> string \<Rightarrow> entry option" where
  "find_entry es i = next_or (\<lambda>e. dc_id (en_decision e) = i) es"

definition selection ::
  "runtime \<Rightarrow> auth_scope \<Rightarrow> string \<Rightarrow> timestamp \<Rightarrow> string \<Rightarrow> 'a gov_store_scheme
   \<Rightarrow> (context_object list \<times> policy) gov" where
  "selection R scope system t policy_id s =
     bindE (registry_as_of R (context_ops R) scope system t (gs_contexts s)) (\<lambda>rs.
     bindE (resolve_policy R scope system policy_id t (gs_policies s)) (\<lambda>p.
     Inr (ordered_records rs, p)))"

fun check_prior :: "(string \<times> json) list \<Rightarrow> entry list \<Rightarrow> unit gov" where
  "check_prior candidate [] = Inr ()"
| "check_prior candidate (e # es) =
     bindE (basis_objects (en_basis e)) (\<lambda>prior.
     (case clash prior candidate of
        Some i \<Rightarrow> Inl (identity_conflict i)
      | None \<Rightarrow> check_prior candidate es))"

definition check_supersession :: "authority_decision \<Rightarrow> entry list \<Rightarrow> unit gov" where
  "check_supersession d es =
     (case supersedes_decision_id d of
        None \<Rightarrow> Inr ()
      | Some previous \<Rightarrow>
        (case find_entry es previous of
           None \<Rightarrow> Inl (AuthorityRecordConflict ''superseded_decision_missing'')
         | Some e \<Rightarrow>
           let p = dc_core (en_decision e) in
           if ad_finding_id p \<noteq> ad_finding_id d \<or> ad_requested_operation p \<noteq> ad_requested_operation d
           then Inl (AuthorityRecordConflict ''supersession_finding_or_operation_mismatch'')
           else if decision_timestamp d < decision_timestamp p
           then Inl (AuthorityRecordConflict ''supersession_precedes_predecessor_decision'')
           else if list_ex (\<lambda>x. supersedes_decision_id (dc_core (en_decision x)) = Some previous) es
           then Inl (AuthorityRecordConflict ''superseded_decision_already_has_successor'')
           else Inr ()))"

definition check_selection ::
  "runtime \<Rightarrow> auth_scope \<Rightarrow> authority_decision \<Rightarrow> v2_basis \<Rightarrow> 'a gov_store_scheme \<Rightarrow> unit gov" where
  "check_selection R scope d v s =
     bindE (selection R scope (ad_system_scope d) (decision_timestamp d) (ad_policy_id d) s) (\<lambda>(cs, p).
     if cb_records (vb_context v) \<noteq> cs
     then Inl (AuthorityRecordConflict ''stale_or_unscoped_context_selection'')
     else if vb_policy v \<noteq> p
     then Inl (AuthorityRecordConflict ''stale_or_unscoped_policy_selection'')
     else Inr ())"

definition append_update ::
  "runtime \<Rightarrow> auth_scope \<Rightarrow> decision \<Rightarrow> decision_basis \<Rightarrow> 'a gov_store_scheme \<Rightarrow> entry ledger option
   \<Rightarrow> entry ledger gov" where
  "append_update R scope d b s raw =
     bindE (open_ledger raw scope (ad_system_scope (dc_core d))) (\<lambda>l.
     let records = lg_records l; candidate = \<lparr>en_decision = d, en_basis = b\<rparr> in
     (case find_entry records (dc_id d) of
        Some existing \<Rightarrow>
          if existing \<noteq> candidate then Inl (AuthorityRecordConflict ''immutable_decision_conflict'') else Inr l
      | None \<Rightarrow>
          bindE (case bs_v2 b of None \<Rightarrow> Inr () | Some v \<Rightarrow> check_selection R scope (dc_core d) v s) (\<lambda>_.
          bindE (basis_objects b) (\<lambda>objects.
          bindE (check_prior objects records) (\<lambda>_.
          bindE (check_supersession (dc_core d) records) (\<lambda>_.
          Inr (l\<lparr>lg_records := records @ [candidate]\<rparr>)))))))"

definition append_decision ::
  "runtime \<Rightarrow> auth_scope \<Rightarrow> decision \<Rightarrow> decision_basis \<Rightarrow> 'a gov_store_scheme
   \<Rightarrow> ('a gov_store_scheme \<times> decision) gov" where
  "append_decision R scope d b s =
     bindE (parse_decision R d) (\<lambda>d.
     bindE (parse_basis R b) (\<lambda>b.
     if (dc_v2 d = None) \<noteq> (bs_v2 b = None) then Inl (ValueError ''decision_basis_schema_mismatch'')
     else bindE (store_key R scope (ad_system_scope (dc_core d))) (\<lambda>key.
     if (case (dc_v2 d, bs_v2 b) of (Some w, Some v) \<Rightarrow> vd_scope w \<noteq> scope \<or> vb_scope v \<noteq> scope | _ \<Rightarrow> False)
     then Inl (ValueError ''decision_authenticated_scope_mismatch'')
     else bindE (validate_for R b d) (\<lambda>_.
     bindE (append_update R scope d b s (gs_decisions s key)) (\<lambda>l.
     bindE (parse_decision R d) (\<lambda>d'.
     Inr (s\<lparr>gs_decisions := (gs_decisions s)(key \<mapsto> l)\<rparr>, d')))))))"

subsection \<open>Reading the history\<close>

definition decision_entries ::
  "runtime \<Rightarrow> auth_scope \<Rightarrow> string \<Rightarrow> 'a gov_store_scheme \<Rightarrow> entry list gov" where
  "decision_entries R scope system s =
     bindE (store_key R scope system) (\<lambda>key.
     bindE (open_ledger (gs_decisions s key) scope system) (\<lambda>l. Inr (lg_records l)))"

definition decision_history ::
  "runtime \<Rightarrow> auth_scope \<Rightarrow> string \<Rightarrow> string option \<Rightarrow> 'a gov_store_scheme \<Rightarrow> decision list gov" where
  "decision_history R scope system finding s =
     bindE (decision_entries R scope system s) (\<lambda>es.
     mapE (\<lambda>e. parse_decision R (en_decision e))
       (filter (\<lambda>e. finding = None \<or> finding = Some (ad_finding_id (dc_core (en_decision e)))) es))"

definition get_record ::
  "runtime \<Rightarrow> auth_scope \<Rightarrow> string \<Rightarrow> string \<Rightarrow> 'a gov_store_scheme \<Rightarrow> entry option gov" where
  "get_record R scope system i s =
     bindE (decision_entries R scope system s) (\<lambda>es. Inr (find_entry es i))"

subsection \<open>A new policy decision\<close>

record admission =
  am_graph :: graph
  am_maturity :: maturity
  am_lifecycle :: lifecycle_event
  am_operation :: requested_operation
  am_timestamp :: timestamp
  am_source_run_id :: string
  am_active_model :: audit_snapshot
  am_candidate_model :: "audit_snapshot option"
  am_supersedes :: "string option"

definition policy_audit_snapshot :: "graph \<Rightarrow> policy \<Rightarrow> audit_snapshot" where
  "policy_audit_snapshot g p = \<lparr>as_snapshot_id = [], as_kind = KPolicy, as_object_id = po_policy_id p,
     as_version = str_of_int (po_policy_version p), as_system_scope = g_system_scope g,
     as_created_at = po_created_at p, as_provenance = po_provenance p, as_payload = policy_dict p\<rparr>"

definition context_audit_snapshot :: "graph \<Rightarrow> context_basis \<Rightarrow> audit_snapshot" where
  "context_audit_snapshot g c = \<lparr>as_snapshot_id = [], as_kind = KContext, as_object_id = ''context-basis'',
     as_version = ''1'', as_system_scope = g_system_scope g, as_created_at = cb_evaluated_at c,
     as_provenance = cb_facts_provenance c, as_payload = basis_dict c\<rparr>"

definition policy_decision ::
  "auth_scope \<Rightarrow> admission \<Rightarrow> policy \<Rightarrow> policy_evaluation \<Rightarrow> string \<Rightarrow> string \<Rightarrow> decision" where
  "policy_decision scope a p e policy_snapshot context_snapshot =
     (let g = am_graph a; m = am_maturity a; required = (pe_outcome e = HUMAN_REVIEW_REQUIRED) in
      \<lparr>dc_core = \<lparr>decision_id = [], ad_finding_id = mt_finding_id m, ad_system_scope = g_system_scope g,
         decision_timestamp = am_timestamp a, effective_timestamp = am_timestamp a,
         ad_policy_id = po_policy_id p, ad_policy_version = str_of_int (po_policy_version p),
         policy_snapshot_id = policy_snapshot, evidence_snapshot_ids = mt_relevant m,
         context_snapshot_id = context_snapshot, dependency_graph_snapshot_id = g_snapshot_id g,
         maturity_at_decision = mt_level m, maturity_snapshot_id = mt_evaluation_id m,
         lifecycle_state_at_decision = lc_state (am_lifecycle a),
         lifecycle_event_id = le_event_id (am_lifecycle a), ad_requested_operation = am_operation a,
         decision_outcome = pe_outcome e, decision_reasons = pe_reasons e,
         ad_limiting_evidence = pe_limiting_evidence e, ad_contradicting_evidence = pe_contradicting_evidence e,
         active_model_before = Some (as_snapshot_id (am_active_model a)),
         candidate_model = map_option as_snapshot_id (am_candidate_model a),
         active_model_after = Some (as_snapshot_id (am_active_model a)),
         ad_human_review = \<lparr>hr_required = required, hr_status = (if required then Pending else NotRequired),
           hr_reviewer_identity = None, hr_reviewed_at = None, hr_rationale = None\<rparr>,
         supersedes_decision_id = am_supersedes a, ad_source_run_id = am_source_run_id a\<rparr>,
       dc_v2 = Some \<lparr>vd_scope = scope, vd_policy_evaluation_id = pe_evaluation_id e,
         vd_tier = map_option tc_tier (pe_classification e)\<rparr>\<rparr>)"

definition create_policy_decision ::
  "runtime \<Rightarrow> auth_scope \<Rightarrow> admission \<Rightarrow> context_basis \<Rightarrow> policy \<Rightarrow> (decision \<times> decision_basis) gov" where
  "create_policy_decision R scope a c p =
     (let g = am_graph a; m = am_maturity a; l = am_lifecycle a in
      bindE (store_key R scope (g_system_scope g)) (\<lambda>_.
      bindE (evaluate_policy R p g m (lc_state l) c (am_operation a) (am_timestamp a)) (\<lambda>e.
      bindE (validate_snapshot R (policy_audit_snapshot g p)) (\<lambda>ps.
      bindE (validate_snapshot R (context_audit_snapshot g c)) (\<lambda>cs.
      bindE (parse_decision R (policy_decision scope a p e (as_snapshot_id ps) (as_snapshot_id cs))) (\<lambda>d.
      let b = \<lparr>bs_graph = g, bs_maturity = m, bs_lifecycle = l,
           bs_snapshots = [ps, cs, am_active_model a]
             @ (case am_candidate_model a of None \<Rightarrow> [] | Some s \<Rightarrow> [s]),
           bs_v2 = Some \<lparr>vb_scope = scope, vb_context = c, vb_policy = p, vb_evaluation = e\<rparr>\<rparr> in
      bindE (parse_basis R b) (\<lambda>b.
      bindE (validate_for R b d) (\<lambda>_.
      bindE (parse_decision R d) (\<lambda>d.
      bindE (parse_basis R b) (\<lambda>b. Inr (d, b)))))))))))"

text \<open>
  Admission selects the registry records in one read and appends in a later transaction. The two
  halves are separate definitions, so that other writers can be placed between them.
\<close>

definition admission_candidate ::
  "runtime \<Rightarrow> auth_scope \<Rightarrow> string \<Rightarrow> string \<Rightarrow> jdict \<Rightarrow> timestamp \<Rightarrow> provenance \<Rightarrow> admission
   \<Rightarrow> 'a gov_store_scheme \<Rightarrow> (decision \<times> decision_basis) gov" where
  "admission_candidate R scope system policy_id facts facts_available_at facts_provenance a s =
     bindE (store_key R scope system) (\<lambda>_.
     if g_system_scope (am_graph a) \<noteq> system then Inl (ValueError ''admission_system_scope_mismatch'')
     else bindE (selection R scope system (am_timestamp a) policy_id s) (\<lambda>(rs, p).
     bindE (validate_basis R \<lparr>cb_system_scope = system, cb_evaluated_at = am_timestamp a,
        cb_relevant_at = am_timestamp a, cb_records = rs, cb_facts = facts,
        cb_facts_available_at = facts_available_at, cb_facts_provenance = facts_provenance\<rparr>) (\<lambda>c.
     create_policy_decision R scope a c p)))"

definition admit_policy_decision ::
  "runtime \<Rightarrow> auth_scope \<Rightarrow> string \<Rightarrow> string \<Rightarrow> jdict \<Rightarrow> timestamp \<Rightarrow> provenance \<Rightarrow> admission
   \<Rightarrow> 'a gov_store_scheme \<Rightarrow> ('a gov_store_scheme \<times> decision \<times> decision_basis) gov" where
  "admit_policy_decision R scope system policy_id facts facts_available_at facts_provenance a s =
     bindE (admission_candidate R scope system policy_id facts facts_available_at facts_provenance a s) (\<lambda>(d, b).
     bindE (append_decision R scope d b s) (\<lambda>(s', _). Inr (s', d, b)))"

subsection \<open>The operations on a store\<close>

datatype store_op =
    AppendContext auth_scope context_object
  | AppendPolicy auth_scope policy
  | AppendDecision auth_scope decision decision_basis
  | AdmitDecision auth_scope string string jdict timestamp provenance admission

fun store_step :: "runtime \<Rightarrow> store_op \<Rightarrow> gov_store \<Rightarrow> gov_store gov" where
  "store_step R (AppendContext scope x) s =
     bindE (registry_append R (context_ops R) scope x (gs_contexts s)) (\<lambda>(m, _). Inr (s\<lparr>gs_contexts := m\<rparr>))"
| "store_step R (AppendPolicy scope x) s =
     bindE (registry_append R (policy_ops R) scope x (gs_policies s)) (\<lambda>(m, _). Inr (s\<lparr>gs_policies := m\<rparr>))"
| "store_step R (AppendDecision scope d b) s =
     bindE (append_decision R scope d b s) (\<lambda>(s', _). Inr s')"
| "store_step R (AdmitDecision scope system policy_id facts t pv a) s =
     bindE (admit_policy_decision R scope system policy_id facts t pv a s) (\<lambda>(s', _). Inr s')"

text \<open>The stores any sequence of operations leads to; an operation that fails changes nothing.\<close>

definition empty_store :: gov_store where
  "empty_store = \<lparr>gs_decisions = (\<lambda>_. None), gs_contexts = (\<lambda>_. None), gs_policies = (\<lambda>_. None)\<rparr>"

inductive stores :: "runtime \<Rightarrow> gov_store \<Rightarrow> bool" for R :: runtime where
  initial: "stores R empty_store"
| step: "stores R s \<Longrightarrow> store_step R op s = Inr s' \<Longrightarrow> stores R s'"

subsection \<open>The laws of the ledger\<close>

text \<open>An entry stands in a ledger of its own scope, and its basis is valid for its decision.\<close>

definition entry_ok :: "runtime \<Rightarrow> auth_scope \<Rightarrow> string \<Rightarrow> entry \<Rightarrow> bool" where
  "entry_ok R scope system e = (ad_system_scope (dc_core (en_decision e)) = system
     \<and> validate_for R (en_basis e) (en_decision e) = Inr ()
     \<and> ((dc_v2 (en_decision e) = None) = (bs_v2 (en_basis e) = None))
     \<and> (case dc_v2 (en_decision e) of None \<Rightarrow> True | Some w \<Rightarrow> vd_scope w = scope))"

definition supersedes_of :: "entry \<Rightarrow> string option" where
  "supersedes_of e = supersedes_decision_id (dc_core (en_decision e))"

definition entry_id :: "entry \<Rightarrow> string" where
  "entry_id e = dc_id (en_decision e)"

definition succeeds :: "entry \<Rightarrow> entry \<Rightarrow> bool" where
  "succeeds e p = (let d = dc_core (en_decision e); c = dc_core (en_decision p) in
     ad_finding_id c = ad_finding_id d \<and> ad_requested_operation c = ad_requested_operation d
     \<and> decision_timestamp c \<le> decision_timestamp d)"

definition binds :: "entry \<Rightarrow> string \<Rightarrow> json \<Rightarrow> bool" where
  "binds e i x = (\<exists>os. basis_objects (en_basis e) = Inr os \<and> map_of os i = Some x)"

inductive lawful :: "runtime \<Rightarrow> auth_scope \<Rightarrow> string \<Rightarrow> entry list \<Rightarrow> bool" for R scope system where
  empty: "lawful R scope system []"
| extend: "lawful R scope system es \<Longrightarrow> entry_ok R scope system e \<Longrightarrow> entry_id e \<notin> entry_id ` set es \<Longrightarrow>
    (\<And>p. supersedes_of e = Some p \<Longrightarrow>
       (\<exists>x \<in> set es. entry_id x = p \<and> succeeds e x) \<and> (\<forall>x \<in> set es. supersedes_of x \<noteq> Some p)) \<Longrightarrow>
    (\<And>y i u v. y \<in> set es \<Longrightarrow> binds y i u \<Longrightarrow> binds e i v \<Longrightarrow> u = v) \<Longrightarrow>
    lawful R scope system (es @ [e])"

definition decisions_ok :: "runtime \<Rightarrow> gov_store \<Rightarrow> bool" where
  "decisions_ok R s = (\<forall>k l. gs_decisions s k = Some l \<longrightarrow> lawful R (lg_scope l) (lg_system l) (lg_records l))"

lemma lawful_ids: "lawful R scope system es \<Longrightarrow> distinct (map entry_id es)"
  by (induction rule: lawful.induct) auto

lemma lawful_entries: "lawful R scope system es \<Longrightarrow> e \<in> set es \<Longrightarrow> entry_ok R scope system e"
  by (induction rule: lawful.induct) auto

lemma lawful_successor_unique:
  "lawful R scope system es \<Longrightarrow> x \<in> set es \<Longrightarrow> y \<in> set es \<Longrightarrow> supersedes_of x = Some p \<Longrightarrow>
   supersedes_of y = Some p \<Longrightarrow> x = y"
  by (induction rule: lawful.induct) auto

lemma lawful_predecessor:
  "lawful R scope system es \<Longrightarrow> es = xs @ e # ys \<Longrightarrow> supersedes_of e = Some p \<Longrightarrow>
   \<exists>x \<in> set xs. entry_id x = p \<and> succeeds e x"
proof (induction arbitrary: ys rule: lawful.induct)
  case (extend es a)
  then show ?case by (cases ys rule: rev_cases) auto
qed simp

lemma lawful_binds:
  assumes "lawful R scope system es" and "x \<in> set es" and "y \<in> set es" and "binds x i u" and "binds y i v"
  shows "u = v"
  using assms
proof (induction rule: lawful.induct)
  case (extend es e)
  have "u = v" if "x = e" "y = e" using extend.prems that by (auto simp: binds_def)
  moreover have "v = u" if "x = e" "y \<in> set es" using extend.hyps(5) [of y i v u] extend.prems that by simp
  moreover have "u = v" if "y = e" "x \<in> set es" using extend.hyps(5) [of x i u v] extend.prems that by simp
  ultimately show ?case using extend.IH extend.prems by auto
qed simp


subsection \<open>What an append does\<close>

lemma clash_None:
  "clash prior candidate = None \<Longrightarrow> map_of prior i = Some u \<Longrightarrow> map_of candidate i = Some v \<Longrightarrow> u = v"
  by (drule map_of_SomeD) (auto simp: clash_def next_or_None split: option.splits)

lemma check_prior_Inr:
  assumes "check_prior objects es = Inr u" and "e \<in> set es"
  obtains prior where "basis_objects (en_basis e) = Inr prior" "clash prior objects = None"
  using assms by (induction es) (auto simp: bindE_eq_Inr split: option.splits)

lemma check_supersession_Inr:
  assumes "check_supersession (dc_core (en_decision e)) es = Inr u" and "supersedes_of e = Some p"
  shows "(\<exists>x \<in> set es. entry_id x = p \<and> succeeds e x) \<and> (\<forall>x \<in> set es. supersedes_of x \<noteq> Some p)"
  using assms
  by (auto simp: check_supersession_def supersedes_of_def entry_id_def find_entry_def succeeds_def Let_def
      list_ex_iff split: option.splits if_splits dest!: next_or_Some)

lemma find_entry_None: "find_entry es i = None \<longleftrightarrow> i \<notin> entry_id ` set es"
  by (auto simp: find_entry_def next_or_None entry_id_def)

lemma find_entry_mem: "distinct (map entry_id es) \<Longrightarrow> e \<in> set es \<Longrightarrow> find_entry es (entry_id e) = Some e"
  by (induction es) (auto simp: find_entry_def entry_id_def rev_image_eqI)

lemma append_update_Inr:
  assumes "append_update R scope d b s raw = Inr l'"
  obtains l where "open_ledger raw scope (ad_system_scope (dc_core d)) = Inr l"
    and "find_entry (lg_records l) (dc_id d) = Some \<lparr>en_decision = d, en_basis = b\<rparr> \<and> l' = l
      \<or> find_entry (lg_records l) (dc_id d) = None
        \<and> l' = l\<lparr>lg_records := lg_records l @ [\<lparr>en_decision = d, en_basis = b\<rparr>]\<rparr>
        \<and> (case bs_v2 b of None \<Rightarrow> Inr () | Some v \<Rightarrow> check_selection R scope (dc_core d) v s) = Inr ()
        \<and> check_supersession (dc_core d) (lg_records l) = Inr ()
        \<and> (\<exists>os. basis_objects b = Inr os \<and> check_prior os (lg_records l) = Inr ())"
  using assms unfolding append_update_def bindE_eq_Inr Let_def
  by (elim exE conjE) (auto simp: bindE_eq_Inr split: option.splits if_splits)

lemma append_decision_Inr:
  assumes "append_decision R scope d b s = Inr (s', d'')"
  obtains d' b' key l' where "parse_decision R d = Inr d'" "parse_basis R b = Inr b'"
    "(dc_v2 d' = None) = (bs_v2 b' = None)" "store_key R scope (ad_system_scope (dc_core d')) = Inr key"
    "case dc_v2 d' of None \<Rightarrow> True | Some w \<Rightarrow> vd_scope w = scope"
    "validate_for R b' d' = Inr ()"
    "append_update R scope d' b' s (gs_decisions s key) = Inr l'"
    "s' = s\<lparr>gs_decisions := (gs_decisions s)(key \<mapsto> l')\<rparr>"
proof -
  from assms show thesis unfolding append_decision_def chain_simps sum.inject prod.inject
  proof (elim exE conjE)
    fix d' b' key y l' d2
    assume "parse_decision R d = Inr d'" "parse_basis R b = Inr b'"
      and v: "\<not> (dc_v2 d' = None) \<noteq> (bs_v2 b' = None)"
      and "store_key R scope (ad_system_scope (dc_core d')) = Inr key"
      and sc: "\<not> (case (dc_v2 d', bs_v2 b') of (Some w, Some v) \<Rightarrow> vd_scope w \<noteq> scope \<or> vb_scope v \<noteq> scope
        | _ \<Rightarrow> False)"
      and "validate_for R b' d' = Inr y" "append_update R scope d' b' s (gs_decisions s key) = Inr l'"
      and "s\<lparr>gs_decisions := (gs_decisions s)(key \<mapsto> l')\<rparr> = s'"
    moreover have "case dc_v2 d' of None \<Rightarrow> True | Some w \<Rightarrow> vd_scope w = scope"
      using sc v by (auto split: option.splits)
    ultimately show thesis using v by (intro that) (simp_all, simp only:)
  qed
qed

lemma append_update_lawful:
  assumes u: "append_update R scope d b s raw = Inr l'"
    and ok: "\<And>l. raw = Some l \<Longrightarrow> lawful R (lg_scope l) (lg_system l) (lg_records l)"
    and e: "entry_ok R scope (ad_system_scope (dc_core d)) \<lparr>en_decision = d, en_basis = b\<rparr>"
  shows "lawful R scope (ad_system_scope (dc_core d)) (lg_records l')"
    and "lg_scope l' = scope" and "lg_system l' = ad_system_scope (dc_core d)"
    and "\<lparr>en_decision = d, en_basis = b\<rparr> \<in> set (lg_records l')"
proof -
  let ?e = "\<lparr>en_decision = d, en_basis = b\<rparr>"
  from append_update_Inr [OF u] obtain l where l: "open_ledger raw scope (ad_system_scope (dc_core d)) = Inr l"
    and c: "find_entry (lg_records l) (dc_id d) = Some ?e \<and> l' = l
      \<or> find_entry (lg_records l) (dc_id d) = None \<and> l' = l\<lparr>lg_records := lg_records l @ [?e]\<rparr>
        \<and> check_supersession (dc_core d) (lg_records l) = Inr ()
        \<and> (\<exists>os. basis_objects b = Inr os \<and> check_prior os (lg_records l) = Inr ())" by metis
  note h = open_ledger_header [OF l]
  have L: "lawful R scope (ad_system_scope (dc_core d)) (lg_records l)"
  proof (cases raw)
    case None
    with l show ?thesis by (auto intro: lawful.empty)
  next
    case (Some l0)
    with open_ledger_Some l have "l = l0" by blast
    with ok Some h show ?thesis by metis
  qed
  have new: "lawful R scope (ad_system_scope (dc_core d)) (lg_records l @ [?e])"
    if "find_entry (lg_records l) (dc_id d) = None" and cs: "check_supersession (dc_core d) (lg_records l) = Inr ()"
      and os: "basis_objects b = Inr os" "check_prior os (lg_records l) = Inr ()" for os
  proof (rule lawful.extend [OF L e])
    show "entry_id ?e \<notin> entry_id ` set (lg_records l)"
      using that(1) by (simp add: find_entry_None entry_id_def)
    show "(\<exists>x \<in> set (lg_records l). entry_id x = p \<and> succeeds ?e x) \<and> (\<forall>x \<in> set (lg_records l). supersedes_of x \<noteq> Some p)"
      if "supersedes_of ?e = Some p" for p
      using check_supersession_Inr [of ?e] cs that by simp
    show "u = v" if y: "y \<in> set (lg_records l)" "binds y i u" "binds ?e i v" for y i u v
    proof -
      from check_prior_Inr [OF os(2) y(1)] obtain prior where
        "basis_objects (en_basis y) = Inr prior" "clash prior os = None" .
      with y(2,3) os(1) show ?thesis by (simp add: binds_def) (rule clash_None)
    qed
  qed
  from c h L new show "lawful R scope (ad_system_scope (dc_core d)) (lg_records l')"
    "lg_scope l' = scope" "lg_system l' = ad_system_scope (dc_core d)" "?e \<in> set (lg_records l')"
    by (auto simp: find_entry_def dest: next_or_Some)
qed

lemma append_decision_keeps:
  assumes "append_decision R scope d b s = Inr (s', d'')" and "decisions_ok R s"
  shows "decisions_ok R s' \<and> gs_contexts s' = gs_contexts s \<and> gs_policies s' = gs_policies s"
proof -
  from append_decision_Inr [OF assms(1)] obtain d' b' key l' where
    v: "(dc_v2 d' = None) = (bs_v2 b' = None)" and sc: "case dc_v2 d' of None \<Rightarrow> True | Some w \<Rightarrow> vd_scope w = scope"
    and vf: "validate_for R b' d' = Inr ()" and u: "append_update R scope d' b' s (gs_decisions s key) = Inr l'"
    and s': "s' = s\<lparr>gs_decisions := (gs_decisions s)(key \<mapsto> l')\<rparr>" by metis
  have "entry_ok R scope (ad_system_scope (dc_core d')) \<lparr>en_decision = d', en_basis = b'\<rparr>"
    using v sc vf by (simp add: entry_ok_def)
  moreover have "lawful R (lg_scope l) (lg_system l) (lg_records l)" if "gs_decisions s key = Some l" for l
    using that assms(2) by (simp add: decisions_ok_def)
  ultimately have "lawful R (lg_scope l') (lg_system l') (lg_records l')"
    using append_update_lawful(1-3) [OF u] by simp
  with assms(2) show ?thesis by (auto simp: decisions_ok_def s')
qed

definition gov_store_ok :: "runtime \<Rightarrow> gov_store \<Rightarrow> bool" where
  "gov_store_ok R s = (decisions_ok R s \<and> store_ok (context_ops R) (gs_contexts s) \<and> store_ok (policy_ops R) (gs_policies s))"

lemma admit_Inr:
  assumes "admit_policy_decision R scope system policy_id facts t pv a s = Inr (s', d, b)"
  obtains d'' where "admission_candidate R scope system policy_id facts t pv a s = Inr (d, b)"
    "append_decision R scope d b s = Inr (s', d'')"
  using assms by (auto simp: admit_policy_decision_def bindE_eq_Inr)

lemma store_step_keeps:
  assumes "store_step R op s = Inr s'" and "gov_store_ok R s"
  shows "gov_store_ok R s'"
  using assms
proof (cases op)
  case (AppendContext scope x)
  with assms show ?thesis
    by (auto simp: bindE_eq_Inr gov_store_ok_def decisions_ok_def dest: contexts.append_keeps)
next
  case (AppendPolicy scope x)
  with assms show ?thesis
    by (auto simp: bindE_eq_Inr gov_store_ok_def decisions_ok_def dest: policies.append_keeps)
next
  case (AppendDecision scope d b)
  with assms(1) obtain d'' where "append_decision R scope d b s = Inr (s', d'')"
    by (auto simp: bindE_eq_Inr)
  then show ?thesis using append_decision_keeps assms(2) by (simp add: gov_store_ok_def)
next
  case (AdmitDecision scope system policy_id facts t pv a)
  with assms(1) obtain d b where "admit_policy_decision R scope system policy_id facts t pv a s = Inr (s', d, b)"
    by (auto simp: bindE_eq_Inr)
  then obtain d'' where "append_decision R scope d b s = Inr (s', d'')" by (rule admit_Inr)
  then show ?thesis using append_decision_keeps assms(2) by (simp add: gov_store_ok_def)
qed

lemma stores_ok: "stores R s \<Longrightarrow> gov_store_ok R s"
proof (induction rule: stores.induct)
  case initial
  show ?case by (simp add: gov_store_ok_def decisions_ok_def empty_store_def store_ok_def)
next
  case (step s op s')
  show ?case by (rule store_step_keeps [OF step.hyps(2) step.IH])
qed


lemma decision_entries_ok:
  assumes "decision_entries R scope system s = Inr es" and "decisions_ok R s"
  shows "lawful R scope system es"
proof -
  from assms(1) obtain key l where l: "open_ledger (gs_decisions s key) scope system = Inr l" and es: "es = lg_records l"
    by (auto simp: decision_entries_def bindE_eq_Inr)
  show ?thesis
  proof (cases "gs_decisions s key")
    case None
    with l es show ?thesis by (auto intro: lawful.empty)
  next
    case (Some l0)
    with l have "open_ledger (Some l0) scope system = Inr l" by simp
    then have "l = l0" by (rule open_ledger_Some)
    with assms(2) Some open_ledger_header [OF l] es show ?thesis unfolding decisions_ok_def by metis
  qed
qed

text \<open>One append, seen through the history of its own scope and system.\<close>

lemma append_decision_history:
  assumes "append_decision R scope d b s = Inr (s', d'')"
  obtains d' b' es es' where "parse_decision R d = Inr d'" "parse_basis R b = Inr b'" "validate_for R b' d' = Inr ()"
    "(dc_v2 d' = None) = (bs_v2 b' = None)"
    "decision_entries R scope (ad_system_scope (dc_core d')) s = Inr es"
    "decision_entries R scope (ad_system_scope (dc_core d')) s' = Inr es'"
    "(\<lparr>en_decision = d', en_basis = b'\<rparr> \<in> set es \<and> es' = es \<and> s' = s)
     \<or> (dc_id d' \<notin> entry_id ` set es \<and> es' = es @ [\<lparr>en_decision = d', en_basis = b'\<rparr>]
        \<and> (case bs_v2 b' of None \<Rightarrow> Inr () | Some v \<Rightarrow> check_selection R scope (dc_core d') v s) = Inr ())"
proof -
  from append_decision_Inr [OF assms] obtain d' b' key l' where d': "parse_decision R d = Inr d'" "parse_basis R b = Inr b'"
    "(dc_v2 d' = None) = (bs_v2 b' = None)"
    and k: "store_key R scope (ad_system_scope (dc_core d')) = Inr key"
    and vf: "validate_for R b' d' = Inr ()" and u: "append_update R scope d' b' s (gs_decisions s key) = Inr l'"
    and s': "s' = s\<lparr>gs_decisions := (gs_decisions s)(key \<mapsto> l')\<rparr>" by metis
  let ?e = "\<lparr>en_decision = d', en_basis = b'\<rparr>" and ?sys = "ad_system_scope (dc_core d')"
  from append_update_Inr [OF u] obtain l where l: "open_ledger (gs_decisions s key) scope ?sys = Inr l"
    and c: "find_entry (lg_records l) (dc_id d') = Some ?e \<and> l' = l
      \<or> find_entry (lg_records l) (dc_id d') = None \<and> l' = l\<lparr>lg_records := lg_records l @ [?e]\<rparr>
        \<and> (case bs_v2 b' of None \<Rightarrow> Inr () | Some v \<Rightarrow> check_selection R scope (dc_core d') v s) = Inr ()" by metis
  have e: "decision_entries R scope ?sys s = Inr (lg_records l)" using k l by (simp add: decision_entries_def)
  have "open_ledger (Some l') scope ?sys = Inr l'"
    using reopen_ledger [OF l] c by (metis ledger.surjective ledger.update_convs(4))
  then have e': "decision_entries R scope ?sys s' = Inr (lg_records l')" using k by (simp add: decision_entries_def s')
  show thesis
  proof (cases "find_entry (lg_records l) (dc_id d')")
    case None
    with c have "dc_id d' \<notin> entry_id ` set (lg_records l) \<and> lg_records l' = lg_records l @ [?e]
      \<and> (case bs_v2 b' of None \<Rightarrow> Inr () | Some v \<Rightarrow> check_selection R scope (dc_core d') v s) = Inr ()"
      by (auto simp: find_entry_None)
    then show ?thesis by (intro that [OF d'(1,2) vf d'(3) e e'] disjI2)
  next
    case (Some x)
    with c have x: "x = ?e" "l' = l" by auto
    then have m: "?e \<in> set (lg_records l)" using Some by (auto simp: find_entry_def dest: next_or_Some)
    then have "gs_decisions s key = Some l" using l by (cases "gs_decisions s key") (auto dest: open_ledger_Some)
    then have "s' = s" using x s' by (cases s) (simp add: fun_upd_idem)
    with m x show ?thesis by (intro that [OF d'(1,2) vf d'(3) e e'] disjI1) simp
  qed
qed

lemma append_decision_retry:
  assumes a: "append_decision R scope d b s = Inr (s', d'')" and ok: "decisions_ok R s"
  shows "append_decision R scope d b s' = Inr (s', d'')"
proof -
  from append_decision_Inr [OF a] obtain d' b' key l' where p: "parse_decision R d = Inr d'" "parse_basis R b = Inr b'"
    and v: "(dc_v2 d' = None) = (bs_v2 b' = None)" and k: "store_key R scope (ad_system_scope (dc_core d')) = Inr key"
    and sc: "case dc_v2 d' of None \<Rightarrow> True | Some w \<Rightarrow> vd_scope w = scope"
    and vf: "validate_for R b' d' = Inr ()" and u: "append_update R scope d' b' s (gs_decisions s key) = Inr l'"
    and s': "s' = s\<lparr>gs_decisions := (gs_decisions s)(key \<mapsto> l')\<rparr>" by metis
  let ?e = "\<lparr>en_decision = d', en_basis = b'\<rparr>" and ?sys = "ad_system_scope (dc_core d')"
  have e: "entry_ok R scope ?sys ?e" using v sc vf by (simp add: entry_ok_def)
  have "lawful R (lg_scope l) (lg_system l) (lg_records l)" if "gs_decisions s key = Some l" for l
    using that ok by (simp add: decisions_ok_def)
  note L = append_update_lawful [OF u this e]
  from append_update_Inr [OF u] obtain l where l: "open_ledger (gs_decisions s key) scope ?sys = Inr l"
    and "l' = l \<or> l' = l\<lparr>lg_records := lg_records l @ [?e]\<rparr>" by metis
  then have o': "open_ledger (Some l') scope ?sys = Inr l'"
    using reopen_ledger [OF l] by (metis ledger.surjective ledger.update_convs(4))
  have "find_entry (lg_records l') (dc_id d') = Some ?e"
    using find_entry_mem [OF lawful_ids [OF L(1)] L(4)] by (simp add: entry_id_def)
  then have u': "append_update R scope d' b' s' (Some l') = Inr l'"
    using o' by (simp add: append_update_def)
  have "s'\<lparr>gs_decisions := (gs_decisions s')(key \<mapsto> l')\<rparr> = s'" by (simp add: s')
  moreover have "gs_decisions s' key = Some l'" by (simp add: s')
  ultimately show ?thesis
    using a u u' s' unfolding append_decision_def p bindE_simps k vf by (auto simp: bindE_eq_Inr split: if_splits)
qed

subsection \<open>Admission against the current registries\<close>

lemma reject_first_mem: "reject_first cs = Inr u \<Longrightarrow> (bad, msg) \<in> set cs \<Longrightarrow> \<not> bad"
  by (auto simp: reject_first_Inr)

lemma parse_decision_form:
  "parse_decision R d = Inr d' \<Longrightarrow> \<exists>i. d' = d\<lparr>dc_core := (dc_core d)\<lparr>decision_id := i\<rparr>\<rparr>"
  unfolding parse_decision_def chain_simps
  by (elim exE conjE) (auto simp: review_outcome_def split: if_splits)

lemma parse_basis_v2:
  assumes "parse_basis R b = Inr b'" and "bs_v2 b = Some v"
  obtains v' where "bs_v2 b' = Some v'" "validate_basis R (vb_context v) = Inr (vb_context v')"
    "validate_policy R (vb_policy v) = Inr (vb_policy v')"
proof -
  from assms obtain v' where v': "parse_v2_basis R v = Inr v'" "bs_v2 b' = Some v'"
    by (auto simp: parse_basis_def bindE_eq_Inr optE_def split: if_splits)
  from v'(1) have "validate_basis R (vb_context v) = Inr (vb_context v') \<and> validate_policy R (vb_policy v) = Inr (vb_policy v')"
    unfolding parse_v2_basis_def chain_simps by (elim exE conjE) auto
  with v'(2) that show thesis by blast
qed

lemma context_validate: "rg_validate (context_ops R) = validate_context R"
  by (simp add: context_ops_def)

lemma policy_validate: "rg_validate (policy_ops R) = validate_policy R"
  by (simp add: policy_ops_def)

lemma selection_validated:
  assumes "selection R scope system t pid s = Inr (rs, p)" and "gov_store_ok R s"
  shows "mapE (validate_context R) rs = Inr rs" and "ordered_records rs = rs"
    and "validate_policy R p = Inr p" and "po_policy_id p = pid"
proof -
  from assms(1) obtain cs where cs: "registry_as_of R (context_ops R) scope system t (gs_contexts s) = Inr cs"
    and p: "resolve_policy R scope system pid t (gs_policies s) = Inr p" and rs: "rs = ordered_records cs"
    by (auto simp: selection_def bindE_eq_Inr)
  from cs obtain hs where hs: "registry_history R (context_ops R) scope system (gs_contexts s) = Inr hs"
    and sub: "set cs \<subseteq> set hs" by (auto simp: registry_as_of_def bindE_eq_Inr)
  have "records_ok (context_ops R) system hs"
    using contexts.history_Inr [OF hs] assms(2) by (simp add: gov_store_ok_def)
  then have "\<forall>x \<in> set rs. validate_context R x = Inr x"
    using sub by (auto simp: rs records_ok_def context_validate)
  then show "mapE (validate_context R) rs = Inr rs" by (intro mapE_id) simp
  show "ordered_records rs = rs" by (simp add: rs)
  from p obtain ps where ps: "registry_history R (policy_ops R) scope system (gs_policies s) = Inr ps"
    by (auto simp: resolve_policy_def registry_as_of_def bindE_eq_Inr)
  have m: "p \<in> set ps \<and> po_policy_id p = pid" using resolve_policy_spec [OF ps p] by blast
  moreover have "records_ok (policy_ops R) system ps"
    using policies.history_Inr [OF ps] assms(2) by (simp add: gov_store_ok_def)
  ultimately show "validate_policy R p = Inr p" "po_policy_id p = pid"
    by (auto simp: records_ok_def policy_validate)
qed

lemma candidate_Inr:
  assumes "admission_candidate R scope system pid facts t pv a s = Inr (d, b)"
  obtains rs p c v where "selection R scope system (am_timestamp a) pid s = Inr (rs, p)"
    "mapE (validate_context R) rs = Inr (cb_records c) \<longrightarrow> ordered_records (cb_records c) = cb_records c"
    "validate_basis R \<lparr>cb_system_scope = system, cb_evaluated_at = am_timestamp a,
        cb_relevant_at = am_timestamp a, cb_records = rs, cb_facts = facts,
        cb_facts_available_at = t, cb_facts_provenance = pv\<rparr> = Inr c"
    "bs_v2 b = Some v" "validate_basis R c = Inr (vb_context v)" "validate_policy R p = Inr (vb_policy v)"
    "ad_policy_id (dc_core d) = po_policy_id p" "ad_system_scope (dc_core d) = system"
    "decision_timestamp (dc_core d) = am_timestamp a"
proof -
  from assms have "g_system_scope (am_graph a) = system"
    by (auto simp: admission_candidate_def bindE_eq_Inr split: if_splits)
  with assms obtain rs p c where sel: "selection R scope system (am_timestamp a) pid s = Inr (rs, p)"
    and c: "validate_basis R \<lparr>cb_system_scope = system, cb_evaluated_at = am_timestamp a,
        cb_relevant_at = am_timestamp a, cb_records = rs, cb_facts = facts,
        cb_facts_available_at = t, cb_facts_provenance = pv\<rparr> = Inr c"
    and cr: "create_policy_decision R scope a c p = Inr (d, b)"
    by (auto simp: admission_candidate_def bindE_eq_Inr)
  from cr obtain e ps cs d0 b0 b1 where d0: "parse_decision R (policy_decision scope a p e ps cs) = Inr d0"
    and d1: "parse_decision R d0 = Inr d" and b: "parse_basis R b0 = Inr b1" "parse_basis R b1 = Inr b"
    and b0: "bs_v2 b0 = Some \<lparr>vb_scope = scope, vb_context = c, vb_policy = p, vb_evaluation = e\<rparr>"
    unfolding create_policy_decision_def Let_def chain_simps sum.inject prod.inject
    by (elim exE conjE) simp
  from parse_basis_v2 [OF b(1) b0] obtain w where w: "bs_v2 b1 = Some w" "validate_basis R c = Inr (vb_context w)"
    "validate_policy R p = Inr (vb_policy w)" by auto
  from parse_basis_v2 [OF b(2) w(1)] obtain v where v: "bs_v2 b = Some v"
    "validate_basis R (vb_context w) = Inr (vb_context v)" "validate_policy R (vb_policy w) = Inr (vb_policy v)" .
  have v: "bs_v2 b = Some v" "validate_basis R c = Inr (vb_context v)" "validate_policy R p = Inr (vb_policy v)"
    using v w validate_basis_idem [OF w(2)] validate_policy_idem [OF w(3)] by simp_all
  have d: "ad_policy_id (dc_core d) = po_policy_id p" "ad_system_scope (dc_core d) = system"
    "decision_timestamp (dc_core d) = am_timestamp a"
    using parse_decision_form [OF d0] parse_decision_form [OF d1] \<open>g_system_scope (am_graph a) = system\<close>
    by (auto simp: policy_decision_def Let_def)
  show thesis
    by (rule that [OF sel _ c v d]) (use validate_basis_Inr [OF c] in blast)
qed

text \<open>
  A candidate prepared on one state of the registries and appended as a new record on another: the
  append succeeds only where the registries select what they selected for the candidate.
\<close>

lemma admission_selection:
  assumes ok: "gov_store_ok R s" and c: "admission_candidate R scope system pid facts t pv a s = Inr (d, b)"
    and ap: "append_decision R scope d b s1 = Inr (s2, d2)"
    and new: "decision_entries R scope system s1 \<noteq> decision_entries R scope system s2"
  shows "selection R scope system (am_timestamp a) pid s1 = selection R scope system (am_timestamp a) pid s"
proof -
  from candidate_Inr [OF c] obtain rs p k v where
    sel: "selection R scope system (am_timestamp a) pid s = Inr (rs, p)"
    and k: "validate_basis R \<lparr>cb_system_scope = system, cb_evaluated_at = am_timestamp a,
        cb_relevant_at = am_timestamp a, cb_records = rs, cb_facts = facts,
        cb_facts_available_at = t, cb_facts_provenance = pv\<rparr> = Inr k"
    and v: "bs_v2 b = Some v" "validate_basis R k = Inr (vb_context v)" "validate_policy R p = Inr (vb_policy v)"
    and d: "ad_policy_id (dc_core d) = po_policy_id p" "ad_system_scope (dc_core d) = system"
      "decision_timestamp (dc_core d) = am_timestamp a" by metis
  note V = selection_validated [OF sel ok]
  have kr: "cb_records k = rs"
    using k V(1,2) by (auto simp: validate_basis_def bindE_eq_Inr dest!: basis_available_Inr)
  have ctx: "vb_context v = k" using validate_basis_idem [OF k] v(2) by simp
  have pol: "vb_policy v = p" using V(3) v(3) by simp
  from append_decision_history [OF ap] obtain d' b' es es' where
    d': "parse_decision R d = Inr d'" and b': "parse_basis R b = Inr b'"
    and es: "decision_entries R scope (ad_system_scope (dc_core d')) s1 = Inr es"
      "decision_entries R scope (ad_system_scope (dc_core d')) s2 = Inr es'"
    and cs: "es' = es \<or> (case bs_v2 b' of None \<Rightarrow> Inr () | Some w \<Rightarrow> check_selection R scope (dc_core d') w s1) = Inr ()"
    by metis
  from parse_decision_form [OF d'] d have D: "ad_policy_id (dc_core d') = pid" "ad_system_scope (dc_core d') = system"
    "decision_timestamp (dc_core d') = am_timestamp a" using V(4) by auto
  from parse_basis_v2 [OF b' v(1)] obtain w where w: "bs_v2 b' = Some w"
    "validate_basis R k = Inr (vb_context w)" "validate_policy R p = Inr (vb_policy w)"
    by (auto simp: ctx pol)
  have "vb_context w = k" "vb_policy w = p" using w(2,3) validate_basis_idem [OF k] V(3) by simp_all
  moreover from new es cs D w(1) have "check_selection R scope (dc_core d') w s1 = Inr ()" by auto
  ultimately have "selection R scope system (am_timestamp a) pid s1 = Inr (rs, p)"
    using D kr by (auto simp: check_selection_def bindE_eq_Inr split: if_splits)
  with sel show ?thesis by simp
qed

subsection \<open>Policy decisions are inert\<close>

lemma validate_for_v2_Inr:
  assumes "validate_for R b d = Inr u" and "bs_v2 b = Some v"
  obtains w where "dc_v2 d = Some w" "vb_scope v = vd_scope w"
    "evaluate_policy R (vb_policy v) (bs_graph b) (bs_maturity b) (lc_state (bs_lifecycle b))
       (vb_context v) (ad_requested_operation (dc_core d)) (decision_timestamp (dc_core d)) = Inr (vb_evaluation v)"
    "decision_outcome (dc_core d) = pe_outcome (vb_evaluation v)"
    "decision_reasons (dc_core d) = pe_reasons (vb_evaluation v)"
    "active_model_before (dc_core d) \<noteq> None" "active_model_after (dc_core d) = active_model_before (dc_core d)"
    "ad_human_review (dc_core d) = \<lparr>hr_required = (pe_outcome (vb_evaluation v) = HUMAN_REVIEW_REQUIRED),
       hr_status = (if pe_outcome (vb_evaluation v) = HUMAN_REVIEW_REQUIRED then Pending else NotRequired),
       hr_reviewer_identity = None, hr_reviewed_at = None, hr_rationale = None\<rparr>"
    "validate_for_v1 R b (dc_core d) = Inr ()"
proof -
  from assms have v2: "validate_for_v2 R b v d = Inr u" by (simp add: validate_for_def)
  then obtain w where w: "dc_v2 d = Some w" by (auto simp: validate_for_v2_def split: option.splits)
  from v2 show thesis unfolding validate_for_v2_def w option.case Let_def chain_simps
  proof (elim exE conjE)
    fix u1 u2 u3 e
    assume sc: "\<not> vb_scope v \<noteq> vd_scope w" and v1: "validate_for_v1 R b (dc_core d) = Inr u1"
      and e: "evaluate_policy R (vb_policy v) (bs_graph b) (bs_maturity b) (lc_state (bs_lifecycle b))
       (vb_context v) (ad_requested_operation (dc_core d)) (decision_timestamp (dc_core d)) = Inr e"
      and r: "reject_first ([
          (e \<noteq> vb_evaluation v \<or> vd_policy_evaluation_id w \<noteq> pe_evaluation_id e, ''policy_replay_mismatch''),
          (decision_outcome (dc_core d) \<noteq> pe_outcome e \<or> decision_reasons (dc_core d) \<noteq> pe_reasons e
             \<or> ad_limiting_evidence (dc_core d) \<noteq> pe_limiting_evidence e
             \<or> vd_tier w \<noteq> map_option tc_tier (pe_classification e)
             \<or> ad_contradicting_evidence (dc_core d) \<noteq> pe_contradicting_evidence e,
            ''decision_policy_result_mismatch'')]
          @ inactive_execution_checks (bs_snapshots b) (dc_core d) e) = Inr u"
    from r have "e = vb_evaluation v" "decision_outcome (dc_core d) = pe_outcome e"
      "decision_reasons (dc_core d) = pe_reasons e" unfolding reject_first_Inr by simp_all
    moreover from r have "\<forall>(bad, msg) \<in> set (inactive_execution_checks (bs_snapshots b) (dc_core d) e). \<not> bad"
      unfolding reject_first_Inr by simp
    then have "active_model_before (dc_core d) \<noteq> None" "active_model_after (dc_core d) = active_model_before (dc_core d)"
      "ad_human_review (dc_core d) = \<lparr>hr_required = (pe_outcome e = HUMAN_REVIEW_REQUIRED),
         hr_status = (if pe_outcome e = HUMAN_REVIEW_REQUIRED then Pending else NotRequired),
         hr_reviewer_identity = None, hr_reviewed_at = None, hr_rationale = None\<rparr>"
      unfolding inactive_execution_checks_def Let_def by auto
    ultimately show thesis using sc v1 e w by (intro that) simp_all
  qed
qed

subsection \<open>Sample values\<close>

text \<open>
  A runtime whose digest tells apart what the samples need apart, and a request to record the
  evaluation of an adaptation. Policy evaluation finds no condition assessed, so it defers.
\<close>

definition demo_object_digest :: "json \<Rightarrow> string" where
  "demo_object_digest v = (case v of
       JObj kvs \<Rightarrow> (case map_of kvs ''object_id'' of
           Some (JStr s) \<Rightarrow> s
         | _ \<Rightarrow> (case map_of kvs ''action'' of Some (JStr s) \<Rightarrow> s | _ \<Rightarrow> demo_digest v))
     | _ \<Rightarrow> ''0'')"

definition demo_store_runtime :: runtime where
  "demo_store_runtime = demo_runtime\<lparr>sha256_json := demo_object_digest\<rparr>"

definition demo_lifecycle :: lifecycle_event where
  "demo_lifecycle = \<lparr>lc_state = PERSISTENT, lc_previous_event_id = None, lc_effective_at = 40,
     lc_evidence_ids = [''evidence:a''], lc_reasons = [''seen''], lc_source_run_id = ''run'',
     lc_provenance = demo_provenance, le_event_id = ''event'', le_finding_id = ''f'', le_version = 1,
     le_recorded_at = 41, le_actor = ''operator''\<rparr>"

definition demo_model :: "string \<Rightarrow> audit_snapshot" where
  "demo_model n = \<lparr>as_snapshot_id = ''governance-snapshot:'' @ n, as_kind = KModel, as_object_id = n,
     as_version = ''1'', as_system_scope = ''plant'', as_created_at = 30, as_provenance = demo_provenance,
     as_payload = [(''model_ref'', JStr n), (''baseline_ref'', JStr ''b1'')]\<rparr>"

definition demo_admission :: admission where
  "demo_admission = \<lparr>am_graph = demo_checked, am_maturity = demo_maturity, am_lifecycle = demo_lifecycle,
     am_operation = EVALUATE_ADAPTATION, am_timestamp = 60, am_source_run_id = ''decide'',
     am_active_model = demo_model ''active'', am_candidate_model = Some (demo_model ''next''), am_supersedes = None\<rparr>"

definition demo_registered :: policy where
  "demo_registered = (demo_policy EVALUATE_ADAPTATION)\<lparr>policy_record_id := ''authority-policy:0''\<rparr>"

definition demo_verdict :: policy_evaluation where
  "demo_verdict = \<lparr>pe_evaluation_id = ''authority-policy-evaluation:0'', pe_policy_id = ''p'',
     pe_policy_version = 1, pe_policy_record_id = ''authority-policy:0'', pe_evaluated_at = 60,
     pe_requested_operation = EVALUATE_ADAPTATION, pe_graph_snapshot_id = ''dependency-graph:0'',
     pe_maturity_snapshot_id = ''maturity-evaluation:run'', pe_context_basis_id = ''policy-context-basis:0'',
     pe_lifecycle_state = PERSISTENT, pe_outcome = DEFERRED, pe_reasons = [''adaptation_candidate_classified''],
     pe_satisfied_rules = [''policy_scope'', ''requested_operation'', ''policy_effective_interval'',
       ''minimum_maturity'', ''allowed_lifecycle_state'', ''maturity_support_available'',
       ''evidence_family:temporal'', ''context_type:external_anchor''],
     pe_failed_rules = [''adaptation_candidate_classified''], pe_limiting_evidence = [''evidence:a''],
     pe_contradicting_evidence = [], pe_limiting_context = [],
     pe_classification = Some \<lparr>tc_tier = Unclassified, tc_eligible_candidate = False,
       tc_reasons = map (\<lambda>c. condition_value c @ '':unknown'')
         [LOCATION_SHIFT, RELATIONSHIP_CHANGE, COVARIANCE_CHANGE, RESPONSE_BREAKDOWN, PROPAGATION_CHANGE,
          PHYSICS_CONTRADICTION, INSTRUMENTATION_CONCERN, EXCESSIVE_EVOLUTION_RATE],
       tc_assessments = map (\<lambda>c. \<lparr>ca_condition = c, ca_status = Unknown,
           ca_evidence_ids = (if c = RELATIONSHIP_CHANGE then [''evidence:a''] else [])\<rparr>)
         [LOCATION_SHIFT, RELATIONSHIP_CHANGE, COVARIANCE_CHANGE, RESPONSE_BREAKDOWN, PROPAGATION_CHANGE,
          PHYSICS_CONTRADICTION, INSTRUMENTATION_CONCERN, EXCESSIVE_EVOLUTION_RATE],
       tc_limiting_evidence = [''evidence:a'']\<rparr>\<rparr>"

definition demo_selected :: context_basis where
  "demo_selected = \<lparr>cb_system_scope = ''plant'', cb_evaluated_at = 60, cb_relevant_at = 60,
     cb_records = [demo_context_checked], cb_facts = [(''mode'', JStr ''auto'')], cb_facts_available_at = 10,
     cb_facts_provenance = demo_provenance\<rparr>"

definition demo_decision :: decision where
  "demo_decision = (let d = policy_decision demo_scope demo_admission demo_registered demo_verdict
       ''governance-snapshot:p'' ''governance-snapshot:context-basis'' in
     d\<lparr>dc_core := (dc_core d)\<lparr>decision_id := ''authority-decision:decide''\<rparr>\<rparr>)"

definition demo_frozen :: decision_basis where
  "demo_frozen = \<lparr>bs_graph = demo_checked, bs_maturity = demo_maturity, bs_lifecycle = demo_lifecycle,
     bs_snapshots = [(policy_audit_snapshot demo_checked demo_registered)\<lparr>as_snapshot_id := ''governance-snapshot:p''\<rparr>,
       (context_audit_snapshot demo_checked demo_selected)\<lparr>as_snapshot_id := ''governance-snapshot:context-basis''\<rparr>, demo_model ''active'', demo_model ''next''],
     bs_v2 = Some \<lparr>vb_scope = demo_scope, vb_context = demo_selected, vb_policy = demo_registered,
       vb_evaluation = demo_verdict\<rparr>\<rparr>"

lemma demo_frozen_parses:
  "parse_decision demo_store_runtime demo_decision = Inr demo_decision"
  "parse_basis demo_store_runtime demo_frozen = Inr demo_frozen"
  "\<not> isl (basis_objects demo_frozen)"
  by code_simp+

lemma demo_frozen_valid: "validate_for demo_store_runtime demo_frozen demo_decision = Inr ()"
  by code_simp

lemma demo_candidate:
  "create_policy_decision demo_store_runtime demo_scope demo_admission demo_selected demo_registered
     = Inr (demo_decision, demo_frozen)"
proof -
  let ?R = demo_store_runtime
  have e: "evaluate_policy ?R demo_registered demo_checked demo_maturity (lc_state demo_lifecycle) demo_selected
      EVALUATE_ADAPTATION 60 = Inr demo_verdict" by code_simp
  have ps: "validate_snapshot ?R (policy_audit_snapshot demo_checked demo_registered)
      = Inr ((policy_audit_snapshot demo_checked demo_registered)\<lparr>as_snapshot_id := ''governance-snapshot:p''\<rparr>)"
    and cs: "validate_snapshot ?R (context_audit_snapshot demo_checked demo_selected)
      = Inr ((context_audit_snapshot demo_checked demo_selected)\<lparr>as_snapshot_id := ''governance-snapshot:context-basis''\<rparr>)"
    and k: "\<not> isl (store_key ?R demo_scope (g_system_scope demo_checked))"
    and d: "parse_decision ?R (policy_decision demo_scope demo_admission demo_registered demo_verdict
       ''governance-snapshot:p'' ''governance-snapshot:context-basis'') = Inr demo_decision"
    by code_simp+
  from k obtain key where "store_key ?R demo_scope (g_system_scope demo_checked) = Inr key" by (metis sum.collapse(2))
  with e ps cs d demo_frozen_parses demo_frozen_valid show ?thesis
    by (simp add: create_policy_decision_def demo_admission_def Let_def demo_frozen_def [symmetric])
qed

end
