(* ===== verification/Gov_Ledger.thy ===== *)
theory Gov_Ledger
  imports Gov_Store
begin

text \<open>
  What the authority history guarantees whatever operations are submitted to the store, in which
  order: the properties of the operations of \<^verbatim>\<open>authority_store.py\<close>, and the sample store they are
  applied to.
\<close>

text \<open>The store after one context and one policy have been registered.\<close>

lemma demo_register:
  fixes R and s :: gov_store
  defines "R \<equiv> demo_store_runtime"
  assumes "gs_contexts s = (\<lambda>_. None)" and "gs_policies s = (\<lambda>_. None)"
  obtains s1 s2 where "store_step R (AppendContext demo_scope demo_context_checked) s = Inr s1"
    "store_step R (AppendPolicy demo_scope demo_registered) s1 = Inr s2" "gs_decisions s2 = gs_decisions s"
    "\<And>t. 5 \<le> t \<Longrightarrow> t < 1000 \<Longrightarrow>
       selection R demo_scope ''plant'' t ''p'' s2 = Inr ([demo_context_checked], demo_registered)"
proof -
  have vc: "validate_context R demo_context_checked = Inr demo_context_checked"
    and vp: "validate_policy R demo_registered = Inr demo_registered"
    and k: "strip ''plant'' \<noteq> []" unfolding R_def by code_simp+
  have fields: "cx_system_scope demo_context_checked = ''plant''" "cx_version demo_context_checked = 1"
    "cx_supersedes demo_context_checked = None" "applicable_system_scope demo_registered = ''plant''"
    "po_policy_version demo_registered = 1" "po_supersedes demo_registered = None"
    by (simp_all add: demo_context_checked_def demo_context_def demo_registered_def demo_policy_def)
  have "\<exists>m. registry_append R (context_ops R) demo_scope demo_context_checked (\<lambda>_. None) = Inr (m, demo_context_checked)
      \<and> registry_history R (context_ops R) demo_scope ''plant'' m = Inr [demo_context_checked]"
    using vc k fields(1-3)
    by (simp add: registry_append_def context_ops_def registry_key_def store_key_def registry_update_def
        chain_of_def registry_history_def open_ledger_def)
  then obtain cm where cm: "registry_append R (context_ops R) demo_scope demo_context_checked (\<lambda>_. None) = Inr (cm, demo_context_checked)"
    "registry_history R (context_ops R) demo_scope ''plant'' cm = Inr [demo_context_checked]" by blast
  have "\<exists>m. registry_append R (policy_ops R) demo_scope demo_registered (\<lambda>_. None) = Inr (m, demo_registered)
      \<and> registry_history R (policy_ops R) demo_scope ''plant'' m = Inr [demo_registered]"
    using vp k fields(4-6)
    by (simp add: registry_append_def policy_ops_def registry_key_def store_key_def registry_update_def
        chain_of_def registry_history_def open_ledger_def)
  then obtain pm where pm: "registry_append R (policy_ops R) demo_scope demo_registered (\<lambda>_. None) = Inr (pm, demo_registered)"
    "registry_history R (policy_ops R) demo_scope ''plant'' pm = Inr [demo_registered]" by blast
  have "selection R demo_scope ''plant'' t ''p'' (s\<lparr>gs_contexts := cm, gs_policies := pm\<rparr>)
      = Inr ([demo_context_checked], demo_registered)" if "5 \<le> t" "t < 1000" for t
    using that cm(2) pm(2)
    by (simp add: selection_def registry_as_of_def resolve_policy_def context_ops_def policy_ops_def Let_def covers_def
        demo_context_checked_def demo_context_def demo_registered_def demo_policy_def ordered_records_def)
  with that [of "s\<lparr>gs_contexts := cm\<rparr>" "s\<lparr>gs_contexts := cm, gs_policies := pm\<rparr>"] show thesis
    using cm(1) pm(1) assms(2,3) by simp
qed

lemma demo_admitted:
  obtains s s' where "stores demo_store_runtime s" "stores demo_store_runtime s'"
    "append_decision demo_store_runtime demo_scope demo_decision demo_frozen s = Inr (s', demo_decision)"
    "admission_candidate demo_store_runtime demo_scope ''plant'' ''p'' [(''mode'', JStr ''auto'')] 10 demo_provenance
       demo_admission s = Inr (demo_decision, demo_frozen)"
    "decision_entries demo_store_runtime demo_scope ''plant'' s = Inr []"
    "decision_entries demo_store_runtime demo_scope ''plant'' s' = Inr [\<lparr>en_decision = demo_decision, en_basis = demo_frozen\<rparr>]"
    "\<And>t. 5 \<le> t \<Longrightarrow> t < 1000 \<Longrightarrow>
       selection demo_store_runtime demo_scope ''plant'' t ''p'' s' = Inr ([demo_context_checked], demo_registered)"
proof -
  let ?R = demo_store_runtime
  obtain s1 s where s1: "store_step ?R (AppendContext demo_scope demo_context_checked) empty_store = Inr s1"
    and s: "store_step ?R (AppendPolicy demo_scope demo_registered) s1 = Inr s"
    and n: "gs_decisions s = gs_decisions empty_store"
    and sel': "\<And>t. 5 \<le> t \<Longrightarrow> t < 1000 \<Longrightarrow>
       selection ?R demo_scope ''plant'' t ''p'' s = Inr ([demo_context_checked], demo_registered)"
    using demo_register [of empty_store] by (auto simp: empty_store_def)
  note sel = sel' [of 60, simplified]
  have st: "stores ?R s" by (rule stores.step [OF stores.step [OF stores.initial s1] s])
  have n: "gs_decisions s = (\<lambda>_. None)" using n by (simp add: empty_store_def)
  have core: "ad_system_scope (dc_core demo_decision) = ''plant''" "decision_timestamp (dc_core demo_decision) = 60"
    "ad_policy_id (dc_core demo_decision) = ''p''" "supersedes_decision_id (dc_core demo_decision) = None"
    "dc_v2 demo_decision = Some \<lparr>vd_scope = demo_scope, vd_policy_evaluation_id = ''authority-policy-evaluation:0'', vd_tier = Some Unclassified\<rparr>"
    by code_simp+
  have "strip ''plant'' \<noteq> []" by code_simp
  then obtain key where k: "store_key ?R demo_scope ''plant'' = Inr key" by (simp add: store_key_def)
  obtain os where os: "basis_objects demo_frozen = Inr os" using demo_frozen_parses(3) by (metis sum.collapse(2))
  let ?e = "\<lparr>en_decision = demo_decision, en_basis = demo_frozen\<rparr>"
  let ?l = "\<lparr>lg_schema = ''authority-ledger-v1'', lg_scope = demo_scope, lg_system = ''plant'', lg_records = [?e]\<rparr>"
  have v2: "bs_v2 demo_frozen = Some \<lparr>vb_scope = demo_scope, vb_context = demo_selected, vb_policy = demo_registered,
       vb_evaluation = demo_verdict\<rparr>" by (simp add: demo_frozen_def)
  have "check_selection ?R demo_scope (dc_core demo_decision) (the (bs_v2 demo_frozen)) s = Inr ()"
    using sel core by (simp add: check_selection_def v2 demo_selected_def)
  then have u: "append_update ?R demo_scope demo_decision demo_frozen s None = Inr ?l"
    using core os by (simp add: append_update_def v2 find_entry_def check_supersession_def)
  have a: "append_decision ?R demo_scope demo_decision demo_frozen s
      = Inr (s\<lparr>gs_decisions := [key \<mapsto> ?l]\<rparr>, demo_decision)"
    using demo_frozen_parses(1,2) demo_frozen_valid u k core v2
    by (auto simp: append_decision_def n)
  have vb: "validate_basis ?R demo_selected = Inr demo_selected" by code_simp
  have c: "admission_candidate ?R demo_scope ''plant'' ''p'' [(''mode'', JStr ''auto'')] 10 demo_provenance
       demo_admission s = Inr (demo_decision, demo_frozen)"
  proof -
    have "am_timestamp demo_admission = 60" "g_system_scope (am_graph demo_admission) = ''plant''" by code_simp+
    then show ?thesis using k sel vb demo_candidate by (simp add: admission_candidate_def demo_selected_def)
  qed
  have st': "store_step ?R (AppendDecision demo_scope demo_decision demo_frozen) s = Inr (s\<lparr>gs_decisions := [key \<mapsto> ?l]\<rparr>)"
    using a by simp
  have "selection ?R demo_scope ''plant'' t ''p'' (s\<lparr>gs_decisions := [key \<mapsto> ?l]\<rparr>)
      = Inr ([demo_context_checked], demo_registered)" if "5 \<le> t" "t < 1000" for t
    using sel' [OF that] by (simp add: selection_def)
  with that [OF st stores.step [OF st st'] a c] k n show thesis
    by (simp add: decision_entries_def open_ledger_def)
qed

subsection \<open>Properties\<close>

text \<open>
  C1. The laws of every ledger of authority decisions that any sequence of registry updates, appends
  and admissions can produce: decision ids are distinct; every entry is a decision of this system and
  scope whose frozen basis is valid for it; a superseding decision follows the record it supersedes,
  concerns the same finding and operation and is not dated before it; a record has at most one
  successor; and no identifier is bound to two different contents by the bases of the ledger.
\<close>

theorem ledger_laws:
  assumes "stores R s" and "decision_entries R scope system s = Inr es"
  shows "distinct (map entry_id es)
    \<and> (\<forall>e \<in> set es. ad_system_scope (dc_core (en_decision e)) = system
         \<and> validate_for R (en_basis e) (en_decision e) = Inr ()
         \<and> (\<forall>w. dc_v2 (en_decision e) = Some w \<longrightarrow> vd_scope w = scope))
    \<and> (\<forall>xs e ys p. es = xs @ e # ys \<and> supersedes_of e = Some p \<longrightarrow>
         (\<exists>x \<in> set xs. entry_id x = p
            \<and> ad_finding_id (dc_core (en_decision x)) = ad_finding_id (dc_core (en_decision e))
            \<and> ad_requested_operation (dc_core (en_decision x)) = ad_requested_operation (dc_core (en_decision e))
            \<and> decision_timestamp (dc_core (en_decision x)) \<le> decision_timestamp (dc_core (en_decision e))))
    \<and> (\<forall>x \<in> set es. \<forall>y \<in> set es. supersedes_of x \<noteq> None \<and> supersedes_of x = supersedes_of y \<longrightarrow> x = y)
    \<and> (\<forall>x \<in> set es. \<forall>y \<in> set es. \<forall>i u v. binds x i u \<and> binds y i v \<longrightarrow> u = v)"
proof -
  have L: "lawful R scope system es"
    using decision_entries_ok [OF assms(2)] stores_ok [OF assms(1)] by (simp add: gov_store_ok_def)
  have "\<forall>e \<in> set es. ad_system_scope (dc_core (en_decision e)) = system
         \<and> validate_for R (en_basis e) (en_decision e) = Inr ()
         \<and> (\<forall>w. dc_v2 (en_decision e) = Some w \<longrightarrow> vd_scope w = scope)"
  proof (intro ballI conjI allI impI)
    fix e w
    assume "e \<in> set es"
    then have E: "entry_ok R scope system e" by (rule lawful_entries [OF L])
    then show "ad_system_scope (dc_core (en_decision e)) = system" "validate_for R (en_basis e) (en_decision e) = Inr ()"
      by (simp_all add: entry_ok_def)
    show "vd_scope w = scope" if "dc_v2 (en_decision e) = Some w" using E that by (simp add: entry_ok_def)
  qed
  moreover have "\<forall>xs e ys p. es = xs @ e # ys \<and> supersedes_of e = Some p \<longrightarrow>
      (\<exists>x \<in> set xs. entry_id x = p \<and> succeeds e x)"
    using lawful_predecessor [OF L] by blast
  moreover have "\<forall>x \<in> set es. \<forall>y \<in> set es. supersedes_of x \<noteq> None \<and> supersedes_of x = supersedes_of y \<longrightarrow> x = y"
  proof (intro ballI impI)
    fix x y assume xy: "x \<in> set es" "y \<in> set es" "supersedes_of x \<noteq> None \<and> supersedes_of x = supersedes_of y"
    then obtain p where "supersedes_of x = Some p" "supersedes_of y = Some p" by fastforce
    with xy(1,2) show "x = y" by (rule lawful_successor_unique [OF L])
  qed
  moreover have "\<forall>x \<in> set es. \<forall>y \<in> set es. \<forall>i u v. binds x i u \<and> binds y i v \<longrightarrow> u = v"
    using lawful_binds [OF L] by blast
  ultimately show ?thesis using lawful_ids [OF L] unfolding succeeds_def Let_def by blast
qed

theorem ledger_laws_witness:
  "\<exists>s. stores demo_store_runtime s
     \<and> decision_entries demo_store_runtime demo_scope ''plant'' s = Inr [\<lparr>en_decision = demo_decision, en_basis = demo_frozen\<rparr>]
     \<and> validate_for demo_store_runtime demo_frozen demo_decision = Inr ()"
proof (rule demo_admitted)
  fix s s'
  assume s: "stores demo_store_runtime s'"
    and e: "decision_entries demo_store_runtime demo_scope ''plant'' s' = Inr [\<lparr>en_decision = demo_decision, en_basis = demo_frozen\<rparr>]"
  from ledger_laws [OF s e] have "validate_for demo_store_runtime demo_frozen demo_decision = Inr ()" by simp
  with s e show ?thesis by blast
qed

text \<open>
  Appending a decision keeps everything recorded. It extends the history of its own scope and
  system by at most its own parsed record, at the end, never touches the registries, and repeating it
  on the resulting store changes nothing and returns the same decision.
\<close>

theorem append_decision_append_only:
  assumes "stores R s" and "append_decision R scope d b s = Inr (s', d')"
  shows "\<exists>es es' x. decision_entries R scope (ad_system_scope (dc_core (en_decision x))) s = Inr es
      \<and> decision_entries R scope (ad_system_scope (dc_core (en_decision x))) s' = Inr es'
      \<and> parse_decision R d = Inr (en_decision x) \<and> parse_basis R b = Inr (en_basis x)
      \<and> es' = (if x \<in> set es then es else es @ [x]) \<and> (x \<in> set es \<longrightarrow> s' = s)
      \<and> gs_contexts s' = gs_contexts s \<and> gs_policies s' = gs_policies s
      \<and> append_decision R scope d b s' = Inr (s', d')"
proof -
  have ok: "decisions_ok R s" using stores_ok [OF assms(1)] by (simp add: gov_store_ok_def)
  note keep = append_decision_keeps [OF assms(2) ok] and again = append_decision_retry [OF assms(2) ok]
  obtain d1 b1 es es' where p: "parse_decision R d = Inr d1" "parse_basis R b = Inr b1"
    and e: "decision_entries R scope (ad_system_scope (dc_core d1)) s = Inr es"
      "decision_entries R scope (ad_system_scope (dc_core d1)) s' = Inr es'"
    and c: "(\<lparr>en_decision = d1, en_basis = b1\<rparr> \<in> set es \<and> es' = es \<and> s' = s)
      \<or> (dc_id d1 \<notin> entry_id ` set es \<and> es' = es @ [\<lparr>en_decision = d1, en_basis = b1\<rparr>]
      \<and> (case bs_v2 b1 of None \<Rightarrow> Inr () | Some v \<Rightarrow> check_selection R scope (dc_core d1) v s) = Inr ())"
    by (rule append_decision_history [OF assms(2)])
  let ?x = "\<lparr>en_decision = d1, en_basis = b1\<rparr>"
  have "entry_id ?x = dc_id d1" by (simp add: entry_id_def)
  with c have "es' = (if ?x \<in> set es then es else es @ [?x]) \<and> (?x \<in> set es \<longrightarrow> s' = s)"
    by (metis imageI)
  with p e keep again show ?thesis
    by (intro exI [of _ es] exI [of _ es'] exI [of _ ?x]) simp
qed

theorem append_decision_append_only_witness:
  "\<exists>(s :: gov_store) s'. append_decision demo_store_runtime demo_scope demo_decision demo_frozen s = Inr (s', demo_decision)
     \<and> append_decision demo_store_runtime demo_scope demo_decision demo_frozen s' = Inr (s', demo_decision)"
proof (rule demo_admitted)
  fix s s'
  assume s: "stores demo_store_runtime s"
    and a: "append_decision demo_store_runtime demo_scope demo_decision demo_frozen s = Inr (s', demo_decision)"
  from append_decision_append_only [OF s a] a show ?thesis by blast
qed

text \<open>
  C14. No stale admission. A candidate is prepared from one state of the registries and appended in a
  later transaction on another. Whatever happened in between, a new record enters the history only if
  the registries still select, for the time of the decision, exactly the contexts and the policy the
  candidate was frozen with.
\<close>

theorem no_stale_admission:
  assumes "stores R s" and "admission_candidate R scope system pid facts t pv a s = Inr (d, b)"
    and "append_decision R scope d b s1 = Inr (s2, d')"
    and "decision_entries R scope system s1 \<noteq> decision_entries R scope system s2"
  shows "selection R scope system (am_timestamp a) pid s1 = selection R scope system (am_timestamp a) pid s"
  using admission_selection [OF stores_ok [OF assms(1)] assms(2-4)] .

theorem no_stale_admission_witness:
  "\<exists>(s :: gov_store) x. selection demo_store_runtime demo_scope ''plant'' 60 ''p'' s = Inr x"
proof (rule demo_admitted)
  fix s s'
  assume s: "stores demo_store_runtime s"
    and a: "append_decision demo_store_runtime demo_scope demo_decision demo_frozen s = Inr (s', demo_decision)"
    and c: "admission_candidate demo_store_runtime demo_scope ''plant'' ''p'' [(''mode'', JStr ''auto'')] 10 demo_provenance
       demo_admission s = Inr (demo_decision, demo_frozen)"
    and e: "decision_entries demo_store_runtime demo_scope ''plant'' s = Inr []"
      "decision_entries demo_store_runtime demo_scope ''plant'' s' = Inr [\<lparr>en_decision = demo_decision, en_basis = demo_frozen\<rparr>]"
  have "am_timestamp demo_admission = 60" by code_simp
  moreover from candidate_Inr [OF c] obtain x where
    "selection demo_store_runtime demo_scope ''plant'' (am_timestamp demo_admission) ''p'' s = Inr x" by metis
  moreover have "decision_entries demo_store_runtime demo_scope ''plant'' s \<noteq> decision_entries demo_store_runtime demo_scope ''plant'' s'"
    by (simp add: e)
  ultimately show ?thesis using no_stale_admission [OF s c a] by metis
qed

text \<open>
  Policy decisions are inert. Every recorded decision of the second schema carries the outcome and
  the reasons that evaluating its frozen policy over its frozen basis gives again, keeps the active
  model it was taken under, and claims no completed human review: a review is pending exactly when
  the outcome asks for one. An adaptation request is recorded as neither permitted, released nor
  escalated.
\<close>

theorem policy_decisions_inert:
  assumes "stores R s" and "decision_entries R scope system s = Inr es"
    and "e \<in> set es" and "bs_v2 (en_basis e) = Some v"
  shows "evaluate_policy R (vb_policy v) (bs_graph (en_basis e)) (bs_maturity (en_basis e))
       (lc_state (bs_lifecycle (en_basis e))) (vb_context v) (ad_requested_operation (dc_core (en_decision e)))
       (decision_timestamp (dc_core (en_decision e))) = Inr (vb_evaluation v)
    \<and> decision_outcome (dc_core (en_decision e)) = pe_outcome (vb_evaluation v)
    \<and> decision_reasons (dc_core (en_decision e)) = pe_reasons (vb_evaluation v)
    \<and> active_model_after (dc_core (en_decision e)) = active_model_before (dc_core (en_decision e))
    \<and> active_model_before (dc_core (en_decision e)) \<noteq> None
    \<and> hr_reviewer_identity (ad_human_review (dc_core (en_decision e))) = None
    \<and> (hr_status (ad_human_review (dc_core (en_decision e))) = Pending
         \<longleftrightarrow> decision_outcome (dc_core (en_decision e)) = HUMAN_REVIEW_REQUIRED)
    \<and> (ad_requested_operation (dc_core (en_decision e)) \<in> set ADAPTATION_OPERATIONS \<longrightarrow>
         decision_outcome (dc_core (en_decision e)) \<notin> {PERMITTED, RELEASED, ESCALATED})"
proof -
  have "lawful R scope system es"
    using decision_entries_ok [OF assms(2)] stores_ok [OF assms(1)] by (simp add: gov_store_ok_def)
  then have "validate_for R (en_basis e) (en_decision e) = Inr ()"
    using lawful_entries assms(3) by (fastforce simp: entry_ok_def)
  from validate_for_v2_Inr [OF this assms(4)] have ev: "evaluate_policy R (vb_policy v) (bs_graph (en_basis e))
       (bs_maturity (en_basis e)) (lc_state (bs_lifecycle (en_basis e))) (vb_context v)
       (ad_requested_operation (dc_core (en_decision e))) (decision_timestamp (dc_core (en_decision e)))
         = Inr (vb_evaluation v)"
    and rest: "decision_outcome (dc_core (en_decision e)) = pe_outcome (vb_evaluation v)"
      "decision_reasons (dc_core (en_decision e)) = pe_reasons (vb_evaluation v)"
      "active_model_before (dc_core (en_decision e)) \<noteq> None"
      "active_model_after (dc_core (en_decision e)) = active_model_before (dc_core (en_decision e))"
      "ad_human_review (dc_core (en_decision e)) = \<lparr>hr_required = (pe_outcome (vb_evaluation v) = HUMAN_REVIEW_REQUIRED),
       hr_status = (if pe_outcome (vb_evaluation v) = HUMAN_REVIEW_REQUIRED then Pending else NotRequired),
       hr_reviewer_identity = None, hr_reviewed_at = None, hr_rationale = None\<rparr>" by blast+
  have "granted (pe_outcome (vb_evaluation v)) \<Longrightarrow> ad_requested_operation (dc_core (en_decision e)) \<notin> set ADAPTATION_OPERATIONS"
    by (rule granted_no_adaptation [OF ev])
  with ev rest show ?thesis by (auto simp: granted_def)
qed

theorem policy_decisions_inert_witness:
  "active_model_after (dc_core demo_decision) = active_model_before (dc_core demo_decision)"
proof (rule demo_admitted)
  fix s s'
  assume s: "stores demo_store_runtime s'"
    and e: "decision_entries demo_store_runtime demo_scope ''plant'' s' = Inr [\<lparr>en_decision = demo_decision, en_basis = demo_frozen\<rparr>]"
  have "bs_v2 demo_frozen = Some (the (bs_v2 demo_frozen))" by (simp add: demo_frozen_def)
  with policy_decisions_inert [OF s e, of "\<lparr>en_decision = demo_decision, en_basis = demo_frozen\<rparr>"] show ?thesis by simp
qed

end
