(* ===== verification/Gov_Adaptation.thy ===== *)
theory Gov_Adaptation
  imports Gov_Ledger
begin

text \<open>
  Adaptation planning, \<^verbatim>\<open>backend/app/governance/adaptation.py\<close>: the inactive transition contract, the
  candidate that carries it, the event chain of a candidate and the scoped workflow that proposes a
  candidate and advances it. Nothing here executes: the strongest state is a disposition.

  The host's clock is the argument \<open>t\<close> of an operation; its review authenticator, which may be
  missing, is the argument \<open>authenticate\<close>, a function of the scope, the system and the credential
  that returns a reviewer or raises. The workflow ledger shares the store of the authority history.
\<close>

subsection \<open>Contracts\<close>

datatype adaptation_state =
    CANDIDATE_PROPOSED | ADAPTATION_DEFERRED | REVIEW_REQUIRED | APPROVED | REJECTED
  | ADAPTATION_SUPERSEDED | APPLIED

fun adaptation_state_value :: "adaptation_state \<Rightarrow> string" where
  "adaptation_state_value CANDIDATE_PROPOSED = ''candidate_proposed''"
| "adaptation_state_value ADAPTATION_DEFERRED = ''deferred''"
| "adaptation_state_value REVIEW_REQUIRED = ''human_review_required''"
| "adaptation_state_value APPROVED = ''approved''"
| "adaptation_state_value REJECTED = ''rejected''"
| "adaptation_state_value ADAPTATION_SUPERSEDED = ''superseded''"
| "adaptation_state_value APPLIED = ''applied''"

record reviewer =
  rv_identity :: string
  rv_scope :: auth_scope
  rv_system_scope :: string
  rv_provenance :: provenance

definition reviewer_ok :: "reviewer \<Rightarrow> bool" where
  "reviewer_ok r = (text_ok (rv_identity r) \<and> text_ok (rv_system_scope r) \<and> provenance_ok (rv_provenance r))"

definition reviewer_dict :: "reviewer \<Rightarrow> json" where
  "reviewer_dict r = JObj [(''identity'', JStr (rv_identity r)), (''authenticated_scope'', scope_dict (rv_scope r)),
     (''system_scope'', JStr (rv_system_scope r)), (''provenance'', provenance_dict (rv_provenance r))]"

definition decision_dict :: "decision \<Rightarrow> json" where
  "decision_dict d = JObj ((''decision_id'', JStr (dc_id d)) # decision_body d)"

definition frozen_dict :: "decision_basis \<Rightarrow> json" where
  "frozen_dict b = JObj ([(''graph'', graph_dict (bs_graph b)), (''maturity'', maturity_dict (bs_maturity b)),
     (''lifecycle'', lifecycle_dict (bs_lifecycle b)), (''snapshots'', JList (map snapshot_dict (bs_snapshots b)))]
     @ (case bs_v2 b of
          None \<Rightarrow> [(''schema_version'', JStr ''authority-decision-basis-v1'')]
        | Some v \<Rightarrow> [(''schema_version'', JStr ''authority-decision-basis-v2''),
            (''authenticated_scope'', scope_dict (vb_scope v)), (''context'', JObj (basis_dict (vb_context v))),
            (''policy'', JObj (policy_dict (vb_policy v))),
            (''policy_evaluation'', evaluation_dict (vb_evaluation v))]))"

record transition =
  tr_transition_id :: string
  tr_decision :: decision
  tr_basis :: decision_basis
  tr_active_before :: string
  tr_candidate :: string
  tr_active_after :: string
  tr_rollback_reference :: string

definition transition_body :: "transition \<Rightarrow> jdict" where
  "transition_body x = [(''decision'', decision_dict (tr_decision x)), (''basis'', frozen_dict (tr_basis x)),
     (''active_before'', JStr (tr_active_before x)), (''candidate'', JStr (tr_candidate x)),
     (''active_after'', JStr (tr_active_after x)), (''rollback_reference'', JStr (tr_rollback_reference x)),
     (''execution_authorized'', JBool False)]"

definition transition_fields :: "transition \<Rightarrow> (string \<times> bool) list" where
  "transition_fields x = [(''decision'', dc_v2 (tr_decision x) \<noteq> None), (''basis'', bs_v2 (tr_basis x) \<noteq> None),
     (''active_before'', text_ok (tr_active_before x)), (''candidate'', text_ok (tr_candidate x)),
     (''active_after'', text_ok (tr_active_after x)), (''rollback_reference'', text_ok (tr_rollback_reference x))]"

definition inactive_transition :: "runtime \<Rightarrow> transition \<Rightarrow> unit gov" where
  "inactive_transition R x =
     (let d = dc_core (tr_decision x) in
      bindE (validate_for R (tr_basis x) (tr_decision x)) (\<lambda>_.
      reject_first [
        (ad_requested_operation d \<notin> set ADAPTATION_OPERATIONS, ''adaptation_operation_required''),
        (Some (tr_active_before x) \<noteq> active_model_before d \<or> Some (tr_candidate x) \<noteq> candidate_model d
           \<or> tr_active_after x \<noteq> tr_active_before x \<or> Some (tr_active_after x) \<noteq> active_model_after d,
           ''inactive_model_transition_mismatch''),
        (tr_rollback_reference x \<noteq> tr_active_before x, ''rollback_must_reference_exact_active_before''),
        (tr_candidate x = tr_active_before x
           \<or> \<not> model_refs_ok (payload_of (bs_snapshots (tr_basis x)) (tr_candidate x)),
           ''distinct_immutable_candidate_required'')]))"

definition validate_transition :: "runtime \<Rightarrow> transition \<Rightarrow> transition gov" where
  "validate_transition R x =
     bindE (check_fields (transition_fields x)) (\<lambda>_.
     bindE (parse_decision R (tr_decision x)) (\<lambda>d.
     bindE (parse_basis R (tr_basis x)) (\<lambda>b.
     let y = x\<lparr>tr_decision := d, tr_basis := b\<rparr> in
     bindE (validate_identity R ''inactive-adaptation-transition-v1'' ''transition_id''
              (JObj (transition_body y)) (tr_transition_id y)) (\<lambda>i.
     bindE (inactive_transition R y) (\<lambda>_. Inr (y\<lparr>tr_transition_id := i\<rparr>))))))"

record candidate =
  cd_candidate_id :: string
  cd_proposed_at :: timestamp
  cd_provenance :: provenance
  cd_transition :: transition

definition candidate_body :: "candidate \<Rightarrow> jdict" where
  "candidate_body x = [(''proposed_at'', JTime (cd_proposed_at x)),
     (''provenance'', provenance_dict (cd_provenance x)),
     (''transition'', JObj ((''transition_id'', JStr (tr_transition_id (cd_transition x)))
        # transition_body (cd_transition x)))]"

definition cd_decision :: "candidate \<Rightarrow> authority_decision" where
  "cd_decision x = dc_core (tr_decision (cd_transition x))"

definition validate_candidate :: "runtime \<Rightarrow> candidate \<Rightarrow> candidate gov" where
  "validate_candidate R x =
     bindE (check_fields [(''provenance'', provenance_ok (cd_provenance x))]) (\<lambda>_.
     bindE (validate_transition R (cd_transition x)) (\<lambda>tr.
     let y = x\<lparr>cd_transition := tr\<rparr> in
     bindE (validate_identity R ''adaptation-candidate-v1'' ''candidate_id'' (JObj (candidate_body y))
              (cd_candidate_id y)) (\<lambda>i.
     if cd_proposed_at y < decision_timestamp (cd_decision y)
     then Inl (ValueError ''candidate_before_evidence_decision'')
     else Inr (y\<lparr>cd_candidate_id := i\<rparr>))))"

datatype adaptation_action = APropose | AEvaluate | ARequestReview | AReview | ASupersede

fun action_value :: "adaptation_action \<Rightarrow> string" where
  "action_value APropose = ''propose''"
| "action_value AEvaluate = ''evaluate''"
| "action_value ARequestReview = ''request_review''"
| "action_value AReview = ''review''"
| "action_value ASupersede = ''supersede''"

datatype review_action = RApprove | RReject | RDefer

fun review_action_value :: "review_action \<Rightarrow> string" where
  "review_action_value RApprove = ''approve''"
| "review_action_value RReject = ''reject''"
| "review_action_value RDefer = ''defer''"

record adaptation_event =
  ae_event_id :: string
  ae_candidate_id :: string
  ae_action :: adaptation_action
  ae_previous_event_id :: "string option"
  ae_recorded_at :: timestamp
  ae_state :: adaptation_state
  ae_reasons :: "string list"
  ae_review_request_id :: "string option"
  ae_review_action :: "review_action option"
  ae_reviewer :: "reviewer option"
  ae_rationale :: "string option"
  ae_superseded_by :: "string option"

definition event_body :: "adaptation_event \<Rightarrow> jdict" where
  "event_body e = [(''candidate_id'', JStr (ae_candidate_id e)), (''action'', JStr (action_value (ae_action e))),
     (''previous_event_id'', jopt JStr (ae_previous_event_id e)), (''recorded_at'', JTime (ae_recorded_at e)),
     (''state'', JStr (adaptation_state_value (ae_state e))), (''reasons'', jstrs (ae_reasons e)),
     (''review_request_id'', jopt JStr (ae_review_request_id e)),
     (''review_action'', jopt (\<lambda>a. JStr (review_action_value a)) (ae_review_action e)),
     (''reviewer'', jopt reviewer_dict (ae_reviewer e)), (''rationale'', jopt JStr (ae_rationale e)),
     (''superseded_by'', jopt JStr (ae_superseded_by e)), (''execution_authorized'', JBool False)]"

definition event_fields :: "adaptation_event \<Rightarrow> (string \<times> bool) list" where
  "event_fields e = [(''candidate_id'', text_ok (ae_candidate_id e)),
     (''previous_event_id'', text_opt_ok (ae_previous_event_id e)), (''reasons'', texts_ok (ae_reasons e)),
     (''review_request_id'', text_opt_ok (ae_review_request_id e)),
     (''reviewer'', (case ae_reviewer e of None \<Rightarrow> True | Some r \<Rightarrow> reviewer_ok r)),
     (''rationale'', text_opt_ok (ae_rationale e)), (''superseded_by'', text_opt_ok (ae_superseded_by e))]"

definition validate_event :: "runtime \<Rightarrow> adaptation_event \<Rightarrow> adaptation_event gov" where
  "validate_event R e =
     bindE (check_fields (event_fields e)) (\<lambda>_.
     bindE (validate_identity R ''adaptation-event-v1'' ''event_id'' (JObj (event_body e)) (ae_event_id e)) (\<lambda>i.
     Inr (e\<lparr>ae_event_id := i\<rparr>)))"

subsection \<open>The safety gates\<close>

text \<open>
  The tests of the program are on enum values. An adaptation operation always has a classification;
  the branch without one is the attribute error the program would raise.
\<close>

definition expected_status :: "evidence_condition \<Rightarrow> condition_status" where
  "expected_status c = (if c = LOCATION_SHIFT then Present else Absent)"

definition safety_reason :: "assessment \<Rightarrow> string" where
  "safety_reason a = ''safety:'' @ condition_value (ca_condition a) @ '':'' @ status_value (ca_status a)"

definition gate_reasons :: "policy_evaluation \<Rightarrow> classification \<Rightarrow> lifecycle_state \<Rightarrow> string list" where
  "gate_reasons e c state = sorted_set (
     filter (\<lambda>r. r \<notin> {''human_review_pending'', ''tier_b_requires_review_no_automatic_authority''})
       (pe_failed_rules e)
     @ map safety_reason (filter (\<lambda>a. ca_status a \<noteq> expected_status (ca_condition a)) (tc_assessments c))
     @ (if state \<in> {NEW, PERSISTENT, RECOVERING, UNRESOLVED, SUPERSEDED}
        then [''finding_lifecycle_unresolved''] else [])
     @ (if tc_tier c = Unclassified then [''unclassified_candidate''] else []))"

definition gates :: "runtime \<Rightarrow> candidate \<Rightarrow> timestamp \<Rightarrow> string list gov" where
  "gates R x t =
     (let b = tr_basis (cd_transition x); d = cd_decision x in
      (case bs_v2 b of
         None \<Rightarrow> Inl (ValidationError ''basis'')
       | Some v \<Rightarrow>
           bindE (evaluate_policy R (vb_policy v) (bs_graph b) (bs_maturity b) (lc_state (bs_lifecycle b))
                    (vb_context v) (ad_requested_operation d) t) (\<lambda>e.
           (case pe_classification e of
              None \<Rightarrow> Inl (ValueError ''classification'')
            | Some c \<Rightarrow> Inr (gate_reasons e c (lc_state (bs_lifecycle b)))))))"

subsection \<open>The workflow\<close>

record row =
  rw_candidate :: candidate
  rw_events :: "adaptation_event list"

record workflow_store = gov_store +
  gs_adaptations :: "row ledgers"

definition workflow_key :: "runtime \<Rightarrow> auth_scope \<Rightarrow> string \<Rightarrow> string gov" where
  "workflow_key R scope system = bindE (store_key R scope system) (\<lambda>k. Inr (''adaptation-workflow-v1::'' @ k))"

definition find_row :: "row list \<Rightarrow> string \<Rightarrow> row option" where
  "find_row rs i = next_or (\<lambda>r. cd_candidate_id (rw_candidate r) = i) rs"

definition validate_row :: "runtime \<Rightarrow> row \<Rightarrow> row gov" where
  "validate_row R r =
     bindE (validate_candidate R (rw_candidate r)) (\<lambda>c.
     bindE (mapE (validate_event R) (rw_events r)) (\<lambda>es. Inr \<lparr>rw_candidate = c, rw_events = es\<rparr>))"

definition workflow_history :: "runtime \<Rightarrow> auth_scope \<Rightarrow> string \<Rightarrow> workflow_store \<Rightarrow> row list gov" where
  "workflow_history R scope system s =
     bindE (workflow_key R scope system) (\<lambda>key.
     bindE (open_ledger (gs_adaptations s key) scope system) (\<lambda>l. mapE (validate_row R) (lg_records l)))"

definition current_basis ::
  "runtime \<Rightarrow> auth_scope \<Rightarrow> string \<Rightarrow> candidate \<Rightarrow> timestamp \<Rightarrow> workflow_store \<Rightarrow> string list gov" where
  "current_basis R scope system x t s =
     (let dd = tr_decision (cd_transition x); d = dc_core dd; b = tr_basis (cd_transition x) in
      if map_option vd_scope (dc_v2 dd) \<noteq> Some scope \<or> ad_system_scope d \<noteq> system
      then Inl (ValueError ''adaptation_scope_mismatch'')
      else if cd_proposed_at x > t then Inl (ValueError ''future_candidate'')
      else bindE (store_key R scope system) (\<lambda>key.
      bindE (open_ledger (gs_decisions s key) scope system) (\<lambda>l.
      let authority = lg_records l in
      if \<lparr>en_decision = dd, en_basis = b\<rparr> \<notin> set authority
      then Inl (ValueError ''stored_authority_decision_required'')
      else if list_ex (\<lambda>e. supersedes_decision_id (dc_core (en_decision e)) = Some (decision_id d)) authority
      then Inl (AuthorityRecordConflict ''stale_superseded_decision'')
      else bindE (selection R scope system t (ad_policy_id d) s) (\<lambda>(contexts, p).
      if map_option (\<lambda>v. (cb_records (vb_context v), vb_policy v)) (bs_v2 b) \<noteq> Some (contexts, p)
      then Inl (AuthorityRecordConflict ''stale_policy_or_context'')
      else gates R x t))))"

definition proposed_event :: "candidate \<Rightarrow> adaptation_event" where
  "proposed_event x = \<lparr>ae_event_id = [], ae_candidate_id = cd_candidate_id x, ae_action = APropose,
     ae_previous_event_id = None, ae_recorded_at = cd_proposed_at x, ae_state = CANDIDATE_PROPOSED,
     ae_reasons = [''inactive_candidate_recorded''], ae_review_request_id = None, ae_review_action = None,
     ae_reviewer = None, ae_rationale = None, ae_superseded_by = None\<rparr>"

definition propose ::
  "runtime \<Rightarrow> auth_scope \<Rightarrow> string \<Rightarrow> transition \<Rightarrow> provenance \<Rightarrow> timestamp \<Rightarrow> workflow_store
   \<Rightarrow> (workflow_store \<times> candidate) gov" where
  "propose R scope system tr pv t s =
     bindE (validate_transition R tr) (\<lambda>tr.
     bindE (workflow_key R scope system) (\<lambda>key.
     bindE (open_ledger (gs_adaptations s key) scope system) (\<lambda>l.
     bindE (validate_candidate R \<lparr>cd_candidate_id = [], cd_proposed_at = t, cd_provenance = pv,
              cd_transition = tr\<rparr>) (\<lambda>x.
     bindE (if find_row (lg_records l) (cd_candidate_id x) \<noteq> None then Inr l
            else bindE (current_basis R scope system x (cd_proposed_at x) s) (\<lambda>_.
                 bindE (validate_event R (proposed_event x)) (\<lambda>e.
                 Inr (l\<lparr>lg_records := lg_records l @ [\<lparr>rw_candidate = x, rw_events = [e]\<rparr>]\<rparr>)))) (\<lambda>l'.
     bindE (validate_candidate R x) (\<lambda>y.
     Inr (s\<lparr>gs_adaptations := (gs_adaptations s)(key \<mapsto> l')\<rparr>, y)))))))"

record 'c advance_request =
  rq_action :: adaptation_action
  rq_credential :: 'c
  rq_review_action :: "review_action option"
  rq_rationale :: "string option"
  rq_superseded_by :: "string option"

type_synonym 'c authenticator = "auth_scope \<Rightarrow> string \<Rightarrow> 'c \<Rightarrow> reviewer gov"

definition terminal :: "adaptation_state \<Rightarrow> bool" where
  "terminal st = (st \<in> {REJECTED, ADAPTATION_SUPERSEDED, APPLIED})"

definition review_needed :: "candidate \<Rightarrow> bool" where
  "review_needed x =
     ((case dc_v2 (tr_decision (cd_transition x)) of None \<Rightarrow> False | Some w \<Rightarrow> vd_tier w = Some TierB)
      \<or> (case bs_v2 (tr_basis (cd_transition x)) of None \<Rightarrow> False | Some v \<Rightarrow> human_review_requirement (vb_policy v)))"

definition or_else :: "string list \<Rightarrow> string \<Rightarrow> string list" where
  "or_else reasons msg = (if reasons = [] then [msg] else reasons)"

definition disposed_state :: "review_action \<Rightarrow> string list \<Rightarrow> adaptation_state" where
  "disposed_state a reasons = (case a of
       RApprove \<Rightarrow> if reasons \<noteq> [] then ADAPTATION_DEFERRED else APPROVED
     | RReject \<Rightarrow> REJECTED | RDefer \<Rightarrow> ADAPTATION_DEFERRED)"

definition evaluated_state :: "bool \<Rightarrow> string list \<Rightarrow> adaptation_state" where
  "evaluated_state required reasons =
     (if reasons \<noteq> [] then ADAPTATION_DEFERRED else if required then REVIEW_REQUIRED else APPROVED)"

text \<open>The event an action leads to, before it is constructed; \<open>e\<close> carries the chain, time and action.\<close>

definition supersede_event ::
  "runtime \<Rightarrow> row list \<Rightarrow> candidate \<Rightarrow> 'c advance_request \<Rightarrow> string \<Rightarrow> adaptation_event \<Rightarrow> adaptation_event gov" where
  "supersede_event R rs x q cid e =
     (case rq_superseded_by q of
        None \<Rightarrow> Inl (ValueError ''replacement_candidate_required'')
      | Some i \<Rightarrow>
        (case find_row rs i of
           None \<Rightarrow> Inl (ValueError ''replacement_candidate_required'')
         | Some r \<Rightarrow>
           if i = cid then Inl (ValueError ''replacement_candidate_required'')
           else bindE (validate_candidate R (rw_candidate r)) (\<lambda>y.
           if ad_finding_id (cd_decision y) \<noteq> ad_finding_id (cd_decision x)
              \<or> cd_proposed_at y < cd_proposed_at x
              \<or> ae_state (last (rw_events r)) \<in> {ADAPTATION_SUPERSEDED, REJECTED}
           then Inl (ValueError ''invalid_replacement_candidate'')
           else Inr (e\<lparr>ae_state := ADAPTATION_SUPERSEDED, ae_reasons := [''replacement_candidate_recorded''],
                       ae_superseded_by := Some i\<rparr>))))"

definition review_event ::
  "auth_scope \<Rightarrow> string \<Rightarrow> 'c authenticator option \<Rightarrow> 'c advance_request \<Rightarrow> adaptation_event \<Rightarrow> string list
   \<Rightarrow> adaptation_event \<Rightarrow> adaptation_event gov" where
  "review_event scope system authenticate q prior reasons e =
     (if ae_state prior \<noteq> REVIEW_REQUIRED then Inl (ValueError ''pending_review_request_required'')
      else (case authenticate of
        None \<Rightarrow> Inl (ValueError ''review_authentication_unavailable'')
      | Some auth \<Rightarrow>
        bindE (auth scope system (rq_credential q)) (\<lambda>rv.
        if \<not> reviewer_ok rv then Inl (ValidationError ''reviewer'')
        else if rv_scope rv \<noteq> scope \<or> rv_system_scope rv \<noteq> system then Inl (ValueError ''reviewer_scope_mismatch'')
        else (case (rq_review_action q, rq_rationale q) of
            (Some a, Some (c # cs)) \<Rightarrow>
              Inr (e\<lparr>ae_state := disposed_state a reasons, ae_reasons := or_else reasons ''human_review_completed'',
                     ae_review_request_id := Some (ae_event_id prior), ae_review_action := Some a,
                     ae_reviewer := Some rv, ae_rationale := Some (c # cs)\<rparr>)
          | _ \<Rightarrow> Inl (ValueError ''review_disposition_and_rationale_required'')))))"

definition advance_event ::
  "runtime \<Rightarrow> auth_scope \<Rightarrow> string \<Rightarrow> 'c authenticator option \<Rightarrow> 'c advance_request \<Rightarrow> timestamp \<Rightarrow> workflow_store
   \<Rightarrow> row list \<Rightarrow> string \<Rightarrow> candidate \<Rightarrow> adaptation_event \<Rightarrow> adaptation_event gov" where
  "advance_event R scope system authenticate q t s rs cid x prior =
     (let e = \<lparr>ae_event_id = [], ae_candidate_id = cid, ae_action = rq_action q,
           ae_previous_event_id = Some (ae_event_id prior), ae_recorded_at = t, ae_state = CANDIDATE_PROPOSED,
           ae_reasons = [], ae_review_request_id = None, ae_review_action = None, ae_reviewer = None,
           ae_rationale = None, ae_superseded_by = None\<rparr> in
      if rq_action q = ASupersede then supersede_event R rs x q cid e
      else bindE (current_basis R scope system x t s) (\<lambda>reasons.
      (case rq_action q of
         ARequestReview \<Rightarrow>
           if ae_state prior = REVIEW_REQUIRED then Inl (ValueError ''review_already_pending'')
           else Inr (e\<lparr>ae_state := REVIEW_REQUIRED,
                       ae_reasons := or_else reasons ''explicit_human_review_requested''\<rparr>)
       | AReview \<Rightarrow> review_event scope system authenticate q prior reasons e
       | AEvaluate \<Rightarrow>
           if ae_state prior = REVIEW_REQUIRED then Inl (ValueError ''pending_review_requires_disposition'')
           else Inr (e\<lparr>ae_state := evaluated_state (review_needed x) reasons,
                       ae_reasons := or_else reasons
                         (if review_needed x then ''human_review_required'' else ''software_eligible_only'')\<rparr>)
       | _ \<Rightarrow> Inl (ValueError ''execution_or_unknown_action_disabled''))))"

text \<open>\<open>row["events"].append(event)\<close> on the row found.\<close>

fun append_event :: "row list \<Rightarrow> string \<Rightarrow> adaptation_event \<Rightarrow> row list" where
  "append_event [] i e = []"
| "append_event (r # rs) i e =
     (if cd_candidate_id (rw_candidate r) = i then r\<lparr>rw_events := rw_events r @ [e]\<rparr> # rs
      else r # append_event rs i e)"

definition advance ::
  "runtime \<Rightarrow> auth_scope \<Rightarrow> string \<Rightarrow> 'c authenticator option \<Rightarrow> string \<Rightarrow> string \<Rightarrow> 'c advance_request \<Rightarrow> timestamp
   \<Rightarrow> workflow_store \<Rightarrow> (workflow_store \<times> adaptation_event) gov" where
  "advance R scope system authenticate cid expected_event_id q t s =
     bindE (workflow_key R scope system) (\<lambda>key.
     bindE (open_ledger (gs_adaptations s key) scope system) (\<lambda>l.
     (case find_row (lg_records l) cid of
        None \<Rightarrow> Inl (ValueError ''candidate_not_found_in_scope'')
      | Some r \<Rightarrow>
        bindE (validate_candidate R (rw_candidate r)) (\<lambda>x.
        bindE (validate_event R (last (rw_events r))) (\<lambda>prior.
        if ae_event_id prior \<noteq> expected_event_id then Inl (AuthorityRecordConflict ''stale_adaptation_event'')
        else if t < ae_recorded_at prior then Inl (ValueError ''workflow_clock_regressed'')
        else if terminal (ae_state prior) then Inl (ValueError ''terminal_adaptation_state'')
        else bindE (advance_event R scope system authenticate q t s (lg_records l) cid x prior) (\<lambda>e0.
        bindE (validate_event R e0) (\<lambda>e.
        bindE (validate_event R e) (\<lambda>e'.
        Inr (s\<lparr>gs_adaptations := (gs_adaptations s)(key \<mapsto>
               l\<lparr>lg_records := append_event (lg_records l) cid e\<rparr>)\<rparr>, e')))))))))"

subsection \<open>Replay\<close>

definition same_chain :: "candidate \<Rightarrow> adaptation_event option \<Rightarrow> adaptation_event \<Rightarrow> bool" where
  "same_chain x previous e = (ae_candidate_id e = cd_candidate_id x
     \<and> ae_previous_event_id e = map_option ae_event_id previous)"

definition not_before :: "candidate \<Rightarrow> adaptation_event option \<Rightarrow> adaptation_event \<Rightarrow> bool" where
  "not_before x previous e = ((case previous of None \<Rightarrow> cd_proposed_at x | Some p \<Rightarrow> ae_recorded_at p) \<le> ae_recorded_at e)"

text \<open>The state and the reasons a retained event must have.\<close>

definition expected_review ::
  "candidate \<Rightarrow> adaptation_event \<Rightarrow> string list \<Rightarrow> review_action \<Rightarrow> adaptation_event
   \<Rightarrow> (adaptation_state \<times> string list) gov" where
  "expected_review x p reasons a e =
     (if ae_state p \<noteq> REVIEW_REQUIRED \<or> ae_review_request_id e \<noteq> Some (ae_event_id p)
      then Inl (ValueError ''review_request_mismatch'')
      else let dd = tr_decision (cd_transition x) in
        if (case ae_reviewer e of None \<Rightarrow> True | Some rv \<Rightarrow>
              Some (rv_scope rv) \<noteq> map_option vd_scope (dc_v2 dd) \<or> rv_system_scope rv \<noteq> ad_system_scope (dc_core dd)
              \<or> ae_rationale e \<in> {None, Some []})
        then Inl (ValueError ''review_actor_binding_missing'')
        else Inr (disposed_state a reasons, or_else reasons ''human_review_completed''))"

definition expected_result ::
  "runtime \<Rightarrow> candidate \<Rightarrow> adaptation_event \<Rightarrow> adaptation_event \<Rightarrow> (adaptation_state \<times> string list) gov" where
  "expected_result R x p e =
     (if terminal (ae_state p) then Inl (ValueError ''terminal_adaptation_state'')
      else (case (ae_action e, ae_superseded_by e) of
        (ASupersede, Some (c # cs)) \<Rightarrow>
          if c # cs = cd_candidate_id x then Inl (ValueError ''self_supersession'')
          else Inr (ADAPTATION_SUPERSEDED, [''replacement_candidate_recorded''])
      | _ \<Rightarrow>
          bindE (gates R x (ae_recorded_at e)) (\<lambda>reasons.
          (case (ae_action e, ae_review_action e) of
             (AReview, Some a) \<Rightarrow> expected_review x p reasons a e
           | (ARequestReview, _) \<Rightarrow>
               if ae_state p = REVIEW_REQUIRED then Inl (ValueError ''review_already_pending'')
               else Inr (REVIEW_REQUIRED, or_else reasons ''explicit_human_review_requested'')
           | (AEvaluate, _) \<Rightarrow>
               if ae_state p = REVIEW_REQUIRED then Inl (ValueError ''pending_review_requires_disposition'')
               else Inr (evaluated_state (review_needed x) reasons,
                 or_else reasons (if review_needed x then ''human_review_required'' else ''software_eligible_only''))
           | _ \<Rightarrow> Inl (ValueError ''adaptation_action_mismatch'')))))"

definition metadata_checks :: "adaptation_event \<Rightarrow> (bool \<times> string) list" where
  "metadata_checks e = [
     (ae_action e \<noteq> ASupersede \<and> ae_superseded_by e \<notin> {None, Some []}, ''unexpected_supersession''),
     (ae_action e \<noteq> AReview \<and> ae_review_action e \<noteq> None, ''unexpected_review''),
     (ae_review_action e = None \<and> (ae_reviewer e \<noteq> None \<or> ae_review_request_id e \<notin> {None, Some []}
        \<or> ae_rationale e \<notin> {None, Some []}), ''review_metadata_without_disposition'')]"

definition replay_event ::
  "runtime \<Rightarrow> candidate \<Rightarrow> adaptation_event option \<Rightarrow> adaptation_event \<Rightarrow> unit gov" where
  "replay_event R x previous e =
     bindE (reject_first [(\<not> same_chain x previous e, ''adaptation_history_chain_mismatch''),
       (\<not> not_before x previous e, ''adaptation_history_time_mismatch'')]) (\<lambda>_.
     bindE (case previous of
         None \<Rightarrow> if ae_action e \<noteq> APropose \<or> ae_recorded_at e \<noteq> cd_proposed_at x
                  then Inl (ValueError ''proposal_time_mismatch'')
                  else Inr (CANDIDATE_PROPOSED, [''inactive_candidate_recorded''])
       | Some p \<Rightarrow> expected_result R x p e) (\<lambda>(expected, reasons).
     reject_first (metadata_checks e
       @ [(ae_state e \<noteq> expected \<or> ae_reasons e \<noteq> reasons, ''adaptation_replay_mismatch'')])))"

fun replay_loop ::
  "runtime \<Rightarrow> candidate \<Rightarrow> adaptation_event option \<Rightarrow> adaptation_event list \<Rightarrow> adaptation_event option gov" where
  "replay_loop R x previous [] = Inr previous"
| "replay_loop R x previous (e # es) = bindE (replay_event R x previous e) (\<lambda>_. replay_loop R x (Some e) es)"

definition replay_adaptation :: "runtime \<Rightarrow> candidate \<Rightarrow> adaptation_event list \<Rightarrow> adaptation_state gov" where
  "replay_adaptation R x events =
     bindE (validate_candidate R x) (\<lambda>x.
     bindE (mapE (validate_event R) events) (\<lambda>es.
     bindE (replay_loop R x None es) (\<lambda>last_event.
     (case last_event of None \<Rightarrow> Inl (ValueError ''adaptation_history_required'') | Some e \<Rightarrow> Inr (ae_state e)))))"

subsection \<open>Reconstructing a constructed record\<close>

text \<open>
  A record that was constructed and can be constructed again from its dict is unchanged by that.
  (It may not be constructible again: the length bounds of a trajectory are checked before its
  validator removes repetitions.)
\<close>

definition stable :: "('a \<Rightarrow> ('e, 'a) res) \<Rightarrow> bool" where
  "stable f = (\<forall>x y z. f x = Inr y \<and> f y = Inr z \<longrightarrow> z = y)"

lemma stableI: "(\<And>x y z. f x = Inr y \<Longrightarrow> f y = Inr z \<Longrightarrow> z = y) \<Longrightarrow> stable f"
  by (auto simp: stable_def)

lemma stableD: "stable f \<Longrightarrow> f x = Inr y \<Longrightarrow> f y = Inr z \<Longrightarrow> z = y"
  by (auto simp: stable_def)

lemma stable_idem: "(\<And>x y. f x = Inr y \<Longrightarrow> f y = Inr y) \<Longrightarrow> stable f"
  by (fastforce simp: stable_def)

lemma stable_optE: "stable f \<Longrightarrow> stable (optE f)"
  by (auto simp: stable_def optE_def bindE_eq_Inr split: option.splits)

lemma stable_mapE: "stable f \<Longrightarrow> stable (mapE f)"
proof (rule stableI)
  fix xs ys zs
  assume f: "stable f" and "mapE f xs = Inr ys" and "mapE f ys = Inr zs"
  then show "zs = ys"
  proof (induction xs arbitrary: ys zs)
    case (Cons x xs)
    then obtain y ys' where y: "f x = Inr y" "mapE f xs = Inr ys'" "ys = y # ys'" by (auto simp: bindE_eq_Inr)
    with Cons.prems obtain z zs' where "f y = Inr z" "mapE f ys' = Inr zs'" "zs = z # zs'" by (auto simp: bindE_eq_Inr)
    with y Cons.IH f show ?case by (auto dest: stableD)
  qed simp
qed

lemma stable_trajectory: "stable validate_trajectory"
  by (rule stableI) (auto simp: validate_trajectory_def bindE_eq_Inr Let_def split: if_splits)

lemma validate_maturity_form:
  assumes "validate_maturity R m = Inr n"
  obtains t b where "optE validate_trajectory (mt_trajectory m) = Inr t"
    "optE (validate_basis R) (mt_context_basis m) = Inr b"
    "n = m\<lparr>mt_trajectory := t, mt_context_basis := b,
       mt_evaluation_id := content_id R ''maturity-evaluation''
         (JObj (maturity_body (m\<lparr>mt_trajectory := t, mt_context_basis := b\<rparr>)))\<rparr>"
proof -
  from assms show thesis
    unfolding validate_maturity_def Let_def chain_simps validate_identity_Inr sum.inject
  proof (elim exE conjE)
    fix u p t b i
    assume p: "validate_persistence (mt_persistence m) = Inr p"
      and t: "optE validate_trajectory (mt_trajectory m) = Inr t"
      and b: "optE (validate_basis R) (mt_context_basis m) = Inr b"
      and i: "i = content_id R ''maturity-evaluation''
         (JObj (maturity_body (m\<lparr>mt_persistence := p, mt_trajectory := t, mt_context_basis := b\<rparr>)))"
      and n: "m\<lparr>mt_persistence := p, mt_trajectory := t, mt_context_basis := b, mt_evaluation_id := i\<rparr> = n"
    have "m\<lparr>mt_persistence := p\<rparr> = m"
      using p by (auto simp: validate_persistence_def bindE_eq_Inr)
    with i n have "n = m\<lparr>mt_trajectory := t, mt_context_basis := b,
       mt_evaluation_id := content_id R ''maturity-evaluation''
         (JObj (maturity_body (m\<lparr>mt_trajectory := t, mt_context_basis := b\<rparr>)))\<rparr>" by simp
    with that t b show thesis by blast
  qed
qed

lemma stable_maturity: "stable (validate_maturity R)"
proof (rule stableI)
  fix m n k
  assume n: "validate_maturity R m = Inr n" and k: "validate_maturity R n = Inr k"
  from n obtain t b where t: "optE validate_trajectory (mt_trajectory m) = Inr t"
    "optE (validate_basis R) (mt_context_basis m) = Inr b"
    and n': "n = m\<lparr>mt_trajectory := t, mt_context_basis := b,
       mt_evaluation_id := content_id R ''maturity-evaluation''
         (JObj (maturity_body (m\<lparr>mt_trajectory := t, mt_context_basis := b\<rparr>)))\<rparr>" by (rule validate_maturity_form)
  from k obtain t' b' where t': "optE validate_trajectory (mt_trajectory n) = Inr t'"
    "optE (validate_basis R) (mt_context_basis n) = Inr b'"
    and k': "k = n\<lparr>mt_trajectory := t', mt_context_basis := b',
       mt_evaluation_id := content_id R ''maturity-evaluation''
         (JObj (maturity_body (n\<lparr>mt_trajectory := t', mt_context_basis := b'\<rparr>)))\<rparr>" by (rule validate_maturity_form)
  have "t' = t" using stableD [OF stable_optE [OF stable_trajectory] t(1)] t'(1) by (simp add: n')
  moreover have "b' = b"
    using stableD [OF stable_optE [OF stable_idem] t(2)] t'(2) validate_basis_idem by (simp add: n')
  ultimately show "k = n" by (simp add: k' n' maturity_body_def)
qed

lemma stable_snapshot: "stable (validate_snapshot R)"
  by (rule stableI) (auto simp: validate_snapshot_def bindE_eq_Inr validate_identity_Inr snapshot_body_def)

lemma stable_v2_basis: "stable (parse_v2_basis R)"
proof (rule stableI)
  fix v w u
  assume "parse_v2_basis R v = Inr w" and "parse_v2_basis R w = Inr u"
  then obtain c p e c' p' e' where 1: "validate_basis R (vb_context v) = Inr c" "validate_policy R (vb_policy v) = Inr p"
      "validate_evaluation R (vb_evaluation v) = Inr e" and w: "w = v\<lparr>vb_context := c, vb_policy := p, vb_evaluation := e\<rparr>"
    and 2: "validate_basis R (vb_context w) = Inr c'" "validate_policy R (vb_policy w) = Inr p'"
      "validate_evaluation R (vb_evaluation w) = Inr e'" and u: "u = w\<lparr>vb_context := c', vb_policy := p', vb_evaluation := e'\<rparr>"
    unfolding parse_v2_basis_def chain_simps sum.inject by (elim exE conjE) blast
  have "stable (validate_evaluation R)"
    by (rule stableI) (auto simp: validate_evaluation_def bindE_eq_Inr validate_identity_Inr evaluation_body_def)
  with 1(3) 2(3) w have "e' = e" by (auto dest: stableD)
  moreover have "c' = c" "p' = p" using validate_basis_idem [OF 1(1)] validate_policy_idem [OF 1(2)] 2(1,2) w by simp_all
  ultimately show "u = w" by (simp add: u w)
qed

lemma stable_basis: "stable (parse_basis R)"
proof (rule stableI)
  fix a b c :: decision_basis
  assume "parse_basis R a = Inr b" and "parse_basis R b = Inr c"
  then obtain g m l ss v g' m' l' ss' v' where
    1: "validate_graph R (bs_graph a) = Inr g" "validate_maturity R (bs_maturity a) = Inr m"
      "validate_lifecycle_event (bs_lifecycle a) = Inr l" "mapE (validate_snapshot R) (bs_snapshots a) = Inr ss"
      "optE (parse_v2_basis R) (bs_v2 a) = Inr v"
    and b: "b = \<lparr>bs_graph = g, bs_maturity = m, bs_lifecycle = l, bs_snapshots = ss, bs_v2 = v\<rparr>"
    and 2: "validate_graph R (bs_graph b) = Inr g'" "validate_maturity R (bs_maturity b) = Inr m'"
      "validate_lifecycle_event (bs_lifecycle b) = Inr l'" "mapE (validate_snapshot R) (bs_snapshots b) = Inr ss'"
      "optE (parse_v2_basis R) (bs_v2 b) = Inr v'"
    and c: "c = \<lparr>bs_graph = g', bs_maturity = m', bs_lifecycle = l', bs_snapshots = ss', bs_v2 = v'\<rparr>"
    unfolding parse_basis_def chain_simps sum.inject by (elim exE conjE) blast
  have "g' = g" using validate_graph_idem [OF 1(1)] 2(1) b by simp
  moreover have "m' = m" using stableD [OF stable_maturity 1(2)] 2(2) b by simp
  moreover have "l' = l" using 2(3) b by (auto simp: validate_lifecycle_event_def bindE_eq_Inr)
  moreover have "ss' = ss" using stableD [OF stable_mapE [OF stable_snapshot] 1(4)] 2(4) b by simp
  moreover have "v' = v" using stableD [OF stable_optE [OF stable_v2_basis] 1(5)] 2(5) b by simp
  ultimately show "c = b" by (simp add: b c)
qed

lemma parse_decision_Inr:
  assumes "parse_decision R a = Inr b"
  shows "b = a\<lparr>dc_core := (dc_core a)\<lparr>decision_id := content_id R ''authority-decision'' (JObj (decision_body a))\<rparr>\<rparr>"
proof -
  have r: "review_outcome x = Inr y \<Longrightarrow> y = x" for x y :: authority_decision
    by (auto simp: review_outcome_def split: if_splits)
  from assms show ?thesis unfolding parse_decision_def chain_simps sum.inject validate_identity_Inr
    by (elim exE conjE) (drule r, simp)
qed

lemma decision_body_id: "decision_body (a\<lparr>dc_core := (dc_core a)\<lparr>decision_id := i\<rparr>\<rparr>) = decision_body a"
  by (cases "dc_v2 a") (simp_all add: decision_body_def decision_body_v1_def)

lemma stable_decision: "stable (parse_decision R)"
proof (rule stableI)
  fix a b c :: decision
  assume "parse_decision R a = Inr b" and "parse_decision R b = Inr c"
  note b = parse_decision_Inr [OF this(1)] and c = parse_decision_Inr [OF this(2)]
  have "decision_body b = decision_body a" unfolding b by (rule decision_body_id)
  then have "c = b\<lparr>dc_core := (dc_core b)\<lparr>decision_id := content_id R ''authority-decision'' (JObj (decision_body a))\<rparr>\<rparr>"
    using c by simp
  then show "c = b" by (simp add: b)
qed

lemma validate_transition_Inr:
  assumes "validate_transition R x = Inr y"
  obtains d b where "parse_decision R (tr_decision x) = Inr d" "parse_basis R (tr_basis x) = Inr b"
    "y = x\<lparr>tr_decision := d, tr_basis := b, tr_transition_id := content_id R ''inactive-adaptation-transition-v1''
       (JObj (transition_body (x\<lparr>tr_decision := d, tr_basis := b\<rparr>)))\<rparr>"
    "inactive_transition R y = Inr ()" "bs_v2 b \<noteq> None"
proof -
  from assms show thesis unfolding validate_transition_def Let_def chain_simps sum.inject validate_identity_Inr
  proof (elim exE conjE)
    fix u d b i w
    assume f: "check_fields (transition_fields x) = Inr u"
      and d: "parse_decision R (tr_decision x) = Inr d" and b: "parse_basis R (tr_basis x) = Inr b"
      and i: "i = content_id R ''inactive-adaptation-transition-v1'' (JObj (transition_body (x\<lparr>tr_decision := d, tr_basis := b\<rparr>)))"
      and t: "inactive_transition R (x\<lparr>tr_decision := d, tr_basis := b\<rparr>) = Inr w"
      and y: "x\<lparr>tr_decision := d, tr_basis := b, tr_transition_id := i\<rparr> = y"
    have "inactive_transition R y = Inr ()" using t by (simp add: inactive_transition_def y [symmetric])
    moreover have "bs_v2 (tr_basis x) \<noteq> None" using f by (simp add: transition_fields_def split: if_splits)
    then have "bs_v2 b \<noteq> None" using b parse_basis_v2 by (metis not_None_eq)
    ultimately show thesis using that [OF d b] i y by blast
  qed
qed

lemma stable_transition: "stable (validate_transition R)"
proof (rule stableI)
  fix x y z
  assume y: "validate_transition R x = Inr y" and z: "validate_transition R y = Inr z"
  from y obtain d b where 1: "parse_decision R (tr_decision x) = Inr d" "parse_basis R (tr_basis x) = Inr b"
    and y': "y = x\<lparr>tr_decision := d, tr_basis := b, tr_transition_id := content_id R ''inactive-adaptation-transition-v1''
       (JObj (transition_body (x\<lparr>tr_decision := d, tr_basis := b\<rparr>)))\<rparr>" by (rule validate_transition_Inr)
  from z obtain d' b' where 2: "parse_decision R (tr_decision y) = Inr d'" "parse_basis R (tr_basis y) = Inr b'"
    and z': "z = y\<lparr>tr_decision := d', tr_basis := b', tr_transition_id := content_id R ''inactive-adaptation-transition-v1''
       (JObj (transition_body (y\<lparr>tr_decision := d', tr_basis := b'\<rparr>)))\<rparr>" by (rule validate_transition_Inr)
  have "d' = d" "b' = b"
    using stableD [OF stable_decision 1(1)] stableD [OF stable_basis 1(2)] 2 by (simp_all add: y')
  then show "z = y" by (simp add: y' z' transition_body_def)
qed

lemma validate_candidate_Inr:
  assumes "validate_candidate R x = Inr y"
  obtains tr where "validate_transition R (cd_transition x) = Inr tr"
    "y = x\<lparr>cd_transition := tr, cd_candidate_id := content_id R ''adaptation-candidate-v1''
       (JObj (candidate_body (x\<lparr>cd_transition := tr\<rparr>)))\<rparr>"
  using assms unfolding validate_candidate_def Let_def chain_simps sum.inject validate_identity_Inr
  by (elim exE conjE) blast

lemma stable_candidate: "stable (validate_candidate R)"
proof (rule stableI)
  fix x y z
  assume "validate_candidate R x = Inr y" and "validate_candidate R y = Inr z"
  from validate_candidate_Inr [OF this(1)] validate_candidate_Inr [OF this(2)] obtain t u where
    t: "validate_transition R (cd_transition x) = Inr t" "validate_transition R (cd_transition y) = Inr u"
    and y: "y = x\<lparr>cd_transition := t, cd_candidate_id := content_id R ''adaptation-candidate-v1''
       (JObj (candidate_body (x\<lparr>cd_transition := t\<rparr>)))\<rparr>"
    and z: "z = y\<lparr>cd_transition := u, cd_candidate_id := content_id R ''adaptation-candidate-v1''
       (JObj (candidate_body (y\<lparr>cd_transition := u\<rparr>)))\<rparr>" by metis
  have "u = t" using stableD [OF stable_transition t(1)] t(2) by (simp add: y)
  then show "z = y" by (simp add: y z candidate_body_def)
qed

lemma validate_event_Inr:
  "validate_event R e = Inr e' \<Longrightarrow> e' = e\<lparr>ae_event_id := content_id R ''adaptation-event-v1'' (JObj (event_body e))\<rparr>
     \<and> check_fields (event_fields e) = Inr ()"
  by (auto simp: validate_event_def bindE_eq_Inr validate_identity_Inr)

lemma event_simps [simp]:
  "event_body (e\<lparr>ae_event_id := i\<rparr>) = event_body e" "event_fields (e\<lparr>ae_event_id := i\<rparr>) = event_fields e"
  by (simp_all add: event_body_def event_fields_def)

lemma validate_event_idem: "validate_event R e = Inr e' \<Longrightarrow> validate_event R e' = Inr e'"
  by (drule validate_event_Inr) (simp add: validate_event_def validate_identity_Inr bindE_eq_Inr)

subsection \<open>The gates never open\<close>

lemma candidate_operation:
  assumes "validate_candidate R x = Inr x"
  shows "ad_requested_operation (cd_decision x) \<in> set ADAPTATION_OPERATIONS"
proof -
  from validate_candidate_Inr [OF assms] obtain tr where t: "validate_transition R (cd_transition x) = Inr tr"
    and x: "x = x\<lparr>cd_transition := tr, cd_candidate_id := content_id R ''adaptation-candidate-v1''
       (JObj (candidate_body (x\<lparr>cd_transition := tr\<rparr>)))\<rparr>" .
  from arg_cong [OF x, of cd_transition] have "cd_transition x = tr" by simp
  with t obtain "inactive_transition R (cd_transition x) = Inr ()" by (auto elim: validate_transition_Inr)
  then show ?thesis unfolding inactive_transition_def Let_def chain_simps reject_first_Inr
    by (simp add: cd_decision_def)
qed

lemma gates_closed:
  assumes "validate_candidate R x = Inr x" and "gates R x t = Inr reasons"
  obtains s where "s \<noteq> Absent"
    "''safety:excessive_evolution_rate:'' @ status_value s \<in> set reasons"
proof -
  from assms(2) obtain v where v: "bs_v2 (tr_basis (cd_transition x)) = Some v"
    by (auto simp: gates_def Let_def split: option.splits)
  with assms(2) obtain e where e: "evaluate_policy R (vb_policy v) (bs_graph (tr_basis (cd_transition x)))
      (bs_maturity (tr_basis (cd_transition x))) (lc_state (bs_lifecycle (tr_basis (cd_transition x)))) (vb_context v)
      (ad_requested_operation (cd_decision x)) t = Inr e"
    by (auto simp: gates_def Let_def bindE_eq_Inr)
  with assms(2) v obtain c where c: "pe_classification e = Some c"
    by (auto simp: gates_def Let_def split: option.splits)
  with assms(2) v e have r: "reasons = gate_reasons e c (lc_state (bs_lifecycle (tr_basis (cd_transition x))))"
    by (simp add: gates_def Let_def)
  from adaptation_outcome [OF e candidate_operation [OF assms(1)]] c obtain a where
    "a \<in> set (tc_assessments c)" "ca_condition a = EXCESSIVE_EVOLUTION_RATE" "ca_status a \<noteq> Absent"
    by (metis option.inject)
  moreover from this r have "safety_reason a \<in> set reasons" by (simp add: gate_reasons_def expected_status_def)
  ultimately show thesis using that [of "ca_status a"] by (simp add: safety_reason_def)
qed

lemma gates_nonempty: "validate_candidate R x = Inr x \<Longrightarrow> gates R x t = Inr reasons \<Longrightarrow> reasons \<noteq> []"
  by (metis gates_closed empty_iff list.set(1))

subsection \<open>What the workflow keeps\<close>

definition no_grant :: "adaptation_event \<Rightarrow> bool" where
  "no_grant e = (ae_state e \<noteq> APPROVED \<and> ae_state e \<noteq> APPLIED)"

definition row_ok :: "runtime \<Rightarrow> auth_scope \<Rightarrow> string \<Rightarrow> row \<Rightarrow> bool" where
  "row_ok R scope system r = (validate_candidate R (rw_candidate r) = Inr (rw_candidate r)
     \<and> rw_events r \<noteq> [] \<and> (\<forall>e \<in> set (rw_events r). validate_event R e = Inr e \<and> no_grant e)
     \<and> replay_loop R (rw_candidate r) None (rw_events r) = Inr (Some (last (rw_events r))))"

definition rows_ok :: "runtime \<Rightarrow> auth_scope \<Rightarrow> string \<Rightarrow> row list \<Rightarrow> bool" where
  "rows_ok R scope system rs \<longleftrightarrow> distinct (map (\<lambda>r. cd_candidate_id (rw_candidate r)) rs)
     \<and> (\<forall>r \<in> set rs. row_ok R scope system r)"

definition workflow_ok :: "runtime \<Rightarrow> workflow_store \<Rightarrow> bool" where
  "workflow_ok R s = (\<forall>k l. gs_adaptations s k = Some l \<longrightarrow> rows_ok R (lg_scope l) (lg_system l) (lg_records l))"

lemma replay_loop_append:
  "replay_loop R x p (es @ fs) = bindE (replay_loop R x p es) (\<lambda>q. replay_loop R x q fs)"
  by (induction es arbitrary: p) (auto simp: bindE_def split: sum.splits)

lemma find_row_None: "find_row rs i = None \<longleftrightarrow> i \<notin> (\<lambda>r. cd_candidate_id (rw_candidate r)) ` set rs"
  by (auto simp: find_row_def next_or_None)

lemma find_row_Some: "find_row rs i = Some r \<Longrightarrow> r \<in> set rs \<and> cd_candidate_id (rw_candidate r) = i"
  by (auto simp: find_row_def dest: next_or_Some)

lemma append_event_ids:
  "map (\<lambda>r. cd_candidate_id (rw_candidate r)) (append_event rs i e) = map (\<lambda>r. cd_candidate_id (rw_candidate r)) rs"
  by (induction rs) auto

lemma append_event_set:
  "find_row rs i = Some r \<Longrightarrow> set (append_event rs i e) \<subseteq> insert (r\<lparr>rw_events := rw_events r @ [e]\<rparr>) (set rs)"
  by (induction rs) (auto simp: find_row_def split: if_splits)

lemma rows_opened:
  assumes "workflow_ok R s" and "open_ledger (gs_adaptations s key) scope system = Inr l"
  shows "rows_ok R scope system (lg_records l)"
proof (cases "gs_adaptations s key")
  case None
  with assms(2) show ?thesis by (auto simp: rows_ok_def)
next
  case (Some l0)
  with assms(2) have "open_ledger (Some l0) scope system = Inr l" by simp
  then have "l = l0" by (rule open_ledger_Some)
  with assms(1) Some open_ledger_header [OF assms(2)] show ?thesis unfolding workflow_ok_def by metis
qed

lemma workflow_ok_upd:
  assumes "workflow_ok R s" and "open_ledger raw scope system = Inr l" and "rows_ok R scope system rs"
  shows "workflow_ok R (s\<lparr>gs_adaptations := (gs_adaptations s)(key \<mapsto> l\<lparr>lg_records := rs\<rparr>)\<rparr>)"
  using assms(1,3) open_ledger_header [OF assms(2)] by (auto simp: workflow_ok_def)

lemma propose_keeps:
  assumes p: "propose R scope system tr pv t s = Inr (s', y)" and ok: "workflow_ok R s"
  shows "workflow_ok R s'"
proof -
  from p obtain tr' key l x l' where l: "open_ledger (gs_adaptations s key) scope system = Inr l"
    and x: "validate_candidate R \<lparr>cd_candidate_id = [], cd_proposed_at = t, cd_provenance = pv, cd_transition = tr'\<rparr> = Inr x"
    and l': "(if find_row (lg_records l) (cd_candidate_id x) \<noteq> None then Inr l
            else bindE (current_basis R scope system x (cd_proposed_at x) s) (\<lambda>_.
                 bindE (validate_event R (proposed_event x)) (\<lambda>e.
                 Inr (l\<lparr>lg_records := lg_records l @ [\<lparr>rw_candidate = x, rw_events = [e]\<rparr>]\<rparr>)))) = Inr l'"
    and y: "validate_candidate R x = Inr y" and s': "s' = s\<lparr>gs_adaptations := (gs_adaptations s)(key \<mapsto> l')\<rparr>"
    unfolding propose_def chain_simps sum.inject prod.inject by (elim exE conjE) blast
  have xx: "validate_candidate R x = Inr x" using stableD [OF stable_candidate x y] y by simp
  note rs = rows_opened [OF ok l]
  show ?thesis
  proof (cases "find_row (lg_records l) (cd_candidate_id x)")
    case (Some r)
    with l' have "l' = l\<lparr>lg_records := lg_records l\<rparr>" by simp
    with workflow_ok_upd [OF ok l rs] show ?thesis by (simp add: s')
  next
    case None
    with l' obtain e where e: "validate_event R (proposed_event x) = Inr e"
      and l'': "l' = l\<lparr>lg_records := lg_records l @ [\<lparr>rw_candidate = x, rw_events = [e]\<rparr>]\<rparr>"
      by (auto simp: bindE_eq_Inr)
    have e': "e = (proposed_event x)\<lparr>ae_event_id := ae_event_id e\<rparr>"
      using validate_event_Inr [OF e] by simp
    have "replay_event R x None e = Inr ()"
      by (subst e') (simp add: replay_event_def proposed_event_def same_chain_def not_before_def metadata_checks_def)
    moreover have "no_grant e" by (subst e') (simp add: no_grant_def proposed_event_def)
    ultimately have "row_ok R scope system \<lparr>rw_candidate = x, rw_events = [e]\<rparr>"
      using xx validate_event_idem [OF e] by (simp add: row_ok_def)
    with rs None have "rows_ok R scope system (lg_records l @ [\<lparr>rw_candidate = x, rw_events = [e]\<rparr>])"
      by (auto simp: rows_ok_def find_row_None)
    from workflow_ok_upd [OF ok l this] show ?thesis by (simp add: s' l'')
  qed
qed

lemma current_basis_Inr:
  assumes "current_basis R scope system x t s = Inr reasons"
  shows "gates R x t = Inr reasons"
    and "map_option vd_scope (dc_v2 (tr_decision (cd_transition x))) = Some scope"
    and "ad_system_scope (cd_decision x) = system"
    and "\<exists>es. decision_entries R scope system s = Inr es
      \<and> \<lparr>en_decision = tr_decision (cd_transition x), en_basis = tr_basis (cd_transition x)\<rparr> \<in> set es"
proof -
  from assms obtain key l sel where k: "store_key R scope system = Inr key"
    "open_ledger (gs_decisions s key) scope system = Inr l"
    and h: "\<not> (map_option vd_scope (dc_v2 (tr_decision (cd_transition x))) \<noteq> Some scope
        \<or> ad_system_scope (dc_core (tr_decision (cd_transition x))) \<noteq> system)"
    "\<not> \<lparr>en_decision = tr_decision (cd_transition x), en_basis = tr_basis (cd_transition x)\<rparr> \<notin> set (lg_records l)"
    and r: "(case sel of (contexts, p) \<Rightarrow>
      if map_option (\<lambda>v. (cb_records (vb_context v), vb_policy v)) (bs_v2 (tr_basis (cd_transition x))) \<noteq> Some (contexts, p)
      then Inl (AuthorityRecordConflict ''stale_policy_or_context'')
      else gates R x t) = Inr reasons"
    unfolding current_basis_def Let_def chain_simps by (elim exE conjE) blast
  from r show "gates R x t = Inr reasons" by (simp split: prod.splits if_splits)
  from h(1) show "map_option vd_scope (dc_v2 (tr_decision (cd_transition x))) = Some scope"
    and "ad_system_scope (cd_decision x) = system" by (simp_all add: cd_decision_def)
  from k h(2) show "\<exists>es. decision_entries R scope system s = Inr es
      \<and> \<lparr>en_decision = tr_decision (cd_transition x), en_basis = tr_basis (cd_transition x)\<rparr> \<in> set es"
    by (simp add: decision_entries_def)
qed

lemma replay_event_id: "replay_event R x p (e\<lparr>ae_event_id := i\<rparr>) = replay_event R x p e"
proof (cases e)
  case e: fields
  show ?thesis
    unfolding e replay_event_def same_chain_def not_before_def expected_result_def expected_review_def
      metadata_checks_def adaptation_event.update_convs adaptation_event.select_convs ..
qed

text \<open>The event of an admitted advance is the one replay expects after the prior event.\<close>

lemma advance_event_replays:
  assumes a: "advance_event R scope system authenticate q t s rs cid x prior = Inr e0"
    and x: "validate_candidate R x = Inr x" "cd_candidate_id x = cid"
    and p: "\<not> terminal (ae_state prior)" "\<not> t < ae_recorded_at prior"
    and e: "validate_event R e0 = Inr e"
  shows "replay_event R x (Some prior) e = Inr ()" and "no_grant e"
proof -
  have ee: "e = e0\<lparr>ae_event_id := ae_event_id e\<rparr>" using validate_event_Inr [OF e] by simp
  have rep: "replay_event R x (Some prior) e0 = Inr () \<and> no_grant e0"
  proof (cases "rq_action q = ASupersede")
    case True
    from a True obtain i r where i: "rq_superseded_by q = Some i" "i \<noteq> cid" "find_row rs i = Some r"
      and e0: "e0 = \<lparr>ae_event_id = [], ae_candidate_id = cid, ae_action = ASupersede,
           ae_previous_event_id = Some (ae_event_id prior), ae_recorded_at = t, ae_state = ADAPTATION_SUPERSEDED,
           ae_reasons = [''replacement_candidate_recorded''], ae_review_request_id = None, ae_review_action = None,
           ae_reviewer = None, ae_rationale = None, ae_superseded_by = Some i\<rparr>"
      by (auto simp: advance_event_def supersede_event_def Let_def bindE_eq_Inr split: option.splits if_splits)
    have "check_fields (event_fields e0) = Inr ()" using validate_event_Inr [OF e] by simp
    then have "i \<noteq> []" by (auto simp: e0 event_fields_def text_opt_ok_def text_ok_def split: if_splits)
    then obtain c cs where "i = c # cs" by (cases i) auto
    with i(2) p x(2) show ?thesis
      by (simp add: e0 replay_event_def same_chain_def not_before_def expected_result_def metadata_checks_def no_grant_def)
  next
    case False
    with a obtain reasons where cb: "current_basis R scope system x t s = Inr reasons"
      by (auto simp: advance_event_def Let_def bindE_eq_Inr)
    note g = current_basis_Inr [OF cb]
    have ne: "reasons \<noteq> []" by (rule gates_nonempty [OF x(1) g(1)])
    show ?thesis
    proof (cases "rq_action q")
      case APropose
      with a cb show ?thesis by (simp add: advance_event_def)
    next
      case AEvaluate
      with a cb p x(2) g(1) ne show ?thesis
        by (auto simp: advance_event_def replay_event_def same_chain_def not_before_def expected_result_def
          metadata_checks_def no_grant_def evaluated_state_def split: if_splits)
    next
      case ARequestReview
      with a cb p x(2) g(1) ne show ?thesis
        by (auto simp: advance_event_def replay_event_def same_chain_def not_before_def expected_result_def
          metadata_checks_def no_grant_def split: if_splits)
    next
      case AReview
      with a cb obtain rv ra c cs where rv: "rv_scope rv = scope" "rv_system_scope rv = system"
        and pr: "ae_state prior = REVIEW_REQUIRED"
        and e0: "e0 = \<lparr>ae_event_id = [], ae_candidate_id = cid, ae_action = AReview,
           ae_previous_event_id = Some (ae_event_id prior), ae_recorded_at = t, ae_state = disposed_state ra reasons,
           ae_reasons = or_else reasons ''human_review_completed'', ae_review_request_id = Some (ae_event_id prior),
           ae_review_action = Some ra, ae_reviewer = Some rv, ae_rationale = Some (c # cs), ae_superseded_by = None\<rparr>"
        by (auto simp: advance_event_def review_event_def Let_def bindE_eq_Inr split: option.splits if_splits list.splits)
      have "no_grant e0" using ne by (cases ra) (simp_all add: e0 no_grant_def disposed_state_def)
      with rv pr g p x(2) show ?thesis
        by (auto simp: e0 replay_event_def same_chain_def not_before_def expected_result_def expected_review_def
          metadata_checks_def cd_decision_def Let_def)
    next
      case ASupersede
      with False show ?thesis by simp
    qed
  qed
  from rep ee show "replay_event R x (Some prior) e = Inr ()" by (metis replay_event_id)
  from rep show "no_grant e" by (subst ee) (simp add: no_grant_def)
qed

lemma advance_keeps:
  assumes a: "advance R scope system authenticate cid expected q t s = Inr (s', e')" and ok: "workflow_ok R s"
  shows "workflow_ok R s'"
proof -
  from a obtain key' l' r' x' prior e0 e where
    l': "open_ledger (gs_adaptations s key') scope system = Inr l'" and r': "find_row (lg_records l') cid = Some r'"
    and x': "validate_candidate R (rw_candidate r') = Inr x'" and p': "validate_event R (last (rw_events r')) = Inr prior"
    and t: "\<not> t < ae_recorded_at prior" "\<not> terminal (ae_state prior)"
    and e0: "advance_event R scope system authenticate q t s (lg_records l') cid x' prior = Inr e0"
    and e: "validate_event R e0 = Inr e"
    and s': "s' = s\<lparr>gs_adaptations := (gs_adaptations s)(key' \<mapsto> l'\<lparr>lg_records := append_event (lg_records l') cid e\<rparr>)\<rparr>"
    unfolding advance_def chain_simps sum.inject prod.inject
    by (elim exE conjE) (auto simp: bindE_eq_Inr split: option.splits if_splits)
  note rs = rows_opened [OF ok l']
  from r' rs have R: "row_ok R scope system r'" and m: "r' \<in> set (lg_records l')"
    and cid: "cd_candidate_id (rw_candidate r') = cid"
    using find_row_Some by (auto simp: rows_ok_def)
  from R x' p' have xx: "x' = rw_candidate r'" and pp: "prior = last (rw_events r')"
    by (auto simp: row_ok_def)
  have x: "validate_candidate R (rw_candidate r') = Inr (rw_candidate r')" using R by (simp add: row_ok_def)
  note E = advance_event_replays [OF e0 [unfolded xx] x cid t(2,1) e]
  have "row_ok R scope system (r'\<lparr>rw_events := rw_events r' @ [e]\<rparr>)"
    using R E validate_event_idem [OF e] by (auto simp: row_ok_def replay_loop_append pp)
  then have "rows_ok R scope system (append_event (lg_records l') cid e)"
    using rs append_event_set [OF r', of e] unfolding rows_ok_def append_event_ids by blast
  from workflow_ok_upd [OF ok l' this] show ?thesis by (simp add: s')
qed

subsection \<open>The workflow as a whole\<close>

datatype 'c workflow_op =
    StoreOp store_op
  | Propose auth_scope string transition provenance timestamp
  | Advance auth_scope string "'c authenticator option" string string "'c advance_request" timestamp

text \<open>The operations of the authority store on the part of the state they own.\<close>

definition store_part :: "workflow_store \<Rightarrow> gov_store" where
  "store_part s = \<lparr>gs_decisions = gs_decisions s, gs_contexts = gs_contexts s, gs_policies = gs_policies s\<rparr>"

fun workflow_step :: "runtime \<Rightarrow> 'c workflow_op \<Rightarrow> workflow_store \<Rightarrow> workflow_store gov" where
  "workflow_step R (StoreOp op) s = bindE (store_step R op (store_part s)) (\<lambda>g.
     Inr (s\<lparr>gs_decisions := gs_decisions g, gs_contexts := gs_contexts g, gs_policies := gs_policies g\<rparr>))"
| "workflow_step R (Propose scope system tr pv t) s = bindE (propose R scope system tr pv t s) (\<lambda>(s', _). Inr s')"
| "workflow_step R (Advance scope system authenticate cid expected q t) s =
     bindE (advance R scope system authenticate cid expected q t s) (\<lambda>(s', _). Inr s')"

definition empty_workflow :: workflow_store where
  "empty_workflow = \<lparr>gs_decisions = (\<lambda>_. None), gs_contexts = (\<lambda>_. None), gs_policies = (\<lambda>_. None),
     gs_adaptations = (\<lambda>_. None)\<rparr>"

inductive workflows :: "runtime \<Rightarrow> workflow_store \<Rightarrow> bool" for R :: runtime where
  initial: "workflows R empty_workflow"
| step: "workflows R s \<Longrightarrow> workflow_step R (op :: nat workflow_op) s = Inr s' \<Longrightarrow> workflows R s'"

lemma workflow_step_keeps:
  assumes "workflow_step R op s = Inr s'" and "workflow_ok R s"
  shows "workflow_ok R s'"
proof (cases op)
  case (StoreOp o1)
  with assms show ?thesis by (auto simp: bindE_eq_Inr workflow_ok_def)
next
  case (Propose scope system tr pv t)
  with assms(1) obtain y where "propose R scope system tr pv t s = Inr (s', y)" by (auto simp: bindE_eq_Inr)
  then show ?thesis using assms(2) by (rule propose_keeps)
next
  case (Advance scope system authenticate cid expected q t)
  with assms(1) obtain e where "advance R scope system authenticate cid expected q t s = Inr (s', e)"
    by (auto simp: bindE_eq_Inr)
  then show ?thesis using assms(2) by (rule advance_keeps)
qed

lemma workflows_ok: "workflows R s \<Longrightarrow> workflow_ok R s"
proof (induction rule: workflows.induct)
  case initial
  show ?case by (simp add: workflow_ok_def empty_workflow_def)
next
  case (step s op s')
  show ?case by (rule workflow_step_keeps [OF step.hyps(2) step.IH])
qed

lemma workflow_history_rows:
  assumes "workflow_ok R s" and "workflow_history R scope system s = Inr rs"
  shows "rows_ok R scope system rs"
proof -
  from assms(2) obtain key l where l: "open_ledger (gs_adaptations s key) scope system = Inr l"
    and m: "mapE (validate_row R) (lg_records l) = Inr rs" by (auto simp: workflow_history_def bindE_eq_Inr)
  note ok = rows_opened [OF assms(1) l]
  have "validate_row R r = Inr r" if "r \<in> set (lg_records l)" for r
  proof -
    have "mapE (validate_event R) (rw_events r) = Inr (rw_events r)"
      using ok that by (intro mapE_id) (auto simp: rows_ok_def row_ok_def)
    then show ?thesis using ok that by (auto simp: rows_ok_def row_ok_def validate_row_def)
  qed
  then have "mapE (validate_row R) (lg_records l) = Inr (lg_records l)" by (rule mapE_id)
  with m ok show ?thesis by simp
qed

text \<open>Replay stops at a terminal state, so such a state can only be the last of a history.\<close>

lemma replay_terminal:
  "replay_loop R x p es = Inr q \<Longrightarrow> (\<forall>e. p = Some e \<longrightarrow> terminal (ae_state e) \<longrightarrow> es = [])
     \<and> (\<forall>us e vs. es = us @ e # vs \<and> terminal (ae_state e) \<longrightarrow> vs = [])"
proof (induction es arbitrary: p)
  case (Cons e es)
  then have e: "replay_event R x p e = Inr ()" and es: "replay_loop R x (Some e) es = Inr q"
    by (auto simp: bindE_eq_Inr)
  from Cons.IH [OF es] have IH: "terminal (ae_state e) \<Longrightarrow> es = []"
    "\<And>us f vs. es = us @ f # vs \<Longrightarrow> terminal (ae_state f) \<Longrightarrow> vs = []" by auto
  have "\<not> terminal (ae_state f)" if "p = Some f" for f
    using e that by (auto simp: replay_event_def expected_result_def bindE_eq_Inr)
  moreover have "vs = []" if "e # es = us @ f # vs" "terminal (ae_state f)" for us f vs
    using that IH by (cases us) auto
  ultimately show ?case by blast
qed simp

lemma replay_event_chain: "replay_event R x p e = Inr u \<Longrightarrow> same_chain x p e \<and> not_before x p e"
  unfolding replay_event_def chain_simps reject_first_Inr by auto

lemma replay_chain:
  "replay_loop R x p es = Inr q \<Longrightarrow> es = us @ e # vs \<Longrightarrow>
     ae_candidate_id e = cd_candidate_id x
     \<and> ae_previous_event_id e = (if us = [] then map_option ae_event_id p else Some (ae_event_id (last us)))
     \<and> (if us = [] then (case p of None \<Rightarrow> cd_proposed_at x | Some f \<Rightarrow> ae_recorded_at f) else ae_recorded_at (last us))
         \<le> ae_recorded_at e"
proof (induction us arbitrary: es p)
  case Nil
  then have "replay_event R x p e = Inr ()" by (auto simp: bindE_eq_Inr)
  from replay_event_chain [OF this] show ?case by (simp add: same_chain_def not_before_def)
next
  case (Cons u us)
  then have "replay_loop R x (Some u) (us @ e # vs) = Inr q" by (auto simp: bindE_eq_Inr)
  from Cons.IH [OF this] show ?case by (auto split: if_splits)
qed

end
