(* ===== verification/Gov_Planning.thy ===== *)
theory Gov_Planning
  imports Gov_Adaptation
begin

text \<open>
  What the adaptation workflow guarantees: the abstract state machine its histories refine, the
  compare-and-append of an advance, a sample workflow and the properties.
\<close>

subsection \<open>The abstract state machine\<close>

text \<open>
  What the dispositions mean: an open candidate is proposed, deferred or waiting for a review; a
  review can only answer a pending request; rejection and supersession end the candidate. No action
  leads to an approval or an execution.
\<close>

inductive disposes :: "adaptation_state \<Rightarrow> adaptation_action \<Rightarrow> adaptation_state \<Rightarrow> bool" where
  evaluated: "s \<in> {CANDIDATE_PROPOSED, ADAPTATION_DEFERRED} \<Longrightarrow> disposes s AEvaluate ADAPTATION_DEFERRED"
| requested: "s \<in> {CANDIDATE_PROPOSED, ADAPTATION_DEFERRED} \<Longrightarrow> disposes s ARequestReview REVIEW_REQUIRED"
| reviewed: "s' \<in> {ADAPTATION_DEFERRED, REJECTED} \<Longrightarrow> disposes REVIEW_REQUIRED AReview s'"
| replaced: "s \<in> {CANDIDATE_PROPOSED, ADAPTATION_DEFERRED, REVIEW_REQUIRED} \<Longrightarrow>
    disposes s ASupersede ADAPTATION_SUPERSEDED"

inductive_cases disposes_from_rejected: "disposes REJECTED a s"
inductive_cases disposes_from_superseded: "disposes ADAPTATION_SUPERSEDED a s"
inductive_cases disposes_to_approved: "disposes s a APPROVED"
inductive_cases disposes_review: "disposes s AReview s'"

lemma open_state:
  "no_grant p \<Longrightarrow> \<not> terminal (ae_state p) \<Longrightarrow> ae_state p \<in> {CANDIDATE_PROPOSED, ADAPTATION_DEFERRED, REVIEW_REQUIRED}"
  by (cases "ae_state p") (auto simp: no_grant_def terminal_def)

lemma replay_event_expected:
  "replay_event R x (Some p) e = Inr u \<Longrightarrow> expected_result R x p e = Inr (ae_state e, ae_reasons e)"
  unfolding replay_event_def chain_simps
  by (elim exE conjE) (auto simp: reject_first_Inr simp del: reject_first.simps split: prod.splits)

lemma replay_event_disposes:
  assumes x: "validate_candidate R x = Inr x" and p: "no_grant p" and e: "replay_event R x (Some p) e = Inr u"
  shows "disposes (ae_state p) (ae_action e) (ae_state e)"
proof -
  from e have r: "expected_result R x p e = Inr (ae_state e, ae_reasons e)"
    by (rule replay_event_expected)
  then have nt: "\<not> terminal (ae_state p)" by (auto simp: expected_result_def)
  note os = open_state [OF p nt]
  show ?thesis
  proof (cases "ae_action e = ASupersede \<and> (\<exists>c cs. ae_superseded_by e = Some (c # cs))")
    case True
    then obtain c cs where "ae_action e = ASupersede" "ae_superseded_by e = Some (c # cs)" by blast
    with r nt have "ae_state e = ADAPTATION_SUPERSEDED" by (auto simp: expected_result_def split: if_splits)
    with True os show ?thesis by (auto intro: disposes.replaced)
  next
    case False
    with r nt obtain reasons where g: "gates R x (ae_recorded_at e) = Inr reasons"
      by (auto simp: expected_result_def bindE_eq_Inr split: adaptation_action.splits option.splits list.splits)
    have ne: "reasons \<noteq> []" by (rule gates_nonempty [OF x g])
    from r nt g False have *: "(case (ae_action e, ae_review_action e) of
             (AReview, Some a) \<Rightarrow> expected_review x p reasons a e
           | (ARequestReview, _) \<Rightarrow>
               if ae_state p = REVIEW_REQUIRED then Inl (ValueError ''review_already_pending'')
               else Inr (REVIEW_REQUIRED, or_else reasons ''explicit_human_review_requested'')
           | (AEvaluate, _) \<Rightarrow>
               if ae_state p = REVIEW_REQUIRED then Inl (ValueError ''pending_review_requires_disposition'')
               else Inr (evaluated_state (review_needed x) reasons,
                 or_else reasons (if review_needed x then ''human_review_required'' else ''software_eligible_only''))
           | _ \<Rightarrow> Inl (ValueError ''adaptation_action_mismatch'')) = Inr (ae_state e, ae_reasons e)"
      by (auto simp: expected_result_def split: adaptation_action.splits option.splits list.splits)
    show ?thesis
    proof (cases "ae_action e")
      case AEvaluate
      with * ne os show ?thesis by (auto simp: evaluated_state_def intro: disposes.evaluated split: if_splits)
    next
      case ARequestReview
      with * os show ?thesis by (auto intro: disposes.requested split: if_splits)
    next
      case AReview
      with * obtain a where a: "expected_review x p reasons a e = Inr (ae_state e, ae_reasons e)"
        by (auto split: option.splits)
      then have "ae_state p = REVIEW_REQUIRED" "ae_state e = disposed_state a reasons"
        by (auto simp: expected_review_def Let_def split: if_splits)
      with ne AReview show ?thesis by (cases a) (auto simp: disposed_state_def intro: disposes.reviewed)
    qed (use * in auto)
  qed
qed

lemma replay_loop_disposes:
  assumes x: "validate_candidate R x = Inr x" and es: "\<forall>e \<in> set es. no_grant e"
    and r: "replay_loop R x q es = Inr q'" and m: "es = us @ p # e # vs"
  shows "disposes (ae_state p) (ae_action e) (ae_state e)"
proof -
  have "replay_event R x (Some p) e = Inr ()"
    using r unfolding m by (auto simp: replay_loop_append bindE_eq_Inr)
  moreover have "no_grant p" using es m by simp
  ultimately show ?thesis using replay_event_disposes [OF x] by blast
qed

subsection \<open>One advance\<close>

lemma advance_Inr:
  assumes a: "advance R scope system authenticate cid expected q t s = Inr (s', e')" and ok: "workflow_ok R s"
  obtains key l r e where "workflow_key R scope system = Inr key"
    "open_ledger (gs_adaptations s key) scope system = Inr l" "find_row (lg_records l) cid = Some r"
    "row_ok R scope system r" "ae_event_id (last (rw_events r)) = expected" "\<not> terminal (ae_state (last (rw_events r)))"
    "ae_recorded_at (last (rw_events r)) \<le> t"
    "rq_action q \<noteq> ASupersede \<longrightarrow> (\<exists>reasons. current_basis R scope system (rw_candidate r) t s = Inr reasons)"
    "validate_event R e = Inr e" "e' = e"
    "s' = s\<lparr>gs_adaptations := (gs_adaptations s)(key \<mapsto> l\<lparr>lg_records := append_event (lg_records l) cid e\<rparr>)\<rparr>"
proof -
  from a obtain key l r x prior e0 e where
    k: "workflow_key R scope system = Inr key"
    and l: "open_ledger (gs_adaptations s key) scope system = Inr l" and r: "find_row (lg_records l) cid = Some r"
    and x: "validate_candidate R (rw_candidate r) = Inr x" and p: "validate_event R (last (rw_events r)) = Inr prior"
    and t: "\<not> t < ae_recorded_at prior" "\<not> terminal (ae_state prior)" "ae_event_id prior = expected"
    and e0: "advance_event R scope system authenticate q t s (lg_records l) cid x prior = Inr e0"
    and e: "validate_event R e0 = Inr e" "validate_event R e = Inr e'"
    and s': "s' = s\<lparr>gs_adaptations := (gs_adaptations s)(key \<mapsto> l\<lparr>lg_records := append_event (lg_records l) cid e\<rparr>)\<rparr>"
    unfolding advance_def chain_simps sum.inject prod.inject
    by (elim exE conjE) (auto simp: bindE_eq_Inr split: option.splits if_splits)
  from r rows_opened [OF ok l] have R: "row_ok R scope system r"
    using find_row_Some by (auto simp: rows_ok_def)
  with x p have xx: "x = rw_candidate r" and pp: "prior = last (rw_events r)" by (auto simp: row_ok_def)
  have cb: "rq_action q \<noteq> ASupersede \<longrightarrow> (\<exists>reasons. current_basis R scope system (rw_candidate r) t s = Inr reasons)"
    using e0 by (auto simp: advance_event_def Let_def bindE_eq_Inr xx split: if_splits)
  have ee: "validate_event R e = Inr e" "e' = e" using validate_event_idem [OF e(1)] e(2) by simp_all
  show thesis using that [OF k l r R _ _ _ cb ee s'] t pp by simp
qed

lemma append_event_find:
  "find_row rs cid = Some r \<Longrightarrow> find_row (append_event rs cid e) cid = Some (r\<lparr>rw_events := rw_events r @ [e]\<rparr>)"
  by (induction rs) (auto simp: find_row_def split: if_splits)

lemma append_event_other:
  "i \<noteq> cid \<Longrightarrow> find_row (append_event rs cid e) i = find_row rs i"
  by (induction rs) (auto simp: find_row_def)

subsection \<open>Sample values\<close>

definition demo_transition :: transition where
  "demo_transition = \<lparr>tr_transition_id = ''inactive-adaptation-transition-v1:0'', tr_decision = demo_decision,
     tr_basis = demo_frozen, tr_active_before = ''governance-snapshot:active'',
     tr_candidate = ''governance-snapshot:next'', tr_active_after = ''governance-snapshot:active'',
     tr_rollback_reference = ''governance-snapshot:active''\<rparr>"

definition demo_planned :: candidate where
  "demo_planned = \<lparr>cd_candidate_id = ''adaptation-candidate-v1:0'', cd_proposed_at = 70,
     cd_provenance = demo_provenance, cd_transition = demo_transition\<rparr>"

definition demo_evaluate :: "nat advance_request" where
  "demo_evaluate = \<lparr>rq_action = AEvaluate, rq_credential = 0, rq_review_action = None, rq_rationale = None,
     rq_superseded_by = None\<rparr>"

lemma demo_transition_valid: "validate_transition demo_store_runtime demo_transition = Inr demo_transition"
proof -
  let ?R = demo_store_runtime
  have "check_fields (transition_fields demo_transition) = Inr ()"
    "content_id ?R ''inactive-adaptation-transition-v1'' (JObj (transition_body demo_transition))
       = ''inactive-adaptation-transition-v1:0''" by code_simp+
  moreover have "inactive_transition ?R demo_transition = Inr ()"
  proof -
    have "ad_requested_operation (dc_core demo_decision) \<in> set ADAPTATION_OPERATIONS"
      "active_model_before (dc_core demo_decision) = Some ''governance-snapshot:active''"
      "active_model_after (dc_core demo_decision) = Some ''governance-snapshot:active''"
      "candidate_model (dc_core demo_decision) = Some ''governance-snapshot:next''"
      "model_refs_ok (payload_of (bs_snapshots demo_frozen) ''governance-snapshot:next'')" by code_simp+
    then show ?thesis using demo_frozen_valid
      by (simp add: inactive_transition_def demo_transition_def)
  qed
  ultimately show ?thesis using demo_frozen_parses(1,2)
    by (simp add: validate_transition_def validate_identity_def demo_transition_def Let_def)
qed

lemma demo_planned_valid:
  "validate_candidate demo_store_runtime (demo_planned\<lparr>cd_candidate_id := []\<rparr>) = Inr demo_planned"
  "validate_candidate demo_store_runtime demo_planned = Inr demo_planned"
proof -
  have "content_id demo_store_runtime ''adaptation-candidate-v1'' (JObj (candidate_body demo_planned))
      = ''adaptation-candidate-v1:0''" "provenance_ok demo_provenance"
    "\<not> 70 < decision_timestamp (cd_decision demo_planned)" by code_simp+
  with demo_transition_valid show
    "validate_candidate demo_store_runtime (demo_planned\<lparr>cd_candidate_id := []\<rparr>) = Inr demo_planned"
    "validate_candidate demo_store_runtime demo_planned = Inr demo_planned"
    by (simp_all add: validate_candidate_def validate_identity_def demo_planned_def Let_def candidate_body_def cd_decision_def)
qed

lemma demo_gates: "map_sum id (list_all text_ok) (gates demo_store_runtime demo_planned 70) = Inr True"
  by code_simp

lemma stores_workflow:
  "stores R g \<Longrightarrow> \<exists>s. workflows R s \<and> store_part s = g \<and> gs_adaptations s = (\<lambda>_. None)"
proof (induction rule: stores.induct)
  case initial
  then show ?case using workflows.initial
    by (intro exI [of _ empty_workflow]) (simp add: store_part_def empty_store_def empty_workflow_def)
next
  case (step g op g')
  then obtain s where s: "workflows R s" "store_part s = g" "gs_adaptations s = (\<lambda>_. None)" by blast
  let ?s = "s\<lparr>gs_decisions := gs_decisions g', gs_contexts := gs_contexts g', gs_policies := gs_policies g'\<rparr>"
  have "workflow_step R (StoreOp op :: nat workflow_op) s = Inr ?s" using step.hyps(2) s(2) by simp
  from workflows.step [OF s(1) this] s(3) show ?case
    by (intro exI [of _ ?s]) (simp add: store_part_def)
qed

lemma demo_current_basis:
  assumes "decision_entries R demo_scope ''plant'' s = Inr [\<lparr>en_decision = demo_decision, en_basis = demo_frozen\<rparr>]"
    and "selection R demo_scope ''plant'' t ''p'' s = Inr ([demo_context_checked], demo_registered)"
    and "gates R demo_planned t = Inr reasons" and "70 \<le> t"
  shows "current_basis R demo_scope ''plant'' demo_planned t s = Inr reasons"
proof -
  from assms(1) obtain key l where k: "store_key R demo_scope ''plant'' = Inr key"
    "open_ledger (gs_decisions s key) demo_scope ''plant'' = Inr l"
    and l: "lg_records l = [\<lparr>en_decision = demo_decision, en_basis = demo_frozen\<rparr>]"
    by (auto simp: decision_entries_def bindE_eq_Inr)
  have "map_option vd_scope (dc_v2 demo_decision) = Some demo_scope" "ad_system_scope (dc_core demo_decision) = ''plant''"
    "supersedes_decision_id (dc_core demo_decision) = None" "ad_policy_id (dc_core demo_decision) = ''p''" by code_simp+
  moreover have "map_option (\<lambda>v. (cb_records (vb_context v), vb_policy v)) (bs_v2 demo_frozen)
      = Some ([demo_context_checked], demo_registered)" by (simp add: demo_frozen_def demo_selected_def)
  moreover have "cd_transition demo_planned = demo_transition" "tr_decision demo_transition = demo_decision"
    "tr_basis demo_transition = demo_frozen" "cd_proposed_at demo_planned = 70"
    by (simp_all add: demo_planned_def demo_transition_def)
  ultimately show ?thesis using k l assms(2-4) by (auto simp: current_basis_def Let_def)
qed

text \<open>A workflow with one candidate, proposed and then evaluated.\<close>

lemma demo_workflow:
  obtains s s' e1 e2 where "workflows demo_store_runtime s" "workflows demo_store_runtime s'"
    "workflow_history demo_store_runtime demo_scope ''plant'' s = Inr [\<lparr>rw_candidate = demo_planned, rw_events = [e1]\<rparr>]"
    "workflow_history demo_store_runtime demo_scope ''plant'' s' = Inr [\<lparr>rw_candidate = demo_planned, rw_events = [e1, e2]\<rparr>]"
    "advance demo_store_runtime demo_scope ''plant'' None ''adaptation-candidate-v1:0'' ''adaptation-event-v1:propose''
       demo_evaluate 70 s = Inr (s', e2)"
    "ae_event_id e2 = ''adaptation-event-v1:evaluate''" "ae_action e2 = AEvaluate"
proof (rule demo_admitted)
  let ?R = demo_store_runtime
  fix g0 g
  assume g: "stores ?R g"
    and es: "decision_entries ?R demo_scope ''plant'' g = Inr [\<lparr>en_decision = demo_decision, en_basis = demo_frozen\<rparr>]"
    and sel: "\<And>t. 5 \<le> t \<Longrightarrow> t < 1000 \<Longrightarrow> selection ?R demo_scope ''plant'' t ''p'' g = Inr ([demo_context_checked], demo_registered)"
  from stores_workflow [OF g] obtain s0 where s0: "workflows ?R s0" "store_part s0 = g" "gs_adaptations s0 = (\<lambda>_. None)" by blast
  have part: "gs_decisions s0 = gs_decisions g" "gs_contexts s0 = gs_contexts g" "gs_policies s0 = gs_policies g"
    using s0(2) by (auto simp: store_part_def)
  obtain r70 where r: "gates ?R demo_planned 70 = Inr r70" "list_all text_ok r70"
    using demo_gates by (cases "gates ?R demo_planned 70") auto
  have cb: "current_basis ?R demo_scope ''plant'' demo_planned 70 s = Inr r70"
    if "gs_decisions s = gs_decisions g" "gs_contexts s = gs_contexts g" "gs_policies s = gs_policies g" for s :: workflow_store
  proof -
    have "decision_entries ?R demo_scope ''plant'' s = decision_entries ?R demo_scope ''plant'' g"
      by (simp add: decision_entries_def that)
    moreover have "selection ?R demo_scope ''plant'' t ''p'' s = selection ?R demo_scope ''plant'' t ''p'' g" for t
      by (simp add: selection_def that)
    ultimately show ?thesis using es sel r by (simp add: demo_current_basis)
  qed
  let ?e1 = "(proposed_event demo_planned)\<lparr>ae_event_id := ''adaptation-event-v1:propose''\<rparr>"
  have e1: "validate_event ?R (proposed_event demo_planned) = Inr ?e1" by code_simp
  note e1' = validate_event_idem [OF e1]
  have "strip ''plant'' \<noteq> []" by code_simp
  then obtain key where k: "workflow_key ?R demo_scope ''plant'' = Inr key"
    by (simp add: workflow_key_def store_key_def)
  let ?row1 = "\<lparr>rw_candidate = demo_planned, rw_events = [?e1]\<rparr>"
  let ?l = "\<lambda>rs. \<lparr>lg_schema = ''authority-ledger-v1'', lg_scope = demo_scope, lg_system = ''plant'', lg_records = rs\<rparr>"
  let ?s1 = "s0\<lparr>gs_adaptations := [key \<mapsto> ?l [?row1]]\<rparr>"
  have raw: "\<lparr>cd_candidate_id = [], cd_proposed_at = 70, cd_provenance = demo_provenance, cd_transition = demo_transition\<rparr>
      = demo_planned\<lparr>cd_candidate_id := []\<rparr>" "cd_proposed_at demo_planned = 70"
    by (simp_all add: demo_planned_def)
  have "propose ?R demo_scope ''plant'' demo_transition demo_provenance 70 s0 = Inr (?s1, demo_planned)"
    using demo_transition_valid demo_planned_valid k e1 cb [OF part] s0(3)
    by (simp add: propose_def raw find_row_def)
  then have "workflow_step ?R (Propose demo_scope ''plant'' demo_transition demo_provenance 70 :: nat workflow_op) s0 = Inr ?s1"
    by simp
  note s1 = workflows.step [OF s0(1) this]
  let ?e = "\<lparr>ae_event_id = [], ae_candidate_id = ''adaptation-candidate-v1:0'', ae_action = AEvaluate,
     ae_previous_event_id = Some ''adaptation-event-v1:propose'', ae_recorded_at = 70,
     ae_state = evaluated_state (review_needed demo_planned) r70,
     ae_reasons = or_else r70 (if review_needed demo_planned then ''human_review_required'' else ''software_eligible_only''),
     ae_review_request_id = None, ae_review_action = None, ae_reviewer = None, ae_rationale = None, ae_superseded_by = None\<rparr>"
  have ae: "advance_event ?R demo_scope ''plant'' None demo_evaluate 70 ?s1 [?row1] ''adaptation-candidate-v1:0'' demo_planned ?e1
      = Inr ?e"
    using cb [of ?s1] part by (simp add: advance_event_def demo_evaluate_def proposed_event_def)
  have "texts_ok (ae_reasons ?e)"
    using r(2) gates_nonempty [OF demo_planned_valid(2) r(1)] by (simp add: or_else_def texts_ok_def)
  moreover have "text_ok ''adaptation-candidate-v1:0''" "text_ok ''adaptation-event-v1:propose''" by code_simp+
  ultimately have f: "check_fields (event_fields ?e) = Inr ()"
    by (simp add: event_fields_def text_opt_ok_def)
  have "demo_object_digest (canon (JObj (event_body ?e))) = ''evaluate''"
    by (simp add: event_body_def demo_object_digest_def jopt_def jstrs_def insort_key_def)
  then have e2: "validate_event ?R ?e = Inr (?e\<lparr>ae_event_id := ''adaptation-event-v1:evaluate''\<rparr>)"
    using f by (simp add: validate_event_def validate_identity_def content_id_def canonical_json_def demo_store_runtime_def)
  let ?e2 = "?e\<lparr>ae_event_id := ''adaptation-event-v1:evaluate''\<rparr>"
  let ?row2 = "\<lparr>rw_candidate = demo_planned, rw_events = [?e1, ?e2]\<rparr>"
  let ?s2 = "s0\<lparr>gs_adaptations := [key \<mapsto> ?l [?row2]]\<rparr>"
  have cid: "cd_candidate_id demo_planned = ''adaptation-candidate-v1:0''" by (simp add: demo_planned_def)
  have a: "advance ?R demo_scope ''plant'' None ''adaptation-candidate-v1:0'' ''adaptation-event-v1:propose''
       demo_evaluate 70 ?s1 = Inr (?s2, ?e2)"
    using k ae e2 validate_event_idem [OF e2] e1' demo_planned_valid(2)
    by (simp add: advance_def open_ledger_def find_row_def cid proposed_event_def raw(2) terminal_def)
  then have "workflow_step ?R (Advance demo_scope ''plant'' None ''adaptation-candidate-v1:0'' ''adaptation-event-v1:propose''
       demo_evaluate 70) ?s1 = Inr ?s2" by simp
  note s2 = workflows.step [OF s1 this]
  have h: "workflow_history ?R demo_scope ''plant'' ?s1 = Inr [?row1]" "workflow_history ?R demo_scope ''plant'' ?s2 = Inr [?row2]"
    using k e1' validate_event_idem [OF e2] demo_planned_valid(2)
    by (simp_all add: workflow_history_def open_ledger_def validate_row_def)
  show thesis by (rule that [OF s1 s2 h a]) simp_all
qed

subsection \<open>Properties\<close>

text \<open>
  C3. No adaptation is ever approved or applied. Whatever is recorded, proposed, evaluated, reviewed or
  superseded, by any reviewer the host authenticates, no event of any history the workflow returns
  has the state \<open>approved\<close> or \<open>applied\<close>, and a rejected or superseded candidate never moves again.
\<close>

theorem adaptation_never_approved:
  assumes "workflows R s" and "workflow_history R scope system s = Inr rs"
    and "r \<in> set rs" and "rw_events r = us @ e # vs"
  shows "ae_state e \<noteq> APPROVED \<and> ae_state e \<noteq> APPLIED
    \<and> (ae_state e \<in> {REJECTED, ADAPTATION_SUPERSEDED} \<longrightarrow> vs = [])"
proof -
  have R: "row_ok R scope system r"
    using workflow_history_rows [OF workflows_ok [OF assms(1)] assms(2)] assms(3) by (simp add: rows_ok_def)
  then have "no_grant e" using assms(4) by (simp add: row_ok_def)
  moreover have "terminal (ae_state e) \<longrightarrow> vs = []"
    using R replay_terminal [of R "rw_candidate r" None "rw_events r"] assms(4) by (auto simp: row_ok_def)
  ultimately show ?thesis by (simp add: no_grant_def terminal_def)
qed

theorem adaptation_never_approved_witness:
  "\<exists>s r e. workflows demo_store_runtime s
     \<and> workflow_history demo_store_runtime demo_scope ''plant'' s = Inr [r] \<and> rw_events r = [e] \<and> ae_state e \<noteq> APPROVED"
proof (rule demo_workflow)
  fix s s' e1 e2
  assume s: "workflows demo_store_runtime s"
    and h: "workflow_history demo_store_runtime demo_scope ''plant'' s = Inr [\<lparr>rw_candidate = demo_planned, rw_events = [e1]\<rparr>]"
  from adaptation_never_approved [OF s h, of "\<lparr>rw_candidate = demo_planned, rw_events = [e1]\<rparr>" "[]" e1 "[]"]
  have "ae_state e1 \<noteq> APPROVED" by simp
  with s h show ?thesis by force
qed

text \<open>
  C29. The workflow refines the abstract machine of dispositions: in every history any two consecutive
  events are a step of \<open>disposes\<close>, so a review only ever answers a pending request, and approving in
  a review only defers.
\<close>

theorem adaptation_refines_machine:
  assumes "workflows R s" and "workflow_history R scope system s = Inr rs"
    and "r \<in> set rs" and "rw_events r = us @ p # e # vs"
  shows "disposes (ae_state p) (ae_action e) (ae_state e)"
proof -
  have R: "row_ok R scope system r"
    using workflow_history_rows [OF workflows_ok [OF assms(1)] assms(2)] assms(3) by (simp add: rows_ok_def)
  show ?thesis
    by (rule replay_loop_disposes [where es = "rw_events r" and us = us and vs = vs])
      (use R assms(4) in \<open>auto simp: row_ok_def\<close>)
qed

theorem adaptation_refines_machine_witness:
  "\<exists>(e1 :: adaptation_event) (e2 :: adaptation_event). ae_action e2 = AEvaluate \<and> disposes (ae_state e1) AEvaluate (ae_state e2)"
proof (rule demo_workflow)
  fix s s' e1 e2
  assume s: "workflows demo_store_runtime s'"
    and h: "workflow_history demo_store_runtime demo_scope ''plant'' s' = Inr [\<lparr>rw_candidate = demo_planned, rw_events = [e1, e2]\<rparr>]"
    and a: "ae_action e2 = AEvaluate"
  from adaptation_refines_machine [OF s h, of "\<lparr>rw_candidate = demo_planned, rw_events = [e1, e2]\<rparr>" "[]" e1 e2 "[]"] a
  show ?thesis by auto
qed

text \<open>
  Every history the workflow admits replays: revalidating the retained candidate and events and
  re-running the gates at each recorded time, without the registries or the authenticator, accepts
  the history and gives the state of its last event; the events form one chain in time order.
\<close>

theorem adaptation_history_replays:
  assumes "workflows R s" and "workflow_history R scope system s = Inr rs" and "r \<in> set rs"
  shows "replay_adaptation R (rw_candidate r) (rw_events r) = Inr (ae_state (last (rw_events r)))
    \<and> (\<forall>us e vs. rw_events r = us @ e # vs \<longrightarrow> ae_candidate_id e = cd_candidate_id (rw_candidate r)
         \<and> ae_previous_event_id e = (if us = [] then None else Some (ae_event_id (last us)))
         \<and> (if us = [] then cd_proposed_at (rw_candidate r) else ae_recorded_at (last us)) \<le> ae_recorded_at e)"
proof -
  have R: "row_ok R scope system r"
    using workflow_history_rows [OF workflows_ok [OF assms(1)] assms(2)] assms(3) by (simp add: rows_ok_def)
  then have "mapE (validate_event R) (rw_events r) = Inr (rw_events r)"
    by (intro mapE_id) (simp add: row_ok_def)
  then have "replay_adaptation R (rw_candidate r) (rw_events r) = Inr (ae_state (last (rw_events r)))"
    using R by (simp add: replay_adaptation_def row_ok_def)
  moreover from R have l: "replay_loop R (rw_candidate r) None (rw_events r) = Inr (Some (last (rw_events r)))"
    by (simp add: row_ok_def)
  have "ae_candidate_id e = cd_candidate_id (rw_candidate r)
      \<and> ae_previous_event_id e = (if us = [] then None else Some (ae_event_id (last us)))
      \<and> (if us = [] then cd_proposed_at (rw_candidate r) else ae_recorded_at (last us)) \<le> ae_recorded_at e"
    if "rw_events r = us @ e # vs" for us e vs using replay_chain [OF l that] by (cases "us = []") simp_all
  ultimately show ?thesis by blast
qed

theorem adaptation_history_replays_witness:
  "\<exists>e1 e2. replay_adaptation demo_store_runtime demo_planned [e1, e2] = Inr (ae_state e2)"
proof (rule demo_workflow)
  fix s s' e1 e2
  assume s: "workflows demo_store_runtime s'"
    and h: "workflow_history demo_store_runtime demo_scope ''plant'' s' = Inr [\<lparr>rw_candidate = demo_planned, rw_events = [e1, e2]\<rparr>]"
  from adaptation_history_replays [OF s h, of "\<lparr>rw_candidate = demo_planned, rw_events = [e1, e2]\<rparr>"]
  show ?thesis by auto
qed

text \<open>
  Advancing is compare-and-append. It succeeds only when the caller names the last event of the
  candidate, which is not terminal, and the frozen decision still stands: unless the candidate is
  being superseded, its exact decision and basis are in the authority ledger of the scope and the
  registries select its contexts and policy now. It appends one event to that candidate and leaves
  every other one alone, so a second submission against the same event is a conflict.
\<close>

theorem advance_compare_and_append:
  assumes "workflows R s" and "advance R scope system authenticate cid expected q t s = Inr (s', e)"
  shows "\<exists>key l r rs. open_ledger (gs_adaptations s key) scope system = Inr l
    \<and> find_row (lg_records l) cid = Some r \<and> ae_event_id (last (rw_events r)) = expected
    \<and> ae_state (last (rw_events r)) \<notin> {REJECTED, ADAPTATION_SUPERSEDED, APPLIED}
    \<and> open_ledger (gs_adaptations s' key) scope system = Inr (l\<lparr>lg_records := rs\<rparr>)
    \<and> find_row rs cid = Some (r\<lparr>rw_events := rw_events r @ [e]\<rparr>)
    \<and> (\<forall>i. i \<noteq> cid \<longrightarrow> find_row rs i = find_row (lg_records l) i)
    \<and> gs_decisions s' = gs_decisions s
    \<and> (rq_action q \<noteq> ASupersede \<longrightarrow>
         (\<exists>reasons. current_basis R scope system (rw_candidate r) t s = Inr reasons)
         \<and> (\<exists>es. decision_entries R scope system s = Inr es
              \<and> \<lparr>en_decision = tr_decision (cd_transition (rw_candidate r)),
                 en_basis = tr_basis (cd_transition (rw_candidate r))\<rparr> \<in> set es))
    \<and> (ae_event_id e \<noteq> expected \<longrightarrow>
         advance R scope system authenticate cid expected q t s'
           = Inl (AuthorityRecordConflict ''stale_adaptation_event''))"
proof -
  have ok: "workflow_ok R s" by (rule workflows_ok [OF assms(1)])
  from advance_Inr [OF assms(2) ok] obtain key l r e' where
    k: "workflow_key R scope system = Inr key" and l: "open_ledger (gs_adaptations s key) scope system = Inr l"
    and r: "find_row (lg_records l) cid = Some r" and R: "row_ok R scope system r"
    and x: "ae_event_id (last (rw_events r)) = expected" "\<not> terminal (ae_state (last (rw_events r)))"
    and cb: "rq_action q \<noteq> ASupersede \<longrightarrow> (\<exists>reasons. current_basis R scope system (rw_candidate r) t s = Inr reasons)"
    and e: "validate_event R e = Inr e"
    and s': "s' = s\<lparr>gs_adaptations := (gs_adaptations s)(key \<mapsto> l\<lparr>lg_records := append_event (lg_records l) cid e\<rparr>)\<rparr>"
    by metis
  let ?rs = "append_event (lg_records l) cid e"
  have l': "open_ledger (gs_adaptations s' key) scope system = Inr (l\<lparr>lg_records := ?rs\<rparr>)"
    using reopen_ledger [OF l] by (simp add: s')
  note f = append_event_find [OF r, of e]
  have stale: "advance R scope system authenticate cid expected q t s'
      = Inl (AuthorityRecordConflict ''stale_adaptation_event'')" if "ae_event_id e \<noteq> expected"
    using that k l' f R e by (simp add: advance_def row_ok_def)
  have d: "gs_decisions s' = gs_decisions s" by (simp add: s')
  show ?thesis
    using l r x l' f append_event_other d cb current_basis_Inr(4) stale
    by (intro exI [of _ key] exI [of _ l] exI [of _ r] exI [of _ ?rs]) (auto simp: terminal_def)
qed

theorem advance_compare_and_append_witness:
  "\<exists>s'. advance demo_store_runtime demo_scope ''plant'' None ''adaptation-candidate-v1:0'' ''adaptation-event-v1:propose''
       demo_evaluate 70 s' = Inl (AuthorityRecordConflict ''stale_adaptation_event'')"
proof (rule demo_workflow)
  fix s s' e1 e2
  assume s: "workflows demo_store_runtime s"
    and a: "advance demo_store_runtime demo_scope ''plant'' None ''adaptation-candidate-v1:0'' ''adaptation-event-v1:propose''
       demo_evaluate 70 s = Inr (s', e2)"
    and i: "ae_event_id e2 = ''adaptation-event-v1:evaluate''"
  have "ae_event_id e2 \<noteq> ''adaptation-event-v1:propose''" by (simp add: i)
  with advance_compare_and_append [OF s a] show ?thesis by blast
qed

end
