(* ===== verification/Finding_Evidence.thy ===== *)
theory Finding_Evidence
  imports Prelude
begin

text \<open>
  The evidence behind a finding: the product view of \<^verbatim>\<open>services/product_evidence_contract.py\<close>, the
  dataset scopes of \<^verbatim>\<open>services/dataset_scope.py\<close>, and the identity, priority and immutable snapshot
  that \<^verbatim>\<open>services/finding_workflow.py\<close> derives from an evidence run.

  A record is a decoded JSON object. Python's \<open>str\<close> of a float, a list or a dict, and SHA-256 of a
  text, are passed in a \<open>host\<close> record; \<open>str\<close> of the other JSON values is written out.
\<close>

record host =
  h_repr :: "json \<Rightarrow> string"
  h_sha256 :: "string \<Rightarrow> string"
  h_sha256_json :: "json \<Rightarrow> string"

subsection \<open>Values\<close>

definition por :: "json \<Rightarrow> json \<Rightarrow> json" where
  "por a b = (if truthy a then a else b)"

definition py_str :: "'a host_scheme \<Rightarrow> json \<Rightarrow> string" where
  "py_str H v = (case v of JStr s \<Rightarrow> s | JNull \<Rightarrow> ''None'' | JBool b \<Rightarrow> if b then ''True'' else ''False''
     | JInt i \<Rightarrow> str_of_int i | _ \<Rightarrow> h_repr H v)"

text \<open>\<open>str(value or "")\<close>.\<close>

definition py_text :: "'a host_scheme \<Rightarrow> json \<Rightarrow> string" where
  "py_text H v = (if truthy v then py_str H v else [])"

definition clean :: "'a host_scheme \<Rightarrow> json \<Rightarrow> string option" where
  "clean H v = (let text = strip (py_text H v) in if text = [] then None else Some text)"

definition as_dict :: "json \<Rightarrow> jdict" where
  "as_dict v = (case v of JObj d \<Rightarrow> d | _ \<Rightarrow> [])"

definition is_dict :: "json \<Rightarrow> bool" where
  "is_dict v = (case v of JObj d \<Rightarrow> True | _ \<Rightarrow> False)"

subsection \<open>Product evidence\<close>

definition RETIRED :: "string list" where
  "RETIRED = [''cause'', ''causes'', ''likelycause'', ''likelycauses'', ''probablecause'',
     ''suspectedcause'', ''rootcause'', ''rootcauseconclusion'', ''rootcauseconclusions'',
     ''diagnosis'', ''diagnosticconclusion'', ''automatedcorrectiveaction'',
     ''causeestablished'', ''causeconfirmed'', ''causeattribution'', ''attributionstatus'',
     ''attributionconfidence'', ''causalevidence'',
     ''potentialoperationalcauses'', ''possibleoperationalcauses'', ''possibleoperationalcausessummary'',
     ''possibleexplanations'', ''alternativeexplanations'',
     ''whyneraiumthinksithappened'', ''whyneraiumthinks'',
     ''likelydriver'', ''primarydriver'', ''primarydrivers'', ''driverattribution'',
     ''counterfactualdriverranking'',
     ''projectedtimetofailure'', ''projectedtimetofailurehours'',
     ''probabilityoffailure'', ''failureprobability'', ''remainingusefullife'', ''rul'']"

definition PRESERVED :: "string list" where
  "PRESERVED = [''governance'',
     ''measurable_consequence'', ''provenance'', ''source_tag_ids'', ''source_relationship_ids'',
     ''normalized_telemetry'', ''telemetry_signal_catalog'', ''telemetry_signals'',
     ''source_rows'', ''observations'', ''rows'',
     ''operator_feedback_history'', ''field_reports'', ''feedback'', ''events'']"

definition retired :: "string \<Rightarrow> bool" where
  "retired k = (lower (filter (\<lambda>c. c \<noteq> CHR ''_'') k) \<in> set RETIRED)"

fun product_evidence :: "json \<Rightarrow> json"
  and product_items :: "jdict \<Rightarrow> jdict"
  and product_list :: "json list \<Rightarrow> json list" where
  "product_evidence (JObj d) = JObj (product_items d)"
| "product_evidence (JList xs) = JList (product_list xs)"
| "product_evidence v = v"
| "product_items [] = []"
| "product_items ((k, v) # d) =
     (if retired k then product_items d
      else (k, if k \<in> set PRESERVED then v else product_evidence v) # product_items d)"
| "product_list [] = []"
| "product_list (x # xs) = product_evidence x # product_list xs"

text \<open>No retired key outside the preserved subtrees.\<close>

fun current_view :: "json \<Rightarrow> bool"
  and current_items :: "jdict \<Rightarrow> bool"
  and current_list :: "json list \<Rightarrow> bool" where
  "current_view (JObj d) = current_items d"
| "current_view (JList xs) = current_list xs"
| "current_view v = True"
| "current_items [] = True"
| "current_items ((k, v) # d) = (\<not> retired k \<and> (k \<in> set PRESERVED \<or> current_view v) \<and> current_items d)"
| "current_list [] = True"
| "current_list (x # xs) = (current_view x \<and> current_list xs)"

lemma product_current:
  "current_view (product_evidence v)" "current_items (product_items d)" "current_list (product_list xs)"
  by (induction v and d and xs rule: product_evidence_product_items_product_list.induct) auto

lemma current_fixed:
  "current_view v \<Longrightarrow> product_evidence v = v" "current_items d \<Longrightarrow> product_items d = d"
  "current_list xs \<Longrightarrow> product_list xs = xs"
  by (induction v and d and xs rule: current_view_current_items_current_list.induct) auto

lemma product_items_lookup:
  "map_of (product_items d) k = (if retired k then None
     else map_option (\<lambda>v. if k \<in> set PRESERVED then v else product_evidence v) (map_of d k))"
proof (induction d)
  case (Cons p d)
  then show ?case by (cases p) auto
qed simp

subsection \<open>Dataset scopes\<close>

record dataset_scope =
  ds_tenant_id :: string
  ds_user_id :: string
  ds_workspace_id :: string

definition DEFAULT_WORKSPACE_ID :: string where
  "DEFAULT_WORKSPACE_ID = ''default''"

definition storage_id :: "'a host_scheme \<Rightarrow> dataset_scope \<Rightarrow> string" where
  "storage_id H s = take 32 (h_sha256 H (''v1:'' @ ds_tenant_id s @ '':'' @ ds_user_id s @ '':'' @ ds_workspace_id s))"

definition scope_as_dict :: "dataset_scope \<Rightarrow> jdict" where
  "scope_as_dict s = [(''version'', JInt 1), (''tenant_id'', JStr (ds_tenant_id s)),
     (''user_id'', JStr (ds_user_id s)), (''workspace_id'', JStr (ds_workspace_id s))]"

text \<open>The pattern \<open>[A-Za-z0-9][A-Za-z0-9._:-]{0,127}\<close>.\<close>

definition alnum :: "char \<Rightarrow> bool" where
  "alnum c = (let n = (of_char c :: int) in (48 \<le> n \<and> n \<le> 57) \<or> (65 \<le> n \<and> n \<le> 90) \<or> (97 \<le> n \<and> n \<le> 122))"

definition workspace_pattern :: "string \<Rightarrow> bool" where
  "workspace_pattern s = (case s of [] \<Rightarrow> False | c # cs \<Rightarrow>
     alnum c \<and> int (length cs) \<le> 127 \<and> list_all (\<lambda>c. alnum c \<or> c \<in> set ''._:-'') cs)"

definition normalize_workspace_id :: "string \<Rightarrow> string option" where
  "normalize_workspace_id v = (let normalized = strip v in
     if normalized = [] then Some DEFAULT_WORKSPACE_ID
     else if workspace_pattern normalized then Some normalized else None)"

definition normalize_principal :: "string \<Rightarrow> string \<Rightarrow> string" where
  "normalize_principal v fallback = (let normalized = lower (strip v) in
     if normalized = [] then fallback else normalized)"

definition build_dataset_scope :: "string \<Rightarrow> string \<Rightarrow> string option \<Rightarrow> dataset_scope option" where
  "build_dataset_scope user workspace tenant =
     (let u = normalize_principal user ''anonymous'';
          t = (case tenant of None \<Rightarrow> u | Some x \<Rightarrow> normalize_principal x u) in
      (case normalize_workspace_id workspace of
         None \<Rightarrow> None
       | Some w \<Rightarrow> Some \<lparr>ds_tenant_id = t, ds_user_id = u, ds_workspace_id = w\<rparr>))"

definition dataset_scope_from_payload :: "'a host_scheme \<Rightarrow> json \<Rightarrow> dataset_scope option" where
  "dataset_scope_from_payload H payload = (case payload of
     JObj d \<Rightarrow>
       let first = jget d ''dataset_scope''; candidate = (if is_dict first then first else jget d ''session_scope'') in
       (case candidate of
          JObj c \<Rightarrow>
            let tenant = strip (py_text H (jget c ''tenant_id'')); user = strip (py_text H (jget c ''user_id''));
                workspace = strip (py_text H (jget c ''workspace_id'')) in
            if tenant = [] \<or> user = [] \<or> workspace = [] then None
            else build_dataset_scope user workspace (Some tenant)
        | _ \<Rightarrow> None)
   | _ \<Rightarrow> None)"

subsection \<open>The findings of an evidence run\<close>

definition evidence_finding_id :: "'a host_scheme \<Rightarrow> string \<Rightarrow> string \<Rightarrow> string" where
  "evidence_finding_id H run key = ''evidence-finding-''
     @ take 32 (h_sha256 H (''evidence_run'' @ [char_of (0::nat)] @ run @ [char_of (0::nat)] @ key))"

type_synonym source_finding = "string \<times> jdict"

definition the_or :: "'a option \<Rightarrow> 'a \<Rightarrow> 'a" where
  "the_or x y = (case x of None \<Rightarrow> y | Some z \<Rightarrow> z)"

fun snapshot_candidates :: "'a host_scheme \<Rightarrow> int \<Rightarrow> json list \<Rightarrow> source_finding list" where
  "snapshot_candidates H i [] = []"
| "snapshot_candidates H i (item # items) =
     (case item of
        JObj d \<Rightarrow>
          let finding = (if is_dict (jget d ''finding'') then as_dict (jget d ''finding'') else d);
              key = the_or (clean H (por (jget d ''source_finding_id'') (por (jget finding ''condition_id'')
                      (por (jget finding ''finding_id'') (jget finding ''id''))))) (''finding-'' @ str_of_int i)
          in (key, finding) # snapshot_candidates H (i + 1) items
      | _ \<Rightarrow> snapshot_candidates H (i + 1) items)"

fun dedupe_from :: "string list \<Rightarrow> source_finding list \<Rightarrow> source_finding list" where
  "dedupe_from seen [] = []"
| "dedupe_from seen ((k, f) # cs) =
     (if k \<in> set seen then dedupe_from seen cs else (k, f) # dedupe_from (k # seen) cs)"

definition dedupe_candidates :: "source_finding list \<Rightarrow> source_finding list" where
  "dedupe_candidates cs = dedupe_from [] cs"

text \<open>\<open>list(v or [])\<close> of an iterable value; another value makes the program raise and is not modelled.\<close>

definition py_list :: "json \<Rightarrow> json list" where
  "py_list v = (case v of JList vs \<Rightarrow> vs | JStr s \<Rightarrow> map (\<lambda>c. JStr [c]) s
     | JObj d \<Rightarrow> map (\<lambda>(k, x). JStr k) d | _ \<Rightarrow> [])"

definition condition_candidates :: "'a host_scheme \<Rightarrow> jdict \<Rightarrow> source_finding list" where
  "condition_candidates H r =
     (case jget r ''condition'' of
        JObj (p # c) \<Rightarrow>
          [(the_or (clean H (por (jget (p # c) ''condition_id'') (por (jget (p # c) ''finding_id'')
              (por (jget (p # c) ''id'') (jget r ''condition_id''))))) ''primary-condition'', p # c)]
      | _ \<Rightarrow>
        (case clean H (jget r ''condition_id'') of
           Some key \<Rightarrow> [(key, [(''condition_id'', JStr key), (''headline'', jget r ''finding_title'')])]
         | None \<Rightarrow>
           [(''run-observation'', [(''object_type'', JStr ''observation''), (''id'', JStr ''run-observation''),
              (''title'', jget r ''finding_title''), (''observation_type'', jget r ''observation_type''),
              (''variables'', JList (py_list (jget r ''variables'')))])]))"

definition source_finding_candidates :: "'a host_scheme \<Rightarrow> jdict \<Rightarrow> source_finding list" where
  "source_finding_candidates H r =
     (case jget r ''finding_identity_snapshot'' of
        JList items \<Rightarrow>
          let cs = snapshot_candidates H 0 items in
          if cs \<noteq> [] then dedupe_candidates cs else condition_candidates H r
      | _ \<Rightarrow> condition_candidates H r)"

definition PRIORITIES :: "string list" where
  "PRIORITIES = [''low'', ''medium'', ''high'', ''critical'']"

definition WORKFLOW_STATUSES :: "string list" where
  "WORKFLOW_STATUSES = [''open'', ''acknowledged'', ''investigating'', ''waiting'', ''escalated'',
     ''awaiting_review'', ''monitoring'', ''resolved'', ''dismissed'']"

fun first_priority :: "'a host_scheme \<Rightarrow> json list \<Rightarrow> string option" where
  "first_priority H [] = None"
| "first_priority H (v # vs) =
     (let normalized = lower (strip (py_text H v)) in
      if normalized \<in> set PRIORITIES then Some normalized
      else if normalized \<in> {''moderate'', ''review''} then Some ''medium''
      else if normalized \<in> {''elevated''} then Some ''high''
      else first_priority H vs)"

definition recommended_priority :: "'a host_scheme \<Rightarrow> jdict \<Rightarrow> string option" where
  "recommended_priority H f = (let c = as_dict (jget f ''classification'') in
     first_priority H [jget f ''recommended_priority'', jget f ''priority'',
       jget c ''recommended_priority'', jget c ''severity'', jget f ''severity''])"

definition initial_evidence_status :: "'a host_scheme \<Rightarrow> jdict \<Rightarrow> string" where
  "initial_evidence_status H r =
     (let status = lower (strip (py_str H (por (jget r ''observation_status'') (JStr ''open'')))) in
      if status \<in> set WORKFLOW_STATUSES then status else ''open'')"

definition evidence_source_snapshot :: "'a host_scheme \<Rightarrow> jdict \<Rightarrow> string \<Rightarrow> jdict \<Rightarrow> jdict" where
  "evidence_source_snapshot H r key f = [
     (''source_run_id'', JStr (py_text H (jget r ''run_id''))),
     (''source_type'', jget r ''source_type''), (''source_name'', jget r ''source_name''),
     (''created_at'', jget r ''created_at''), (''completed_at'', jget r ''completed_at''),
     (''source_finding_key'', JStr key), (''evidence_hash'', jget r ''evidence_hash''),
     (''input_hash'', jget r ''input_hash''), (''result_hash'', jget r ''result_hash''),
     (''provenance'', JObj (as_dict (jget r ''provenance''))),
     (''recommended_priority'', jopt JStr (recommended_priority H f)),
     (''initial_status'', JStr (initial_evidence_status H r)), (''finding'', JObj f)]"

end
