(* ===== verification/Finding_Log.thy ===== *)
theory Finding_Log
  imports Finding_Evidence Gov_Contracts
begin

text \<open>
  The event log of the finding workflow, \<^verbatim>\<open>services/finding_workflow.py\<close>: finding cases, versioned
  workflow events, the append with optimistic concurrency and idempotency keys, and the projection
  of a case's events to its workflow.

  A table is a list in insertion order. The request scope is the argument \<open>scope\<close>, the storage id of
  the current dataset scope; the clock is an argument; \<open>uuid4\<close> is the supply \<open>w_uuid\<close> of the store's
  host indexed by the number of identifiers drawn. SQLite serialises the transactions, so an append
  is one step. Parsing a text as an instant (\<open>datetime.fromisoformat\<close>) is \<open>w_instant\<close>.
\<close>

record workflow_host = host +
  w_uuid :: "nat \<Rightarrow> string"
  w_instant :: "string \<Rightarrow> timestamp option"

datatype workflow_error =
    FindingNotFound
  | WorkflowConflict string int
  | WorkflowInvalid string
  | UnsupportedFields "string list"
  | CaseScopeConflict
  | EvidenceRunNotFound
  | StorageRejected
  | GovernanceInvalid gov_error

type_synonym 'a wf = "(workflow_error, 'a) res"

subsection \<open>Cases and events\<close>

datatype source_kind = EvidenceRun | LiveFinding

record finding_case =
  fc_finding_id :: string
  fc_source_kind :: source_kind
  fc_source_id :: string
  fc_source_finding_key :: string
  fc_scope_storage_id :: "string option"
  fc_dataset_scope :: "dataset_scope option"
  fc_source_snapshot :: jdict
  fc_created_at :: string

record field_report =
  fr_note :: "string option"
  fr_inspected :: "string option"
  fr_found :: "string option"
  fr_action_taken :: "string option"
  fr_problem_found :: string
  fr_needs_escalation :: bool
  fr_investigation_complete :: bool
  fr_actor :: string
  fr_recorded_at :: string

record resolution =
  rs_outcome :: string
  rs_note :: "string option"
  rs_resolved_at :: string
  rs_actor :: string

text \<open>
  The event types with their payloads. A request to record a governance lifecycle carries the change;
  the stored event carries the lifecycle event made of it.
\<close>

datatype event_body =
    WorkflowUpdated jdict "jdict option"
  | LegacyStatusImported jdict jdict
  | FeedbackRecorded jdict
  | LegacyFeedbackImported jdict
  | FieldReportRecorded field_report
  | ResolutionRecorded resolution
  | LifecycleRequested lifecycle_change
  | LifecycleRecorded lifecycle_event

record workflow_event =
  we_event_id :: string
  we_finding_id :: string
  we_version :: int
  we_recorded_at :: string
  we_actor :: string
  we_idempotency_key :: "string option"
  we_fingerprint :: string
  we_body :: event_body

record workflow_db =
  wd_cases :: "finding_case list"
  wd_events :: "workflow_event list"
  wd_drawn :: nat

definition event_type :: "event_body \<Rightarrow> string" where
  "event_type b = (case b of WorkflowUpdated _ _ \<Rightarrow> ''workflow_updated''
     | LegacyStatusImported _ _ \<Rightarrow> ''legacy_status_imported'' | FeedbackRecorded _ \<Rightarrow> ''feedback_recorded''
     | LegacyFeedbackImported _ \<Rightarrow> ''legacy_feedback_imported''
     | FieldReportRecorded _ \<Rightarrow> ''field_report_recorded'' | ResolutionRecorded _ \<Rightarrow> ''resolution_recorded''
     | LifecycleRequested _ \<Rightarrow> ''governance_lifecycle_recorded''
     | LifecycleRecorded _ \<Rightarrow> ''governance_lifecycle_recorded'')"

definition report_dict :: "field_report \<Rightarrow> json" where
  "report_dict r = JObj [(''note'', jopt JStr (fr_note r)), (''inspected'', jopt JStr (fr_inspected r)),
     (''found'', jopt JStr (fr_found r)), (''action_taken'', jopt JStr (fr_action_taken r)),
     (''problem_found'', JStr (fr_problem_found r)), (''needs_escalation'', JBool (fr_needs_escalation r)),
     (''investigation_complete'', JBool (fr_investigation_complete r)), (''actor'', JStr (fr_actor r)),
     (''recorded_at'', JStr (fr_recorded_at r))]"

definition resolution_dict :: "resolution \<Rightarrow> json" where
  "resolution_dict r = JObj [(''outcome'', JStr (rs_outcome r)), (''note'', jopt JStr (rs_note r)),
     (''resolved_at'', JStr (rs_resolved_at r)), (''actor'', JStr (rs_actor r))]"

definition change_dict :: "'a lifecycle_change_scheme \<Rightarrow> json" where
  "change_dict l = JObj [(''schema_version'', JStr ''finding-lifecycle-v1''),
     (''state'', JStr (lifecycle_value (lc_state l))), (''previous_event_id'', jopt JStr (lc_previous_event_id l)),
     (''effective_at'', JTime (lc_effective_at l)), (''evidence_ids'', jstrs (lc_evidence_ids l)),
     (''reasons'', jstrs (lc_reasons l)), (''source_run_id'', JStr (lc_source_run_id l)),
     (''provenance'', provenance_dict (lc_provenance l))]"

definition payload_dict :: "event_body \<Rightarrow> jdict" where
  "payload_dict b = (case b of
       WorkflowUpdated ch cm \<Rightarrow> (''changes'', JObj ch) # (case cm of None \<Rightarrow> [] | Some c \<Rightarrow> [(''compatibility'', JObj c)])
     | LegacyStatusImported ch cm \<Rightarrow> [(''changes'', JObj ch), (''compatibility'', JObj cm)]
     | FeedbackRecorded f \<Rightarrow> [(''feedback'', JObj f)]
     | LegacyFeedbackImported f \<Rightarrow> [(''feedback'', JObj f)]
     | FieldReportRecorded r \<Rightarrow> [(''field_report'', report_dict r)]
     | ResolutionRecorded r \<Rightarrow> [(''resolution'', resolution_dict r)]
     | LifecycleRequested l \<Rightarrow> [(''governance_lifecycle'', change_dict l)]
     | LifecycleRecorded l \<Rightarrow> [(''governance_lifecycle'', change_dict l)])"

subsection \<open>Fingerprints\<close>

text \<open>What the client asked for: the payload without the server's clock and identity fields.\<close>

fun client_intent :: "json \<Rightarrow> json"
  and intent_items :: "jdict \<Rightarrow> jdict"
  and intent_list :: "json list \<Rightarrow> json list" where
  "client_intent (JObj d) = JObj (intent_items d)"
| "client_intent (JList xs) = JList (intent_list xs)"
| "client_intent v = v"
| "intent_items [] = []"
| "intent_items ((k, v) # d) =
     (if k \<in> {''actor'', ''recorded_at'', ''resolved_at''} then intent_items d
      else (k, client_intent v) # intent_items d)"
| "intent_list [] = []"
| "intent_list (x # xs) = client_intent x # intent_list xs"

definition fingerprint :: "('a) host_scheme \<Rightarrow> string \<Rightarrow> event_body \<Rightarrow> string" where
  "fingerprint H actor b = h_sha256_json H (canon (JObj ((''event_type'', JStr (event_type b))
     # intent_items ((''actor_identity'', JStr actor) # payload_dict b))))"

subsection \<open>The append\<close>

definition find_case :: "workflow_db \<Rightarrow> string \<Rightarrow> string \<Rightarrow> finding_case option" where
  "find_case s scope fid = next_or (\<lambda>c. fc_finding_id c = fid \<and> fc_scope_storage_id c = Some scope) (wd_cases s)"

definition events_of :: "workflow_db \<Rightarrow> string \<Rightarrow> workflow_event list" where
  "events_of s fid = sort_key we_version (filter (\<lambda>e. we_finding_id e = fid) (wd_events s))"

definition max_event_version :: "workflow_event list \<Rightarrow> int" where
  "max_event_version es = fold (\<lambda>e m. max m (we_version e)) es 0"

definition current_version :: "workflow_db \<Rightarrow> string \<Rightarrow> int" where
  "current_version s fid = max_event_version (events_of s fid)"

definition clean_text :: "string option \<Rightarrow> string option" where
  "clean_text v = (case v of None \<Rightarrow> None | Some t \<Rightarrow> let u = strip t in if u = [] then None else Some u)"

definition is_lifecycle :: "workflow_event \<Rightarrow> bool" where
  "is_lifecycle e = (case we_body e of LifecycleRecorded _ \<Rightarrow> True | _ \<Rightarrow> False)"

definition last_lifecycle_id :: "workflow_db \<Rightarrow> string \<Rightarrow> string option" where
  "last_lifecycle_id s fid = (case rev (filter is_lifecycle (events_of s fid)) of
     [] \<Rightarrow> None | e # es \<Rightarrow> Some (we_event_id e))"

text \<open>Constructing the stored payload; only a lifecycle request is checked and changed.\<close>

definition stored_body ::
  "'a workflow_host_scheme \<Rightarrow> workflow_db \<Rightarrow> string \<Rightarrow> string \<Rightarrow> int \<Rightarrow> string \<Rightarrow> string \<Rightarrow> event_body \<Rightarrow> event_body wf" where
  "stored_body H s fid eid version recorded actor b = (case b of
       LifecycleRequested l \<Rightarrow>
         if lc_previous_event_id l \<noteq> last_lifecycle_id s fid
         then Inl (WorkflowConflict ''stale_lifecycle_predecessor'' (version - 1))
         else (case w_instant H recorded of
             None \<Rightarrow> Inl (GovernanceInvalid (ValidationError ''recorded_at''))
           | Some t \<Rightarrow>
             (case validate_lifecycle_event \<lparr>lc_state = lc_state l, lc_previous_event_id = lc_previous_event_id l,
                  lc_effective_at = lc_effective_at l, lc_evidence_ids = lc_evidence_ids l, lc_reasons = lc_reasons l,
                  lc_source_run_id = lc_source_run_id l, lc_provenance = lc_provenance l,
                  le_event_id = eid, le_finding_id = fid, le_version = version, le_recorded_at = t, le_actor = actor\<rparr> of
                Inl e \<Rightarrow> Inl (GovernanceInvalid e)
              | Inr x \<Rightarrow> Inr (LifecycleRecorded x)))
     | _ \<Rightarrow> Inr b)"

definition append_event ::
  "'a workflow_host_scheme \<Rightarrow> string \<Rightarrow> string \<Rightarrow> event_body \<Rightarrow> string \<Rightarrow> int option \<Rightarrow> string option \<Rightarrow> string
   \<Rightarrow> workflow_db \<Rightarrow> (workflow_db \<times> workflow_event) wf" where
  "append_event H scope fid b actor expected key recorded s =
     (if find_case s scope fid = None then Inl FindingNotFound
      else
        let version = current_version s fid; k = clean_text key; fp = fingerprint H actor b;
            eid = w_uuid H (wd_drawn s);
            fresh =
              (if expected \<noteq> None \<and> expected \<noteq> Some version
               then Inl (WorkflowConflict ''stale_workflow_version'' version)
               else bindE (stored_body H s fid eid (version + 1) recorded actor b) (\<lambda>body.
               let e = \<lparr>we_event_id = eid, we_finding_id = fid, we_version = version + 1,
                 we_recorded_at = recorded, we_actor = actor, we_idempotency_key = k,
                 we_fingerprint = fp, we_body = body\<rparr> in
               Inr (s\<lparr>wd_events := wd_events s @ [e], wd_drawn := wd_drawn s + 1\<rparr>, e)))
        in (case k of
              None \<Rightarrow> fresh
            | Some i \<Rightarrow>
                (case next_or (\<lambda>e. we_idempotency_key e = Some i) (events_of s fid) of
                   None \<Rightarrow> fresh
                 | Some prior \<Rightarrow>
                     if we_fingerprint prior \<noteq> fp then Inl (WorkflowConflict ''idempotency_key_reused'' version)
                     else Inr (s, prior))))"

subsection \<open>The projection\<close>

definition WORKFLOW_FIELDS :: "string list" where
  "WORKFLOW_FIELDS = [''status'', ''user_priority'', ''assignment'', ''due_at'', ''manager_note'',
     ''work_order_reference'', ''external_reference'', ''validation_outcome'', ''validation_note'']"

record assignment_entry =
  an_action :: string
  an_from :: json
  an_to :: json
  an_actor :: string
  an_recorded_at :: string
  an_version :: int

text \<open>The workflow dict; \<open>wv_fields\<close> holds the nine workflow fields.\<close>

record workflow_view =
  wv_version :: int
  wv_fields :: jdict
  wv_recommended_priority :: json
  wv_effective_priority :: json
  wv_assigned_by :: "string option"
  wv_assignment_history :: "assignment_entry list"
  wv_latest_feedback :: json
  wv_latest_field_report :: "field_report option"
  wv_field_reports :: "field_report list"
  wv_resolution :: "resolution option"
  wv_updated_at :: "string option"
  wv_updated_by :: "string option"

abbreviation wv_get :: "workflow_view \<Rightarrow> string \<Rightarrow> json" where
  "wv_get w f \<equiv> jget (wv_fields w) f"

definition default_workflow :: "finding_case \<Rightarrow> workflow_view" where
  "default_workflow c = (let snapshot = as_dict (product_evidence (JObj (fc_source_snapshot c)));
       recommended = jget snapshot ''recommended_priority'' in
     \<lparr>wv_version = 0,
      wv_fields = [(''status'', por (jget snapshot ''initial_status'') (JStr ''open'')), (''user_priority'', JNull),
        (''assignment'', JNull), (''due_at'', JNull), (''manager_note'', JNull), (''work_order_reference'', JNull),
        (''external_reference'', JNull), (''validation_outcome'', JNull), (''validation_note'', JNull)],
      wv_recommended_priority = recommended, wv_effective_priority = recommended, wv_assigned_by = None,
      wv_assignment_history = [], wv_latest_feedback = JNull, wv_latest_field_report = None,
      wv_field_reports = [], wv_resolution = None, wv_updated_at = None, wv_updated_by = None\<rparr>)"

definition set_fields :: "jdict \<Rightarrow> jdict \<Rightarrow> jdict" where
  "set_fields ch d = fold (\<lambda>f d. if jhas ch f then jset d f (jget ch f) else d) WORKFLOW_FIELDS d"

definition project_changes :: "workflow_event \<Rightarrow> jdict \<Rightarrow> workflow_view \<Rightarrow> workflow_view" where
  "project_changes e ch w =
     (let prior = wv_get w ''assignment''; w' = w\<lparr>wv_fields := set_fields ch (wv_fields w)\<rparr> in
      if jhas ch ''assignment'' then
        let a = jget ch ''assignment'' in
        w'\<lparr>wv_assigned_by := (if truthy a then Some (we_actor e) else None),
           wv_assignment_history := wv_assignment_history w @ [\<lparr>
             an_action = (if truthy prior \<and> truthy a then ''reassigned''
               else if truthy a then ''assigned'' else ''unassigned''),
             an_from = prior, an_to = a, an_actor = we_actor e, an_recorded_at = we_recorded_at e,
             an_version = we_version e\<rparr>]\<rparr>
      else w')"

definition set_field :: "string \<Rightarrow> json \<Rightarrow> workflow_view \<Rightarrow> workflow_view" where
  "set_field f v w = w\<lparr>wv_fields := jset (wv_fields w) f v\<rparr>"

definition project_feedback :: "jdict \<Rightarrow> workflow_view \<Rightarrow> workflow_view" where
  "project_feedback f w =
     (let w1 = w\<lparr>wv_latest_feedback := (if f = [] then JNull else JObj f)\<rparr>;
          w2 = (if truthy (jget f ''outcome'') then set_field ''validation_outcome'' (jget f ''outcome'') w1 else w1)
      in if truthy (jget f ''note'') then set_field ''validation_note'' (jget f ''note'') w2 else w2)"

definition project_report :: "field_report \<Rightarrow> workflow_view \<Rightarrow> workflow_view" where
  "project_report r w =
     (let w1 = w\<lparr>wv_latest_field_report := Some r, wv_field_reports := wv_field_reports w @ [r]\<rparr> in
      if fr_needs_escalation r then set_field ''status'' (JStr ''escalated'') w1
      else if fr_investigation_complete r then set_field ''status'' (JStr ''awaiting_review'') w1
      else w1)"

definition project_resolution :: "resolution \<Rightarrow> workflow_view \<Rightarrow> workflow_view" where
  "project_resolution r w =
     set_field ''validation_note'' (jopt JStr (rs_note r))
       (set_field ''validation_outcome'' (JStr (rs_outcome r))
         (set_field ''status'' (JStr ''resolved'') (w\<lparr>wv_resolution := Some r\<rparr>)))"

definition project_event :: "workflow_event \<Rightarrow> workflow_view \<Rightarrow> workflow_view" where
  "project_event e w =
     (let w1 = (case we_body e of
          WorkflowUpdated ch cm \<Rightarrow> project_changes e ch w
        | LegacyStatusImported ch cm \<Rightarrow> project_changes e ch w
        | FeedbackRecorded f \<Rightarrow> project_feedback f w
        | LegacyFeedbackImported f \<Rightarrow> project_feedback f w
        | FieldReportRecorded r \<Rightarrow> project_report r w
        | ResolutionRecorded r \<Rightarrow> project_resolution r w
        | _ \<Rightarrow> w)
      in w1\<lparr>wv_version := (if we_version e \<noteq> 0 then we_version e else wv_version w),
            wv_updated_at := Some (we_recorded_at e), wv_updated_by := Some (we_actor e)\<rparr>)"

definition project :: "finding_case \<Rightarrow> workflow_event list \<Rightarrow> workflow_view" where
  "project c es = (let w = fold project_event es (default_workflow c) in
     w\<lparr>wv_effective_priority := por (wv_get w ''user_priority'') (wv_recommended_priority w)\<rparr>)"

subsection \<open>What the log keeps\<close>

definition case_events :: "workflow_db \<Rightarrow> string \<Rightarrow> workflow_event list" where
  "case_events s fid = filter (\<lambda>e. we_finding_id e = fid) (wd_events s)"

definition numbered :: "workflow_event list \<Rightarrow> bool" where
  "numbered es = (map we_version es = map (\<lambda>n. int n + 1) [0..<length es])"

definition keys_of :: "workflow_event list \<Rightarrow> string list" where
  "keys_of es = concat (map (\<lambda>e. case we_idempotency_key e of None \<Rightarrow> [] | Some k \<Rightarrow> [k]) es)"

definition log_ok :: "'a workflow_host_scheme \<Rightarrow> workflow_db \<Rightarrow> bool" where
  "log_ok H s \<longleftrightarrow> (\<forall>fid. numbered (case_events s fid) \<and> distinct (keys_of (case_events s fid)))
     \<and> (\<forall>e \<in> set (wd_events s). \<exists>n < wd_drawn s. we_event_id e = w_uuid H n)
     \<and> (\<forall>e \<in> set (wd_events s). \<exists>c \<in> set (wd_cases s). fc_finding_id c = we_finding_id e)"

lemma numbered_sorted: "numbered es \<Longrightarrow> sort_key we_version es = es"
  by (rule sort_key_sorted_id) (simp add: numbered_def sorted_map sorted_wrt_map [symmetric] sorted_iff_nth_mono)

lemma events_of_case_events: "log_ok H s \<Longrightarrow> events_of s fid = case_events s fid"
  by (simp add: events_of_def case_events_def [symmetric] numbered_sorted log_ok_def)

lemma fold_max:
  "\<forall>e \<in> set es. we_version e \<le> b \<Longrightarrow> fold (\<lambda>e m. max m (we_version e)) es n \<le> max n b"
  "n \<le> fold (\<lambda>e m. max m (we_version e)) es n"
  "e \<in> set es \<Longrightarrow> we_version e \<le> fold (\<lambda>e m. max m (we_version e)) es n"
proof (induction es arbitrary: n)
  case (Cons x es)
  { case 1 with Cons.IH(1) [of "max n (we_version x)"] show ?case by auto }
  { case 2 from Cons.IH(2) [of "max n (we_version x)"] show ?case by auto }
  { case 3 with Cons.IH(2,3) [of "max n (we_version x)"] show ?case by auto }
qed simp_all

lemma numbered_nth: "numbered es \<Longrightarrow> i < length es \<Longrightarrow> we_version (es ! i) = int i + 1"
  unfolding numbered_def by (metis (no_types, lifting) add_0 diff_zero length_map length_upt nth_map nth_upt)

lemma numbered_max:
  assumes n: "numbered es"
  shows "max_event_version es = int (length es)"
proof (cases es rule: rev_cases)
  case Nil
  then show ?thesis by (simp add: max_event_version_def)
next
  case (snoc es' e)
  have "we_version e = int (length es)" using numbered_nth [OF n, of "length es'"] by (simp add: snoc)
  then have "int (length es) \<le> max_event_version es"
    unfolding max_event_version_def using fold_max(3) [of e es 0] by (simp add: snoc)
  moreover have "\<forall>x \<in> set es. we_version x \<le> int (length es)"
    using numbered_nth [OF n] by (auto simp: in_set_conv_nth)
  then have "max_event_version es \<le> int (length es)"
    unfolding max_event_version_def using fold_max(1) [of es "int (length es)" 0] by simp
  ultimately show ?thesis by simp
qed

lemma current_version_length: "log_ok H s \<Longrightarrow> current_version s fid = int (length (case_events s fid))"
  unfolding current_version_def by (simp add: events_of_case_events) (simp add: numbered_max log_ok_def)

lemma numbered_snoc: "numbered es \<Longrightarrow> we_version e = int (length es) + 1 \<Longrightarrow> numbered (es @ [e])"
  by (simp add: numbered_def)

lemma keys_of_mem: "e \<in> set es \<Longrightarrow> we_idempotency_key e = Some k \<Longrightarrow> k \<in> set (keys_of es)"
  unfolding keys_of_def by force

lemma keys_of_next: "next_or (\<lambda>e. we_idempotency_key e = Some k) es = None \<longleftrightarrow> k \<notin> set (keys_of es)"
  by (auto simp: next_or_None keys_of_def split: option.splits)

lemma find_case_Some: "find_case s scope fid = Some c \<Longrightarrow>
  c \<in> set (wd_cases s) \<and> fc_finding_id c = fid \<and> fc_scope_storage_id c = Some scope"
  by (auto simp: find_case_def dest: next_or_Some)

text \<open>An append either returns a prior event for its key or adds the next version.\<close>

lemma append_event_Inr:
  assumes "append_event H scope fid b actor expected key recorded s = Inr (s', e)"
  obtains (replay) k where "clean_text key = Some k" "s' = s" "e \<in> set (events_of s fid)"
      "we_idempotency_key e = Some k" "we_fingerprint e = fingerprint H actor b"
      "find_case s scope fid \<noteq> None"
      "next_or (\<lambda>e. we_idempotency_key e = Some k) (events_of s fid) = Some e"
  | (added) body where "expected = None \<or> expected = Some (current_version s fid)"
      "stored_body H s fid (w_uuid H (wd_drawn s)) (current_version s fid + 1) recorded actor b = Inr body"
      "e = \<lparr>we_event_id = w_uuid H (wd_drawn s), we_finding_id = fid, we_version = current_version s fid + 1,
         we_recorded_at = recorded, we_actor = actor, we_idempotency_key = clean_text key,
         we_fingerprint = fingerprint H actor b, we_body = body\<rparr>"
      "s' = s\<lparr>wd_events := wd_events s @ [e], wd_drawn := wd_drawn s + 1\<rparr>"
      "find_case s scope fid \<noteq> None"
      "\<forall>k. clean_text key = Some k \<longrightarrow> k \<notin> set (keys_of (events_of s fid))"
proof -
  let ?next = "\<lambda>k. next_or (\<lambda>e. we_idempotency_key e = Some k) (events_of s fid)"
  from assms have c: "find_case s scope fid \<noteq> None" by (auto simp: append_event_def split: if_splits)
  show thesis
  proof (cases "\<exists>k p. clean_text key = Some k \<and> ?next k = Some p")
    case True
    then obtain k p where k: "clean_text key = Some k" "?next k = Some p" by blast
    with assms c have "s' = s" "e = p" "we_fingerprint p = fingerprint H actor b"
      by (auto simp: append_event_def Let_def split: if_splits)
    with k next_or_Some [OF k(2)] c show thesis by (intro replay) simp_all
  next
    case False
    then have fresh: "\<forall>k. clean_text key = Some k \<longrightarrow> k \<notin> set (keys_of (events_of s fid))"
      by (auto simp: keys_of_next [symmetric])
    with assms c False obtain body where "expected = None \<or> expected = Some (current_version s fid)"
      "stored_body H s fid (w_uuid H (wd_drawn s)) (current_version s fid + 1) recorded actor b = Inr body"
      "e = \<lparr>we_event_id = w_uuid H (wd_drawn s), we_finding_id = fid, we_version = current_version s fid + 1,
         we_recorded_at = recorded, we_actor = actor, we_idempotency_key = clean_text key,
         we_fingerprint = fingerprint H actor b, we_body = body\<rparr>"
      "s' = s\<lparr>wd_events := wd_events s @ [e], wd_drawn := wd_drawn s + 1\<rparr>"
      by (auto simp: append_event_def Let_def bindE_eq_Inr split: option.splits if_splits)
    with fresh c show thesis by (intro added) simp_all
  qed
qed

lemma append_event_keeps:
  assumes a: "append_event H scope fid b actor expected key recorded s = Inr (s', e)" and ok: "log_ok H s"
  shows "log_ok H s'"
  using a
proof (cases rule: append_event_Inr)
  case (replay k)
  with ok show ?thesis by simp
next
  case (added body)
  have new: "case_events s' f = case_events s f @ (if f = fid then [e] else [])" for f
    by (simp add: added(3,4) case_events_def)
  have "numbered (case_events s' f)" for f
    using ok numbered_snoc [of "case_events s fid" e]
    by (simp add: new log_ok_def added(3) current_version_length [OF ok])
  moreover have "distinct (keys_of (case_events s' f))" for f
  proof -
    have "keys_of (case_events s' f) = keys_of (case_events s f)
        @ (if f = fid then (case clean_text key of None \<Rightarrow> [] | Some k \<Rightarrow> [k]) else [])"
      by (simp add: new keys_of_def added(3))
    moreover have "k \<notin> set (keys_of (case_events s fid))" if "clean_text key = Some k" for k
      using added(6) that by (simp add: events_of_case_events [OF ok])
    moreover have "distinct (keys_of (case_events s f))" using ok by (simp add: log_ok_def)
    ultimately show ?thesis by (cases "f = fid"; cases "clean_text key") simp_all
  qed
  moreover have "\<forall>x \<in> set (wd_events s'). \<exists>n < wd_drawn s'. we_event_id x = w_uuid H n"
    using ok by (auto simp: log_ok_def added(3,4) less_Suc_eq)
  moreover have "\<forall>x \<in> set (wd_events s'). \<exists>c \<in> set (wd_cases s'). fc_finding_id c = we_finding_id x"
    using ok added(5) find_case_Some by (fastforce simp: log_ok_def added(3,4))
  ultimately show ?thesis by (simp add: log_ok_def)
qed

lemma append_event_prefix:
  assumes a: "append_event H scope fid b actor expected key recorded s = Inr (s', e)"
  shows "case_events s' f = case_events s f @ (if f = fid \<and> s' \<noteq> s then [e] else [])"
    and "wd_cases s' = wd_cases s" and "e \<in> set (case_events s' fid)"
proof -
  have "case_events s' f = case_events s f @ (if f = fid \<and> s' \<noteq> s then [e] else [])
    \<and> wd_cases s' = wd_cases s \<and> e \<in> set (case_events s' fid)"
    using a
  proof (cases rule: append_event_Inr)
    case (replay k)
    then show ?thesis by (simp add: case_events_def events_of_def)
  next
    case (added body)
    have "wd_drawn s' \<noteq> wd_drawn s" by (simp add: added(4))
    then have "s' \<noteq> s" by metis
    then show ?thesis by (simp add: case_events_def added(3,4))
  qed
  then show "case_events s' f = case_events s f @ (if f = fid \<and> s' \<noteq> s then [e] else [])"
    and "wd_cases s' = wd_cases s" and "e \<in> set (case_events s' fid)" by blast+
qed

end
