(* ===== verification/Finding_Cases.thy ===== *)
theory Finding_Cases
  imports Finding_Log
begin

text \<open>
  The finding cases of \<^verbatim>\<open>services/finding_workflow.py\<close>: materialising a case per finding of an evidence
  run or per live finding, importing a run's legacy status and feedback history, and reading a case.

  The current dataset scope is the argument \<open>sc\<close>, the clock (\<open>now_iso\<close>) the argument \<open>now\<close>. Reading
  a case imports legacy events, and importing a feedback event reads the case again; \<open>read_finding_case\<close>
  takes the depth of that recursion as fuel, and \<open>None\<close> is a recursion deeper than the fuel.
\<close>

record evidence_row =
  er_run_id :: string
  er_scope :: "string option"
  er_created_at :: string
  er_record :: jdict

record live_row =
  lv_finding_id :: string
  lv_scope :: "string option"
  lv_run_id :: string
  lv_created_at :: string
  lv_current_state :: string
  lv_system_id :: json
  lv_relationship_identity :: json
  lv_classification :: json
  lv_first_detected_at :: json
  lv_last_observed_at :: json
  lv_latest_evidence :: json
  lv_baseline_reference :: json

record legacy_row =
  lg_run_id :: string
  lg_event_id :: string
  lg_payload :: jdict

record finding_db =
  fd_log :: workflow_db
  fd_evidence :: "evidence_row list"
  fd_live :: "live_row list"
  fd_status_events :: "legacy_row list"
  fd_feedback_events :: "legacy_row list"

text \<open>
  An operation returns the store with its result or its error: what an earlier transaction of the
  operation committed stays, and a failing transaction is rolled back.
\<close>

type_synonym 'a run = "(finding_db \<times> 'a wf) option"

definition bindR :: "'a run \<Rightarrow> ('a \<Rightarrow> finding_db \<Rightarrow> 'b run) \<Rightarrow> 'b run" where
  "bindR m f = (case m of None \<Rightarrow> None | Some (s, Inl e) \<Rightarrow> Some (s, Inl e) | Some (s, Inr x) \<Rightarrow> f x s)"

definition transact :: "finding_db \<Rightarrow> (finding_db \<times> 'a) wf \<Rightarrow> 'a run" where
  "transact s m = Some (case m of Inl e \<Rightarrow> (s, Inl e) | Inr (s', x) \<Rightarrow> (s', Inr x))"

subsection \<open>Materialising cases\<close>

text \<open>\<open>INSERT OR IGNORE INTO finding_cases\<close>: the id and the source triple are unique.\<close>

definition insert_case :: "finding_case \<Rightarrow> finding_db \<Rightarrow> finding_db" where
  "insert_case c s = (if list_ex (\<lambda>d. fc_finding_id d = fc_finding_id c
       \<or> (fc_source_kind d = fc_source_kind c \<and> fc_source_id d = fc_source_id c
          \<and> fc_source_finding_key d = fc_source_finding_key c)) (wd_cases (fd_log s))
     then s else s\<lparr>fd_log := (fd_log s)\<lparr>wd_cases := wd_cases (fd_log s) @ [c]\<rparr>\<rparr>)"

definition evidence_case :: "'a host_scheme \<Rightarrow> string \<Rightarrow> jdict \<Rightarrow> dataset_scope option \<Rightarrow> string \<Rightarrow> source_finding \<Rightarrow> finding_case" where
  "evidence_case H run r ds created kf = (case kf of (key, f) \<Rightarrow>
     \<lparr>fc_finding_id = evidence_finding_id H run key, fc_source_kind = EvidenceRun, fc_source_id = run,
      fc_source_finding_key = key, fc_scope_storage_id = map_option (storage_id H) ds, fc_dataset_scope = ds,
      fc_source_snapshot = evidence_source_snapshot H r key f, fc_created_at = created\<rparr>)"

fun insert_evidence_cases ::
  "'a host_scheme \<Rightarrow> string \<Rightarrow> jdict \<Rightarrow> dataset_scope option \<Rightarrow> string \<Rightarrow> source_finding list \<Rightarrow> finding_db
   \<Rightarrow> (finding_db \<times> string list) wf" where
  "insert_evidence_cases H run r ds created [] s = Inr (s, [])"
| "insert_evidence_cases H run r ds created (kf # cs) s =
     (let c = evidence_case H run r ds created kf; s1 = insert_case c s;
          existing = (case next_or (\<lambda>d. fc_finding_id d = fc_finding_id c) (wd_cases (fd_log s1)) of
            None \<Rightarrow> None | Some d \<Rightarrow> fc_scope_storage_id d) in
      if existing \<noteq> fc_scope_storage_id c \<and> (existing \<noteq> None \<or> fc_scope_storage_id c \<noteq> None)
      then Inl CaseScopeConflict
      else bindE (insert_evidence_cases H run r ds created cs s1) (\<lambda>(s2, ids).
        Inr (s2, fc_finding_id c # ids)))"

text \<open>A run without a finding of its own is materialised only once its analysis is complete.\<close>

definition explicit_snapshot :: "jdict \<Rightarrow> bool" where
  "explicit_snapshot r = (case jget r ''finding_identity_snapshot'' of JList xs \<Rightarrow> xs \<noteq> [] | _ \<Rightarrow> False)"

definition explicit_condition :: "jdict \<Rightarrow> bool" where
  "explicit_condition r = (truthy (jget r ''condition_id'')
     \<or> (is_dict (jget r ''condition'') \<and> truthy (jget r ''condition'')))"

definition provisional :: "'a host_scheme \<Rightarrow> jdict \<Rightarrow> bool" where
  "provisional H r = (\<not> (explicit_snapshot r \<or> explicit_condition r)
     \<and> lower (strip (py_text H (jget r ''status''))) \<notin> {''complete'', ''completed'', ''completed_compatibility''})"

definition live_snapshot :: "live_row \<Rightarrow> jdict" where
  "live_snapshot v = [(''source_run_id'', JStr (lv_run_id v)), (''source_type'', JStr ''live_analysis''),
     (''source_finding_key'', JStr (lv_finding_id v)), (''created_at'', JStr (lv_created_at v)),
     (''recommended_priority'', JNull),
     (''initial_status'', JStr (if lv_current_state v = ''resolved'' then ''resolved'' else ''open'')),
     (''finding'', JObj [(''finding_id'', JStr (lv_finding_id v)), (''system_id'', lv_system_id v),
       (''relationship_identity'', lv_relationship_identity v), (''classification'', lv_classification v),
       (''first_detected_at'', lv_first_detected_at v), (''last_observed_at'', lv_last_observed_at v),
       (''latest_evidence'', lv_latest_evidence v), (''baseline_reference'', lv_baseline_reference v)])]"

definition live_case :: "'a host_scheme \<Rightarrow> dataset_scope \<Rightarrow> live_row \<Rightarrow> finding_case" where
  "live_case H sc v = \<lparr>fc_finding_id = lv_finding_id v, fc_source_kind = LiveFinding, fc_source_id = lv_finding_id v,
     fc_source_finding_key = lv_finding_id v, fc_scope_storage_id = Some (storage_id H sc), fc_dataset_scope = Some sc,
     fc_source_snapshot = live_snapshot v, fc_created_at = lv_created_at v\<rparr>"

text \<open>An empty text in the optional arguments is Python's false.\<close>

definition given :: "string option \<Rightarrow> string option" where
  "given v = (if v = Some [] then None else v)"

definition live_rows :: "'a host_scheme \<Rightarrow> dataset_scope \<Rightarrow> string option \<Rightarrow> string option \<Rightarrow> finding_db \<Rightarrow> live_row list" where
  "live_rows H sc fid run s = filter (\<lambda>v. lv_scope v = Some (storage_id H sc)
     \<and> (case given fid of Some f \<Rightarrow> lv_finding_id v = f
        | None \<Rightarrow> (case given run of Some r \<Rightarrow> lv_run_id v = r | None \<Rightarrow> True))) (fd_live s)"

definition materialize_live_finding_cases ::
  "'a host_scheme \<Rightarrow> dataset_scope \<Rightarrow> string option \<Rightarrow> string option \<Rightarrow> finding_db \<Rightarrow> finding_db \<times> string list" where
  "materialize_live_finding_cases H sc fid run s =
     (let rows = live_rows H sc fid run s in
      (fold (\<lambda>v. insert_case (live_case H sc v)) rows s, map lv_finding_id rows))"

subsection \<open>Legacy history\<close>

datatype legacy_kind = LegacyStatus | LegacyFeedback

type_synonym legacy_event = "legacy_kind \<times> jdict"

definition legacy_table :: "legacy_kind \<Rightarrow> string \<Rightarrow> legacy_row list \<Rightarrow> legacy_event list" where
  "legacy_table k run rows = map (\<lambda>g. (k, if jhas (lg_payload g) ''event_id'' then lg_payload g
     else jset (lg_payload g) ''event_id'' (JStr (lg_event_id g)))) (filter (\<lambda>g. lg_run_id g = run) rows)"

fun legacy_embedded :: "legacy_kind \<Rightarrow> string \<Rightarrow> int \<Rightarrow> json list \<Rightarrow> legacy_event list" where
  "legacy_embedded k prefix i [] = []"
| "legacy_embedded k prefix i (x # xs) =
     (case x of
        JObj d \<Rightarrow> (k, jset d ''event_id'' (por (jget d ''event_id'') (JStr (prefix @ str_of_int i))))
          # legacy_embedded k prefix (i + 1) xs
      | _ \<Rightarrow> legacy_embedded k prefix (i + 1) xs)"

fun legacy_dedupe ::
  "'a host_scheme \<Rightarrow> (legacy_kind \<times> string) list \<Rightarrow> (legacy_kind \<times> string) list \<Rightarrow> legacy_event list \<Rightarrow> legacy_event list" where
  "legacy_dedupe H ids contents [] = []"
| "legacy_dedupe H ids contents ((k, e) # es) =
     (let eid = clean H (jget e ''event_id'');
          content = filter (\<lambda>(f, v). f \<notin> {''event_id'', ''run_id''}) e;
          ckey = (k, h_sha256_json H (canon (JObj content)));
          ikey = (k, the_or eid []) in
      if (eid \<noteq> None \<and> ikey \<in> set ids) \<or> ckey \<in> set contents then legacy_dedupe H ids contents es
      else (k, e) # legacy_dedupe H (if eid \<noteq> None then ikey # ids else ids) (ckey # contents) es)"

definition read_evidence :: "'a host_scheme \<Rightarrow> dataset_scope \<Rightarrow> string \<Rightarrow> finding_db \<Rightarrow> jdict option" where
  "read_evidence H sc run s = map_option er_record
     (next_or (\<lambda>r. er_run_id r = run \<and> er_scope r = Some (storage_id H sc)) (fd_evidence s))"

definition legacy_events :: "'a host_scheme \<Rightarrow> dataset_scope \<Rightarrow> string \<Rightarrow> finding_db \<Rightarrow> legacy_event list" where
  "legacy_events H sc run s =
     (let record = the_or (read_evidence H sc run s) [] in
      legacy_table LegacyStatus run (fd_status_events s)
      @ legacy_table LegacyFeedback run (fd_feedback_events s)
      @ legacy_embedded LegacyStatus ''embedded-status-'' 0 (py_list (jget record ''finding_status_history''))
      @ legacy_embedded LegacyFeedback ''embedded-feedback-'' 0 (py_list (jget record ''operator_feedback_history'')))"

definition legacy_history :: "'a host_scheme \<Rightarrow> dataset_scope \<Rightarrow> string \<Rightarrow> finding_db \<Rightarrow> legacy_event list" where
  "legacy_history H sc run s = legacy_dedupe H [] []
     (sort_key (\<lambda>(k, e). (py_text H (jget e ''recorded_at''), py_text H (jget e ''event_id''))) (legacy_events H sc run s))"

definition legacy_id :: "'a host_scheme \<Rightarrow> jdict \<Rightarrow> string" where
  "legacy_id H e = (if truthy (jget e ''event_id'') then py_str H (jget e ''event_id'') else h_sha256_json H (canon (JObj e)))"

definition legacy_actor :: "'a host_scheme \<Rightarrow> jdict \<Rightarrow> string" where
  "legacy_actor H e = py_str H (por (jget e ''actor'') (por (jget e ''owner'') (JStr ''legacy-operator'')))"

definition legacy_time :: "'a host_scheme \<Rightarrow> string \<Rightarrow> jdict \<Rightarrow> string" where
  "legacy_time H now e = (if truthy (jget e ''recorded_at'') then py_str H (jget e ''recorded_at'') else now)"

definition legacy_changes :: "'a host_scheme \<Rightarrow> jdict \<Rightarrow> jdict" where
  "legacy_changes H e = [(''status'', por (jget e ''state'') (por (jget e ''status'') (JStr ''open''))),
       (''manager_note'', jget e ''note''), (''work_order_reference'', jget e ''work_order_reference'')]
     @ (case clean H (jget e ''assignee'') of None \<Rightarrow> []
        | Some a \<Rightarrow> [(''assignment'', JObj [(''target_type'', JStr ''person''), (''label'', JStr a), (''external_ref'', JNull)])])"

subsection \<open>Reading a case\<close>

text \<open>The response of a case, without its governance block, which the runtime governance store supplies.\<close>

record finding_view =
  fv_finding_id :: string
  fv_source_kind :: source_kind
  fv_source_id :: string
  fv_source_finding_key :: string
  fv_run_id :: json
  fv_evidence :: jdict
  fv_measurable_consequence :: json
  fv_workflow :: workflow_view
  fv_activity_count :: nat
  fv_latest_event_at :: "string option"
  fv_activity_url :: string
  fv_created_at :: string

definition unavailable_consequence :: json where
  "unavailable_consequence = JObj [(''status'', JStr ''not_quantifiable''),
     (''statement'', JStr ''Consequence not quantifiable from available evidence.'')]"

definition case_response :: "finding_case \<Rightarrow> workflow_event list \<Rightarrow> finding_view" where
  "case_response c es = (let snapshot = as_dict (product_evidence (JObj (fc_source_snapshot c)));
       finding = as_dict (jget snapshot ''finding'') in
     \<lparr>fv_finding_id = fc_finding_id c, fv_source_kind = fc_source_kind c, fv_source_id = fc_source_id c,
      fv_source_finding_key = fc_source_finding_key c, fv_run_id = jget snapshot ''source_run_id'',
      fv_evidence = snapshot,
      fv_measurable_consequence = (if jhas finding ''measurable_consequence''
        then jget finding ''measurable_consequence'' else unavailable_consequence),
      fv_workflow = project c es, fv_activity_count = length es,
      fv_latest_event_at = (if es = [] then None else Some (we_recorded_at (last es))),
      fv_activity_url = ''/api/findings/'' @ fc_finding_id c @ ''/activity'', fv_created_at = fc_created_at c\<rparr>)"

type_synonym reader = "string \<Rightarrow> finding_db \<Rightarrow> finding_view run"

definition append_to ::
  "'a workflow_host_scheme \<Rightarrow> dataset_scope \<Rightarrow> string \<Rightarrow> event_body \<Rightarrow> string \<Rightarrow> int option \<Rightarrow> string option \<Rightarrow> string
   \<Rightarrow> finding_db \<Rightarrow> (finding_db \<times> workflow_event) wf" where
  "append_to H sc fid b actor expected key recorded s =
     bindE (append_event H (storage_id H sc) fid b actor expected key recorded (fd_log s)) (\<lambda>(l, e).
     Inr (s\<lparr>fd_log := l\<rparr>, e))"

definition feedback_dict :: "jdict \<Rightarrow> string \<Rightarrow> string \<Rightarrow> jdict" where
  "feedback_dict f actor recorded = jset (jset f ''actor'' (JStr actor)) ''recorded_at'' (JStr recorded)"

definition record_feedback_with ::
  "reader \<Rightarrow> 'a workflow_host_scheme \<Rightarrow> dataset_scope \<Rightarrow> string \<Rightarrow> (jdict \<Rightarrow> event_body) \<Rightarrow> jdict \<Rightarrow> int option \<Rightarrow> string
   \<Rightarrow> string option \<Rightarrow> string \<Rightarrow> finding_db \<Rightarrow> finding_view run" where
  "record_feedback_with rd H sc fid mk f expected actor key recorded s =
     bindR (transact s (append_to H sc fid (mk (feedback_dict f actor recorded)) actor expected key recorded s)) (\<lambda>e. rd fid)"

fun import_legacy ::
  "reader \<Rightarrow> 'a workflow_host_scheme \<Rightarrow> dataset_scope \<Rightarrow> string \<Rightarrow> string \<Rightarrow> string \<Rightarrow> legacy_event list \<Rightarrow> finding_db \<Rightarrow> unit run" where
  "import_legacy rd H sc now run fid [] s = Some (s, Inr ())"
| "import_legacy rd H sc now run fid ((LegacyStatus, e) # es) s =
     bindR (transact s (append_to H sc fid
         (LegacyStatusImported (legacy_changes H e) [(''run_id'', JStr run), (''legacy_event_id'', JStr (legacy_id H e))])
         (legacy_actor H e) None (Some (''legacy-status:'' @ legacy_id H e)) (legacy_time H now e) s))
       (\<lambda>x. import_legacy rd H sc now run fid es)"
| "import_legacy rd H sc now run fid ((LegacyFeedback, e) # es) s =
     bindR (record_feedback_with rd H sc fid LegacyFeedbackImported e None (legacy_actor H e)
         (Some (''legacy-feedback:'' @ legacy_id H e)) (legacy_time H now e) s)
       (\<lambda>v. import_legacy rd H sc now run fid es)"

definition run_cases :: "'a host_scheme \<Rightarrow> dataset_scope \<Rightarrow> string \<Rightarrow> finding_db \<Rightarrow> finding_case list" where
  "run_cases H sc run s = filter (\<lambda>c. fc_source_kind c = EvidenceRun \<and> fc_source_id c = run
     \<and> fc_scope_storage_id c = Some (storage_id H sc)) (wd_cases (fd_log s))"

definition migrate_legacy_events ::
  "reader \<Rightarrow> 'a workflow_host_scheme \<Rightarrow> dataset_scope \<Rightarrow> string \<Rightarrow> string \<Rightarrow> finding_db \<Rightarrow> unit run" where
  "migrate_legacy_events rd H sc now run s =
     (case run_cases H sc run s of
        [c] \<Rightarrow> import_legacy rd H sc now run (fc_finding_id c) (legacy_history H sc run s) s
      | _ \<Rightarrow> Some (s, Inr ()))"

definition raw_case :: "'a host_scheme \<Rightarrow> dataset_scope \<Rightarrow> string \<Rightarrow> finding_db \<Rightarrow> finding_case option" where
  "raw_case H sc fid s = find_case (fd_log s) (storage_id H sc) fid"

definition ensure_live :: "'a host_scheme \<Rightarrow> dataset_scope \<Rightarrow> string \<Rightarrow> finding_db \<Rightarrow> finding_db" where
  "ensure_live H sc fid s = (if raw_case H sc fid s = None \<and> starts_with fid ''live-finding-''
     then fst (materialize_live_finding_cases H sc (Some fid) None s) else s)"

definition read_case_with ::
  "reader \<Rightarrow> 'a workflow_host_scheme \<Rightarrow> dataset_scope \<Rightarrow> string \<Rightarrow> reader" where
  "read_case_with rd H sc now fid s =
     (let s1 = ensure_live H sc fid s in
      case raw_case H sc fid s1 of
        None \<Rightarrow> Some (s1, Inl FindingNotFound)
      | Some c \<Rightarrow>
          bindR (if fc_source_kind c = EvidenceRun then migrate_legacy_events rd H sc now (fc_source_id c) s1
                 else Some (s1, Inr ())) (\<lambda>_ s2.
          Some (s2, Inr (case_response c (events_of (fd_log s2) fid)))))"

fun read_finding_case :: "nat \<Rightarrow> 'a workflow_host_scheme \<Rightarrow> dataset_scope \<Rightarrow> string \<Rightarrow> reader" where
  "read_finding_case 0 H sc now fid s = None"
| "read_finding_case (Suc n) H sc now fid s = read_case_with (read_finding_case n H sc now) H sc now fid s"

definition materialize_evidence_finding_cases ::
  "nat \<Rightarrow> 'a workflow_host_scheme \<Rightarrow> dataset_scope \<Rightarrow> string \<Rightarrow> jdict \<Rightarrow> finding_db \<Rightarrow> string list run" where
  "materialize_evidence_finding_cases n H sc now r s =
     (case clean H (jget r ''run_id'') of
        None \<Rightarrow> Some (s, Inr [])
      | Some run \<Rightarrow>
          if provisional H r then Some (s, Inr [])
          else
            let created = (if truthy (jget r ''created_at'') then py_str H (jget r ''created_at'') else now);
                ds = dataset_scope_from_payload H (JObj r) in
            bindR (transact s (insert_evidence_cases H run r ds created (source_finding_candidates H r) s)) (\<lambda>ids s1.
            bindR (migrate_legacy_events (read_finding_case n H sc now) H sc now run s1) (\<lambda>_ s2.
            Some (s2, Inr ids))))"

fun materialize_records ::
  "nat \<Rightarrow> 'a workflow_host_scheme \<Rightarrow> dataset_scope \<Rightarrow> string \<Rightarrow> jdict list \<Rightarrow> finding_db \<Rightarrow> unit run" where
  "materialize_records n H sc now [] s = Some (s, Inr ())"
| "materialize_records n H sc now (r # rs) s =
     bindR (materialize_evidence_finding_cases n H sc now r s) (\<lambda>ids. materialize_records n H sc now rs)"

definition recent_records :: "'a host_scheme \<Rightarrow> dataset_scope \<Rightarrow> string option \<Rightarrow> finding_db \<Rightarrow> jdict list" where
  "recent_records H sc run s = map er_record (take 1001 (rev (sort_key er_created_at
     (filter (\<lambda>r. er_scope r = Some (storage_id H sc) \<and> (case given run of None \<Rightarrow> True | Some x \<Rightarrow> er_run_id r = x))
       (fd_evidence s)))))"

definition materialize_existing_finding_cases ::
  "nat \<Rightarrow> 'a workflow_host_scheme \<Rightarrow> dataset_scope \<Rightarrow> string \<Rightarrow> string option \<Rightarrow> source_kind option \<Rightarrow> finding_db \<Rightarrow> unit run" where
  "materialize_existing_finding_cases n H sc now run kind s =
     bindR (if kind \<noteq> Some LiveFinding then materialize_records n H sc now (recent_records H sc run s) s else Some (s, Inr ())) (\<lambda>_ s1.
     Some (if kind \<noteq> Some EvidenceRun then fst (materialize_live_finding_cases H sc None run s1) else s1, Inr ()))"

subsection \<open>What the operations keep\<close>

lemma bindR_eq_Inr: "bindR m f = Some (s', Inr y) \<longleftrightarrow> (\<exists>x s. m = Some (s, Inr x) \<and> f x s = Some (s', Inr y))"
  by (simp add: bindR_def split: option.splits sum.splits)

lemma bindR_simps [simp]: "bindR (Some (s, Inr x)) f = f x s" "bindR (Some (s, Inl e)) f = Some (s, Inl e)" "bindR None f = None"
  by (simp_all add: bindR_def)

lemma bindR_rule:
  assumes "bindR m f = Some (s', y)" and "\<And>s x. m = Some (s, x) \<Longrightarrow> P s"
    and "\<And>s x. m = Some (s, Inr x) \<Longrightarrow> P s \<Longrightarrow> f x s = Some (s', y) \<Longrightarrow> P s'"
  shows "P s'"
  using assms by (auto simp: bindR_def split: option.splits sum.splits)

lemma transact_eq: "transact s m = Some (s', x) \<longleftrightarrow>
    (case x of Inl e \<Rightarrow> m = Inl e \<and> s' = s | Inr y \<Rightarrow> m = Inr (s', y))"
  by (auto simp: transact_def split: sum.splits)

definition fd_tables :: "finding_db \<Rightarrow> evidence_row list \<times> live_row list \<times> legacy_row list \<times> legacy_row list" where
  "fd_tables s = (fd_evidence s, fd_live s, fd_status_events s, fd_feedback_events s)"

lemma insert_case_tables [simp]: "fd_tables (insert_case c s) = fd_tables s"
  by (simp add: insert_case_def fd_tables_def)

lemma append_to_Inr:
  "append_to H sc fid b actor expected key recorded s = Inr (s', e) \<Longrightarrow>
   append_event H (storage_id H sc) fid b actor expected key recorded (fd_log s) = Inr (fd_log s', e)
   \<and> s' = s\<lparr>fd_log := fd_log s'\<rparr> \<and> fd_tables s' = fd_tables s \<and> wd_cases (fd_log s') = wd_cases (fd_log s)"
  unfolding append_to_def chain_simps by (auto simp: fd_tables_def dest: append_event_prefix(2))

lemma legacy_history_tables: "fd_tables s' = fd_tables s \<Longrightarrow> legacy_history H sc run s' = legacy_history H sc run s"
  by (simp add: legacy_history_def legacy_events_def read_evidence_def fd_tables_def)

lemma legacy_dedupe_subset: "set (legacy_dedupe H ids contents es) \<subseteq> set es"
proof (induction es arbitrary: ids contents)
  case (Cons x es)
  then have "set (legacy_dedupe H i c es) \<subseteq> set (x # es)" for i c by (meson order_trans set_subset_Cons)
  then show ?case by (cases x) (simp add: Let_def)
qed simp

lemma legacy_history_subset: "set (legacy_history H sc run s) \<subseteq> set (legacy_events H sc run s)"
  using legacy_dedupe_subset by (fastforce simp: legacy_history_def)

lemma materialize_live_tables [simp]: "fd_tables (fst (materialize_live_finding_cases H sc fid run s)) = fd_tables s"
proof -
  have "fd_tables (fold (\<lambda>v. insert_case (live_case H sc v)) vs s) = fd_tables s" for vs
    by (induction vs arbitrary: s) simp_all
  then show ?thesis by (simp add: materialize_live_finding_cases_def Let_def)
qed

lemma insert_evidence_tables:
  "insert_evidence_cases H run r ds created cs s = Inr (s', ids) \<Longrightarrow> fd_tables s' = fd_tables s"
proof (induction cs arbitrary: s ids)
  case (Cons kf cs)
  from Cons.prems show ?case
    unfolding insert_evidence_cases.simps Let_def chain_simps by (auto dest: Cons.IH)
qed simp

text \<open>
  The contract of an invariant of the finding store: it survives the two ways a case is inserted and
  every append of an admissible event, and legacy events are admissible. Every operation of the
  workflow is made of these steps, so each keeps the invariant.
\<close>

locale finding_invariant =
  fixes H :: "'a workflow_host_scheme" and sc :: dataset_scope and I :: "finding_db \<Rightarrow> bool" and ok :: "event_body \<Rightarrow> bool"
  assumes insert_evidence: "I s \<Longrightarrow> I (insert_case (evidence_case H run r ds created kf) s)"
    and insert_live: "I s \<Longrightarrow> I (insert_case (live_case H sc v) s)"
    and append: "I s \<Longrightarrow> ok b \<Longrightarrow> append_to H sc fid b actor expected key recorded s = Inr (s', e) \<Longrightarrow> I s'"
    and legacy_status: "I s \<Longrightarrow> (LegacyStatus, d) \<in> set (legacy_history H sc run s) \<Longrightarrow> ok (LegacyStatusImported (legacy_changes H d) cm)"
    and legacy_feedback: "ok (LegacyFeedbackImported f)"
begin

definition same :: "finding_db \<Rightarrow> finding_db \<Rightarrow> bool" where
  "same s s' \<longleftrightarrow> I s' \<and> fd_tables s' = fd_tables s"

definition keeps :: "reader \<Rightarrow> bool" where
  "keeps rd \<longleftrightarrow> (\<forall>fid s s' v. I s \<longrightarrow> rd fid s = Some (s', v) \<longrightarrow> same s s')"

lemma keepsD: "keeps rd \<Longrightarrow> I s \<Longrightarrow> rd fid s = Some (s', v) \<Longrightarrow> same s s'"
  unfolding keeps_def by blast

lemma sameD: "same s s' \<Longrightarrow> I s'"
  by (simp add: same_def)

lemma same_refl: "I s \<Longrightarrow> same s s"
  by (simp add: same_def)

lemma same_trans: "same s s1 \<Longrightarrow> same s1 s2 \<Longrightarrow> same s s2"
  by (simp add: same_def)

lemma append_same:
  assumes "I s" "ok b" "transact s (append_to H sc fid b actor expected key recorded s) = Some (s', x)"
  shows "same s s'"
  using assms append [OF assms(1,2)] append_to_Inr by (fastforce simp: transact_eq same_def split: sum.splits)

lemma materialize_live: "I s \<Longrightarrow> I (fst (materialize_live_finding_cases H sc fid run s))"
proof -
  have "I s \<Longrightarrow> I (fold (\<lambda>v. insert_case (live_case H sc v)) vs s)" for vs
    by (induction vs arbitrary: s) (simp_all add: insert_live)
  then show "I s \<Longrightarrow> ?thesis" by (simp add: materialize_live_finding_cases_def Let_def)
qed

lemma insert_evidence_all:
  "I s \<Longrightarrow> insert_evidence_cases H run r ds created cs s = Inr (s', ids) \<Longrightarrow> I s'"
proof (induction cs arbitrary: s ids)
  case (Cons kf cs)
  from Cons.prems(2) show ?case
    unfolding insert_evidence_cases.simps Let_def chain_simps
    by (auto dest: Cons.IH [OF insert_evidence [OF Cons.prems(1)]])
qed simp

lemma feedback_with:
  assumes "keeps rd" "I s" "ok (mk (feedback_dict f actor recorded))"
    "record_feedback_with rd H sc fid mk f expected actor key recorded s = Some (s', v)"
  shows "same s s'"
  using assms(4) unfolding record_feedback_with_def
  by (rule bindR_rule) (blast intro: append_same [OF assms(2,3)] same_trans keepsD [OF assms(1)] dest: sameD)+

lemma import_legacy_keeps:
  assumes rd: "keeps rd"
  shows "I s \<Longrightarrow> set es \<subseteq> set (legacy_history H sc run s) \<Longrightarrow>
    import_legacy rd H sc now run fid es s = Some (s', v) \<Longrightarrow> same s s'"
proof (induction es arbitrary: s)
  case Nil
  then show ?case by (simp add: same_refl)
next
  case (Cons x es)
  obtain k e where x: "x = (k, e)" by (cases x)
  have step: "same s s'" if "same s s1" "import_legacy rd H sc now run fid es s1 = Some (s', v)" for s1
    using Cons.IH [OF sameD [OF that(1)] _ that(2)] that(1) Cons.prems(2) legacy_history_tables [of s1 s H sc run]
    by (auto simp: same_def)
  show ?case
  proof (cases k)
    case LegacyStatus
    then have ok: "ok (LegacyStatusImported (legacy_changes H e) cm)" for cm
      using legacy_status [OF Cons.prems(1)] Cons.prems(2) x by auto
    from Cons.prems(3) show ?thesis unfolding x LegacyStatus import_legacy.simps
      by (rule bindR_rule) (blast intro: append_same [OF Cons.prems(1) ok] step)+
  next
    case LegacyFeedback
    from Cons.prems(3) show ?thesis unfolding x LegacyFeedback import_legacy.simps
      by (rule bindR_rule [where P = "same s"])
        (erule feedback_with [where mk = LegacyFeedbackImported, OF rd Cons.prems(1) legacy_feedback], erule (1) step)
  qed
qed

lemma migrate_keeps:
  assumes "keeps rd" "I s" "migrate_legacy_events rd H sc now run s = Some (s', v)"
  shows "same s s'"
  using assms import_legacy_keeps [OF assms(1,2) subset_refl]
  by (auto simp: migrate_legacy_events_def same_refl split: list.splits)

lemma ensure_live_keeps: "I s \<Longrightarrow> same s (ensure_live H sc fid s)"
  by (simp add: ensure_live_def materialize_live same_def)

lemma read_with_keeps:
  assumes rd: "keeps rd"
  shows "keeps (read_case_with rd H sc now)"
  unfolding keeps_def
proof (intro allI impI)
  fix fid s s' v
  assume i: "I s" and r: "read_case_with rd H sc now fid s = Some (s', v)"
  let ?s1 = "ensure_live H sc fid s"
  have s1: "same s ?s1" by (rule ensure_live_keeps [OF i])
  show "same s s'"
  proof (cases "raw_case H sc fid ?s1")
    case None
    with r s1 show ?thesis by (simp add: read_case_with_def)
  next
    case (Some c)
    with r have "bindR (if fc_source_kind c = EvidenceRun then migrate_legacy_events rd H sc now (fc_source_id c) ?s1
        else Some (?s1, Inr ())) (\<lambda>_ s2. Some (s2, Inr (case_response c (events_of (fd_log s2) fid)))) = Some (s', v)"
      by (simp only: read_case_with_def Let_def option.case)
    then show ?thesis
      by (rule bindR_rule)
        (auto intro: same_trans [OF s1] same_refl [OF sameD [OF s1]] migrate_keeps [OF rd sameD [OF s1]] split: if_splits)
  qed
qed

lemma read_keeps: "keeps (read_finding_case n H sc now)"
proof (induction n)
  case 0
  show ?case by (simp add: keeps_def)
next
  case (Suc n)
  from read_with_keeps [OF Suc] show ?case by (simp add: keeps_def)
qed

lemmas read_same = keepsD [OF read_keeps]

lemma materialize_evidence:
  assumes i: "I s" and m: "materialize_evidence_finding_cases n H sc now r s = Some (s', ids)"
  shows "same s s'"
proof (cases "clean H (jget r ''run_id'') = None \<or> provisional H r")
  case True
  with m i show ?thesis
    by (auto simp: materialize_evidence_finding_cases_def same_refl split: option.splits if_splits)
next
  case False
  then obtain run where run: "clean H (jget r ''run_id'') = Some run" "\<not> provisional H r" by auto
  have ins: "same s s1"
    if "transact s (insert_evidence_cases H run r ds created cs s) = Some (s1, x)" for ds created cs s1 x
    using that i insert_evidence_all [OF i] insert_evidence_tables
    by (fastforce simp: transact_eq same_def split: sum.splits)
  have tail: "same s s'" if "bindR (migrate_legacy_events (read_finding_case n H sc now) H sc now run s1)
      (\<lambda>_ s2. Some (s2, Inr ids')) = Some (s', ids)" and s1: "same s s1" for s1 ids'
    using that(1) by (rule bindR_rule) (auto intro: same_trans [OF s1] migrate_keeps [OF read_keeps sameD [OF s1]])
  from m run obtain ds created where
    "bindR (transact s (insert_evidence_cases H run r ds created (source_finding_candidates H r) s)) (\<lambda>ids s1.
       bindR (migrate_legacy_events (read_finding_case n H sc now) H sc now run s1) (\<lambda>_ s2. Some (s2, Inr ids))) = Some (s', ids)"
    by (auto simp: materialize_evidence_finding_cases_def Let_def)
  then show ?thesis by (rule bindR_rule) (auto intro: ins tail)
qed

lemma materialize_records_keeps:
  "I s \<Longrightarrow> materialize_records n H sc now rs s = Some (s', v) \<Longrightarrow> same s s'"
proof (induction rs arbitrary: s)
  case (Cons r rs)
  from Cons.prems(2) show ?case unfolding materialize_records.simps
    by (rule bindR_rule) (blast intro: materialize_evidence [OF Cons.prems(1)] same_trans Cons.IH dest: sameD)+
qed (simp add: same_refl)

lemma materialize_live_same: "same s s1 \<Longrightarrow> same s (fst (materialize_live_finding_cases H sc fid run s1))"
  by (simp add: same_def materialize_live)

lemma materialize_existing:
  assumes "I s" "materialize_existing_finding_cases n H sc now run kind s = Some (s', v)"
  shows "same s s'"
  using assms(2) unfolding materialize_existing_finding_cases_def
  by (rule bindR_rule)
    (auto intro: materialize_records_keeps [OF assms(1)] same_refl [OF assms(1)] materialize_live_same split: if_splits)

end

subsection \<open>The invariants of the store\<close>

definition store_ok :: "'a workflow_host_scheme \<Rightarrow> finding_db \<Rightarrow> bool" where
  "store_ok H s \<longleftrightarrow> log_ok H (fd_log s) \<and> distinct (map fc_finding_id (wd_cases (fd_log s)))"

lemma insert_case_log: "log_ok H (fd_log s) \<Longrightarrow> log_ok H (fd_log (insert_case c s))"
  by (auto simp: insert_case_def log_ok_def case_events_def)

lemma insert_case_ids:
  "distinct (map fc_finding_id (wd_cases (fd_log s))) \<Longrightarrow> distinct (map fc_finding_id (wd_cases (fd_log (insert_case c s))))"
  by (auto simp: insert_case_def list_ex_iff)

lemma insert_case_store_ok: "store_ok H s \<Longrightarrow> store_ok H (insert_case c s)"
  by (simp add: store_ok_def insert_case_log insert_case_ids)

lemma append_store_ok:
  assumes "store_ok H s" "append_to H sc fid b actor expected key recorded s = Inr (s', e)"
  shows "store_ok H s'"
  using assms append_to_Inr [OF assms(2)] append_event_keeps by (auto simp: store_ok_def)

interpretation store: finding_invariant H sc "store_ok H" "\<lambda>b. True"
  by unfold_locales (auto intro: insert_case_store_ok append_store_ok)

text \<open>No case and no event is ever changed or removed.\<close>

definition grown :: "finding_db \<Rightarrow> finding_db \<Rightarrow> bool" where
  "grown s0 s \<longleftrightarrow> (\<exists>cs es. wd_cases (fd_log s) = wd_cases (fd_log s0) @ cs \<and> wd_events (fd_log s) = wd_events (fd_log s0) @ es)"

lemma grown_refl: "grown s s"
  by (simp add: grown_def)

lemma insert_case_grown: "grown s0 s \<Longrightarrow> grown s0 (insert_case c s)"
  by (auto simp: grown_def insert_case_def)

lemma append_grown:
  assumes g: "grown s0 s" and a: "append_to H sc fid b actor expected key recorded s = Inr (s', e)"
  shows "grown s0 s'"
proof -
  from append_to_Inr [OF a] have
    b: "append_event H (storage_id H sc) fid b actor expected key recorded (fd_log s) = Inr (fd_log s', e)" by blast
  then show ?thesis using g by (cases rule: append_event_Inr) (auto simp: grown_def)
qed

interpretation history: finding_invariant H sc "grown s0" "\<lambda>b. True"
  by unfold_locales (auto intro: insert_case_grown append_grown)

subsection \<open>Materialising is idempotent\<close>

text \<open>The id of an evidence case is derived from its source.\<close>

definition ids_derived :: "'a host_scheme \<Rightarrow> finding_db \<Rightarrow> bool" where
  "ids_derived H s \<longleftrightarrow> (\<forall>c \<in> set (wd_cases (fd_log s)). fc_source_kind c = EvidenceRun \<longrightarrow>
     fc_finding_id c = evidence_finding_id H (fc_source_id c) (fc_source_finding_key c))"

lemma evidence_case_fields [simp]:
  "fc_finding_id (evidence_case H run r ds created kf) = evidence_finding_id H run (fst kf)"
  "fc_source_kind (evidence_case H run r ds created kf) = EvidenceRun"
  "fc_source_id (evidence_case H run r ds created kf) = run"
  "fc_source_finding_key (evidence_case H run r ds created kf) = fst kf"
  "fc_scope_storage_id (evidence_case H run r ds created kf) = map_option (storage_id H) ds"
  "fc_source_snapshot (evidence_case H run r ds created kf) = evidence_source_snapshot H r (fst kf) (snd kf)"
  by (simp_all add: evidence_case_def split: prod.splits)

lemma insert_case_mem: "d \<in> set (wd_cases (fd_log (insert_case c s))) \<Longrightarrow> d \<in> set (wd_cases (fd_log s)) \<or> d = c"
  by (auto simp: insert_case_def split: if_splits)

interpretation derived: finding_invariant H sc "ids_derived H" "\<lambda>b. True"
  by unfold_locales (auto simp: ids_derived_def live_case_def dest!: insert_case_mem append_to_Inr)

lemma insert_case_holds:
  assumes "ids_derived H s"
  shows "\<exists>d \<in> set (wd_cases (fd_log (insert_case (evidence_case H run r ds created kf) s))).
    fc_finding_id d = evidence_finding_id H run (fst kf)"
proof (cases "\<exists>d \<in> set (wd_cases (fd_log s)). fc_finding_id d = evidence_finding_id H run (fst kf)
    \<or> fc_source_kind d = EvidenceRun \<and> fc_source_id d = run \<and> fc_source_finding_key d = fst kf")
  case True
  then have "insert_case (evidence_case H run r ds created kf) s = s"
    by (auto simp: insert_case_def list_ex_iff)
  with assms True show ?thesis unfolding ids_derived_def by metis
qed (auto simp: insert_case_def list_ex_iff)

lemma insert_case_known:
  "d \<in> set (wd_cases (fd_log s)) \<Longrightarrow> fc_finding_id d = fc_finding_id c \<Longrightarrow> insert_case c s = s"
  by (auto simp: insert_case_def list_ex_iff)

definition case_scope :: "finding_db \<Rightarrow> string \<Rightarrow> string option option" where
  "case_scope s fid = map_option fc_scope_storage_id (next_or (\<lambda>d. fc_finding_id d = fid) (wd_cases (fd_log s)))"

lemma case_scope_insert: "case_scope s fid = Some x \<Longrightarrow> case_scope (insert_case c s) fid = Some x"
  by (auto simp: case_scope_def insert_case_def next_or_append)

lemma insert_evidence_Cons:
  "insert_evidence_cases H run r ds created (kf # cs) s =
     (let s1 = insert_case (evidence_case H run r ds created kf) s; fid = evidence_finding_id H run (fst kf) in
      if the_or (case_scope s1 fid) None \<noteq> map_option (storage_id H) ds then Inl CaseScopeConflict
      else bindE (insert_evidence_cases H run r ds created cs s1) (\<lambda>(s2, ids). Inr (s2, fid # ids)))"
proof -
  have c: "(x \<noteq> y \<and> (x \<noteq> None \<or> y \<noteq> None)) = (x \<noteq> y)" for x y :: "string option" by auto
  have d: "the_or (case_scope s fid) None = (case next_or (\<lambda>d. fc_finding_id d = fid) (wd_cases (fd_log s)) of
      None \<Rightarrow> None | Some d \<Rightarrow> fc_scope_storage_id d)" for s fid
    by (simp add: case_scope_def the_or_def split: option.splits)
  show ?thesis by (simp only: insert_evidence_cases.simps Let_def c d evidence_case_fields)
qed

lemma insert_evidence_held:
  fixes H :: "'a workflow_host_scheme"
  assumes "ids_derived H s" "insert_evidence_cases H run r ds created cs s = Inr (s', ids)"
  shows "ids = map (\<lambda>kf. evidence_finding_id H run (fst kf)) cs
    \<and> (\<forall>fid x. case_scope s fid = Some x \<longrightarrow> case_scope s' fid = Some x)
    \<and> (\<forall>kf \<in> set cs. case_scope s' (evidence_finding_id H run (fst kf)) = Some (map_option (storage_id H) ds))"
  using assms
proof (induction cs arbitrary: s ids)
  case (Cons kf cs)
  let ?c = "evidence_case H run r ds created kf" and ?fid = "evidence_finding_id H run (fst kf)"
  let ?s1 = "insert_case ?c s"
  have d: "ids_derived H ?s1" by (rule derived.insert_evidence [OF Cons.prems(1)])
  from insert_case_holds [OF Cons.prems(1), of run r ds created kf]
  obtain x where x: "case_scope ?s1 ?fid = Some x"
    by (fastforce simp: case_scope_def next_or_None)
  from Cons.prems(2) obtain ids' where
    "the_or (case_scope ?s1 ?fid) None = map_option (storage_id H) ds"
    and r: "insert_evidence_cases H run r ds created cs ?s1 = Inr (s', ids')" and ids: "ids = ?fid # ids'"
    unfolding insert_evidence_Cons Let_def by (auto simp: bindE_eq_Inr split: if_splits)
  then have "x = map_option (storage_id H) ds" using x by (simp add: the_or_def)
  with Cons.IH [OF d r] x ids case_scope_insert show ?case by auto
qed simp

lemma insert_evidence_again:
  "\<forall>kf \<in> set cs. case_scope s (evidence_finding_id H run (fst kf)) = Some (map_option (storage_id H) ds) \<Longrightarrow>
   insert_evidence_cases H run r ds created cs s = Inr (s, map (\<lambda>kf. evidence_finding_id H run (fst kf)) cs)"
proof (induction cs)
  case (Cons kf cs)
  then have k: "case_scope s (evidence_finding_id H run (fst kf)) = Some (map_option (storage_id H) ds)" by simp
  then obtain d where "d \<in> set (wd_cases (fd_log s))" "fc_finding_id d = evidence_finding_id H run (fst kf)"
    by (auto simp: case_scope_def dest: next_or_Some)
  then have "insert_case (evidence_case H run r ds created kf) s = s" by (intro insert_case_known) simp_all
  with Cons k show ?case unfolding insert_evidence_Cons by (simp add: the_or_def)
qed simp

subsection \<open>Legacy feedback and the recursion of reading\<close>

text \<open>
  The case is the run's only case, and its legacy history has a feedback event: importing that event
  reads the case, which imports the history again.
\<close>

definition entangled :: "'a workflow_host_scheme \<Rightarrow> dataset_scope \<Rightarrow> string \<Rightarrow> finding_db \<Rightarrow> bool" where
  "entangled H sc fid s \<longleftrightarrow> (\<exists>c. raw_case H sc fid s = Some c \<and> fc_source_kind c = EvidenceRun
     \<and> run_cases H sc (fc_source_id c) s = [c]
     \<and> list_ex (\<lambda>(k, e). k = LegacyFeedback) (legacy_history H sc (fc_source_id c) s))"

lemma entangled_append:
  assumes "entangled H sc fid s" and a: "append_to H sc g b actor expected key recorded s = Inr (s', e)"
  shows "entangled H sc fid s'"
  using assms(1) append_to_Inr [OF a] legacy_history_tables [of s' s H sc]
  by (simp add: entangled_def raw_case_def find_case_def run_cases_def)

lemma import_entangled:
  assumes rd: "\<And>s s' v. entangled H sc fid s \<Longrightarrow> rd fid s \<noteq> Some (s', Inr v)"
  shows "entangled H sc fid s \<Longrightarrow> list_ex (\<lambda>(k, e). k = LegacyFeedback) es \<Longrightarrow>
    import_legacy rd H sc now run fid es s \<noteq> Some (s', Inr v)"
proof (induction es arbitrary: s)
  case (Cons x es)
  obtain k e where x: "x = (k, e)" by (cases x)
  show ?case
  proof (cases k)
    case LegacyStatus
    with Cons.prems Cons.IH entangled_append show ?thesis
      by (auto simp: x bindR_eq_Inr transact_eq) blast
  next
    case LegacyFeedback
    with Cons.prems(1) rd entangled_append show ?thesis
      by (auto simp: x bindR_eq_Inr record_feedback_with_def transact_eq) blast
  qed
qed simp

lemma read_entangled: "entangled H sc fid s \<Longrightarrow> read_finding_case n H sc now fid s \<noteq> Some (s', Inr v)"
proof (induction n arbitrary: s s' v)
  case (Suc n)
  from Suc.prems obtain c where c: "raw_case H sc fid s = Some c" "fc_source_kind c = EvidenceRun"
    "run_cases H sc (fc_source_id c) s = [c]"
    "list_ex (\<lambda>(k, e). k = LegacyFeedback) (legacy_history H sc (fc_source_id c) s)"
    by (auto simp: entangled_def)
  have f: "fc_finding_id c = fid" using c(1) find_case_Some by (auto simp: raw_case_def)
  have "import_legacy (read_finding_case n H sc now) H sc now (fc_source_id c) fid
      (legacy_history H sc (fc_source_id c) s) s \<noteq> Some (s', Inr v)" for s' v
    by (rule import_entangled [OF _ Suc.prems c(4)]) (rule Suc.IH)
  with c f show ?case
    by (auto simp: read_case_with_def ensure_live_def migrate_legacy_events_def bindR_eq_Inr Let_def)
qed simp

text \<open>Without legacy feedback the import does not read, so reading never recurs.\<close>

definition feedback_free :: "'a host_scheme \<Rightarrow> dataset_scope \<Rightarrow> finding_db \<Rightarrow> bool" where
  "feedback_free H sc s \<longleftrightarrow> (\<forall>run. list_all (\<lambda>(k, e). k = LegacyStatus) (legacy_history H sc run s))"

lemma import_feedback_free:
  "list_all (\<lambda>(k, e). k = LegacyStatus) es \<Longrightarrow>
   import_legacy rd H sc now run fid es s = import_legacy rd' H sc now run fid es s
   \<and> import_legacy rd H sc now run fid es s \<noteq> None"
proof (induction es arbitrary: s)
  case (Cons x es)
  then show ?case by (cases x; cases "fst x") (auto simp: bindR_def transact_def split: sum.splits prod.splits)
qed simp

lemma read_with_feedback_free:
  assumes "feedback_free H sc s"
  shows "read_case_with rd H sc now fid s = read_case_with rd' H sc now fid s \<and> read_case_with rd H sc now fid s \<noteq> None"
proof -
  let ?s1 = "ensure_live H sc fid s"
  have "legacy_history H sc run ?s1 = legacy_history H sc run s" for run
    by (rule legacy_history_tables) (simp add: ensure_live_def)
  then have "list_all (\<lambda>(k, e). k = LegacyStatus) (legacy_history H sc run ?s1)" for run
    using assms by (simp add: feedback_free_def)
  then have "migrate_legacy_events rd H sc now run ?s1 = migrate_legacy_events rd' H sc now run ?s1
      \<and> migrate_legacy_events rd H sc now run ?s1 \<noteq> None" for run
    using import_feedback_free [of "legacy_history H sc run ?s1"]
    by (simp add: migrate_legacy_events_def split: list.splits) blast
  then have "migrate_legacy_events rd H sc now run ?s1 = migrate_legacy_events rd' H sc now run ?s1"
    and "migrate_legacy_events rd H sc now run ?s1 \<noteq> None" for run by blast+
  then show ?thesis
    by (simp add: read_case_with_def Let_def bindR_def split: option.splits sum.splits) (metis not_None_eq)
qed

end
