(* ===== verification/Finding_Workflow.thy ===== *)
theory Finding_Workflow
  imports Finding_Cases
begin

text \<open>
  The operations of \<^verbatim>\<open>services/finding_workflow.py\<close> on a finding case: authorisation, status
  transitions, workflow updates, field reports, feedback, resolutions, governance lifecycle events,
  the activity view, the filtered list and the run-level compatibility writes, with the error mapping
  of \<^verbatim>\<open>routers/findings.py\<close>.

  The account directory of \<^verbatim>\<open>services/auth_store.py\<close> is a pair of tables; the fuel \<open>n\<close> is the depth of
  \<open>read_finding_case\<close>.
\<close>

subsection \<open>Members\<close>

record user_row =
  us_email :: string
  us_name :: string
  us_active :: bool

record member_row =
  mr_workspace_id :: string
  mr_email :: string
  mr_name :: string
  mr_active :: bool
  mr_account_active :: bool

record directory =
  dr_users :: "user_row list"
  dr_members :: "member_row list"

record member_view =
  wm_member_id :: string
  wm_display_name :: string
  wm_active :: bool

record workspace_context =
  wc_workspace_id :: string
  wc_kind :: string
  wc_dataset_scope :: dataset_scope

definition is_explicit :: "workspace_context \<Rightarrow> bool" where
  "is_explicit W = (wc_kind W = ''facility'')"

definition normalize_email :: "string \<Rightarrow> string" where
  "normalize_email v = lower (strip v)"

definition workflow_member :: "directory \<Rightarrow> string \<Rightarrow> bool \<Rightarrow> member_view option" where
  "workflow_member D mid include_inactive = (let nid = normalize_email mid in
     if nid = [] then None
     else (case next_or (\<lambda>u. us_email u = nid) (dr_users D) of
         None \<Rightarrow> None
       | Some u \<Rightarrow> if \<not> include_inactive \<and> \<not> us_active u then None
           else Some \<lparr>wm_member_id = us_email u,
             wm_display_name = (if us_name u \<noteq> [] then us_name u else us_email u), wm_active = us_active u\<rparr>))"

definition workspace_member_projection :: "member_row \<Rightarrow> member_view" where
  "workspace_member_projection m = \<lparr>wm_member_id = normalize_email (mr_email m),
     wm_display_name = (if mr_name m \<noteq> [] then mr_name m else mr_email m),
     wm_active = (mr_active m \<and> mr_account_active m)\<rparr>"

definition workspace_assignment_member :: "directory \<Rightarrow> string \<Rightarrow> string \<Rightarrow> bool \<Rightarrow> member_view option" where
  "workspace_assignment_member D wid mid include_inactive =
     (case next_or (\<lambda>m. mr_workspace_id m = strip wid \<and> mr_email m = normalize_email mid) (dr_members D) of
        None \<Rightarrow> None
      | Some m \<Rightarrow> let p = workspace_member_projection m in
          if \<not> include_inactive \<and> \<not> wm_active p then None else Some p)"

definition assignable :: "directory \<Rightarrow> workspace_context \<Rightarrow> string \<Rightarrow> bool \<Rightarrow> member_view option" where
  "assignable D W mid include_inactive =
     (if is_explicit W then workspace_assignment_member D (wc_workspace_id W) mid include_inactive
      else if lower (strip mid) = ds_user_id (wc_dataset_scope W) then workflow_member D mid include_inactive
      else None)"

definition is_person :: "json \<Rightarrow> bool" where
  "is_person a = (is_dict a \<and> jget (as_dict a) ''target_type'' = JStr ''person'')"

definition normalized_person_assignment ::
  "'a host_scheme \<Rightarrow> directory \<Rightarrow> workspace_context \<Rightarrow> json \<Rightarrow> json wf" where
  "normalized_person_assignment H D W a =
     (if \<not> is_person a then Inr a
      else (case clean H (jget (as_dict a) ''external_ref'') of
          None \<Rightarrow> Inl (WorkflowInvalid ''assignment_member_required'')
        | Some mid \<Rightarrow>
          (case assignable D W mid True of
             None \<Rightarrow> Inl (WorkflowInvalid ''unknown_assignment_member'')
           | Some m \<Rightarrow>
               if \<not> wm_active m then Inl (WorkflowInvalid ''inactive_assignment_member'')
               else Inr (JObj [(''target_type'', JStr ''person''), (''label'', JStr (wm_display_name m)),
                 (''external_ref'', JStr (wm_member_id m))]))))"

definition is_exact_active_member_assignment ::
  "'a host_scheme \<Rightarrow> directory \<Rightarrow> workspace_context \<Rightarrow> workflow_view \<Rightarrow> string \<Rightarrow> bool" where
  "is_exact_active_member_assignment H D W w actor =
     (let a = wv_get w ''assignment''; nactor = lower (strip actor) in
      if \<not> is_person a then False
      else (case clean H (jget (as_dict a) ''external_ref'') of
          None \<Rightarrow> False
        | Some mid \<Rightarrow>
            if lower (strip mid) \<noteq> nactor then False
            else (case assignable D W mid False of None \<Rightarrow> False | Some m \<Rightarrow> wm_member_id m = nactor)))"

subsection \<open>Authorisation and transitions\<close>

definition VIEWER_STATUSES :: "string list" where
  "VIEWER_STATUSES = [''acknowledged'', ''investigating'', ''waiting'', ''escalated'', ''awaiting_review'']"

definition STATUS_TRANSITIONS :: "(string \<times> string list) list" where
  "STATUS_TRANSITIONS = [
     (''open'', [''acknowledged'', ''investigating'', ''monitoring'', ''escalated'', ''resolved'', ''dismissed'']),
     (''acknowledged'', [''investigating'', ''waiting'', ''escalated'', ''monitoring'', ''resolved'', ''dismissed'']),
     (''investigating'', [''waiting'', ''escalated'', ''awaiting_review'', ''monitoring'', ''resolved'', ''dismissed'']),
     (''waiting'', [''investigating'', ''escalated'', ''awaiting_review'', ''resolved'', ''dismissed'']),
     (''escalated'', [''investigating'', ''waiting'', ''awaiting_review'', ''monitoring'', ''resolved'', ''dismissed'']),
     (''awaiting_review'', [''investigating'', ''waiting'', ''escalated'', ''monitoring'', ''resolved'', ''dismissed'']),
     (''monitoring'', [''open'', ''investigating'', ''awaiting_review'', ''resolved'', ''dismissed'']),
     (''resolved'', [''open'', ''monitoring'']),
     (''dismissed'', [''open'', ''monitoring''])]"

definition allowed_from :: "json \<Rightarrow> string list" where
  "allowed_from v = (case v of JStr t \<Rightarrow> the_or (map_of STATUS_TRANSITIONS t) [] | _ \<Rightarrow> [])"

text \<open>The current status is the projected value, which a legacy import may have set to any text.\<close>

definition validate_status_transition :: "'a host_scheme \<Rightarrow> json \<Rightarrow> string \<Rightarrow> bool \<Rightarrow> unit wf" where
  "validate_status_transition H current target strict =
     (if target \<notin> set WORKFLOW_STATUSES then Inl (WorkflowInvalid ''unsupported_workflow_status'')
      else if \<not> strict \<or> current = JStr target then Inr ()
      else if target \<notin> set (allowed_from current)
      then Inl (WorkflowInvalid (''invalid_status_transition:'' @ py_str H current @ '':'' @ target))
      else Inr ())"

datatype finding_action = WorkflowAction | FieldReportAction

definition forbidden :: "workflow_error" where
  "forbidden = WorkflowInvalid ''workflow_action_forbidden''"

definition action_policy ::
  "'a host_scheme \<Rightarrow> directory \<Rightarrow> workspace_context \<Rightarrow> workflow_view \<Rightarrow> string \<Rightarrow> string \<Rightarrow> bool \<Rightarrow> finding_action \<Rightarrow> jdict option
   \<Rightarrow> unit wf" where
  "action_policy H D W w actor role strict action changes =
     (if \<not> strict then Inr ()
      else let nrole = lower (strip (if role = [] then ''viewer'' else role)) in
        if nrole = ''operator'' \<or> nrole = ''admin'' then Inr ()
        else if nrole \<noteq> ''viewer'' then Inl forbidden
        else if \<not> is_exact_active_member_assignment H D W w actor then Inl forbidden
        else if action = FieldReportAction then Inr ()
        else (case changes of
            None \<Rightarrow> Inl forbidden
          | Some ch \<Rightarrow>
              if set (map fst ch) \<noteq> {''status''} then Inl forbidden
              else if jget ch ''status'' \<notin> JStr ` set VIEWER_STATUSES then Inl forbidden
              else Inr ()))"

definition authorize_finding_action ::
  "nat \<Rightarrow> 'a workflow_host_scheme \<Rightarrow> directory \<Rightarrow> workspace_context \<Rightarrow> dataset_scope \<Rightarrow> string \<Rightarrow> string \<Rightarrow> string \<Rightarrow> string \<Rightarrow> bool
   \<Rightarrow> finding_action \<Rightarrow> jdict option \<Rightarrow> finding_db \<Rightarrow> unit run" where
  "authorize_finding_action n H D W sc now fid actor role strict action changes s =
     bindR (read_finding_case n H sc now fid s) (\<lambda>v s1.
     Some (s1, action_policy H D W (fv_workflow v) actor role strict action changes))"

subsection \<open>Updates\<close>

definition unsupported_fields :: "jdict \<Rightarrow> string list" where
  "unsupported_fields ch = sorted_set (filter (\<lambda>f. f \<notin> set WORKFLOW_FIELDS) (map fst ch))"

definition normalize_changes :: "'a host_scheme \<Rightarrow> directory \<Rightarrow> workspace_context \<Rightarrow> jdict \<Rightarrow> jdict wf" where
  "normalize_changes H D W ch =
     (if jhas ch ''assignment''
      then bindE (normalized_person_assignment H D W (jget ch ''assignment'')) (\<lambda>a. Inr (jset ch ''assignment'' a))
      else Inr ch)"

definition check_status ::
  "nat \<Rightarrow> 'a workflow_host_scheme \<Rightarrow> dataset_scope \<Rightarrow> string \<Rightarrow> string \<Rightarrow> jdict \<Rightarrow> bool \<Rightarrow> finding_db \<Rightarrow> unit run" where
  "check_status n H sc now fid ch enforce s =
     (if jhas ch ''status''
      then bindR (read_finding_case n H sc now fid s) (\<lambda>v s1.
        Some (s1, validate_status_transition H (wv_get (fv_workflow v) ''status'') (py_str H (jget ch ''status'')) enforce))
      else Some (s, Inr ()))"

text \<open>Appending an event and reading the case back.\<close>

definition record_event ::
  "nat \<Rightarrow> 'a workflow_host_scheme \<Rightarrow> dataset_scope \<Rightarrow> string \<Rightarrow> string \<Rightarrow> event_body \<Rightarrow> string \<Rightarrow> int option \<Rightarrow> string option \<Rightarrow> string
   \<Rightarrow> finding_db \<Rightarrow> finding_view run" where
  "record_event n H sc now fid b actor expected key recorded s =
     bindR (transact s (append_to H sc fid b actor expected key recorded s)) (\<lambda>e. read_finding_case n H sc now fid)"

definition update_finding_workflow ::
  "nat \<Rightarrow> 'a workflow_host_scheme \<Rightarrow> directory \<Rightarrow> workspace_context \<Rightarrow> dataset_scope \<Rightarrow> string \<Rightarrow> string \<Rightarrow> jdict \<Rightarrow> int \<Rightarrow> string
   \<Rightarrow> string option \<Rightarrow> string option \<Rightarrow> bool \<Rightarrow> finding_db \<Rightarrow> finding_view run" where
  "update_finding_workflow n H D W sc now fid ch expected actor key recorded enforce s =
     (if unsupported_fields ch \<noteq> [] then Some (s, Inl (UnsupportedFields (unsupported_fields ch)))
      else (case normalize_changes H D W ch of
          Inl e \<Rightarrow> Some (s, Inl e)
        | Inr ch' \<Rightarrow>
            bindR (check_status n H sc now fid ch' enforce s) (\<lambda>_.
            record_event n H sc now fid (WorkflowUpdated ch' None) actor (Some expected) key (the_or (given recorded) now))))"

definition normalize_report :: "'a host_scheme \<Rightarrow> jdict \<Rightarrow> string \<Rightarrow> string \<Rightarrow> field_report option" where
  "normalize_report H r actor timestamp =
     (case jget r ''problem_found'' of
        JStr p \<Rightarrow>
          if p \<in> {''yes'', ''no'', ''uncertain''}
          then Some \<lparr>fr_note = clean H (jget r ''note''), fr_inspected = clean H (jget r ''inspected''),
             fr_found = clean H (jget r ''found''), fr_action_taken = clean H (jget r ''action_taken''),
             fr_problem_found = p, fr_needs_escalation = truthy (jget r ''needs_escalation''),
             fr_investigation_complete = truthy (jget r ''investigation_complete''), fr_actor = actor,
             fr_recorded_at = timestamp\<rparr>
          else None
      | _ \<Rightarrow> None)"

definition record_finding_field_report ::
  "nat \<Rightarrow> 'a workflow_host_scheme \<Rightarrow> dataset_scope \<Rightarrow> string \<Rightarrow> string \<Rightarrow> jdict \<Rightarrow> int \<Rightarrow> string \<Rightarrow> string option \<Rightarrow> string option
   \<Rightarrow> finding_db \<Rightarrow> finding_view run" where
  "record_finding_field_report n H sc now fid r expected actor key recorded s =
     bindR (read_finding_case n H sc now fid s) (\<lambda>v s1.
       if wv_get (fv_workflow v) ''status'' \<in> {JStr ''resolved'', JStr ''dismissed''}
       then Some (s1, Inl (WorkflowInvalid ''field_report_not_allowed_for_terminal_finding''))
       else let timestamp = the_or (given recorded) now in
         case normalize_report H r actor timestamp of
           None \<Rightarrow> Some (s1, Inl (WorkflowInvalid ''invalid_problem_found''))
         | Some fr \<Rightarrow> record_event n H sc now fid (FieldReportRecorded fr) actor (Some expected) key timestamp s1)"

definition record_finding_feedback ::
  "nat \<Rightarrow> 'a workflow_host_scheme \<Rightarrow> dataset_scope \<Rightarrow> string \<Rightarrow> string \<Rightarrow> jdict \<Rightarrow> int option \<Rightarrow> string \<Rightarrow> string option \<Rightarrow> string option
   \<Rightarrow> finding_db \<Rightarrow> finding_view run" where
  "record_finding_feedback n H sc now fid f expected actor key recorded s =
     record_feedback_with (read_finding_case n H sc now) H sc fid FeedbackRecorded f expected actor key (the_or (given recorded) now) s"

definition resolve_finding ::
  "nat \<Rightarrow> 'a workflow_host_scheme \<Rightarrow> dataset_scope \<Rightarrow> string \<Rightarrow> string \<Rightarrow> string \<Rightarrow> string option \<Rightarrow> int \<Rightarrow> string \<Rightarrow> string option
   \<Rightarrow> string option \<Rightarrow> finding_db \<Rightarrow> finding_view run" where
  "resolve_finding n H sc now fid outcome note expected actor key recorded s =
     (let timestamp = the_or (given recorded) now in
      record_event n H sc now fid (ResolutionRecorded \<lparr>rs_outcome = outcome, rs_note = clean_text note,
        rs_resolved_at = timestamp, rs_actor = actor\<rparr>) actor (Some expected) key timestamp s)"

definition lifecycle_of :: "workflow_event \<Rightarrow> lifecycle_event option" where
  "lifecycle_of e = (case we_body e of LifecycleRecorded l \<Rightarrow> Some l | _ \<Rightarrow> None)"

definition record_governance_lifecycle ::
  "'a workflow_host_scheme \<Rightarrow> dataset_scope \<Rightarrow> string \<Rightarrow> lifecycle_change \<Rightarrow> string \<Rightarrow> int \<Rightarrow> string \<Rightarrow> string \<Rightarrow> finding_db
   \<Rightarrow> lifecycle_event option run" where
  "record_governance_lifecycle H sc fid change actor expected key recorded s =
     (case validate_lifecycle_change change of
        Inl e \<Rightarrow> Some (s, Inl (GovernanceInvalid e))
      | Inr l \<Rightarrow>
          bindR (transact s (append_to H sc fid (LifecycleRequested l) actor (Some expected) (Some key) recorded s)) (\<lambda>e s1.
          Some (s1, Inr (lifecycle_of e))))"

definition governance_lifecycle_history ::
  "'a host_scheme \<Rightarrow> dataset_scope \<Rightarrow> string \<Rightarrow> finding_db \<Rightarrow> lifecycle_event list wf" where
  "governance_lifecycle_history H sc fid s = (if raw_case H sc fid s = None then Inl FindingNotFound
     else Inr (List.map_filter lifecycle_of (events_of (fd_log s) fid)))"

subsection \<open>The routes\<close>

text \<open>
  The handlers of \<^verbatim>\<open>routers/findings.py\<close> without the audit record they write after a success.
  An error of another kind propagates (\<open>None\<close>).
\<close>

datatype http_error = HttpError int string "int option"

definition workflow_http :: "workflow_error \<Rightarrow> http_error option" where
  "workflow_http e = (case e of
       FindingNotFound \<Rightarrow> Some (HttpError 404 ''Finding not found.'' None)
     | WorkflowConflict r v \<Rightarrow> Some (HttpError 409 r (Some v))
     | WorkflowInvalid r \<Rightarrow> Some (HttpError (if r = ''workflow_action_forbidden'' then 403 else 422) r None)
     | _ \<Rightarrow> None)"

definition patch_finding_workflow ::
  "nat \<Rightarrow> 'a workflow_host_scheme \<Rightarrow> directory \<Rightarrow> workspace_context \<Rightarrow> dataset_scope \<Rightarrow> string \<Rightarrow> bool \<Rightarrow> string \<Rightarrow> string \<Rightarrow> string
   \<Rightarrow> jdict \<Rightarrow> int \<Rightarrow> string option \<Rightarrow> finding_db \<Rightarrow> finding_view run" where
  "patch_finding_workflow n H D W sc now strict fid actor role ch expected key s =
     (if jhas ch ''status'' \<and> jget ch ''status'' = JNull then Some (s, Inl (WorkflowInvalid ''status cannot be null.''))
      else if ch = [] then Some (s, Inl (WorkflowInvalid ''At least one workflow field is required.''))
      else bindR (authorize_finding_action n H D W sc now fid actor role strict WorkflowAction (Some ch) s) (\<lambda>_.
        update_finding_workflow n H D W sc now fid ch expected actor key None strict))"

definition submit_field_report ::
  "nat \<Rightarrow> 'a workflow_host_scheme \<Rightarrow> directory \<Rightarrow> workspace_context \<Rightarrow> dataset_scope \<Rightarrow> string \<Rightarrow> bool \<Rightarrow> string \<Rightarrow> string \<Rightarrow> string
   \<Rightarrow> jdict \<Rightarrow> int \<Rightarrow> string option \<Rightarrow> finding_db \<Rightarrow> finding_view run" where
  "submit_field_report n H D W sc now strict fid actor role r expected key s =
     bindR (authorize_finding_action n H D W sc now fid actor role strict FieldReportAction None s) (\<lambda>_.
       record_finding_field_report n H sc now fid r expected actor key None)"

definition validation_outcome_for_category :: "string \<Rightarrow> string option" where
  "validation_outcome_for_category c = map_of [
     (''confirmed_issue'', ''confirmed''), (''useful_warning'', ''confirmed''), (''maintenance_event'', ''action_taken''),
     (''known_operational_change'', ''explained''), (''sensor_or_data_problem'', ''explained''),
     (''environmental_cause'', ''explained''), (''nothing_meaningful'', ''false_positive''),
     (''expected_behavior'', ''expected''), (''false_positive'', ''false_positive''), (''ignore'', ''ignored'')] (strip c)"

end
