(* ===== verification/Finding_Views.thy ===== *)
theory Finding_Views
  imports Finding_Workflow
begin

text \<open>
  The readings of the finding workflow in \<^verbatim>\<open>services/finding_workflow.py\<close>: the filtered and paged
  list of cases, the human activity of a case, and the run-level compatibility writes and readings.
  An instant of a text is \<open>w_instant\<close>, which reads a text without an offset as UTC; \<open>instant\<close> is the
  clock of the overdue and recently resolved filters.
\<close>

subsection \<open>The list\<close>

record list_query =
  lq_source_kind :: "source_kind option"
  lq_source_run_id :: "string option"
  lq_workflow_status :: "string option"
  lq_priority :: "string option"
  lq_system :: "string option"
  lq_assigned_to_me :: bool
  lq_assignee :: "string option"
  lq_unassigned :: bool
  lq_overdue :: bool
  lq_in_progress :: bool
  lq_awaiting_review :: bool
  lq_recently_resolved :: bool
  lq_active :: bool
  lq_actor :: "string option"

record 'a page =
  pg_findings :: "'a list"
  pg_limit :: int
  pg_offset :: int
  pg_has_more :: bool
  pg_next_offset :: "int option"

definition listed_ids :: "'a host_scheme \<Rightarrow> dataset_scope \<Rightarrow> list_query \<Rightarrow> finding_db \<Rightarrow> string list" where
  "listed_ids H sc q s = map fc_finding_id (take 1001 (rev (sort_key (\<lambda>c. (fc_created_at c, fc_finding_id c))
     (filter (\<lambda>c. (case lq_source_kind q of None \<Rightarrow> True | Some k \<Rightarrow> fc_source_kind c = k)
        \<and> (case given (lq_source_run_id q) of None \<Rightarrow> True | Some r \<Rightarrow> jget (fc_source_snapshot c) ''source_run_id'' = JStr r)
        \<and> fc_scope_storage_id c = Some (storage_id H sc)) (wd_cases (fd_log s))))))"

fun read_all :: "nat \<Rightarrow> 'a workflow_host_scheme \<Rightarrow> dataset_scope \<Rightarrow> string \<Rightarrow> string list \<Rightarrow> finding_db \<Rightarrow> finding_view list run" where
  "read_all n H sc now [] s = Some (s, Inr [])"
| "read_all n H sc now (fid # fids) s =
     bindR (read_finding_case n H sc now fid s) (\<lambda>v s1.
     bindR (read_all n H sc now fids s1) (\<lambda>vs s2. Some (s2, Inr (v # vs))))"

definition status_of :: "finding_view \<Rightarrow> json" where
  "status_of v = wv_get (fv_workflow v) ''status''"

definition assignment_id :: "'a host_scheme \<Rightarrow> finding_view \<Rightarrow> string option" where
  "assignment_id H v = (let a = wv_get (fv_workflow v) ''assignment'' in
     if is_dict a then clean H (jget (as_dict a) ''external_ref'') else None)"

definition terminal_statuses :: "json list" where
  "terminal_statuses = [JStr ''resolved'', JStr ''dismissed'']"

definition in_system :: "'a host_scheme \<Rightarrow> string \<Rightarrow> finding_view \<Rightarrow> bool" where
  "in_system H system v = (let f = as_dict (jget (fv_evidence v) ''finding'') in
     lower (strip system) \<in> {lower (strip (py_text H (jget f ''system_id''))), lower (strip (py_text H (jget f ''system_name'')))})"

definition is_overdue :: "'a workflow_host_scheme \<Rightarrow> timestamp \<Rightarrow> finding_view \<Rightarrow> bool" where
  "is_overdue H instant v = (let due = wv_get (fv_workflow v) ''due_at'' in
     if \<not> truthy due \<or> status_of v \<in> set terminal_statuses then False
     else (case w_instant H (py_str H due) of None \<Rightarrow> False | Some t \<Rightarrow> t < instant))"

definition is_recently_resolved :: "'a workflow_host_scheme \<Rightarrow> timestamp \<Rightarrow> finding_view \<Rightarrow> bool" where
  "is_recently_resolved H instant v =
     (if status_of v \<notin> set terminal_statuses then False
      else (case given (wv_updated_at (fv_workflow v)) of
          None \<Rightarrow> False
        | Some text \<Rightarrow> (case w_instant H text of None \<Rightarrow> False | Some t \<Rightarrow> t \<ge> instant - 30 * 86400 * 1000000)))"

definition selected :: "'a workflow_host_scheme \<Rightarrow> timestamp \<Rightarrow> list_query \<Rightarrow> finding_view \<Rightarrow> bool" where
  "selected H instant q v \<longleftrightarrow>
     (case given (lq_workflow_status q) of None \<Rightarrow> True | Some t \<Rightarrow> status_of v = JStr t)
   \<and> (case given (lq_priority q) of None \<Rightarrow> True | Some p \<Rightarrow> wv_effective_priority (fv_workflow v) = JStr p)
   \<and> (case given (lq_system q) of None \<Rightarrow> True | Some x \<Rightarrow> in_system H x v)
   \<and> (lq_assigned_to_me q \<longrightarrow> lower (strip (the_or (assignment_id H v) [])) = lower (strip (the_or (lq_actor q) [])))
   \<and> (case given (lq_assignee q) of None \<Rightarrow> True
      | Some a \<Rightarrow> lower (strip (the_or (assignment_id H v) [])) = lower (strip a))
   \<and> (lq_unassigned q \<longrightarrow> wv_get (fv_workflow v) ''assignment'' = JNull)
   \<and> (lq_active q \<longrightarrow> status_of v \<notin> set terminal_statuses)
   \<and> (lq_in_progress q \<longrightarrow> status_of v \<in> JStr ` {''acknowledged'', ''investigating'', ''waiting'', ''escalated''})
   \<and> (lq_awaiting_review q \<longrightarrow> status_of v = JStr ''awaiting_review'')
   \<and> (lq_overdue q \<longrightarrow> is_overdue H instant v)
   \<and> (lq_recently_resolved q \<longrightarrow> is_recently_resolved H instant v)"

definition page_of :: "'a list \<Rightarrow> int \<Rightarrow> int \<Rightarrow> 'a page" where
  "page_of cases limit offset =
     (let off = max 0 offset; lim = max 1 (min limit 100);
          more = off + lim < int (length cases) in
      \<lparr>pg_findings = take (nat lim) (drop (nat off) cases), pg_limit = lim, pg_offset = off, pg_has_more = more,
       pg_next_offset = (if more then Some (off + lim) else None)\<rparr>)"

definition list_finding_cases ::
  "nat \<Rightarrow> 'a workflow_host_scheme \<Rightarrow> dataset_scope \<Rightarrow> string \<Rightarrow> timestamp \<Rightarrow> list_query \<Rightarrow> int \<Rightarrow> int \<Rightarrow> finding_db
   \<Rightarrow> finding_view page run" where
  "list_finding_cases n H sc now instant q limit offset s =
     bindR (materialize_existing_finding_cases n H sc now (lq_source_run_id q) (lq_source_kind q) s) (\<lambda>_ s1.
     bindR (read_all n H sc now (listed_ids H sc q s1) s1) (\<lambda>cases s2.
     Some (s2, Inr (page_of (filter (selected H instant q) cases) limit offset))))"

subsection \<open>The activity of a case\<close>

record activity_entry =
  ae_activity_type :: string
  ae_label :: string
  ae_summary :: string
  ae_actor :: string
  ae_recorded_at :: string
  ae_version :: int

definition activity_entry :: "workflow_event \<Rightarrow> string \<Rightarrow> string \<Rightarrow> activity_entry" where
  "activity_entry e label summary = \<lparr>ae_activity_type = event_type (we_body e), ae_label = label, ae_summary = summary,
     ae_actor = we_actor e, ae_recorded_at = we_recorded_at e, ae_version = we_version e\<rparr>"

definition spaced :: "string \<Rightarrow> string" where
  "spaced t = map (\<lambda>c. if c = CHR ''_'' then CHR '' '' else c) t"

definition status_label :: "string \<Rightarrow> string" where
  "status_label t = the_or (map_of [(''acknowledged'', ''Work acknowledged''), (''investigating'', ''Investigation started''),
     (''waiting'', ''Work marked waiting''), (''escalated'', ''Finding escalated''),
     (''awaiting review'', ''Investigation submitted for review''), (''monitoring'', ''Monitoring started''),
     (''resolved'', ''Finding resolved''), (''dismissed'', ''Finding dismissed'')] t) ''Status changed''"

definition change_entries :: "'a host_scheme \<Rightarrow> workflow_event \<Rightarrow> jdict \<Rightarrow> json \<Rightarrow> activity_entry list" where
  "change_entries H e ch current =
     (if jhas ch ''assignment'' then
        let a = jget ch ''assignment'' in
        [activity_entry e (if truthy current \<and> truthy a then ''Finding reassigned''
             else if truthy a then ''Finding assigned'' else ''Assignment removed'')
           (if is_dict a then ''Assigned to '' @ py_str H (jget (as_dict a) ''label'') @ ''.''
            else ''The finding is no longer assigned.'')]
      else [])
   @ (if jhas ch ''status'' then
        let t = spaced (py_str H (jget ch ''status'')) in
        [activity_entry e (status_label t) (''Status changed to '' @ t @ ''.'')]
      else [])
   @ (if jhas ch ''user_priority'' then
        let p = jget ch ''user_priority'' in
        [activity_entry e ''Priority changed''
           (if truthy p then ''Priority changed to '' @ py_str H p @ ''.'' else ''Priority override removed.'')]
      else [])
   @ (if jhas ch ''due_at'' then
        [activity_entry e ''Due date changed''
           (if truthy (jget ch ''due_at'') then ''Due date updated.'' else ''Due date removed.'')]
      else [])
   @ (if jhas ch ''manager_note'' then
        [activity_entry e ''Guidance updated'' ''Technical or maintenance guidance was updated.'']
      else [])"

definition next_assignment :: "jdict \<Rightarrow> json \<Rightarrow> json" where
  "next_assignment ch current = (if jhas ch ''assignment''
     then (if is_dict (jget ch ''assignment'') then jget ch ''assignment'' else JNull) else current)"

definition human_activity_entries ::
  "'a host_scheme \<Rightarrow> workflow_event \<Rightarrow> json \<Rightarrow> activity_entry list \<times> json" where
  "human_activity_entries H e current =
     (let (entries, current') = (case we_body e of
          WorkflowUpdated ch _ \<Rightarrow> (change_entries H e ch current, next_assignment ch current)
        | LegacyStatusImported ch _ \<Rightarrow> (change_entries H e ch current, next_assignment ch current)
        | FeedbackRecorded _ \<Rightarrow> ([activity_entry e ''Note added'' ''A finding note or validation result was recorded.''], current)
        | LegacyFeedbackImported _ \<Rightarrow> ([activity_entry e ''Note added'' ''A finding note or validation result was recorded.''], current)
        | FieldReportRecorded r \<Rightarrow>
            ([if fr_needs_escalation r
              then activity_entry e ''Escalation requested'' ''The technician submitted findings and requested help.''
              else activity_entry e (if fr_investigation_complete r then ''Investigation completed'' else ''Field report added'')
                ''The technician submitted field findings.''], current)
        | ResolutionRecorded _ \<Rightarrow>
            ([activity_entry e ''Finding resolved'' ''The review outcome was recorded and the finding was resolved.''], current)
        | _ \<Rightarrow> ([], current))
      in (if entries = [] then [activity_entry e ''Finding updated'' ''Workflow details were updated.''] else entries, current'))"

fun activity_groups :: "'a host_scheme \<Rightarrow> json \<Rightarrow> workflow_event list \<Rightarrow> activity_entry list list" where
  "activity_groups H current [] = []"
| "activity_groups H current (e # es) =
     (case human_activity_entries H e current of (entries, current') \<Rightarrow> entries # activity_groups H current' es)"

definition detected_entry :: "string \<Rightarrow> activity_entry" where
  "detected_entry created = \<lparr>ae_activity_type = ''detected'', ae_label = ''Finding detected'',
     ae_summary = ''Neraium surfaced this persistent behavioral change for review.'', ae_actor = ''Neraium'',
     ae_recorded_at = created, ae_version = 0\<rparr>"

record activity_view =
  av_finding_id :: string
  av_events :: "workflow_event list"
  av_activity :: "activity_entry list"
  av_version :: int

definition finding_activity ::
  "nat \<Rightarrow> 'a workflow_host_scheme \<Rightarrow> dataset_scope \<Rightarrow> string \<Rightarrow> string \<Rightarrow> finding_db \<Rightarrow> activity_view run" where
  "finding_activity n H sc now fid s =
     bindR (read_finding_case n H sc now fid s) (\<lambda>v s1.
       let es = events_of (fd_log s1) fid in
       Some (s1, Inr \<lparr>av_finding_id = fid, av_events = rev es,
         av_activity = concat (rev (activity_groups H JNull es)) @ [detected_entry (fv_created_at v)],
         av_version = wv_version (fv_workflow v)\<rparr>))"

subsection \<open>Run-level compatibility\<close>

definition legacy_states :: "string list" where
  "legacy_states = [''open'', ''acknowledged'', ''investigating'', ''monitoring'', ''resolved'', ''dismissed'']"

text \<open>
  A legacy event row. The table of status events constrains its state; a violation, a reused event id
  or a run outside the scope rejects the insert.
\<close>

definition append_evidence_event ::
  "'a workflow_host_scheme \<Rightarrow> dataset_scope \<Rightarrow> legacy_kind \<Rightarrow> string \<Rightarrow> jdict \<Rightarrow> finding_db \<Rightarrow> unit run" where
  "append_evidence_event H sc k run event s =
     (let supplied = truthy (jget event ''event_id'');
          eid = (if supplied then py_str H (jget event ''event_id'') else w_uuid H (wd_drawn (fd_log s)));
          row = \<lparr>lg_run_id = run, lg_event_id = eid,
            lg_payload = jset (jset event ''event_id'' (JStr eid)) ''run_id'' (JStr run)\<rparr>;
          table = (case k of LegacyStatus \<Rightarrow> fd_status_events s | LegacyFeedback \<Rightarrow> fd_feedback_events s);
          s1 = (if supplied then s else s\<lparr>fd_log := (fd_log s)\<lparr>wd_drawn := wd_drawn (fd_log s) + 1\<rparr>\<rparr>) in
      if read_evidence H sc run s = None then Some (s1, Inl EvidenceRunNotFound)
      else if eid \<in> set (map lg_event_id table)
          \<or> (k = LegacyStatus \<and> py_text H (jget event ''state'') \<notin> set legacy_states)
      then Some (s1, Inl StorageRejected)
      else Some (case k of LegacyStatus \<Rightarrow> s1\<lparr>fd_status_events := fd_status_events s @ [row]\<rparr>
                         | LegacyFeedback \<Rightarrow> s1\<lparr>fd_feedback_events := fd_feedback_events s @ [row]\<rparr>, Inr ()))"

text \<open>The run's record, when it belongs to the current scope.\<close>

definition own_record :: "'a host_scheme \<Rightarrow> dataset_scope \<Rightarrow> string \<Rightarrow> finding_db \<Rightarrow> jdict option" where
  "own_record H sc run s = (case read_evidence H sc run s of None \<Rightarrow> None
     | Some r \<Rightarrow> if dataset_scope_from_payload H (JObj r) = Some sc then Some r else None)"

datatype compatibility_result = CanonicalFinding | LegacyAmbiguousRun

definition sole_case :: "'a host_scheme \<Rightarrow> dataset_scope \<Rightarrow> string list \<Rightarrow> finding_db \<Rightarrow> string option" where
  "sole_case H sc ids s = (case ids of [fid] \<Rightarrow> if raw_case H sc fid s = None then None else Some fid | _ \<Rightarrow> None)"

definition compatibility_write_status ::
  "nat \<Rightarrow> 'a workflow_host_scheme \<Rightarrow> dataset_scope \<Rightarrow> string \<Rightarrow> string \<Rightarrow> string \<Rightarrow> string \<Rightarrow> string \<Rightarrow> string option \<Rightarrow> string option
   \<Rightarrow> string option \<Rightarrow> string option \<Rightarrow> string option \<Rightarrow> finding_db \<Rightarrow> compatibility_result run" where
  "compatibility_write_status n H sc now run state actor recorded note owner assignee work_order key s =
     (case own_record H sc run s of
        None \<Rightarrow> Some (s, Inl EvidenceRunNotFound)
      | Some r \<Rightarrow>
          bindR (materialize_evidence_finding_cases n H sc now r s) (\<lambda>ids s1.
          (case sole_case H sc ids s1 of
             None \<Rightarrow>
               bindR (append_evidence_event H sc LegacyStatus run [(''state'', JStr state), (''actor'', JStr actor),
                   (''recorded_at'', JStr recorded), (''note'', jopt JStr (clean_text note)),
                   (''owner'', JStr (the_or (clean_text owner) actor)), (''assignee'', jopt JStr (clean_text assignee)),
                   (''work_order_reference'', jopt JStr (clean_text work_order))] s1) (\<lambda>_ s2.
               Some (s2, Inr LegacyAmbiguousRun))
           | Some fid \<Rightarrow>
               if assignee \<noteq> None \<and> clean_text assignee \<noteq> None
               then Some (s1, Inl (WorkflowInvalid ''assignment_member_required''))
               else bindR (transact s1 (append_to H sc fid (WorkflowUpdated
                   ([(''status'', JStr state), (''manager_note'', jopt JStr (clean_text note)),
                     (''work_order_reference'', jopt JStr (clean_text work_order))]
                    @ (if assignee \<noteq> None then [(''assignment'', JNull)] else []))
                   (Some [(''run_id'', JStr run)])) actor None key recorded s1)) (\<lambda>_ s2.
               Some (s2, Inr CanonicalFinding)))))"

definition compatibility_write_feedback ::
  "nat \<Rightarrow> 'a workflow_host_scheme \<Rightarrow> dataset_scope \<Rightarrow> string \<Rightarrow> string \<Rightarrow> jdict \<Rightarrow> string \<Rightarrow> string \<Rightarrow> string option \<Rightarrow> finding_db
   \<Rightarrow> compatibility_result run" where
  "compatibility_write_feedback n H sc now run f actor recorded key s =
     (case own_record H sc run s of
        None \<Rightarrow> Some (s, Inl EvidenceRunNotFound)
      | Some r \<Rightarrow>
          bindR (materialize_evidence_finding_cases n H sc now r s) (\<lambda>ids s1.
          (case sole_case H sc ids s1 of
             None \<Rightarrow>
               bindR (append_evidence_event H sc LegacyFeedback run (feedback_dict f actor recorded) s1) (\<lambda>_ s2.
               Some (s2, Inr LegacyAmbiguousRun))
           | Some fid \<Rightarrow>
               bindR (record_finding_feedback n H sc now fid f None actor key (Some recorded) s1) (\<lambda>_ s2.
               Some (s2, Inr CanonicalFinding)))))"

definition resolution_category :: "string \<Rightarrow> string option" where
  "resolution_category o1 = map_of [(''issue_found'', ''confirmed_issue''), (''no_issue_found'', ''false_positive''),
     (''operational_change'', ''known_operational_change''), (''sensor_issue'', ''sensor_or_data_problem''),
     (''maintenance_performed'', ''maintenance_event'')] o1"

definition compatibility_status :: "workflow_event \<Rightarrow> jdict list" where
  "compatibility_status e = (case we_body e of
       ResolutionRecorded r \<Rightarrow> [[(''event_id'', JStr (we_event_id e)), (''state'', JStr ''resolved''),
         (''note'', jopt JStr (rs_note r)), (''actor'', JStr (we_actor e)), (''owner'', JStr (we_actor e)),
         (''recorded_at'', JStr (we_recorded_at e))]]
     | WorkflowUpdated ch _ \<Rightarrow>
         if jhas ch ''status'' \<or> jhas ch ''assignment'' \<or> jhas ch ''work_order_reference''
         then [[(''event_id'', JStr (we_event_id e)), (''state'', jget ch ''status''), (''note'', jget ch ''manager_note''),
           (''actor'', JStr (we_actor e)), (''owner'', JStr (we_actor e)),
           (''assignee'', jget (as_dict (jget ch ''assignment'')) ''label''),
           (''work_order_reference'', jget ch ''work_order_reference''), (''recorded_at'', JStr (we_recorded_at e))]]
         else []
     | _ \<Rightarrow> [])"

definition compatibility_feedback :: "workflow_event \<Rightarrow> jdict list" where
  "compatibility_feedback e = (case we_body e of
       ResolutionRecorded r \<Rightarrow>
         (case resolution_category (rs_outcome r) of
            None \<Rightarrow> []
          | Some c \<Rightarrow> [[(''category'', JStr c), (''note'', jopt JStr (rs_note r)), (''outcome'', JStr (rs_outcome r)),
              (''action_taken'', if rs_outcome r = ''maintenance_performed'' then jopt JStr (rs_note r) else JNull),
              (''actor'', JStr (we_actor e)), (''recorded_at'', JStr (we_recorded_at e)),
              (''resolution_event_id'', JStr (we_event_id e))]])
     | FeedbackRecorded f \<Rightarrow> [f]
     | _ \<Rightarrow> [])"

definition compatibility_events_for_run ::
  "'a host_scheme \<Rightarrow> dataset_scope \<Rightarrow> string \<Rightarrow> finding_db \<Rightarrow> jdict list \<times> jdict list" where
  "compatibility_events_for_run H sc run s =
     (case run_cases H sc run s of
        [c] \<Rightarrow> let es = rev (events_of (fd_log s) (fc_finding_id c)) in
          (concat (map compatibility_status es), concat (map compatibility_feedback es))
      | _ \<Rightarrow> ([], []))"

end
