(* ===== verification/Finding_Steps.thy ===== *)
theory Finding_Steps
  imports Finding_Views
begin

text \<open>
  The laws of the finding workflow: a step relation made of every operation of \<open>Finding_Workflow\<close> and
  \<open>Finding_Views\<close>, the contract an invariant meets to survive each step, and its instances.
\<close>

definition status_ok :: "jdict \<Rightarrow> bool" where
  "status_ok ch \<longleftrightarrow> jhas ch ''status'' \<longrightarrow> jget ch ''status'' \<in> JStr ` set WORKFLOW_STATUSES"

definition status_text :: "jdict \<Rightarrow> bool" where
  "status_text ch \<longleftrightarrow> jhas ch ''status'' \<longrightarrow> (\<exists>t. jget ch ''status'' = JStr t)"

text \<open>
  A request of the workflow. The routes admit a text as a status and, for a run, one of the legacy
  states. A request runs in a scope; each has its own clock, members and fuel.
\<close>

inductive workflow_step :: "'a workflow_host_scheme \<Rightarrow> dataset_scope \<Rightarrow> finding_db \<Rightarrow> finding_db \<Rightarrow> bool" for H sc where
  reading: "read_finding_case n H sc now fid s = Some (s', x1) \<Longrightarrow> workflow_step H sc s s'"
| materialising: "materialize_evidence_finding_cases n H sc now r s = Some (s', x2) \<Longrightarrow> workflow_step H sc s s'"
| listing: "list_finding_cases n H sc now instant q limit offset s = Some (s', x3) \<Longrightarrow> workflow_step H sc s s'"
| viewing: "finding_activity n H sc now fid s = Some (s', x4) \<Longrightarrow> workflow_step H sc s s'"
| updating: "status_text ch \<Longrightarrow>
    update_finding_workflow n H D W sc now fid ch expected actor key recorded enforce s = Some (s', x5) \<Longrightarrow> workflow_step H sc s s'"
| patching: "status_text ch \<Longrightarrow>
    patch_finding_workflow n H D W sc now strict fid actor role ch expected key s = Some (s', x6) \<Longrightarrow> workflow_step H sc s s'"
| reporting: "submit_field_report n H D W sc now strict fid actor role rp expected key s = Some (s', x7) \<Longrightarrow> workflow_step H sc s s'"
| feedback: "record_finding_feedback n H sc now fid f expected1 actor key recorded s = Some (s', x8) \<Longrightarrow> workflow_step H sc s s'"
| resolving: "resolve_finding n H sc now fid outcome note expected actor key recorded s = Some (s', x9) \<Longrightarrow> workflow_step H sc s s'"
| lifecycle: "record_governance_lifecycle H sc fid change actor expected ikey instant_text s = Some (s', x10) \<Longrightarrow> workflow_step H sc s s'"
| run_status: "state \<in> set legacy_states \<Longrightarrow>
    compatibility_write_status n H sc now run state actor instant_text note owner assignee order key s = Some (s', x11) \<Longrightarrow> workflow_step H sc s s'"
| run_feedback: "compatibility_write_feedback n H sc now run f actor instant_text key s = Some (s', x12) \<Longrightarrow> workflow_step H sc s s'"

locale workflow_invariant = finding_invariant +
  assumes update_ok: "status_ok ch \<Longrightarrow> ok (WorkflowUpdated ch cm)"
    and feedback_ok: "ok (FeedbackRecorded f)"
    and report_ok: "ok (FieldReportRecorded rp)"
    and resolution_ok: "ok (ResolutionRecorded rs)"
    and lifecycle_ok: "ok (LifecycleRequested l)"
    and row: "I s \<Longrightarrow> (k = LegacyStatus \<Longrightarrow> jget ev ''state'' \<in> JStr ` set legacy_states) \<Longrightarrow>
      append_evidence_event H sc k run ev s = Some (s', x) \<Longrightarrow> I s'"
begin

lemma bindR_I:
  assumes "bindR m f = Some (s', y)" and "\<And>s x. m = Some (s, x) \<Longrightarrow> I s"
    and "\<And>s x. m = Some (s, Inr x) \<Longrightarrow> I s \<Longrightarrow> f x s = Some (s', y) \<Longrightarrow> I s'"
  shows "I s'"
  using assms by (rule bindR_rule)

lemma read_I: "I s \<Longrightarrow> read_finding_case n H sc now fid s = Some (s', v) \<Longrightarrow> I s'"
  by (rule sameD [OF read_same])

lemma record_event_I:
  assumes "I s" "ok b" "record_event n H sc now fid b actor expected key recorded s = Some (s', v)"
  shows "I s'"
  using assms(3) unfolding record_event_def
  by (rule bindR_I) (erule sameD [OF append_same [OF assms(1,2)]], erule (1) read_I)

lemma normalize_status: "normalize_changes H D W ch = Inr ch' \<Longrightarrow>
    jhas ch' ''status'' = jhas ch ''status'' \<and> jget ch' ''status'' = jget ch ''status''"
  by (auto simp: normalize_changes_def bindE_eq_Inr jhas_def jget_def map_of_jset split: if_splits)

lemma check_status_I: "I s \<Longrightarrow> check_status n H sc now fid ch enforce s = Some (s', v) \<Longrightarrow> I s'"
  by (auto simp: check_status_def split: if_splits elim!: bindR_I intro: read_I)

lemma check_status_ok:
  assumes "check_status n H sc now fid ch enforce s = Some (s', Inr u)" "status_text ch"
  shows "status_ok ch"
  using assms by (auto simp: check_status_def status_text_def status_ok_def bindR_eq_Inr
      validate_status_transition_def py_str_def split: if_splits)

lemma update_I:
  assumes i: "I s" and t: "status_text ch"
    and u: "update_finding_workflow n H D W sc now fid ch expected actor key recorded enforce s = Some (s', v)"
  shows "I s'"
proof (cases "unsupported_fields ch \<noteq> [] \<or> (\<exists>e. normalize_changes H D W ch = Inl e)")
  case True
  with i u show ?thesis by (auto simp: update_finding_workflow_def split: if_splits)
next
  case False
  then obtain ch' where n: "normalize_changes H D W ch = Inr ch'" by (cases "normalize_changes H D W ch") auto
  with t have t': "status_text ch'" by (simp add: status_text_def normalize_status [OF n])
  from u False n have "bindR (check_status n H sc now fid ch' enforce s) (\<lambda>_.
      record_event n H sc now fid (WorkflowUpdated ch' None) actor (Some expected) key (the_or (given recorded) now)) = Some (s', v)"
    by (simp add: update_finding_workflow_def)
  then show ?thesis
    by (rule bindR_I) (erule check_status_I [OF i], erule (1) record_event_I [OF _ update_ok [OF check_status_ok [OF _ t']], rotated])
qed

lemma report_I:
  assumes i: "I s" and u: "record_finding_field_report n H sc now fid rp expected actor key recorded s = Some (s', v)"
  shows "I s'"
  using u unfolding record_finding_field_report_def Let_def
  by (rule bindR_I) (auto intro: read_I [OF i] record_event_I [OF _ report_ok] split: if_splits option.splits)

lemma feedback_I:
  assumes i: "I s" and u: "record_finding_feedback n H sc now fid f expected actor key recorded s = Some (s', v)"
  shows "I s'"
  using sameD [OF feedback_with [where mk = FeedbackRecorded, OF read_keeps i feedback_ok u [unfolded record_finding_feedback_def]]] .

lemma resolve_I:
  assumes i: "I s" and u: "resolve_finding n H sc now fid outcome note expected actor key recorded s = Some (s', v)"
  shows "I s'"
  using u unfolding resolve_finding_def Let_def by (rule record_event_I [OF i resolution_ok])

lemma lifecycle_I:
  assumes i: "I s" and u: "record_governance_lifecycle H sc fid change actor expected key recorded s = Some (s', v)"
  shows "I s'"
proof (cases "validate_lifecycle_change change")
  case (Inl e)
  with i u show ?thesis by (simp add: record_governance_lifecycle_def)
next
  case (Inr l)
  from u show ?thesis unfolding record_governance_lifecycle_def Inr sum.case
    by (rule bindR_I) (auto intro: sameD [OF append_same [OF i lifecycle_ok]])
qed

lemma authorize_I:
  assumes i: "I s" and u: "authorize_finding_action n H D W sc now fid actor role strict action changes s = Some (s', v)"
  shows "I s'"
  using u unfolding authorize_finding_action_def by (rule bindR_I) (auto intro: read_I [OF i])

lemma patch_I:
  assumes i: "I s" and t: "status_text ch"
    and u: "patch_finding_workflow n H D W sc now strict fid actor role ch expected key s = Some (s', v)"
  shows "I s'"
proof (cases "jhas ch ''status'' \<and> jget ch ''status'' = JNull \<or> ch = []")
  case True
  with i u show ?thesis by (auto simp: patch_finding_workflow_def split: if_splits)
next
  case False
  with u have "bindR (authorize_finding_action n H D W sc now fid actor role strict WorkflowAction (Some ch) s) (\<lambda>_.
        update_finding_workflow n H D W sc now fid ch expected actor key None strict) = Some (s', v)"
    by (auto simp: patch_finding_workflow_def split: if_splits)
  then show ?thesis by (rule bindR_I) (erule authorize_I [OF i], erule (1) update_I [OF _ t])
qed

lemma submit_report_I:
  assumes i: "I s" and u: "submit_field_report n H D W sc now strict fid actor role rp expected key s = Some (s', v)"
  shows "I s'"
  using u unfolding submit_field_report_def by (rule bindR_I) (erule authorize_I [OF i], erule (1) report_I)

lemma read_all_I: "I s \<Longrightarrow> read_all n H sc now fids s = Some (s', v) \<Longrightarrow> I s'"
proof (induction fids arbitrary: s s' v)
  case (Cons fid fids)
  have rest: "I s'" if "I s1" "bindR (read_all n H sc now fids s1) (\<lambda>vs s2. Some (s2, Inr (x # vs))) = Some (s', v)" for s1 x
    using that(2) by (rule bindR_I) (auto intro: Cons.IH [OF that(1)])
  from Cons.prems(2) show ?case unfolding read_all.simps
    by (rule bindR_I) (erule read_I [OF Cons.prems(1)], erule (1) rest)
qed simp

lemma materialize_evidence_I:
  "I s \<Longrightarrow> materialize_evidence_finding_cases n H sc now r s = Some (s', v) \<Longrightarrow> I s'"
  by (rule sameD [OF materialize_evidence])

lemma list_I:
  assumes i: "I s" and u: "list_finding_cases n H sc now instant q limit offset s = Some (s', v)"
  shows "I s'"
proof -
  have rest: "I s'" if "I s1" "bindR (read_all n H sc now ids s1) (\<lambda>cases s2.
      Some (s2, Inr (page_of (filter (selected H instant q) cases) limit offset))) = Some (s', v)" for s1 ids
    using that(2) by (rule bindR_I) (auto intro: read_all_I [OF that(1)])
  from u show ?thesis unfolding list_finding_cases_def
    by (rule bindR_I) (erule sameD [OF materialize_existing [OF i]], erule (1) rest)
qed

lemma activity_I:
  assumes i: "I s" and u: "finding_activity n H sc now fid s = Some (s', v)"
  shows "I s'"
  using u unfolding finding_activity_def Let_def by (rule bindR_I) (auto intro: read_I [OF i])

lemma append_I: "I s \<Longrightarrow> ok b \<Longrightarrow>
    transact s (append_to H sc fid b actor expected key recorded s) = Some (s', x) \<Longrightarrow> I s'"
  by (rule sameD [OF append_same])

lemma then_I: "bindR m (\<lambda>_ s2. Some (s2, Inr r)) = Some (s', v) \<Longrightarrow> (\<And>s x. m = Some (s, x) \<Longrightarrow> I s) \<Longrightarrow> I s'"
  by (erule bindR_I) auto

lemma run_status_I:
  assumes i: "I s" and st: "state \<in> set legacy_states"
    and u: "compatibility_write_status n H sc now run state actor recorded note owner assignee order key s = Some (s', v)"
  shows "I s'"
proof (cases "own_record H sc run s")
  case None
  with i u show ?thesis by (simp add: compatibility_write_status_def)
next
  case (Some r)
  have upd: "ok (WorkflowUpdated ((''status'', JStr state) # rest) cm)" for rest cm
    using st by (intro update_ok) (auto simp: status_ok_def jget_def legacy_states_def WORKFLOW_STATUSES_def)
  have row': "append_evidence_event H sc LegacyStatus run ((''state'', JStr state) # rest) s1 = Some (s2, x) \<Longrightarrow> I s1 \<Longrightarrow> I s2"
    for rest s1 s2 x
    by (rule row) (use st in \<open>auto simp: jget_def\<close>)
  from u show ?thesis unfolding compatibility_write_status_def Some option.case
    by (rule bindR_I)
      (auto intro: materialize_evidence_I [OF i] row' append_I [OF _ upd] elim!: then_I split: option.splits if_splits)
qed

lemma run_feedback_I:
  assumes i: "I s" and u: "compatibility_write_feedback n H sc now run f actor recorded key s = Some (s', v)"
  shows "I s'"
proof (cases "own_record H sc run s")
  case None
  with i u show ?thesis by (simp add: compatibility_write_feedback_def)
next
  case (Some r)
  have row': "append_evidence_event H sc LegacyFeedback run ev s1 = Some (s2, x) \<Longrightarrow> I s1 \<Longrightarrow> I s2" for ev s1 s2 x
    by (rule row) auto
  from u show ?thesis unfolding compatibility_write_feedback_def Some option.case
    by (rule bindR_I)
      (auto intro: materialize_evidence_I [OF i] row' feedback_I elim!: then_I split: option.splits)
qed

end

text \<open>Steps of any scope, in any order.\<close>

definition any_step :: "'a workflow_host_scheme \<Rightarrow> finding_db \<Rightarrow> finding_db \<Rightarrow> bool" where
  "any_step H s s' \<longleftrightarrow> (\<exists>sc. workflow_step H sc s s')"

lemma step_keeps:
  assumes w: "workflow_invariant H sc I ok" and st: "workflow_step H sc s s'" and i: "I s"
  shows "I s'"
  using st
proof cases
  case (reading n now fid x1)
  then show ?thesis by (rule workflow_invariant.read_I [OF w i])
next
  case (materialising n now r x2)
  then show ?thesis by (rule workflow_invariant.materialize_evidence_I [OF w i])
next
  case (listing n now instant q limit offset x3)
  then show ?thesis by (rule workflow_invariant.list_I [OF w i])
next
  case (viewing n now fid x4)
  then show ?thesis by (rule workflow_invariant.activity_I [OF w i])
next
  case (updating ch n D W now fid expected actor key recorded enforce x5)
  then show ?thesis by (intro workflow_invariant.update_I [OF w i])
next
  case (patching ch n D W now strict fid actor role expected key x6)
  then show ?thesis by (intro workflow_invariant.patch_I [OF w i])
next
  case (reporting n D W now strict fid actor role rp expected key x7)
  then show ?thesis by (rule workflow_invariant.submit_report_I [OF w i])
next
  case (feedback n now fid f expected1 actor key recorded x8)
  then show ?thesis by (rule workflow_invariant.feedback_I [OF w i])
next
  case (resolving n now fid outcome nt expected actor key recorded x9)
  then show ?thesis by (rule workflow_invariant.resolve_I [OF w i])
next
  case (lifecycle fid change actor expected ikey instant_text x10)
  then show ?thesis by (rule workflow_invariant.lifecycle_I [OF w i])
next
  case (run_status state n now run actor instant_text nt owner assignee order key x11)
  then show ?thesis by (intro workflow_invariant.run_status_I [OF w i])
next
  case (run_feedback n now run f actor instant_text key x12)
  then show ?thesis by (rule workflow_invariant.run_feedback_I [OF w i])
qed

lemma steps_keep:
  assumes w: "\<And>sc. workflow_invariant H sc I ok" and st: "rtranclp (any_step H) s s'" and i: "I s"
  shows "I s'"
  using st by (induction rule: rtranclp_induct) (auto simp: any_step_def intro: i step_keeps [OF w])

subsection \<open>The invariants\<close>

lemma append_row_Some:
  assumes "append_evidence_event H sc k run ev s = Some (s', x)"
  shows "wd_cases (fd_log s') = wd_cases (fd_log s) \<and> wd_events (fd_log s') = wd_events (fd_log s)
    \<and> wd_drawn (fd_log s) \<le> wd_drawn (fd_log s') \<and> fd_evidence s' = fd_evidence s
    \<and> (\<exists>rows. fd_status_events s' = fd_status_events s @ rows \<and>
        (\<forall>g \<in> set rows. k = LegacyStatus \<and> jget (lg_payload g) ''state'' = jget ev ''state''))"
  using assms by (cases k) (auto simp: append_evidence_event_def Let_def jget_jset split: if_splits)

lemma store_ok_row:
  assumes i: "store_ok H s" and r: "append_evidence_event H sc k run ev s = Some (s', x)"
  shows "store_ok H s'"
proof -
  have "\<exists>n < wd_drawn (fd_log s'). we_event_id e = w_uuid H n" if "e \<in> set (wd_events (fd_log s))" for e
    using i that append_row_Some [OF r] unfolding store_ok_def log_ok_def by (meson order.strict_trans2)
  with i append_row_Some [OF r] show ?thesis by (simp add: store_ok_def log_ok_def case_events_def)
qed

interpretation laws: workflow_invariant H sc "store_ok H" "\<lambda>b. True"
  by unfold_locales (auto intro: store_ok_row)

interpretation growth: workflow_invariant H sc "grown s0" "\<lambda>b. True"
  by unfold_locales (auto simp: grown_def dest: append_row_Some)

interpretation identity: workflow_invariant H sc "ids_derived H" "\<lambda>b. True"
  by unfold_locales (auto simp: ids_derived_def dest: append_row_Some)

text \<open>The log of a case of another scope.\<close>

definition undisturbed :: "'a workflow_host_scheme \<Rightarrow> dataset_scope \<Rightarrow> finding_case \<Rightarrow> workflow_event list \<Rightarrow> finding_db \<Rightarrow> bool" where
  "undisturbed H sc c es s \<longleftrightarrow> store_ok H s \<and> (fc_scope_storage_id c \<noteq> Some (storage_id H sc) \<longrightarrow>
     c \<in> set (wd_cases (fd_log s)) \<and> case_events (fd_log s) (fc_finding_id c) = es)"

lemma undisturbed_insert: "undisturbed H sc c es s \<Longrightarrow> undisturbed H sc c es (insert_case d s)"
  by (auto simp: undisturbed_def insert_case_store_ok) (auto simp: insert_case_def case_events_def)

lemma undisturbed_append:
  assumes u: "undisturbed H sc c es s" and a: "append_to H sc fid b actor expected key recorded s = Inr (s', e)"
  shows "undisturbed H sc c es s'"
proof -
  note r = append_to_Inr [OF a]
  from r have ev: "append_event H (storage_id H sc) fid b actor expected key recorded (fd_log s) = Inr (fd_log s', e)" by blast
  have "case_events (fd_log s') (fc_finding_id c) = case_events (fd_log s) (fc_finding_id c)"
    if f: "fc_scope_storage_id c \<noteq> Some (storage_id H sc)" "c \<in> set (wd_cases (fd_log s))"
  proof -
    from ev obtain d where "find_case (fd_log s) (storage_id H sc) fid = Some d"
      by (auto simp: append_event_def split: if_splits)
    from find_case_Some [OF this] f u have "fc_finding_id c \<noteq> fid"
      by (auto simp: undisturbed_def store_ok_def distinct_map dest: inj_onD)
    then show ?thesis by (simp add: append_event_prefix(1) [OF ev])
  qed
  with u r append_store_ok [OF _ a] show ?thesis by (auto simp: undisturbed_def)
qed

interpretation isolation: workflow_invariant H sc "undisturbed H sc c es" "\<lambda>b. True"
proof unfold_locales
  fix s s' k ev run x
  assume i: "undisturbed H sc c es s" and r: "append_evidence_event H sc k run ev s = Some (s', x)"
  from append_row_Some [OF r] i store_ok_row [OF _ r] show "undisturbed H sc c es s'"
    by (simp add: undisturbed_def case_events_def)
qed (auto intro: undisturbed_insert undisturbed_append)

subsection \<open>The status vocabulary\<close>

definition valid_status :: "json \<Rightarrow> bool" where
  "valid_status v \<longleftrightarrow> v \<in> JStr ` set WORKFLOW_STATUSES"

definition body_ok :: "event_body \<Rightarrow> bool" where
  "body_ok b = (case b of WorkflowUpdated ch _ \<Rightarrow> status_ok ch | LegacyStatusImported ch _ \<Rightarrow> status_ok ch | _ \<Rightarrow> True)"

definition statuses_ok :: "'a workflow_host_scheme \<Rightarrow> finding_db \<Rightarrow> bool" where
  "statuses_ok H s \<longleftrightarrow> (\<forall>c \<in> set (wd_cases (fd_log s)). valid_status (jget (fc_source_snapshot c) ''initial_status''))
     \<and> (\<forall>e \<in> set (wd_events (fd_log s)). body_ok (we_body e))
     \<and> (\<forall>sc run e. (LegacyStatus, e) \<in> set (legacy_events H sc run s) \<longrightarrow> status_ok (legacy_changes H e))"

lemma initial_evidence_status_valid: "initial_evidence_status H r \<in> set WORKFLOW_STATUSES"
  by (simp add: initial_evidence_status_def Let_def WORKFLOW_STATUSES_def)

lemma snapshot_status:
  "jget (evidence_source_snapshot H r key f) ''initial_status'' = JStr (initial_evidence_status H r)"
  "jget (live_snapshot v) ''initial_status'' = JStr (if lv_current_state v = ''resolved'' then ''resolved'' else ''open'')"
  by (simp_all add: evidence_source_snapshot_def live_snapshot_def jget_def)

lemma statuses_insert:
  "statuses_ok H s \<Longrightarrow> valid_status (jget (fc_source_snapshot c) ''initial_status'') \<Longrightarrow> statuses_ok H (insert_case c s)"
proof -
  assume i: "statuses_ok H s" and v: "valid_status (jget (fc_source_snapshot c) ''initial_status'')"
  have "legacy_events H sc run (insert_case c s) = legacy_events H sc run s" for sc run
    by (simp add: legacy_events_def read_evidence_def insert_case_def)
  then show ?thesis using i v insert_case_mem [of _ c s]
    by (auto simp: statuses_ok_def) (auto simp: insert_case_def split: if_splits)
qed

lemma stored_body_ok: "stored_body H s fid eid v rc a b = Inr b' \<Longrightarrow> body_ok b \<Longrightarrow> body_ok b'"
  by (auto simp: stored_body_def body_ok_def split: event_body.splits option.splits sum.splits if_splits)

lemma statuses_append:
  assumes i: "statuses_ok H s" and b: "body_ok b" and a: "append_to H sc fid b actor expected key recorded s = Inr (s', e)"
  shows "statuses_ok H s'"
proof -
  from append_to_Inr [OF a] have ev: "append_event H (storage_id H sc) fid b actor expected key recorded (fd_log s) = Inr (fd_log s', e)"
    and t: "fd_tables s' = fd_tables s" by blast+
  have l: "legacy_events H sc run s' = legacy_events H sc run s" for sc run
    using t by (simp add: legacy_events_def read_evidence_def fd_tables_def)
  from ev show ?thesis
  proof (cases rule: append_event_Inr)
    case (replay k)
    then have "fd_log s' = fd_log s" by simp
    with i l show ?thesis by (simp add: statuses_ok_def)
  next
    case (added body)
    with i l stored_body_ok [OF added(2) b] show ?thesis by (auto simp: statuses_ok_def)
  qed
qed

lemma legacy_changes_status:
  "status_ok (legacy_changes H e) \<longleftrightarrow> valid_status (por (jget e ''state'') (por (jget e ''status'') (JStr ''open'')))"
  by (simp add: status_ok_def valid_status_def legacy_changes_def jhas_def jget_def)

lemma legacy_table_append: "legacy_table k run (xs @ ys) = legacy_table k run xs @ legacy_table k run ys"
  by (simp add: legacy_table_def)

lemma legacy_table_state: "(k', e) \<in> set (legacy_table k run rows) \<Longrightarrow>
    k' = k \<and> (\<exists>g \<in> set rows. jget e ''state'' = jget (lg_payload g) ''state'')"
  by (auto simp: legacy_table_def jget_jset split: if_splits)

lemma statuses_row:
  assumes i: "statuses_ok H s" and k: "k = LegacyStatus \<Longrightarrow> jget ev ''state'' \<in> JStr ` set legacy_states"
    and r: "append_evidence_event H sc k run ev s = Some (s', x)"
  shows "statuses_ok H s'"
proof -
  from append_row_Some [OF r] obtain rows where c: "wd_cases (fd_log s') = wd_cases (fd_log s)"
    and e: "wd_events (fd_log s') = wd_events (fd_log s)" and ev: "fd_evidence s' = fd_evidence s"
    and rows: "fd_status_events s' = fd_status_events s @ rows"
      "\<forall>g \<in> set rows. k = LegacyStatus \<and> jget (lg_payload g) ''state'' = jget ev ''state''" by blast
  have "status_ok (legacy_changes H d)" if d: "(LegacyStatus, d) \<in> set (legacy_events H sc' run' s')" for sc' run' d
  proof -
    from d have "(LegacyStatus, d) \<in> set (legacy_events H sc' run' s) \<or> (LegacyStatus, d) \<in> set (legacy_table LegacyStatus run' rows)"
      using legacy_table_state [of LegacyStatus d LegacyFeedback]
      by (auto simp: legacy_events_def read_evidence_def ev rows(1) legacy_table_append Let_def)
    then show ?thesis
    proof
      assume "(LegacyStatus, d) \<in> set (legacy_events H sc' run' s)"
      with i show ?thesis by (auto simp: statuses_ok_def)
    next
      assume "(LegacyStatus, d) \<in> set (legacy_table LegacyStatus run' rows)"
      then obtain g where "g \<in> set rows" "jget d ''state'' = jget (lg_payload g) ''state''"
        by (auto dest: legacy_table_state)
      with rows(2) k have "jget d ''state'' \<in> JStr ` set legacy_states" by auto
      then show ?thesis
        by (auto simp: legacy_changes_status valid_status_def por_def truthy_def legacy_states_def WORKFLOW_STATUSES_def)
    qed
  qed
  with i c e show ?thesis by (simp add: statuses_ok_def)
qed

interpretation vocabulary: workflow_invariant H sc "statuses_ok H" body_ok
proof unfold_locales
  fix s run r ds created kf
  assume "statuses_ok H s"
  then show "statuses_ok H (insert_case (evidence_case H run r ds created kf) s)"
    by (rule statuses_insert) (simp add: snapshot_status valid_status_def initial_evidence_status_valid)
next
  fix s v
  assume "statuses_ok H s"
  then show "statuses_ok H (insert_case (live_case H sc v) s)"
    by (rule statuses_insert) (simp add: live_case_def snapshot_status valid_status_def WORKFLOW_STATUSES_def)
next
  fix s run d cm
  assume "statuses_ok H s" "(LegacyStatus, d) \<in> set (legacy_history H sc run s)"
  then show "body_ok (LegacyStatusImported (legacy_changes H d) cm)"
    using legacy_history_subset by (fastforce simp: statuses_ok_def body_ok_def)
qed (auto intro: statuses_append statuses_row simp: body_ok_def)

lemma jget_set_fields: "status_ok ch \<Longrightarrow> valid_status (jget d ''status'') \<Longrightarrow> valid_status (jget (set_fields ch d) ''status'')"
  by (simp add: set_fields_def WORKFLOW_FIELDS_def jget_jset status_ok_def valid_status_def)

lemma valid_literals: "valid_status (JStr ''open'')" "valid_status (JStr ''escalated'')" "valid_status (JStr ''awaiting_review'')"
    "valid_status (JStr ''resolved'')"
  by (simp_all add: valid_status_def WORKFLOW_STATUSES_def)

lemma project_event_status:
  assumes "body_ok (we_body e)" "valid_status (wv_get w ''status'')"
  shows "valid_status (wv_get (project_event e w) ''status'')"
  using assms
  by (cases "we_body e")
    (auto simp: project_event_def body_ok_def project_changes_def jget_set_fields project_feedback_def set_field_def jget_jset
      project_report_def project_resolution_def Let_def valid_literals)

lemma product_status: "jget (product_items d) ''initial_status'' = product_evidence (jget d ''initial_status'')"
proof -
  have "\<not> retired ''initial_status''" "''initial_status'' \<notin> set PRESERVED" by code_simp+
  then show ?thesis by (simp add: jget_def product_items_lookup split: option.splits)
qed

lemma project_status:
  assumes c: "valid_status (jget (fc_source_snapshot c) ''initial_status'')" and es: "\<forall>e \<in> set es. body_ok (we_body e)"
  shows "valid_status (wv_get (project c es) ''status'')"
proof -
  have "valid_status (wv_get (fold project_event es w) ''status'')" if "valid_status (wv_get w ''status'')" for w
    using es that by (induction es arbitrary: w) (simp_all add: project_event_status)
  moreover from c have "valid_status (wv_get (default_workflow c) ''status'')"
    by (auto simp: default_workflow_def Let_def as_dict_def product_status valid_status_def jget_def [of "_ # _"] por_def truthy_def
        WORKFLOW_STATUSES_def)
  ultimately show ?thesis by (simp add: project_def Let_def)
qed

end
