(* ===== verification/Finding_Laws.thy ===== *)
theory Finding_Laws
  imports Finding_Steps
begin

text \<open>
  The properties of the finding workflow, from the invariants of \<open>Finding_Steps\<close> and the operations of
  \<open>Finding_Workflow\<close>, each with a concrete instance on a small store.
\<close>

subsection \<open>A store\<close>

definition demo_host :: workflow_host where
  "demo_host = \<lparr>h_repr = (\<lambda>v. ''?''), h_sha256 = (\<lambda>s. s), h_sha256_json = (\<lambda>v. ''digest''),
     w_uuid = (\<lambda>n. replicate n CHR ''u''), w_instant = (\<lambda>s. Some 0)\<rparr>"

definition demo_scope :: dataset_scope where
  "demo_scope = \<lparr>ds_tenant_id = ''t'', ds_user_id = ''ann@x'', ds_workspace_id = ''default''\<rparr>"

definition other_scope :: dataset_scope where
  "other_scope = \<lparr>ds_tenant_id = ''o'', ds_user_id = ''bob@x'', ds_workspace_id = ''default''\<rparr>"

definition demo_record :: jdict where
  "demo_record = [(''run_id'', JStr ''r1''), (''condition_id'', JStr ''c1''),
     (''dataset_scope'', JObj (scope_as_dict demo_scope))]"

definition demo_case :: finding_case where
  "demo_case = evidence_case demo_host ''r1'' demo_record (Some demo_scope) ''d'' (''c1'', [])"

definition demo_store :: finding_db where
  "demo_store = \<lparr>fd_log = \<lparr>wd_cases = [demo_case], wd_events = [], wd_drawn = 0\<rparr>,
     fd_evidence = [\<lparr>er_run_id = ''r1'', er_scope = Some (storage_id demo_host demo_scope), er_created_at = ''d'',
       er_record = demo_record\<rparr>],
     fd_live = [], fd_status_events = [], fd_feedback_events = []\<rparr>"

definition demo_fid :: string where
  "demo_fid = fc_finding_id demo_case"

definition demo_resolve :: "finding_view run" where
  "demo_resolve = resolve_finding 1 demo_host demo_scope ''now'' demo_fid ''issue_found'' None 0 ''ann@x'' (Some ''k'') None demo_store"

text \<open>The outcome of a request.\<close>

definition succeeds :: "'a run \<Rightarrow> bool" where
  "succeeds m = (case m of Some (s, Inr v) \<Rightarrow> True | _ \<Rightarrow> False)"

definition after :: "'a run \<Rightarrow> finding_db" where
  "after m = fst (the m)"

definition answer :: "'a run \<Rightarrow> 'a" where
  "answer m = projr (snd (the m))"

lemma succeedsD: "succeeds m \<Longrightarrow> m = Some (after m, Inr (answer m))"
  by (simp add: succeeds_def after_def answer_def split: option.splits prod.splits sum.splits)

lemma demo_resolves: "succeeds demo_resolve"
  by code_simp

lemma demo_step: "workflow_step demo_host demo_scope demo_store (after demo_resolve)"
  using resolving [OF succeedsD [OF demo_resolves, unfolded demo_resolve_def]]
  by (simp add: demo_resolve_def)

lemma demo_steps: "rtranclp (any_step demo_host) demo_store (after demo_resolve)"
    "rtranclp (workflow_step demo_host demo_scope) demo_store (after demo_resolve)"
  by (rule r_into_rtranclp, auto simp: any_step_def intro: demo_step)+

lemma store_ok_events: "store_ok H s \<Longrightarrow> events_of (fd_log s) fid = case_events (fd_log s) fid"
  by (rule events_of_case_events [of H]) (simp add: store_ok_def)

lemma demo_store_ok: "store_ok demo_host demo_store"
  by (simp add: store_ok_def log_ok_def demo_store_def case_events_def numbered_def keys_of_def)

lemma demo_versions: "length (events_of (fd_log (after demo_resolve)) demo_fid) = 1"
  by code_simp

subsection \<open>The log\<close>

text \<open>
  C8. Whatever requests run, in any scope and any order, and whether they succeed or fail, the events
  of every finding are versioned 1, 2, ... without a gap, no two of them carry the same idempotency
  key, and no two cases share an id.
\<close>
theorem finding_log_laws:
  assumes "rtranclp (any_step H) s s'" and "store_ok H s"
  shows "map we_version (events_of (fd_log s') fid) = map (\<lambda>i. int i + 1) [0..<length (events_of (fd_log s') fid)]
    \<and> distinct (keys_of (events_of (fd_log s') fid)) \<and> distinct (map fc_finding_id (wd_cases (fd_log s')))"
proof -
  have "store_ok H s'" by (rule steps_keep [OF laws.workflow_invariant_axioms assms])
  then show ?thesis
    unfolding store_ok_events [OF \<open>store_ok H s'\<close>] by (simp add: store_ok_def log_ok_def numbered_def)
qed

theorem finding_log_laws_witness:
  "map we_version (events_of (fd_log (after demo_resolve)) demo_fid) = [1]
   \<and> distinct (keys_of (events_of (fd_log (after demo_resolve)) demo_fid))"
  using finding_log_laws [OF demo_steps(1) demo_store_ok, of demo_fid] by (simp add: demo_versions)

text \<open>
  The history is append-only: no request changes, reorders or removes a case or an event.
\<close>
theorem finding_history_grows:
  assumes "rtranclp (any_step H) s s'"
  shows "\<exists>cs es. wd_cases (fd_log s') = wd_cases (fd_log s) @ cs \<and> wd_events (fd_log s') = wd_events (fd_log s) @ es"
  using steps_keep [OF growth.workflow_invariant_axioms assms grown_refl] by (simp add: grown_def)

theorem finding_history_grows_witness:
  "take 1 (wd_cases (fd_log (after demo_resolve))) = [demo_case]"
proof -
  from finding_history_grows [OF demo_steps(1)] obtain cs where
    "wd_cases (fd_log (after demo_resolve)) = [demo_case] @ cs" by (auto simp: demo_store_def)
  then show ?thesis by simp
qed

text \<open>
  C30. Requests of one scope never touch the workflow of a case of another: the case stays and its
  events stay exactly as they were.
\<close>
theorem finding_scopes_isolated:
  assumes st: "rtranclp (workflow_step H sc) s s'" and ok: "store_ok H s"
    and c: "c \<in> set (wd_cases (fd_log s))" "fc_scope_storage_id c \<noteq> Some (storage_id H sc)"
  shows "c \<in> set (wd_cases (fd_log s')) \<and> events_of (fd_log s') (fc_finding_id c) = events_of (fd_log s) (fc_finding_id c)"
proof -
  have "undisturbed H sc c (case_events (fd_log s) (fc_finding_id c)) s'"
    using st
  proof (induction rule: rtranclp_induct)
    case base
    show ?case using ok c by (simp add: undisturbed_def)
  next
    case (step s1 s2)
    from step_keeps [OF isolation.workflow_invariant_axioms step(2,3)] show ?case .
  qed
  with ok c show ?thesis using store_ok_events [of H s] store_ok_events [of H s'] by (simp add: undisturbed_def)
qed

definition demo_foreign :: "finding_view run" where
  "demo_foreign = read_finding_case 1 demo_host other_scope ''now'' ''live-finding-1'' demo_store"

theorem finding_scopes_isolated_witness:
  "events_of (fd_log (fst (the demo_foreign))) demo_fid = []"
proof -
  have "demo_foreign \<noteq> None" by code_simp
  then obtain s' x where r: "demo_foreign = Some (s', x)" by fastforce
  have d: "storage_id demo_host other_scope \<noteq> storage_id demo_host demo_scope" by code_simp
  have "workflow_step demo_host other_scope demo_store s'" by (rule reading [OF r [unfolded demo_foreign_def]])
  then have "rtranclp (workflow_step demo_host other_scope) demo_store s'" by simp
  moreover have "demo_case \<in> set (wd_cases (fd_log demo_store))" by (simp add: demo_store_def)
  moreover have "fc_scope_storage_id demo_case \<noteq> Some (storage_id demo_host other_scope)"
    using d by (simp add: demo_case_def)
  ultimately have "events_of (fd_log s') (fc_finding_id demo_case) = events_of (fd_log demo_store) (fc_finding_id demo_case)"
    using finding_scopes_isolated [OF _ demo_store_ok] by blast
  moreover have "fst (the demo_foreign) = s'" unfolding r by simp
  ultimately show ?thesis by (simp add: demo_fid_def) (simp add: events_of_def demo_store_def)
qed

text \<open>
  C32. From a store whose imported statuses are in the vocabulary, the projected status of every case
  is one of the nine workflow statuses after any requests.
\<close>
theorem finding_status_type:
  assumes "rtranclp (any_step H) s s'" and "statuses_ok H s" and c: "c \<in> set (wd_cases (fd_log s'))"
  shows "wv_get (project c (events_of (fd_log s') (fc_finding_id c))) ''status'' \<in> JStr ` set WORKFLOW_STATUSES"
proof -
  have ok: "statuses_ok H s'" by (rule steps_keep [OF vocabulary.workflow_invariant_axioms assms(1,2)])
  then have "\<forall>e \<in> set (events_of (fd_log s') (fc_finding_id c)). body_ok (we_body e)"
    by (simp add: statuses_ok_def events_of_def)
  with project_status [of c] ok c show ?thesis by (simp add: statuses_ok_def valid_status_def)
qed

lemma demo_statuses: "statuses_ok demo_host demo_store"
proof -
  have "initial_evidence_status demo_host demo_record = ''open''" by code_simp
  moreover have "legacy_events demo_host sc run demo_store = []" for sc run
    by (simp add: legacy_events_def legacy_table_def demo_store_def read_evidence_def the_or_def demo_record_def jget_def py_list_def)
  ultimately show ?thesis
    by (simp add: statuses_ok_def demo_store_def demo_case_def snapshot_status valid_literals)
qed

theorem finding_status_type_witness:
  "wv_get (project demo_case (events_of (fd_log (after demo_resolve)) demo_fid)) ''status'' \<in> JStr ` set WORKFLOW_STATUSES"
proof -
  have "map fc_finding_id (wd_cases (fd_log (after demo_resolve))) = [fc_finding_id demo_case]" by code_simp
  moreover have "wd_cases (fd_log (after demo_resolve)) \<noteq> []" by code_simp
  moreover have "hd (wd_cases (fd_log (after demo_resolve))) = demo_case"
    using steps_keep [OF growth.workflow_invariant_axioms demo_steps(1) grown_refl] by (auto simp: grown_def demo_store_def)
  ultimately have "demo_case \<in> set (wd_cases (fd_log (after demo_resolve)))" by (metis list.set_sel(1))
  from finding_status_type [OF demo_steps(1) demo_statuses this] show ?thesis by (simp add: demo_fid_def)
qed

subsection \<open>Concurrency and retries\<close>

lemma next_key:
  assumes "e \<in> set es" "we_idempotency_key e = Some k" "distinct (keys_of es)"
  shows "next_or (\<lambda>x. we_idempotency_key x = Some k) es = Some e"
  using assms
proof (induction es)
  case (Cons x es)
  show ?case
  proof (cases "we_idempotency_key x = Some k")
    case True
    with Cons.prems(3) have "k \<notin> set (keys_of es)" by (simp add: keys_of_def)
    with Cons.prems(1,2) keys_of_mem True show ?thesis by auto
  next
    case False
    have "distinct (keys_of es)" using Cons.prems(3) by (auto simp: keys_of_def split: option.splits)
    with Cons False show ?thesis by auto
  qed
qed simp

lemma append_key:
  assumes "append_event H scope fid b actor expected (Some key) recorded s = Inr (s', e)" "strip key \<noteq> []"
  shows "we_idempotency_key e = Some (strip key) \<and> we_fingerprint e = fingerprint H actor b
    \<and> find_case s' scope fid \<noteq> None"
proof -
  have k: "clean_text (Some key) = Some (strip key)" using assms(2) by (simp add: clean_text_def)
  from assms(1) show ?thesis
    by (cases rule: append_event_Inr) (auto simp: k find_case_def)
qed

text \<open>
  A retry with an idempotency key is safe whatever has happened to its expected version and its
  clock: the same request gets the event of its first run and the log stays as it is, another request
  under the key is a conflict.
\<close>
theorem append_idempotent:
  assumes ok: "log_ok H s" and a: "append_event H scope fid b actor expected (Some key) recorded s = Inr (s', e)"
    and k: "strip key \<noteq> []"
  shows "append_event H scope fid b' actor' expected' (Some key) recorded' s' =
    (if fingerprint H actor' b' = fingerprint H actor b then Inr (s', e)
     else Inl (WorkflowConflict ''idempotency_key_reused'' (current_version s' fid)))"
proof -
  have c: "clean_text (Some key) = Some (strip key)" using k by (simp add: clean_text_def)
  have ok': "log_ok H s'" by (rule append_event_keeps [OF a ok])
  have "e \<in> set (events_of s' fid)"
    using append_event_prefix(3) [OF a] by (simp add: events_of_case_events [OF ok'])
  moreover have "distinct (keys_of (events_of s' fid))"
    using ok' by (simp add: events_of_case_events [OF ok']) (simp add: log_ok_def)
  ultimately have "next_or (\<lambda>x. we_idempotency_key x = Some (strip key)) (events_of s' fid) = Some e"
    using append_key [OF a k] by (intro next_key) simp_all
  with append_key [OF a k] c show ?thesis by (auto simp: append_event_def Let_def)
qed

definition demo_log :: workflow_db where
  "demo_log = fd_log demo_store"

definition demo_append :: "string option \<Rightarrow> workflow_db \<Rightarrow> (workflow_db \<times> workflow_event) wf" where
  "demo_append key s = append_event demo_host (storage_id demo_host demo_scope) demo_fid
     (FeedbackRecorded [(''note'', JStr ''x'')]) ''ann@x'' (Some 0) key ''now'' s"

lemma demo_log_ok: "log_ok demo_host demo_log"
  using demo_store_ok by (simp add: store_ok_def demo_log_def)

lemma demo_appends:
  obtains s' e where "demo_append (Some ''k'') demo_log = Inr (s', e)" "length (wd_events s') = 1"
proof -
  have "(case demo_append (Some ''k'') demo_log of Inl e \<Rightarrow> False | Inr (s, e) \<Rightarrow> length (wd_events s) = 1)" by code_simp
  then show thesis using that by (auto split: sum.splits)
qed

theorem append_idempotent_witness:
  "\<exists>s' e. demo_append (Some ''k'') demo_log = Inr (s', e) \<and> demo_append (Some ''k'') s' = Inr (s', e)"
proof -
  obtain s' e where a: "demo_append (Some ''k'') demo_log = Inr (s', e)" by (rule demo_appends)
  have "strip ''k'' \<noteq> []" by code_simp
  from append_idempotent [OF demo_log_ok a [unfolded demo_append_def] this] a show ?thesis
    unfolding demo_append_def by (metis (full_types))
qed

text \<open>
  Optimistic concurrency: of two writers that read the same version, the second is told the log
  has moved on, and nothing of its event is stored.
\<close>
theorem stale_writer_rejected:
  assumes ok: "log_ok H s" and a: "append_event H scope fid b actor (Some v) key recorded s = Inr (s', e)" and new: "s' \<noteq> s"
    and k: "\<And>k. clean_text key' = Some k \<Longrightarrow> k \<notin> set (keys_of (events_of s' fid))"
  shows "append_event H scope fid b' actor' (Some v) key' recorded' s' = Inl (WorkflowConflict ''stale_workflow_version'' (v + 1))"
proof -
  have ok': "log_ok H s'" by (rule append_event_keeps [OF a ok])
  from a new have v: "v = current_version s fid" and c: "find_case s' scope fid \<noteq> None"
    by (cases rule: append_event_Inr; auto simp: find_case_def)+
  have "current_version s' fid = v + 1"
    using append_event_prefix(1) [OF a, of fid] new v
    by (simp add: current_version_length [OF ok] current_version_length [OF ok'])
  moreover have "next_or (\<lambda>x. we_idempotency_key x = Some i) (events_of s' fid) = None" if "clean_text key' = Some i" for i
    using k [OF that] by (simp add: keys_of_next)
  ultimately show ?thesis using c by (simp add: append_event_def Let_def split: option.splits)
qed

theorem stale_writer_rejected_witness:
  "\<exists>s' e. demo_append (Some ''k'') demo_log = Inr (s', e)
    \<and> demo_append None s' = Inl (WorkflowConflict ''stale_workflow_version'' 1)"
proof -
  obtain s' e where a: "demo_append (Some ''k'') demo_log = Inr (s', e)" and l: "length (wd_events s') = 1" by (rule demo_appends)
  have "s' \<noteq> demo_log" using l by (auto simp: demo_log_def demo_store_def)
  from stale_writer_rejected [OF demo_log_ok a [unfolded demo_append_def] this, of None] a show ?thesis
    unfolding demo_append_def by (auto simp: clean_text_def)
qed

subsection \<open>Reading\<close>

text \<open>
  C33. A case that is the only one of its run and whose run has a legacy feedback event can never be
  read: importing the event reads the case, whatever the depth of the recursion.
\<close>
theorem entangled_never_read:
  assumes "entangled H sc fid s"
  shows "read_finding_case n H sc now fid s \<noteq> Some (s', Inr v)"
  by (rule read_entangled [OF assms])

definition demo_entangled :: finding_db where
  "demo_entangled = demo_store\<lparr>fd_feedback_events := [\<lparr>lg_run_id = ''r1'', lg_event_id = ''f1'',
     lg_payload = [(''category'', JStr ''confirmed_issue'')]\<rparr>]\<rparr>"

theorem entangled_never_read_witness:
  "\<not> succeeds (read_finding_case 5 demo_host demo_scope ''now'' demo_fid demo_entangled)"
proof -
  have "raw_case demo_host demo_scope demo_fid demo_entangled = Some demo_case"
    by (simp add: raw_case_def find_case_def demo_entangled_def demo_store_def demo_fid_def demo_case_def)
  moreover have "run_cases demo_host demo_scope ''r1'' demo_entangled = [demo_case]"
    by (simp add: run_cases_def demo_entangled_def demo_store_def demo_case_def)
  moreover have "list_ex (\<lambda>(k, e). k = LegacyFeedback) (legacy_history demo_host demo_scope ''r1'' demo_entangled)"
    by code_simp
  ultimately have "entangled demo_host demo_scope demo_fid demo_entangled"
    by (auto simp: entangled_def demo_case_def)
  from entangled_never_read [OF this] show ?thesis by (metis succeedsD)
qed

text \<open>
  Without legacy feedback reading always ends, with a case or an error: one level of the
  recursion is enough, and a deeper one gives the same answer.
\<close>
theorem reading_ends:
  assumes "feedback_free H sc s"
  shows "read_finding_case (Suc n) H sc now fid s = read_finding_case 1 H sc now fid s
    \<and> read_finding_case 1 H sc now fid s \<noteq> None"
proof -
  let ?read = "\<lambda>k. read_case_with (read_finding_case k H sc now) H sc now fid s"
  have "?read n = ?read 0" "?read 0 \<noteq> None" using read_with_feedback_free [OF assms] by blast+
  then show ?thesis by simp
qed

lemma demo_feedback_free: "feedback_free demo_host demo_scope demo_store"
proof -
  have "legacy_events demo_host demo_scope run demo_store = []" for run
    by (simp add: legacy_events_def legacy_table_def demo_store_def read_evidence_def the_or_def demo_record_def jget_def py_list_def)
  then show ?thesis by (simp add: feedback_free_def legacy_history_def)
qed

theorem reading_ends_witness: "read_finding_case 1 demo_host demo_scope ''now'' demo_fid demo_store \<noteq> None"
  using reading_ends [OF demo_feedback_free] by blast

text \<open>
  Materialising a run is idempotent: a second insert of its cases changes nothing and returns the
  same ids, so the first snapshot of a finding stays.
\<close>
theorem materialize_idempotent:
  fixes H :: "'a workflow_host_scheme"
  assumes "ids_derived H s" and "insert_evidence_cases H run r ds created cs s = Inr (s', ids)"
  shows "insert_evidence_cases H run r' ds created' cs s' = Inr (s', ids)"
  using insert_evidence_again [of cs s' H run ds r' created'] insert_evidence_held [OF assms] by simp

theorem materialize_idempotent_witness:
  "\<exists>s' ids. insert_evidence_cases demo_host ''r2'' [] (Some demo_scope) ''d'' [(''c1'', []), (''c2'', [])] demo_store = Inr (s', ids)
    \<and> insert_evidence_cases demo_host ''r2'' [] (Some demo_scope) ''e'' [(''c1'', []), (''c2'', [])] s' = Inr (s', ids)"
proof -
  have d: "ids_derived demo_host demo_store" by (simp add: ids_derived_def demo_store_def demo_case_def)
  have "case insert_evidence_cases demo_host ''r2'' [] (Some demo_scope) ''d'' [(''c1'', []), (''c2'', [])] demo_store of
      Inr x \<Rightarrow> True | _ \<Rightarrow> False" by code_simp
  then obtain s' ids where
    a: "insert_evidence_cases demo_host ''r2'' [] (Some demo_scope) ''d'' [(''c1'', []), (''c2'', [])] demo_store = Inr (s', ids)"
    by (auto split: sum.splits)
  from materialize_idempotent [OF d a] a show ?thesis by blast
qed

subsection \<open>Authorisation and transitions\<close>

text \<open>
  C31. In production a viewer changes a finding only when it is assigned to exactly that active member,
  only its status, and only to one of the working statuses; any other patch of a viewer fails.
\<close>
theorem viewer_patch_confined:
  assumes p: "patch_finding_workflow n H D W sc now True fid actor role ch expected key s = Some (s', Inr v)"
    and r: "lower (strip role) = ''viewer''"
  shows "\<exists>s1 w t. read_finding_case n H sc now fid s = Some (s1, Inr w)
    \<and> is_exact_active_member_assignment H D W (fv_workflow w) actor
    \<and> set (map fst ch) = {''status''} \<and> jget ch ''status'' = JStr t \<and> t \<in> set VIEWER_STATUSES"
proof -
  have role: "role \<noteq> []" using r by (auto simp: lower_def)
  from p obtain s1 where "authorize_finding_action n H D W sc now fid actor role True WorkflowAction (Some ch) s = Some (s1, Inr ())"
    by (auto simp: patch_finding_workflow_def bindR_eq_Inr split: if_splits)
  then obtain w where rd: "read_finding_case n H sc now fid s = Some (s1, Inr w)"
    and a: "action_policy H D W (fv_workflow w) actor role True WorkflowAction (Some ch) = Inr ()"
    by (auto simp: authorize_finding_action_def bindR_eq_Inr)
  from a have "is_exact_active_member_assignment H D W (fv_workflow w) actor" "set (map fst ch) = {''status''}"
    "jget ch ''status'' \<in> JStr ` set VIEWER_STATUSES"
    by (simp_all add: action_policy_def r role Let_def split: if_splits)
  with rd show ?thesis by blast
qed

text \<open>The demonstration case, assigned to an active member of a facility.\<close>

definition demo_directory :: directory where
  "demo_directory = \<lparr>dr_users = [], dr_members = [\<lparr>mr_workspace_id = ''ws-1'', mr_email = ''ann@x'', mr_name = ''Ann'',
     mr_active = True, mr_account_active = True\<rparr>]\<rparr>"

definition demo_workspace :: workspace_context where
  "demo_workspace = \<lparr>wc_workspace_id = ''ws-1'', wc_kind = ''facility'', wc_dataset_scope = demo_scope\<rparr>"

definition demo_assign :: "finding_view run" where
  "demo_assign = patch_finding_workflow 1 demo_host demo_directory demo_workspace demo_scope ''now'' True demo_fid ''op@x'' ''operator''
     [(''assignment'', JObj [(''target_type'', JStr ''person''), (''label'', JStr ''?''), (''external_ref'', JStr ''Ann@x'')])]
     0 None demo_store"

definition demo_patch :: "jdict \<Rightarrow> finding_view run" where
  "demo_patch ch = patch_finding_workflow 1 demo_host demo_directory demo_workspace demo_scope ''now'' True demo_fid ''ann@x'' ''Viewer''
     ch 1 None (after demo_assign)"

lemma demo_patches: "succeeds demo_assign" "succeeds (demo_patch [(''status'', JStr ''acknowledged'')])"
    "\<not> succeeds (demo_patch [(''status'', JStr ''resolved'')])"
  by code_simp+

theorem viewer_patch_confined_witness:
  "\<exists>t. jget [(''status'', JStr ''acknowledged'')] ''status'' = JStr t \<and> t \<in> set VIEWER_STATUSES
    \<and> succeeds (demo_patch [(''status'', JStr ''acknowledged'')])"
proof -
  have "lower (strip ''Viewer'') = ''viewer''" by code_simp
  from viewer_patch_confined [OF succeedsD [OF demo_patches(2), unfolded demo_patch_def] this] demo_patches(2)
  show ?thesis by blast
qed

text \<open>
  In production an update sets a status only along the transition table, or leaves it as it is.
\<close>
theorem strict_update_follows_transitions:
  assumes u: "update_finding_workflow n H D W sc now fid ch expected actor key recorded True s = Some (s', Inr v)"
    and st: "jhas ch ''status''"
  shows "\<exists>s1 w. read_finding_case n H sc now fid s = Some (s1, Inr w)
    \<and> py_str H (jget ch ''status'') \<in> set WORKFLOW_STATUSES
    \<and> (wv_get (fv_workflow w) ''status'' = JStr (py_str H (jget ch ''status''))
       \<or> py_str H (jget ch ''status'') \<in> set (allowed_from (wv_get (fv_workflow w) ''status'')))"
proof -
  from u obtain ch' s1 where n: "normalize_changes H D W ch = Inr ch'"
    and c: "check_status n H sc now fid ch' True s = Some (s1, Inr ())"
    by (auto simp: update_finding_workflow_def bindR_eq_Inr split: if_splits sum.splits)
  have "jhas ch' ''status'' = jhas ch ''status''" "jget ch' ''status'' = jget ch ''status''"
    using n by (auto simp: normalize_changes_def bindE_eq_Inr jhas_def jget_def map_of_jset split: if_splits)
  with c st show ?thesis
    by (auto simp: check_status_def bindR_eq_Inr validate_status_transition_def split: if_splits)
qed

definition demo_update :: "finding_view run" where
  "demo_update = update_finding_workflow 1 demo_host demo_directory demo_workspace demo_scope ''now'' demo_fid
     [(''status'', JStr ''investigating'')] 0 ''op@x'' None None True demo_store"

theorem strict_update_follows_transitions_witness:
  "succeeds demo_update \<and> py_str demo_host (JStr ''investigating'') \<in> set WORKFLOW_STATUSES"
proof -
  have s: "succeeds demo_update" by code_simp
  from strict_update_follows_transitions [OF succeedsD [OF s, unfolded demo_update_def]] s
  show ?thesis by (auto simp: jhas_def jget_def)
qed

text \<open>
  A resolution and a field report set the projected status whatever it was, so they reach statuses
  the transition table excludes: a dismissed finding is resolved, an open one awaits review.
\<close>
theorem reports_bypass_transitions:
  "(we_body e = ResolutionRecorded r \<longrightarrow> wv_get (project c (es @ [e])) ''status'' = JStr ''resolved'')
   \<and> (we_body e = FieldReportRecorded f \<and> fr_needs_escalation f \<longrightarrow>
        wv_get (project c (es @ [e])) ''status'' = JStr ''escalated'')
   \<and> (we_body e = FieldReportRecorded f \<and> \<not> fr_needs_escalation f \<and> fr_investigation_complete f \<longrightarrow>
        wv_get (project c (es @ [e])) ''status'' = JStr ''awaiting_review'')
   \<and> ''resolved'' \<notin> set (allowed_from (JStr ''dismissed'')) \<and> ''awaiting_review'' \<notin> set (allowed_from (JStr ''open''))
   \<and> ''escalated'' \<notin> set (allowed_from (JStr ''monitoring''))"
  by (simp add: project_def Let_def project_event_def project_resolution_def project_report_def set_field_def jget_jset
      allowed_from_def STATUS_TRANSITIONS_def the_or_def)

definition demo_report_event :: workflow_event where
  "demo_report_event = \<lparr>we_event_id = ''e'', we_finding_id = demo_fid, we_version = 1, we_recorded_at = ''now'', we_actor = ''ann@x'',
     we_idempotency_key = None, we_fingerprint = ''f'',
     we_body = FieldReportRecorded \<lparr>fr_note = None, fr_inspected = None, fr_found = None, fr_action_taken = None,
       fr_problem_found = ''no'', fr_needs_escalation = False, fr_investigation_complete = True, fr_actor = ''ann@x'',
       fr_recorded_at = ''now''\<rparr>\<rparr>"

theorem reports_bypass_transitions_witness:
  "wv_get (project demo_case []) ''status'' = JStr ''open''
    \<and> wv_get (project demo_case ([] @ [demo_report_event])) ''status'' = JStr ''awaiting_review''
    \<and> ''awaiting_review'' \<notin> set (allowed_from (JStr ''open''))"
proof -
  have "wv_get (project demo_case []) ''status'' = JStr ''open''" by code_simp
  with reports_bypass_transitions [of demo_report_event _ demo_case "[]"] show ?thesis
    by (simp add: demo_report_event_def)
qed

text \<open>A strict update validates its status before the log looks up its idempotency key.\<close>

lemma strict_retry_rejected:
  assumes "read_finding_case n H sc now fid s = Some (s1, Inr w)" "wv_get (fv_workflow w) ''status'' = JStr c"
    "t \<in> set WORKFLOW_STATUSES" "t \<noteq> c" "t \<notin> set (allowed_from (JStr c))"
  shows "update_finding_workflow n H D W sc now fid [(''status'', JStr t)] expected actor (Some key) recorded True s =
    Some (s1, Inl (WorkflowInvalid (''invalid_status_transition:'' @ c @ '':'' @ t)))"
  using assms
  by (simp add: update_finding_workflow_def unsupported_fields_def WORKFLOW_FIELDS_def normalize_changes_def jhas_def jget_def
      check_status_def validate_status_transition_def py_str_def)

subsection \<open>Pages and views\<close>

fun crawl :: "nat \<Rightarrow> int \<Rightarrow> int \<Rightarrow> 'a list \<Rightarrow> 'a list option" where
  "crawl 0 limit offset cases = None"
| "crawl (Suc n) limit offset cases = (let p = page_of cases limit offset in
     case pg_next_offset p of
       None \<Rightarrow> Some (pg_findings p)
     | Some offset' \<Rightarrow> map_option ((@) (pg_findings p)) (crawl n limit offset' cases))"

lemma crawl_from:
  "0 \<le> off \<Longrightarrow> int (length cases) - off < int n \<Longrightarrow> 0 < n \<Longrightarrow> crawl n limit off cases = Some (drop (nat off) cases)"
proof (induction n arbitrary: off)
  case (Suc n)
  define lim where "lim = max 1 (min limit (100 :: int))"
  have l: "1 \<le> lim" by (simp add: lim_def)
  show ?case
  proof (cases "off + lim < int (length cases)")
    case True
    have "crawl n limit (off + lim) cases = Some (drop (nat (off + lim)) cases)"
      by (rule Suc.IH) (use Suc.prems l True in auto)
    moreover have "nat (off + lim) = nat off + nat lim" using Suc.prems(1) l by (simp add: nat_add_distrib)
    then have "take (nat lim) (drop (nat off) cases) @ drop (nat (off + lim)) cases = drop (nat off) cases"
      by (metis add.commute append_take_drop_id drop_drop)
    ultimately show ?thesis using Suc.prems(1) True by (simp add: page_of_def Let_def lim_def)
  next
    case False
    then have "length (drop (nat off) cases) \<le> nat lim" using Suc.prems(1) l by simp
    with Suc.prems(1) False show ?thesis by (simp add: page_of_def Let_def lim_def)
  qed
qed simp

text \<open>
  C34. Following the next offset from the start ends and yields every selected case exactly once and in
  order, whatever limit the client asks for.
\<close>
theorem pages_complete:
  assumes "length cases < n"
  shows "crawl n limit 0 cases = Some cases"
  using crawl_from [of 0 cases n limit] assms by simp

theorem pages_complete_witness:
  "crawl 4 0 0 [1::int, 2, 3] = Some [1, 2, 3] \<and> pg_next_offset (page_of [1::int, 2, 3] 2 0) = Some 2"
  using pages_complete [of "[1::int, 2, 3]" 4 0] by (simp add: page_of_def)

text \<open>
  The product view of a case's evidence holds no retired causal claim outside the preserved
  records, at any depth, and viewing it again changes nothing.
\<close>
theorem case_evidence_current:
  "current_items (fv_evidence (case_response c es))
   \<and> product_evidence (JObj (fv_evidence (case_response c es))) = JObj (fv_evidence (case_response c es))"
  by (simp add: case_response_def Let_def as_dict_def product_current current_fixed)

end
