(* ===== verification/Job_Progress.thy ===== *)
theory Job_Progress
  imports Finding_Evidence Floats
begin

text \<open>
  The progress contract of a job, \<^verbatim>\<open>services/job_progress.py\<close>: the declared operations of each workflow,
  the snapshot, its updates, failure, completion and retry, the timing projection, and the throttled
  reporter.

  A snapshot is the record of the contract's fields without the two constant ones (the contract version
  and the basis of the overall percentage). A timestamp text is its instant in microseconds; a missing
  or unreadable text is \<open>None\<close>. The clock is the argument \<open>now\<close>. \<open>jp_int\<close> is \<open>int\<close> of a text.
\<close>

record progress_host = host +
  jp_int :: "string \<Rightarrow> int option"
  jp_stall_seconds :: int

subsection \<open>The declared operations\<close>

type_synonym op_definition = "string \<times> string \<times> string"

definition UPLOAD_OPERATIONS :: "op_definition list" where
  "UPLOAD_OPERATIONS = [(''receiving'', ''upload'', ''Receiving file''), (''source_persisted'', ''upload'', ''Source persisted'')]"

definition VALIDATION_OPERATIONS :: "op_definition list" where
  "VALIDATION_OPERATIONS = [
     (''parse_source'', ''validate'', ''Parse source''),
     (''schema_detection'', ''validate'', ''Schema detection''),
     (''timestamp_detection'', ''validate'', ''Timestamp detection''),
     (''timestamp_quality'', ''validate'', ''Timestamp quality''),
     (''signal_inventory'', ''validate'', ''Signal inventory''),
     (''unit_detection'', ''validate'', ''Unit detection''),
     (''semantic_mapping'', ''validate'', ''Semantic mapping''),
     (''data_quality_profiling'', ''validate'', ''Data-quality profiling''),
     (''unit_normalization'', ''validate'', ''Unit normalization''),
     (''canonical_dataset_build'', ''validate'', ''Canonical dataset build''),
     (''configuration_awareness'', ''validate'', ''Configuration awareness''),
     (''readiness_evaluation'', ''validate'', ''Readiness evaluation''),
     (''analysis_snapshot_build'', ''validate'', ''Analysis snapshot build'')]"

definition BASELINE_OPERATIONS :: "op_definition list" where
  "BASELINE_OPERATIONS = [
     (''select_usable_signals'', ''learn'', ''Select usable signals''),
     (''build_operating_context'', ''learn'', ''Build operating context''),
     (''compute_baseline_statistics'', ''learn'', ''Compute baseline statistics''),
     (''learn_relationships'', ''learn'', ''Learn relationships''),
     (''fit_expected_models'', ''learn'', ''Fit expected-behavior models''),
     (''persistence_checks'', ''learn'', ''Persistence checks''),
     (''finalize_baseline'', ''ready'', ''Finalize baseline'')]"

definition ANALYSIS_OPERATIONS :: "op_definition list" where
  "ANALYSIS_OPERATIONS = [
     (''prepare_inputs'', ''analysis'', ''Prepare analysis inputs''),
     (''signal_drift'', ''analysis'', ''Signal drift analysis''),
     (''relationship_analysis'', ''analysis'', ''Relationship analysis''),
     (''operating_modes'', ''analysis'', ''Operating-context analysis''),
     (''data_conditions'', ''analysis'', ''Data-condition checks''),
     (''sensor_health'', ''analysis'', ''Signal-health analysis''),
     (''empirical_thresholds'', ''analysis'', ''Empirical thresholds''),
     (''mode_conditioned_baseline'', ''analysis'', ''Mode-conditioned comparison''),
     (''relationship_graph_analysis'', ''analysis'', ''Relationship graph analysis''),
     (''fixed_persistence'', ''analysis'', ''Persistence analysis''),
     (''adaptive_persistence'', ''analysis'', ''Adaptive persistence''),
     (''temporal_analysis'', ''analysis'', ''Lag and temporal analysis''),
     (''multiscale_analysis'', ''analysis'', ''Multi-scale analysis''),
     (''covariance_analysis'', ''analysis'', ''Covariance analysis''),
     (''physics_reasoning'', ''analysis'', ''Physics evidence''),
     (''behavioral_model'', ''analysis'', ''Behavioral fingerprinting''),
     (''evidence_fusion'', ''analysis'', ''Evidence generation''),
     (''finalize_analysis'', ''ready'', ''Finalize analysis'')]"

definition TERMINAL_STATUSES :: "string list" where
  "TERMINAL_STATUSES = [''completed'', ''failed'', ''cancelled'']"

definition ACTIVE_STATUSES :: "string list" where
  "ACTIVE_STATUSES = [''processing'', ''retrying'']"

definition WORKFLOW_LABELS :: "(string \<times> string) list" where
  "WORKFLOW_LABELS = [(''upload'', ''Upload''), (''validate'', ''Validate''), (''learn'', ''Learn''),
     (''analysis'', ''Analyze''), (''ready'', ''Baseline Ready'')]"

definition workflow_key :: "string option \<Rightarrow> string" where
  "workflow_key w = lower (strip (the_or w []))"

definition is_baseline_workflow :: "string option \<Rightarrow> bool" where
  "is_baseline_workflow w = (workflow_key w \<in> {''create_baseline'', ''extend_baseline''})"

definition is_review :: "string option \<Rightarrow> bool" where
  "is_review w = (workflow_key w = ''historical_review'')"

definition operation_definitions :: "string option \<Rightarrow> op_definition list" where
  "operation_definitions w =
     (if is_review w then UPLOAD_OPERATIONS @ filter (\<lambda>d. fst d \<noteq> ''analysis_snapshot_build'') VALIDATION_OPERATIONS
      else UPLOAD_OPERATIONS @ VALIDATION_OPERATIONS
        @ (if is_baseline_workflow w then BASELINE_OPERATIONS else ANALYSIS_OPERATIONS))"

definition final_substage :: "string option \<Rightarrow> string" where
  "final_substage w = (if is_review w then ''readiness_evaluation''
     else if is_baseline_workflow w then ''finalize_baseline'' else ''finalize_analysis'')"

subsection \<open>Snapshots\<close>

record operation =
  op_id :: string
  op_stage :: string
  op_label :: string
  op_status :: string
  op_completed_units :: "int option"
  op_total_units :: "int option"
  op_percent :: "int option"
  op_unit_type :: "string option"
  op_message :: "string option"
  op_started_at :: "timestamp option"
  op_updated_at :: "timestamp option"
  op_completed_at :: "timestamp option"
  op_metadata :: jdict

record workflow_stage =
  ws_id :: string
  ws_label :: string
  ws_status :: string
  ws_completed :: int
  ws_total :: int
  ws_percent :: int

record progress =
  pr_job_id :: string
  pr_workflow :: string
  pr_status :: string
  pr_stage :: "string option"
  pr_substage :: "string option"
  pr_completed_units :: "int option"
  pr_total_units :: "int option"
  pr_percent :: "int option"
  pr_unit_type :: "string option"
  pr_message :: "string option"
  pr_started_at :: "timestamp option"
  pr_updated_at :: "timestamp option"
  pr_elapsed_seconds :: int
  pr_heartbeat_at :: "timestamp option"
  pr_since_heartbeat :: "int option"
  pr_since_update :: int
  pr_stalled :: bool
  pr_retryable :: "bool option"
  pr_error :: "string option"
  pr_metadata :: jdict
  pr_steps :: "workflow_stage list"
  pr_operations :: "operation list"
  pr_overall :: int

text \<open>\<open>int(value)\<close> of a JSON value; \<open>None\<close> where Python raises.\<close>

definition to_int :: "'a progress_host_scheme \<Rightarrow> json \<Rightarrow> int option" where
  "to_int H v = (case v of JInt i \<Rightarrow> Some i | JBool b \<Rightarrow> Some (if b then 1 else 0) | JFloat r \<Rightarrow> Some (trunc r)
     | JStr s \<Rightarrow> jp_int H s | _ \<Rightarrow> None)"

definition bounded_units :: "'a progress_host_scheme \<Rightarrow> json \<Rightarrow> int option" where
  "bounded_units H v = map_option (max 0) (to_int H v)"

definition unit_percent :: "int option \<Rightarrow> int option \<Rightarrow> string \<Rightarrow> int option" where
  "unit_percent completed units status =
     (if status = ''completed'' then Some 100
      else (case (completed, units) of
          (Some c, Some t) \<Rightarrow> if t \<le> 0 then None else Some (max 0 (min 100 (trunc (fl (of_int (c * 100) / of_int t)))))
        | _ \<Rightarrow> None))"

definition new_operation :: "op_definition \<Rightarrow> operation" where
  "new_operation d = (case d of (i, stage, label) \<Rightarrow>
     \<lparr>op_id = i, op_stage = stage, op_label = label, op_status = ''pending'', op_completed_units = None, op_total_units = None,
      op_percent = None, op_unit_type = None, op_message = None, op_started_at = None, op_updated_at = None,
      op_completed_at = None, op_metadata = []\<rparr>)"

definition completed_count :: "operation list \<Rightarrow> int" where
  "completed_count ops = int (length (filter (\<lambda>p. op_status p = ''completed'') ops))"

definition share :: "int \<Rightarrow> int option \<Rightarrow> nat \<Rightarrow> int" where
  "share completed percent n = trunc (fl (fl (fl (of_int completed
     + (case percent of None \<Rightarrow> 0 | Some p \<Rightarrow> fl (of_int p / 100))) * 100) / of_int (max 1 (int n))))"

definition first_with :: "string list \<Rightarrow> operation list \<Rightarrow> operation option" where
  "first_with sts ops = next_or (\<lambda>p. op_status p \<in> set sts) ops"

text \<open>\<open>stage.replace("_", " ").title()\<close> of ASCII letters.\<close>

definition ascii_letter :: "char \<Rightarrow> bool" where
  "ascii_letter c = (let n = (of_char c :: int) in (65 \<le> n \<and> n \<le> 90) \<or> (97 \<le> n \<and> n \<le> 122))"

definition upper_char :: "char \<Rightarrow> char" where
  "upper_char c = (let n = (of_char c :: int) in if 97 \<le> n \<and> n \<le> 122 then char_of (n - 32) else c)"

fun title_from :: "bool \<Rightarrow> string \<Rightarrow> string" where
  "title_from inside [] = []"
| "title_from inside (c # cs) = (if inside then lower_char c else upper_char c) # title_from (ascii_letter c) cs"

definition stage_title :: "string \<Rightarrow> string" where
  "stage_title s = title_from False (map (\<lambda>c. if c = CHR ''_'' then CHR '' '' else c) s)"

definition workflow_step_of :: "string option \<Rightarrow> operation list \<Rightarrow> string \<Rightarrow> workflow_stage" where
  "workflow_step_of w ops stage =
     (let items = filter (\<lambda>p. op_stage p = stage) ops;
          completed = completed_count items;
          active = first_with ACTIVE_STATUSES items;
          failed = first_with [''failed''] items;
          measured = (case active of Some a \<Rightarrow> Some a | None \<Rightarrow> failed);
          done = (completed = int (length items)) in
      \<lparr>ws_id = stage,
       ws_label = (if stage = ''ready'' then (if is_review w then ''Canonical Dataset Ready''
            else if is_baseline_workflow w then ''Baseline Ready'' else ''Results Ready'')
          else the_or (map_of WORKFLOW_LABELS stage) (stage_title stage)),
       ws_status = (if done then ''completed'' else if failed \<noteq> None then ''failed''
          else (case active of Some a \<Rightarrow> op_status a | None \<Rightarrow> ''pending'')),
       ws_completed = completed, ws_total = int (length items),
       ws_percent = (if done then 100 else share completed (Option.bind measured op_percent) (length items))\<rparr>)"

fun first_occurrences :: "string list \<Rightarrow> string list" where
  "first_occurrences [] = []"
| "first_occurrences (x # xs) = x # filter (\<lambda>y. y \<noteq> x) (first_occurrences xs)"

definition workflow_steps :: "operation list \<Rightarrow> string option \<Rightarrow> workflow_stage list" where
  "workflow_steps ops w = map (workflow_step_of w ops) (first_occurrences (map op_stage ops))"

definition overall_percent :: "operation list \<Rightarrow> int" where
  "overall_percent ops =
     (let active = next_or (\<lambda>p. op_status p \<in> set (ACTIVE_STATUSES @ [''failed'', ''cancelled'']) \<and> op_percent p \<noteq> None) ops in
      max 0 (min 100 (share (completed_count ops) (Option.bind active op_percent) (length ops))))"

definition persisted_operation :: "timestamp \<Rightarrow> timestamp option \<Rightarrow> operation \<Rightarrow> operation" where
  "persisted_operation now started p = p\<lparr>op_status := ''completed'', op_completed_units := Some 1, op_total_units := Some 1,
     op_percent := Some 100, op_unit_type := Some ''operation'',
     op_message := Some (if op_id p = ''receiving'' then ''File transfer completed.'' else ''Source persisted for processing.''),
     op_started_at := Some (the_or started now), op_updated_at := Some now, op_completed_at := Some now\<rparr>"

definition initialize_progress ::
  "timestamp \<Rightarrow> string \<Rightarrow> string option \<Rightarrow> string \<Rightarrow> string \<Rightarrow> timestamp option \<Rightarrow> bool \<Rightarrow> progress" where
  "initialize_progress now job w status message started persisted =
     (let fresh = map new_operation (operation_definitions w);
          ops = (if persisted then map (persisted_operation now started) (take 2 fresh) @ drop 2 fresh else fresh) in
      \<lparr>pr_job_id = job, pr_workflow = (if the_or w [] = [] then ''legacy_analysis'' else the_or w []), pr_status = status,
       pr_stage = (if status = ''queued'' then Some ''queue'' else None), pr_substage = None, pr_completed_units = None,
       pr_total_units = None, pr_percent = None, pr_unit_type = None, pr_message = Some message,
       pr_started_at = Some (the_or started now), pr_updated_at = Some now, pr_elapsed_seconds = 0, pr_heartbeat_at = None,
       pr_since_heartbeat = None, pr_since_update = 0, pr_stalled = False, pr_retryable = None, pr_error = None,
       pr_metadata = [], pr_steps = workflow_steps ops w, pr_operations = ops, pr_overall = overall_percent ops\<rparr>)"

definition new_progress :: "timestamp \<Rightarrow> string \<Rightarrow> string option \<Rightarrow> progress" where
  "new_progress now job w = initialize_progress now job w ''queued'' ''Waiting for a worker to claim this job.'' None True"

subsection \<open>Timing\<close>

definition whole_seconds :: "timestamp \<Rightarrow> int" where
  "whole_seconds d = max 0 (trunc (fl (of_int d / 1000000)))"

definition given_text :: "string option \<Rightarrow> string option" where
  "given_text v = (if v = Some [] then None else v)"

definition or_text :: "string option \<Rightarrow> string option \<Rightarrow> string option" where
  "or_text a b = (case given_text a of None \<Rightarrow> b | Some x \<Rightarrow> Some x)"

definition active_operation :: "progress \<Rightarrow> operation option" where
  "active_operation p = (case next_or (\<lambda>x. op_id x = the_or (pr_substage p) []) (pr_operations p) of
       Some x \<Rightarrow> Some x
     | None \<Rightarrow> first_with (ACTIVE_STATUSES @ [''failed'', ''cancelled'']) (pr_operations p))"

definition project_active :: "progress \<Rightarrow> progress" where
  "project_active p = (case active_operation p of None \<Rightarrow> p
     | Some x \<Rightarrow> p\<lparr>pr_stage := or_text (Some (op_stage x)) (pr_stage p), pr_substage := or_text (Some (op_id x)) (pr_substage p),
         pr_completed_units := op_completed_units x, pr_total_units := op_total_units x, pr_percent := op_percent x,
         pr_unit_type := op_unit_type x, pr_message := or_text (op_message x) (pr_message p)\<rparr>)"

definition enrich_progress_timing :: "'a progress_host_scheme \<Rightarrow> timestamp \<Rightarrow> progress \<Rightarrow> progress" where
  "enrich_progress_timing H now p =
     (let e = project_active p; started = the_or (pr_started_at e) now; updated = the_or (pr_updated_at e) started;
          idle = whole_seconds (now - updated) in
      e\<lparr>pr_elapsed_seconds := whole_seconds (now - started), pr_since_update := idle,
        pr_since_heartbeat := map_option (\<lambda>h. whole_seconds (now - h)) (pr_heartbeat_at e),
        pr_stalled := (pr_status e \<in> set (ACTIVE_STATUSES @ [''queued'', ''waiting''])
          \<and> idle \<ge> max 1 (jp_stall_seconds H))\<rparr>)"

subsection \<open>Updates\<close>

definition jmerge :: "jdict \<Rightarrow> jdict \<Rightarrow> jdict" where
  "jmerge a b = fold (\<lambda>(k, v) d. jset d k v) b a"

fun index_of :: "('a \<Rightarrow> bool) \<Rightarrow> 'a list \<Rightarrow> nat option" where
  "index_of P [] = None"
| "index_of P (x # xs) = (if P x then Some 0 else map_option Suc (index_of P xs))"

text \<open>The declared operations with what the snapshot holds of them; of two with one id the last counts.\<close>

definition stored_operations :: "string option \<Rightarrow> progress \<Rightarrow> operation list" where
  "stored_operations w base = map (\<lambda>d. the_or (next_or (\<lambda>p. op_id p = fst d \<and> op_id p \<noteq> []) (rev (pr_operations base)))
     (new_operation d)) (operation_definitions w)"

text \<open>The index of the last operation that has started, plus one.\<close>

fun furthest_started :: "operation list \<Rightarrow> nat" where
  "furthest_started [] = 0"
| "furthest_started (p # ps) = (let n = furthest_started ps in
     if n \<noteq> 0 then n + 1 else if op_status p \<noteq> ''pending'' then 1 else 0)"

definition complete_earlier :: "timestamp \<Rightarrow> operation \<Rightarrow> operation" where
  "complete_earlier now p = (if op_status p \<in> {''failed'', ''cancelled''} then p
     else p\<lparr>op_status := ''completed'',
       op_completed_units := (if op_total_units p \<noteq> None then op_total_units p else op_completed_units p),
       op_percent := Some 100, op_completed_at := Some (the_or (op_completed_at p) now),
       op_updated_at := Some (the_or (op_updated_at p) now)\<rparr>)"

definition basis_of :: "'a progress_host_scheme \<Rightarrow> jdict \<Rightarrow> string" where
  "basis_of H m = strip (py_text H (jget m ''unit_accounting_basis''))"

definition opt_max :: "int option \<Rightarrow> int option \<Rightarrow> int option" where
  "opt_max a b = (case (a, b) of (None, _) \<Rightarrow> b | (_, None) \<Rightarrow> a | (Some x, Some y) \<Rightarrow> Some (max x y))"

text \<open>The counters of the target: totals are fixed within one accounting basis, completed work never shrinks.\<close>

definition account_units ::
  "int option \<Rightarrow> int option \<Rightarrow> bool \<Rightarrow> int option \<Rightarrow> int option \<Rightarrow> bool \<Rightarrow> int option \<times> int option" where
  "account_units prior_completed prior_total basis_changed completed units finished =
     (let fixed = (if basis_changed then None else prior_total);
          total1 = (case fixed of Some t \<Rightarrow> Some t | None \<Rightarrow> units);
          completed1 = opt_max prior_completed completed;
          total2 = (case (total1, prior_completed) of (Some t, Some c) \<Rightarrow> Some (max t c) | _ \<Rightarrow> total1);
          completed2 = (case (total2, completed1) of (Some t, Some c) \<Rightarrow> Some (min c t) | _ \<Rightarrow> completed1)
      in (if finished \<and> total2 \<noteq> None then total2 else completed2, total2))"

record progress_report =
  rr_substage :: string
  rr_status :: string
  rr_completed :: json
  rr_total :: json
  rr_unit_type :: "string option"
  rr_message :: "string option"
  rr_metadata :: jdict
  rr_retryable :: "bool option"
  rr_error :: "string option"

definition stripped :: "string option \<Rightarrow> string option" where
  "stripped v = (let t = strip (the_or v []) in if t = [] then None else Some t)"

definition operation_status :: "string \<Rightarrow> string" where
  "operation_status st = (if st \<in> {''processing'', ''retrying'', ''completed'', ''failed'', ''cancelled''} then st else ''processing'')"

definition update_target :: "'a progress_host_scheme \<Rightarrow> timestamp \<Rightarrow> string \<Rightarrow> progress_report \<Rightarrow> operation \<Rightarrow> operation" where
  "update_target H now stage r t =
     (let prior_completed = map_option (max 0) (op_completed_units t); prior_total = map_option (max 0) (op_total_units t);
          incoming = basis_of H (rr_metadata r);
          changed = (incoming \<noteq> [] \<and> incoming \<noteq> basis_of H (op_metadata t) \<and> (prior_completed \<noteq> None \<or> prior_total \<noteq> None));
          st = operation_status (rr_status r);
          (completed, units) = account_units prior_completed prior_total changed (bounded_units H (rr_completed r))
            (bounded_units H (rr_total r)) (st = ''completed'') in
      t\<lparr>op_stage := stage, op_status := st, op_completed_units := completed, op_total_units := units,
        op_percent := unit_percent completed units st,
        op_unit_type := stripped (or_text (rr_unit_type r) (op_unit_type t)),
        op_message := stripped (or_text (rr_message r) (op_message t)),
        op_started_at := Some (the_or (op_started_at t) now), op_updated_at := Some now,
        op_completed_at := (if st = ''completed'' then Some now else None),
        op_metadata := jmerge (op_metadata t) (rr_metadata r)\<rparr>)"

definition reset_later :: "operation \<Rightarrow> operation" where
  "reset_later p = (if op_status p \<notin> set TERMINAL_STATUSES then p\<lparr>op_status := ''pending''\<rparr> else p)"

definition update_operations ::
  "'a progress_host_scheme \<Rightarrow> timestamp \<Rightarrow> string \<Rightarrow> progress_report \<Rightarrow> nat \<Rightarrow> operation list \<Rightarrow> operation list" where
  "update_operations H now stage r i ops =
     map (complete_earlier now) (take i ops) @ [update_target H now stage r (ops ! i)]
     @ (if operation_status (rr_status r) \<in> {''failed'', ''cancelled''} then map reset_later (drop (i + 1) ops) else drop (i + 1) ops)"

definition update_progress ::
  "'a progress_host_scheme \<Rightarrow> timestamp \<Rightarrow> progress option \<Rightarrow> string \<Rightarrow> string option \<Rightarrow> progress_report \<Rightarrow> (string, progress) res" where
  "update_progress H now existing job w r =
     (let base = the_or existing (new_progress now job w) in
      if lower (strip (pr_status base)) = ''completed'' \<and> rr_status r \<noteq> ''completed''
      then Inr (enrich_progress_timing H now base)
      else (case map_of (operation_definitions w) (rr_substage r) of
          None \<Rightarrow> Inl (''unsupported_progress_substage:'' @ rr_substage r)
        | Some (stage, label) \<Rightarrow>
            let ops = stored_operations w base;
                i = the_or (index_of (\<lambda>p. op_id p = rr_substage r) ops) 0 in
            if rr_status r \<notin> set TERMINAL_STATUSES \<and> i + 1 < furthest_started ops
            then Inr (enrich_progress_timing H now base)
            else
              let ops' = update_operations H now stage r i ops; target = ops' ! i; st = op_status target;
                  final = (rr_substage r = final_substage w);
                  finished = (final \<and> st = ''completed'') in
              Inr (enrich_progress_timing H now (base\<lparr>
                pr_job_id := job,
                pr_workflow := the_or (or_text w (or_text (Some (pr_workflow base)) None)) ''legacy_analysis'',
                pr_status := (if finished then ''completed'' else if st = ''completed'' then ''processing'' else st),
                pr_stage := Some stage, pr_substage := Some (rr_substage r), pr_completed_units := op_completed_units target,
                pr_total_units := op_total_units target, pr_percent := op_percent target, pr_unit_type := op_unit_type target,
                pr_message := Some (the_or (op_message target) (the_or (given_text (pr_message base)) ''Backend processing is active.'')),
                pr_started_at := Some (the_or (pr_started_at base) now), pr_updated_at := Some now,
                pr_heartbeat_at := (if st \<in> set (ACTIVE_STATUSES @ [''completed'']) then Some now else pr_heartbeat_at base),
                pr_retryable := rr_retryable r, pr_error := stripped (rr_error r),
                pr_metadata := jmerge (pr_metadata base) (rr_metadata r), pr_operations := ops',
                pr_steps := workflow_steps ops' w,
                pr_overall := (if finished then 100 else overall_percent ops')\<rparr>))))"

definition fail_progress ::
  "'a progress_host_scheme \<Rightarrow> timestamp \<Rightarrow> progress option \<Rightarrow> string \<Rightarrow> string option \<Rightarrow> string \<Rightarrow> bool option \<Rightarrow> (string, progress) res" where
  "fail_progress H now existing job w message retryable =
     (let base = the_or existing (new_progress now job w) in
      update_progress H now (Some base) job w
        \<lparr>rr_substage = the_or (given_text (pr_substage base)) ''parse_source'', rr_status = ''failed'',
         rr_completed = jopt JInt (pr_completed_units base), rr_total = jopt JInt (pr_total_units base),
         rr_unit_type = pr_unit_type base, rr_message = Some message, rr_metadata = [], rr_retryable = retryable,
         rr_error = Some message\<rparr>)"

definition complete_progress ::
  "'a progress_host_scheme \<Rightarrow> timestamp \<Rightarrow> progress option \<Rightarrow> string \<Rightarrow> string option \<Rightarrow> string \<Rightarrow> (string, progress) res" where
  "complete_progress H now existing job w message = update_progress H now existing job w
     \<lparr>rr_substage = final_substage w, rr_status = ''completed'', rr_completed = JInt 1, rr_total = JInt 1,
      rr_unit_type = Some ''operation'', rr_message = Some message, rr_metadata = [], rr_retryable = None, rr_error = None\<rparr>"

definition retry_progress ::
  "'a progress_host_scheme \<Rightarrow> timestamp \<Rightarrow> progress option \<Rightarrow> string \<Rightarrow> string option \<Rightarrow> string \<Rightarrow> (string, progress) res" where
  "retry_progress H now existing job w message =
     (let previous = the_or existing (new_progress now job w);
          retried = initialize_progress now job w ''queued'' message (Some now) True in
      (case to_int H (por (jget (pr_metadata previous) ''retry_count'') (JInt 0)) of
         None \<Rightarrow> Inl ''invalid retry_count''
       | Some n \<Rightarrow> Inr (retried\<lparr>pr_metadata := jmerge (pr_metadata previous)
           [(''retry_count'', JInt (n + 1)),
            (''previous_attempt_completed_operations'', JList (map (\<lambda>p. JStr (op_id p))
              (filter (\<lambda>p. op_status p = ''completed'') (pr_operations previous)))),
            (''previous_attempt_failed_substage'', if pr_status previous = ''failed'' then jopt JStr (pr_substage previous) else JNull)]\<rparr>)))"

subsection \<open>The reporter\<close>

text \<open>
  The throttle in front of the durable writes. \<open>now\<close> and \<open>done\<close> are the monotonic clock on entry and
  after the write.
\<close>

record reporter =
  rp_interval :: rat
  rp_last_write :: rat
  rp_last_substage :: "string option"
  rp_last_status :: "string option"
  rp_write_count :: int

definition new_reporter :: "rat \<Rightarrow> reporter" where
  "new_reporter interval = \<lparr>rp_interval = max 0 interval, rp_last_write = 0, rp_last_substage = None, rp_last_status = None,
     rp_write_count = 0\<rparr>"

definition report :: "rat \<Rightarrow> rat \<Rightarrow> string \<Rightarrow> string \<Rightarrow> bool \<Rightarrow> reporter \<Rightarrow> reporter \<times> bool" where
  "report now done substage status force s =
     (let transition = (Some substage \<noteq> rp_last_substage s \<or> Some status \<noteq> rp_last_status s);
          terminal = (status \<in> set TERMINAL_STATUSES) in
      if \<not> (force \<or> transition \<or> terminal) \<and> fl (now - rp_last_write s) < rp_interval s then (s, False)
      else (s\<lparr>rp_last_write := done, rp_last_substage := Some substage, rp_last_status := Some status,
        rp_write_count := rp_write_count s + 1\<rparr>, True))"

subsection \<open>Bounds\<close>

definition within100 :: "int option \<Rightarrow> bool" where
  "within100 v = (case v of None \<Rightarrow> True | Some p \<Rightarrow> 0 \<le> p \<and> p \<le> 100)"

definition op_ok :: "operation \<Rightarrow> bool" where
  "op_ok p = (within100 (op_percent p)
     \<and> (case op_completed_units p of None \<Rightarrow> True | Some c \<Rightarrow> 0 \<le> c)
     \<and> (case op_total_units p of None \<Rightarrow> True | Some t \<Rightarrow> 0 \<le> t)
     \<and> (case (op_completed_units p, op_total_units p) of (Some c, Some t) \<Rightarrow> c \<le> t | _ \<Rightarrow> True))"

definition stage_ok :: "workflow_stage \<Rightarrow> bool" where
  "stage_ok x = (0 \<le> ws_completed x \<and> ws_completed x \<le> ws_total x \<and> 0 \<le> ws_percent x \<and> ws_percent x \<le> 100)"

definition canonical :: "string option \<Rightarrow> operation list \<Rightarrow> bool" where
  "canonical w ops \<longleftrightarrow> map op_id ops = map fst (operation_definitions w)"

definition progress_ok :: "string option \<Rightarrow> progress \<Rightarrow> bool" where
  "progress_ok w p \<longleftrightarrow> canonical w (pr_operations p) \<and> list_all op_ok (pr_operations p)
     \<and> list_all stage_ok (pr_steps p) \<and> 0 \<le> pr_overall p \<and> pr_overall p \<le> 100"

lemma definitions_distinct: "distinct (map fst (operation_definitions w))"
  by (simp add: operation_definitions_def UPLOAD_OPERATIONS_def VALIDATION_OPERATIONS_def BASELINE_OPERATIONS_def
      ANALYSIS_OPERATIONS_def)

lemma definitions_length: "length (operation_definitions w) \<le> 33"
  by (simp add: operation_definitions_def UPLOAD_OPERATIONS_def VALIDATION_OPERATIONS_def BASELINE_OPERATIONS_def
      ANALYSIS_OPERATIONS_def)

lemma definitions_nonempty: "[] \<notin> fst ` set (operation_definitions w)"
  by (auto simp: operation_definitions_def UPLOAD_OPERATIONS_def VALIDATION_OPERATIONS_def BASELINE_OPERATIONS_def
      ANALYSIS_OPERATIONS_def)

lemma share_bounds:
  assumes c: "0 \<le> c" "c < int n" and n: "n \<le> 33" and p: "within100 p"
  shows "0 \<le> share c p n \<and> share c p n \<le> 100"
proof -
  let ?part = "case p of None \<Rightarrow> 0 | Some p \<Rightarrow> fl (of_int p / 100)"
  have part: "0 \<le> ?part" "?part \<le> 1"
  proof -
    show "0 \<le> ?part" using p by (auto simp: within100_def intro: fl_nonneg split: option.splits)
    show "?part \<le> 1" using p fl_le_int [of "of_int i / 100" 1 for i]
      by (auto simp: within100_def split: option.splits)
  qed
  let ?a = "fl (of_int c + ?part)"
  have a: "0 \<le> ?a" "?a \<le> of_int (int n)"
  proof -
    show "0 \<le> ?a" using part(1) c(1) by (intro fl_nonneg) simp
    have "of_int c + ?part \<le> of_int (int n)" using part(2) c(2) by linarith
    then show "?a \<le> of_int (int n)" using part(1) c(1) n by (intro fl_le_int) simp_all
  qed
  let ?b = "fl (?a * 100)"
  have b: "0 \<le> ?b" "?b \<le> of_int (int n * 100)"
  proof -
    show "0 \<le> ?b" using a(1) by (intro fl_nonneg) simp
    have "?a * 100 \<le> of_int (int n * 100)" using a(2) by simp
    then show "?b \<le> of_int (int n * 100)" using a(1) n by (intro fl_le_int) simp_all
  qed
  let ?m = "max 1 (int n)"
  have m: "?m = int n" "0 < int n" using c by linarith+
  have b': "0 \<le> ?b / of_int ?m" "?b / of_int ?m \<le> of_int 100"
    using b m by (simp_all add: pos_divide_le_eq)
  have q: "0 \<le> fl (?b / of_int ?m)" by (rule fl_nonneg [OF b'(1)])
  have q': "fl (?b / of_int ?m) \<le> of_int 100" by (rule fl_le_int [OF b']) simp
  show ?thesis unfolding share_def by (rule trunc_bounds [OF q q'])
qed

lemma completed_count_bounds: "0 \<le> completed_count ops" "completed_count ops \<le> int (length ops)"
  by (simp_all add: completed_count_def)

lemma step_of_ok:
  assumes ops: "list_all op_ok ops" and l: "length ops \<le> 33"
  shows "stage_ok (workflow_step_of w ops stage)"
proof -
  let ?items = "filter (\<lambda>p. op_stage p = stage) ops"
  let ?measured = "case first_with ACTIVE_STATUSES ?items of Some a \<Rightarrow> Some a | None \<Rightarrow> first_with [''failed''] ?items"
  have len: "length ?items \<le> 33" using l length_filter_le [of "\<lambda>p. op_stage p = stage" ops] by linarith
  have "op_ok x" if "?measured = Some x" for x
    using ops that by (auto simp: first_with_def list_all_iff dest!: next_or_Some split: option.splits)
  then have m: "within100 (Option.bind ?measured op_percent)"
    by (cases ?measured) (auto simp: op_ok_def within100_def)
  have "0 \<le> share (completed_count ?items) (Option.bind ?measured op_percent) (length ?items)
      \<and> share (completed_count ?items) (Option.bind ?measured op_percent) (length ?items) \<le> 100"
    if "completed_count ?items \<noteq> int (length ?items)"
    using that completed_count_bounds [of ?items] by (intro share_bounds m len) simp_all
  then show ?thesis
    using completed_count_bounds [of ?items] by (simp add: stage_ok_def workflow_step_of_def Let_def)
qed

lemma steps_ok: "list_all op_ok ops \<Longrightarrow> length ops \<le> 33 \<Longrightarrow> list_all stage_ok (workflow_steps ops w)"
  by (simp add: workflow_steps_def list_all_iff step_of_ok)

lemma overall_bounds: "0 \<le> overall_percent ops" "overall_percent ops \<le> 100"
  by (simp_all add: overall_percent_def Let_def)

lemma canonical_length: "canonical w ops \<Longrightarrow> length ops \<le> 33"
  using definitions_length [of w] by (metis canonical_def length_map)

text \<open>A snapshot rebuilt from well-formed operations is well formed.\<close>

lemma progress_okI:
  "canonical w (pr_operations p) \<Longrightarrow> list_all op_ok (pr_operations p) \<Longrightarrow> pr_steps p = workflow_steps (pr_operations p) w \<Longrightarrow>
   0 \<le> pr_overall p \<Longrightarrow> pr_overall p \<le> 100 \<Longrightarrow> progress_ok w p"
  by (simp add: progress_ok_def steps_ok canonical_length)

lemma new_operation_simps [simp]: "op_id (new_operation d) = fst d" "op_ok (new_operation d)"
  by (simp_all add: new_operation_def op_ok_def within100_def split: prod.splits)

lemma persisted_simps [simp]: "op_id (persisted_operation now st p) = op_id p" "op_ok (persisted_operation now st p)"
  by (simp_all add: persisted_operation_def op_ok_def within100_def)

lemma initialize_ok: "progress_ok w (initialize_progress now job w status message started persisted)"
proof (rule progress_okI)
  let ?fresh = "map new_operation (operation_definitions w)"
  have "map op_id (take 2 ?fresh) @ map op_id (drop 2 ?fresh) = map fst (operation_definitions w)"
    by (simp add: comp_def take_map [symmetric] drop_map [symmetric] map_append [symmetric] del: map_append)
  then show "canonical w (pr_operations (initialize_progress now job w status message started persisted))"
    by (simp add: canonical_def initialize_progress_def Let_def comp_def)
  have "\<forall>x \<in> set (drop 2 ?fresh). op_ok x" by (rule ballI, drule in_set_dropD) auto
  then show "list_all op_ok (pr_operations (initialize_progress now job w status message started persisted))"
    by (auto simp: initialize_progress_def Let_def list_all_iff)
qed (simp_all add: initialize_progress_def Let_def overall_bounds)

lemma project_active_keeps [simp]: "pr_operations (project_active p) = pr_operations p" "pr_steps (project_active p) = pr_steps p"
    "pr_overall (project_active p) = pr_overall p" "pr_status (project_active p) = pr_status p"
  by (simp_all add: project_active_def split: option.splits)

lemma enrich_keeps [simp]: "pr_operations (enrich_progress_timing H now p) = pr_operations p"
    "pr_steps (enrich_progress_timing H now p) = pr_steps p"
    "pr_overall (enrich_progress_timing H now p) = pr_overall p" "pr_status (enrich_progress_timing H now p) = pr_status p"
  by (simp_all add: enrich_progress_timing_def Let_def)

lemma enrich_ok [simp]: "progress_ok w (enrich_progress_timing H now p) = progress_ok w p"
  by (simp add: progress_ok_def)

subsection \<open>Updates keep the bounds\<close>

lemma stored_canonical: "canonical w (stored_operations w base)"
proof -
  have "op_id (the_or (next_or (\<lambda>p. op_id p = fst d \<and> op_id p \<noteq> []) ops) (new_operation d)) = fst d" for d ops
    by (auto simp: the_or_def dest: next_or_Some split: option.splits)
  then show ?thesis by (simp add: canonical_def stored_operations_def comp_def)
qed

lemma stored_ok: "list_all op_ok (pr_operations base) \<Longrightarrow> list_all op_ok (stored_operations w base)"
  by (auto simp: stored_operations_def list_all_iff the_or_def dest!: next_or_Some split: option.splits)

lemma next_or_distinct:
  assumes "distinct (map f xs)" "x \<in> set xs" "P x"
  shows "next_or (\<lambda>y. f y = f x \<and> P y) xs = Some x"
proof (cases "next_or (\<lambda>y. f y = f x \<and> P y) xs")
  case None
  with assms show ?thesis by (auto simp: next_or_None)
next
  case (Some y)
  then have "y \<in> set xs" "f y = f x" by (auto dest: next_or_Some)
  with assms(1,2) Some show ?thesis by (simp add: distinct_map inj_on_def)
qed

lemma stored_same:
  assumes c: "canonical w (pr_operations base)"
  shows "stored_operations w base = pr_operations base"
proof (rule nth_equalityI)
  show l: "length (stored_operations w base) = length (pr_operations base)"
    using c by (metis canonical_def length_map stored_canonical)
  fix i assume i: "i < length (stored_operations w base)"
  let ?x = "pr_operations base ! i"
  have d: "distinct (map op_id (rev (pr_operations base)))"
    using c definitions_distinct [of w] by (simp add: canonical_def rev_map [symmetric])
  have x: "?x \<in> set (rev (pr_operations base))" using i l by simp
  have id: "op_id ?x = fst (operation_definitions w ! i)"
    using c i l by (metis (no_types, lifting) canonical_def length_map nth_map)
  have "fst (operation_definitions w ! i) \<in> fst ` set (operation_definitions w)"
    using i by (auto simp: stored_operations_def)
  then have "op_id ?x \<noteq> []" using definitions_nonempty [of w] unfolding id by metis
  with next_or_distinct [where P = "\<lambda>p. op_id p \<noteq> []", OF d x] show "stored_operations w base ! i = ?x"
    using i id by (simp add: stored_operations_def the_or_def)
qed

lemma complete_earlier_simps [simp]: "op_id (complete_earlier now p) = op_id p" "op_ok p \<Longrightarrow> op_ok (complete_earlier now p)"
  by (auto simp: complete_earlier_def op_ok_def within100_def split: option.splits)

lemma reset_later_simps [simp]: "op_id (reset_later p) = op_id p" "op_ok (reset_later p) = op_ok p"
    "op_completed_units (reset_later p) = op_completed_units p"
  by (simp_all add: reset_later_def op_ok_def split: option.splits)

lemma unit_percent_within: "within100 (unit_percent c t st)"
  by (auto simp: unit_percent_def within100_def split: option.splits)

definition nonneg :: "int option \<Rightarrow> bool" where
  "nonneg v = (case v of None \<Rightarrow> True | Some i \<Rightarrow> 0 \<le> i)"

lemma account_ok:
  assumes n: "nonneg pc" "nonneg pt" "nonneg c" "nonneg t"
    and a: "account_units pc pt ch c t fin = a"
  shows "nonneg (fst a) \<and> nonneg (snd a) \<and> (case a of (Some x, Some y) \<Rightarrow> x \<le> y | _ \<Rightarrow> True)
    \<and> (case pc of None \<Rightarrow> True | Some x \<Rightarrow> (case fst a of None \<Rightarrow> False | Some y \<Rightarrow> x \<le> y))"
  using n unfolding a [symmetric]
  by (cases pc; cases pt; cases c; cases t; cases ch; cases fin; simp add: account_units_def opt_max_def nonneg_def Let_def
    le_max_iff_disj min_le_iff_disj; linarith)

lemma bounded_nonneg: "nonneg (bounded_units H v)" "nonneg (map_option (max 0) u)"
  by (simp_all add: bounded_units_def nonneg_def split: option.splits)

lemma update_target_simps [simp]: "op_id (update_target H now stage r t) = op_id t"
    "op_status (update_target H now stage r t) = operation_status (rr_status r)"
  by (simp_all add: update_target_def Let_def split: prod.splits)

lemma update_target_ok:
  "op_ok (update_target H now stage r t)
   \<and> (case op_completed_units t of None \<Rightarrow> True
      | Some x \<Rightarrow> (case op_completed_units (update_target H now stage r t) of None \<Rightarrow> False | Some y \<Rightarrow> x \<le> y))"
proof -
  let ?pc = "map_option (max 0) (op_completed_units t)" and ?pt = "map_option (max 0) (op_total_units t)"
  let ?st = "operation_status (rr_status r)" and ?in = "basis_of H (rr_metadata r)"
  obtain c' t' where a: "account_units ?pc ?pt (?in \<noteq> [] \<and> ?in \<noteq> basis_of H (op_metadata t) \<and> (?pc \<noteq> None \<or> ?pt \<noteq> None))
      (bounded_units H (rr_completed r)) (bounded_units H (rr_total r)) (?st = ''completed'') = (c', t')"
    by fastforce
  then have u: "op_completed_units (update_target H now stage r t) = c'" "op_total_units (update_target H now stage r t) = t'"
      "op_percent (update_target H now stage r t) = unit_percent c' t' ?st"
    unfolding update_target_def Let_def by simp_all
  have n: "nonneg (bounded_units H (rr_completed r))" "nonneg (bounded_units H (rr_total r))" "nonneg ?pc" "nonneg ?pt"
    by (simp_all add: bounded_nonneg)
  from account_ok [OF n(3,4,1,2) a]
  show ?thesis unfolding op_ok_def u
    by (auto simp: unit_percent_within nonneg_def split: option.splits)
qed

text \<open>How an operation of a snapshot evolves: its completed work never shrinks.\<close>

definition grows_to :: "operation \<Rightarrow> operation \<Rightarrow> bool" where
  "grows_to p q \<longleftrightarrow> op_id q = op_id p \<and> (case op_completed_units p of None \<Rightarrow> True
     | Some x \<Rightarrow> (case op_completed_units q of None \<Rightarrow> False | Some y \<Rightarrow> x \<le> y))"

lemma grows_refl [simp]: "grows_to p p"
  by (simp add: grows_to_def split: option.splits)

lemma grows_earlier: "op_ok p \<Longrightarrow> grows_to p (complete_earlier now p)"
  by (auto simp: grows_to_def complete_earlier_def op_ok_def split: option.splits)

lemma grows_reset: "grows_to p (reset_later p)"
  by (simp add: grows_to_def split: option.splits)

lemma grows_target: "grows_to t (update_target H now stage r t)"
  using update_target_ok [where H = H and now = now and stage = stage and r = r and t = t] by (simp add: grows_to_def)

lemma update_operations_grow:
  assumes "list_all op_ok ops" "i < length ops"
  shows "list_all2 grows_to ops (update_operations H now stage r i ops)"
proof -
  have "list_all2 grows_to (take i ops @ [ops ! i] @ drop (i + 1) ops) (update_operations H now stage r i ops)"
    unfolding update_operations_def using assms(1)
    by (intro list_all2_appendI)
      (auto simp: list_all2_conv_all_nth list_all_length grows_target grows_reset intro: grows_earlier)
  then show ?thesis using assms(2) by (simp add: id_take_nth_drop [symmetric])
qed

lemma update_operations_ok:
  assumes "list_all op_ok ops" "i < length ops"
  shows "list_all op_ok (update_operations H now stage r i ops)"
proof -
  have t: "op_ok (update_target H now stage r (ops ! i))" using update_target_ok by blast
  from assms t show ?thesis
    by (auto simp: update_operations_def list_all_iff dest: in_set_takeD in_set_dropD)
qed

text \<open>The report names another accounting basis than the operation it is about.\<close>

definition rebased :: "'a progress_host_scheme \<Rightarrow> progress_report \<Rightarrow> operation \<Rightarrow> bool" where
  "rebased H r t \<longleftrightarrow> op_id t = rr_substage r \<and> basis_of H (rr_metadata r) \<notin> {[], basis_of H (op_metadata t)}"

text \<open>How an operation may evolve: what it completed, its total under one basis, its counters under a new one.\<close>

definition evolves_to :: "'a progress_host_scheme \<Rightarrow> progress_report \<Rightarrow> operation \<Rightarrow> operation \<Rightarrow> bool" where
  "evolves_to H r t q \<longleftrightarrow> grows_to t q
     \<and> (\<not> rebased H r t \<and> op_total_units t \<noteq> None \<longrightarrow> op_total_units q = op_total_units t)
     \<and> (\<forall>x n. rebased H r t \<and> op_completed_units t = Some x \<and> bounded_units H (rr_total r) = Some n
          \<longrightarrow> op_total_units q = Some (max n x) \<and> (n \<le> x \<longrightarrow> op_completed_units q = Some x))"

lemma account_totals:
  "account_units pc (Some n) False c t fin = (c', t') \<Longrightarrow> (\<And>x. pc = Some x \<Longrightarrow> x \<le> n) \<Longrightarrow> t' = Some n"
  "account_units (Some x) pt True c (Some n) fin = (c', t') \<Longrightarrow> t' = Some (max n x) \<and> (n \<le> x \<longrightarrow> c' = Some x)"
  by (auto simp: account_units_def opt_max_def Let_def split: option.splits if_split_asm)

lemma target_totals:
  assumes "op_ok t" and "op_id t = rr_substage r"
  shows "evolves_to H r t (update_target H now stage r t)"
proof -
  let ?pc = "map_option (max 0) (op_completed_units t)" and ?pt = "map_option (max 0) (op_total_units t)"
  let ?st = "operation_status (rr_status r)" and ?in = "basis_of H (rr_metadata r)"
  obtain c' t' where a: "account_units ?pc ?pt (?in \<noteq> [] \<and> ?in \<noteq> basis_of H (op_metadata t) \<and> (?pc \<noteq> None \<or> ?pt \<noteq> None))
      (bounded_units H (rr_completed r)) (bounded_units H (rr_total r)) (?st = ''completed'') = (c', t')"
    by fastforce
  then have u: "op_completed_units (update_target H now stage r t) = c'" "op_total_units (update_target H now stage r t) = t'"
    unfolding update_target_def Let_def by simp_all
  have pos: "?pc = op_completed_units t" "?pt = op_total_units t"
    using assms(1) by (auto simp: op_ok_def split: option.splits)
  have le: "x \<le> n" if "op_completed_units t = Some x" "op_total_units t = Some n" for x n
    using assms(1) that by (simp add: op_ok_def)
  show ?thesis unfolding evolves_to_def u
  proof (intro conjI allI impI grows_target)
    assume n: "\<not> rebased H r t \<and> op_total_units t \<noteq> None"
    then obtain n where t: "op_total_units t = Some n" by blast
    have same: "(?in \<noteq> [] \<and> ?in \<noteq> basis_of H (op_metadata t) \<and> (?pc \<noteq> None \<or> ?pt \<noteq> None)) = False"
      using n by (simp add: rebased_def assms(2))
    have "account_units (op_completed_units t) (Some n) False (bounded_units H (rr_completed r)) (bounded_units H (rr_total r))
        (?st = ''completed'') = (c', t')" using a unfolding same unfolding pos unfolding t .
    then show "t' = op_total_units t" unfolding t by (rule account_totals(1)) (rule le [OF _ t])
  next
    fix x n
    assume "rebased H r t \<and> op_completed_units t = Some x \<and> bounded_units H (rr_total r) = Some n"
    with a show "t' = Some (max n x)" "n \<le> x \<Longrightarrow> c' = Some x" unfolding pos by (auto simp: rebased_def dest: account_totals(2))
  qed
qed

lemma kept_totals [simp]:
  "op_total_units (complete_earlier now t) = op_total_units t" "op_total_units (reset_later t) = op_total_units t"
  by (simp_all add: complete_earlier_def reset_later_def)

lemma other_totals:
  assumes "grows_to t q" and "op_id t \<noteq> rr_substage r" and "op_total_units q = op_total_units t"
  shows "evolves_to H r t q"
  using assms by (simp add: evolves_to_def rebased_def)

lemma update_operations_evolve:
  assumes ok: "list_all op_ok ops" and i: "i < length ops" and d: "distinct (map op_id ops)" and s: "op_id (ops ! i) = rr_substage r"
  shows "list_all2 (evolves_to H r) ops (update_operations H now stage r i ops)"
proof -
  have other: "op_id (ops ! j) \<noteq> rr_substage r" if "j < length ops" "j \<noteq> i" for j
    using that i d s by (metis length_map nth_eq_iff_index_eq nth_map)
  have okj: "op_ok (ops ! j)" if "j < length ops" for j using ok that by (simp add: list_all_length)
  have "list_all2 (evolves_to H r) (take i ops @ [ops ! i] @ drop (i + 1) ops) (update_operations H now stage r i ops)"
    unfolding update_operations_def
  proof (intro list_all2_appendI)
    have "evolves_to H r (ops ! j) (complete_earlier now (ops ! j))" if "j < i" for j
      using that i by (intro other_totals grows_earlier okj other) simp_all
    then show "list_all2 (evolves_to H r) (take i ops) (map (complete_earlier now) (take i ops))"
      using i by (simp add: list_all2_conv_all_nth)
    show "list_all2 (evolves_to H r) [ops ! i] [update_target H now stage r (ops ! i)]"
      using target_totals [OF okj [OF i] s] by simp
    have "evolves_to H r (ops ! j) (reset_later (ops ! j)) \<and> evolves_to H r (ops ! j) (ops ! j)" if "j < length ops" "i < j" for j
      using that other [of j] by (intro conjI other_totals grows_reset grows_refl) simp_all
    then show "list_all2 (evolves_to H r) (drop (i + 1) ops)
        (if operation_status (rr_status r) \<in> {''failed'', ''cancelled''} then map reset_later (drop (i + 1) ops) else drop (i + 1) ops)"
      by (simp add: list_all2_conv_all_nth)
  qed
  then show ?thesis using i by (simp add: id_take_nth_drop [symmetric])
qed

lemma grows_ids: "list_all2 grows_to ops ops' \<Longrightarrow> map op_id ops' = map op_id ops"
  by (induction rule: list_all2_induct) (auto simp: grows_to_def)

lemma index_of_Some: "index_of P xs = Some i \<Longrightarrow> i < length xs \<and> P (xs ! i)"
  by (induction xs arbitrary: i) (auto split: if_splits)

lemma index_of_None: "index_of P xs = None \<longleftrightarrow> (\<forall>x \<in> set xs. \<not> P x)"
  by (induction xs) auto

text \<open>The outcome of an update: the snapshot re-timed, or rebuilt around one operation.\<close>

lemma update_progress_Inr:
  assumes u: "update_progress H now existing job w r = Inr p'" and ok: "list_all op_ok (pr_operations (the_or existing (new_progress now job w)))"
  obtains (unchanged) "p' = enrich_progress_timing H now (the_or existing (new_progress now job w))"
  | (rebuilt) ops stage i where "ops = stored_operations w (the_or existing (new_progress now job w))"
      "i < length ops" "op_id (ops ! i) = rr_substage r" "pr_operations p' = update_operations H now stage r i ops"
      "pr_steps p' = workflow_steps (pr_operations p') w" "0 \<le> pr_overall p'" "pr_overall p' \<le> 100"
      "rr_status r = ''completed'' \<or> lower (strip (pr_status (the_or existing (new_progress now job w)))) \<noteq> ''completed''"
      "rr_substage r = final_substage w \<and> rr_status r = ''completed'' \<Longrightarrow> pr_status p' = ''completed'' \<and> pr_overall p' = 100"
proof -
  let ?base = "the_or existing (new_progress now job w)"
  let ?ops = "stored_operations w ?base"
  let ?i = "the_or (index_of (\<lambda>p. op_id p = rr_substage r) ?ops) 0"
  show thesis
  proof (cases "lower (strip (pr_status ?base)) = ''completed'' \<and> rr_status r \<noteq> ''completed''")
    case True
    with u show thesis by (intro unchanged) (simp add: update_progress_def Let_def)
  next
    case False
    with u obtain stage label where d: "map_of (operation_definitions w) (rr_substage r) = Some (stage, label)"
      by (auto simp: update_progress_def Let_def split: option.splits)
    have "rr_substage r \<in> set (map op_id ?ops)"
      using map_of_SomeD [OF d] stored_canonical [of w ?base] by (force simp: canonical_def)
    then obtain i where ix: "index_of (\<lambda>p. op_id p = rr_substage r) ?ops = Some i"
      by (cases "index_of (\<lambda>p. op_id p = rr_substage r) ?ops") (auto simp: index_of_None)
    note i = index_of_Some [OF ix]
    have len: "length (take i (map (complete_earlier now) ?ops)) = i" using i by simp
    show thesis
    proof (cases "rr_status r \<notin> set TERMINAL_STATUSES \<and> i + 1 < furthest_started ?ops")
      case True
      with u False d ix show thesis by (intro unchanged) (auto simp: update_progress_def Let_def the_or_def)
    next
      case out: False
      have t: "op_status (update_operations H now stage r i ?ops ! i) = operation_status (rr_status r)"
        using i by (simp add: update_operations_def nth_append)
      from u False out d ix have p': "pr_operations p' = update_operations H now stage r i ?ops"
        "pr_steps p' = workflow_steps (pr_operations p') w"
        "pr_overall p' = (if rr_substage r = final_substage w \<and> operation_status (rr_status r) = ''completed'' then 100
           else overall_percent (pr_operations p'))"
        "rr_substage r = final_substage w \<and> operation_status (rr_status r) = ''completed'' \<Longrightarrow> pr_status p' = ''completed''"
        by (auto simp: update_progress_def Let_def the_or_def [of "Some _"] t)
      show thesis
        by (rule rebuilt [of ?ops i stage]) (use i p' False overall_bounds in \<open>auto simp: operation_status_def\<close>)
    qed
  qed
qed

lemma base_ok:
  "(\<And>p. existing = Some p \<Longrightarrow> progress_ok w p) \<Longrightarrow> progress_ok w (the_or existing (new_progress now job w))"
  by (cases existing) (simp_all add: the_or_def new_progress_def initialize_ok)

lemma update_ok:
  assumes ok: "\<And>p. existing = Some p \<Longrightarrow> progress_ok w p" and u: "update_progress H now existing job w r = Inr p'"
  shows "progress_ok w p'"
proof -
  note b = base_ok [of existing w now job, OF ok]
  then have "list_all op_ok (pr_operations (the_or existing (new_progress now job w)))" by (simp add: progress_ok_def)
  from u this show ?thesis
  proof (cases rule: update_progress_Inr)
    case unchanged
    with b show ?thesis by simp
  next
    case (rebuilt ops stage i)
    have ok': "list_all op_ok ops" using b by (simp add: rebuilt(1) stored_ok progress_ok_def)
    show ?thesis
    proof (rule progress_okI)
      show "canonical w (pr_operations p')"
        using grows_ids [OF update_operations_grow [OF ok' rebuilt(2), of H now stage r]] stored_canonical
        by (simp add: rebuilt(1,4) canonical_def)
    qed (use rebuilt(4-7) update_operations_ok [OF ok' rebuilt(2)] in simp_all)
  qed
qed

subsection \<open>Properties\<close>

text \<open>The calls a job makes on its progress.\<close>

inductive progress_step :: "'a progress_host_scheme \<Rightarrow> string \<Rightarrow> string option \<Rightarrow> progress \<Rightarrow> progress \<Rightarrow> bool" for H job w where
  reported: "update_progress H now (Some p) job w r = Inr p' \<Longrightarrow> progress_step H job w p p'"
| failed: "fail_progress H now (Some p) job w message retryable = Inr p' \<Longrightarrow> progress_step H job w p p'"
| completed: "complete_progress H now (Some p) job w message = Inr p' \<Longrightarrow> progress_step H job w p p'"
| retried: "retry_progress H now (Some p) job w message = Inr p' \<Longrightarrow> progress_step H job w p p'"
| retimed: "progress_step H job w p (enrich_progress_timing H now p)"

lemma progress_step_ok: "progress_step H job w p p' \<Longrightarrow> progress_ok w p \<Longrightarrow> progress_ok w p'"
proof (induction rule: progress_step.induct)
  case (reported now p r p')
  from update_ok [OF _ reported(1)] reported(2) show ?case by simp
next
  case (failed now p message retryable p')
  from update_ok [OF _ failed(1) [unfolded fail_progress_def Let_def]] failed(2) show ?case by (simp add: the_or_def)
next
  case (completed now p message p')
  from update_ok [OF _ completed(1) [unfolded complete_progress_def]] completed(2) show ?case by simp
next
  case (retried now p message p')
  from retried(1) initialize_ok [of w now job "''queued''" message "Some now" True] show ?case
    by (auto simp: retry_progress_def Let_def progress_ok_def split: option.splits)
qed simp

text \<open>
  C35. Every snapshot a job reaches lists exactly the declared operations of its workflow, in order, with
  every percentage between 0 and 100, no counter negative or above its total, and the stages' and the
  overall percentages between 0 and 100, rounding included.
\<close>
theorem progress_bounds:
  assumes "rtranclp (progress_step H job w) (initialize_progress now job w status message started persisted) p"
  shows "map op_id (pr_operations p) = map fst (operation_definitions w) \<and> list_all op_ok (pr_operations p)
    \<and> list_all stage_ok (pr_steps p) \<and> 0 \<le> pr_overall p \<and> pr_overall p \<le> 100"
proof -
  from assms have "progress_ok w p"
    by (induction rule: rtranclp_induct) (auto intro: initialize_ok progress_step_ok)
  then show ?thesis by (simp add: progress_ok_def canonical_def)
qed

definition demo_progress_host :: progress_host where
  "demo_progress_host = \<lparr>h_repr = (\<lambda>v. ''?''), h_sha256 = (\<lambda>s. s), h_sha256_json = (\<lambda>v. ''d''),
     jp_int = (\<lambda>s. None), jp_stall_seconds = 120\<rparr>"

definition demo_report :: "string \<Rightarrow> int \<Rightarrow> int \<Rightarrow> progress_report" where
  "demo_report substage c t = \<lparr>rr_substage = substage, rr_status = ''processing'', rr_completed = JInt c, rr_total = JInt t,
     rr_unit_type = Some ''rows'', rr_message = None, rr_metadata = [], rr_retryable = None, rr_error = None\<rparr>"

definition demo_started :: progress where
  "demo_started = initialize_progress 0 ''j'' None ''queued'' ''m'' None True"

definition demo_updated :: progress where
  "demo_updated = projr (update_progress demo_progress_host 5000000 (Some demo_started) ''j'' None (demo_report ''schema_detection'' 2 7))"

lemma demo_update: "update_progress demo_progress_host 5000000 (Some demo_started) ''j'' None (demo_report ''schema_detection'' 2 7)
    = Inr demo_updated"
proof -
  have "isl (update_progress demo_progress_host 5000000 (Some demo_started) ''j'' None (demo_report ''schema_detection'' 2 7)) = False"
    by code_simp
  then show ?thesis by (simp add: demo_updated_def sum.collapse(2))
qed

theorem progress_bounds_witness:
  "list_all op_ok (pr_operations demo_updated) \<and> 0 \<le> pr_overall demo_updated \<and> pr_overall demo_updated \<le> 100
    \<and> pr_percent demo_updated = Some 28"
proof -
  have "progress_step demo_progress_host ''j'' None demo_started demo_updated" by (rule reported [OF demo_update])
  then have "rtranclp (progress_step demo_progress_host ''j'' None)
      (initialize_progress 0 ''j'' None ''queued'' ''m'' None True) demo_updated" by (simp add: demo_started_def)
  moreover have "pr_percent demo_updated = Some 28" by code_simp
  ultimately show ?thesis using progress_bounds by blast
qed

text \<open>
  C36. What a report may do to the counters. Every operation stays in place and none loses completed work,
  whatever counters, totals, statuses and accounting basis the report carries. Under one basis a total once
  known is immutable. A report that is not dropped and names a new basis replaces the total of its operation, but
  by the larger of its own total and the work already completed: where that work exceeds the new total, it is
  not cut down to it but becomes the total, and the operation stands at \<open>x\<close> of \<open>x\<close> units. In the example 1000
  of 1710 units followed by a new basis of 190 units give 1000 of 1000.
\<close>
theorem completed_work_never_shrinks:
  assumes u: "update_progress H now (Some p) job w r = Inr p'" and ok: "progress_ok w p"
  shows "list_all2 grows_to (pr_operations p) (pr_operations p')
    \<and> (pr_operations p' = pr_operations p \<or> list_all2 (\<lambda>t q.
         (\<not> rebased H r t \<and> op_total_units t \<noteq> None \<longrightarrow> op_total_units q = op_total_units t)
       \<and> (\<forall>x n. rebased H r t \<and> op_completed_units t = Some x \<and> bounded_units H (rr_total r) = Some n
            \<longrightarrow> op_total_units q = Some (max n x) \<and> (n \<le> x \<longrightarrow> op_completed_units q = Some x)))
       (pr_operations p) (pr_operations p'))"
proof -
  have ops: "list_all op_ok (pr_operations (the_or (Some p) (new_progress now job w)))"
    using ok by (simp add: progress_ok_def the_or_def)
  from u ops show ?thesis
  proof (cases rule: update_progress_Inr)
    case unchanged
    then show ?thesis by (simp add: the_or_def list.rel_refl)
  next
    case (rebuilt ops stage i)
    have o: "ops = pr_operations p"
      using rebuilt(1) stored_same [of w p] ok by (simp add: the_or_def progress_ok_def)
    then have "list_all op_ok ops" "distinct (map op_id ops)"
      using ok definitions_distinct [of w] by (simp_all add: progress_ok_def canonical_def)
    note E = update_operations_evolve [OF this(1) rebuilt(2) this(2) rebuilt(3), of H now stage]
    have ev: "list_all2 (evolves_to H r) (pr_operations p) (pr_operations p')" using E unfolding o rebuilt(4) .
    show ?thesis
      by (intro conjI disjI2) (rule list_all2_mono [OF ev], simp add: evolves_to_def)+
  qed
qed

definition demo_group_expanded :: progress where
  "demo_group_expanded = projr (update_progress demo_progress_host 1000000 (Some demo_started) ''j'' None
     (demo_report ''schema_detection'' 1000 1710))"

definition demo_new_basis :: progress_report where
  "demo_new_basis = (demo_report ''schema_detection'' 25 190)\<lparr>rr_metadata := [(''unit_accounting_basis'', JStr ''pairs.v1'')]\<rparr>"

definition demo_rebased :: progress where
  "demo_rebased = projr (update_progress demo_progress_host 5000000 (Some demo_group_expanded) ''j'' None demo_new_basis)"

lemma demo_expanded: "update_progress demo_progress_host 1000000 (Some demo_started) ''j'' None (demo_report ''schema_detection'' 1000 1710)
    = Inr demo_group_expanded"
proof -
  have "\<not> isl (update_progress demo_progress_host 1000000 (Some demo_started) ''j'' None (demo_report ''schema_detection'' 1000 1710))"
    by code_simp
  then show ?thesis by (simp add: demo_group_expanded_def sum.collapse(2))
qed

lemma demo_rebase: "update_progress demo_progress_host 5000000 (Some demo_group_expanded) ''j'' None demo_new_basis = Inr demo_rebased"
proof -
  have "\<not> isl (update_progress demo_progress_host 5000000 (Some demo_group_expanded) ''j'' None demo_new_basis)" by code_simp
  then show ?thesis by (simp add: demo_rebased_def sum.collapse(2))
qed

lemma demo_expanded_units: "pr_completed_units demo_group_expanded = Some 1000" "pr_total_units demo_group_expanded = Some 1710"
  by code_simp+

lemma demo_rebased_completed: "pr_completed_units demo_rebased = Some 1000"
  by code_simp

lemma demo_rebased_total: "pr_total_units demo_rebased = Some 1000"
  by code_simp

theorem completed_work_never_shrinks_witness:
  "list_all2 grows_to (pr_operations demo_group_expanded) (pr_operations demo_rebased)
   \<and> (pr_completed_units demo_group_expanded, pr_total_units demo_group_expanded) = (Some 1000, Some 1710)
   \<and> (pr_completed_units demo_rebased, pr_total_units demo_rebased) = (Some 1000, Some 1000)"
proof -
  have "progress_ok None demo_started" by (simp add: demo_started_def initialize_ok)
  then have "progress_ok None demo_group_expanded" using update_ok [OF _ demo_expanded] by simp
  from completed_work_never_shrinks [OF demo_rebase this, THEN conjunct1] show ?thesis
    by (simp add: demo_expanded_units demo_rebased_completed demo_rebased_total)
qed

lemma complete_final:
  assumes ok: "progress_ok w p"
  obtains p' where "complete_progress H now (Some p) job w message = Inr p'" "pr_status p' = ''completed''" "pr_overall p' = 100"
proof -
  let ?r = "\<lparr>rr_substage = final_substage w, rr_status = ''completed'', rr_completed = JInt 1, rr_total = JInt 1,
      rr_unit_type = Some ''operation'', rr_message = Some message, rr_metadata = [], rr_retryable = None, rr_error = None\<rparr>"
  have m: "final_substage w \<in> set (map fst (operation_definitions w))"
    by (simp add: final_substage_def operation_definitions_def VALIDATION_OPERATIONS_def BASELINE_OPERATIONS_def
        ANALYSIS_OPERATIONS_def)
  then obtain stage label where d: "map_of (operation_definitions w) (final_substage w) = Some (stage, label)"
    by (cases "map_of (operation_definitions w) (final_substage w)") (auto simp: map_of_eq_None_iff)
  let ?ops = "stored_operations w p"
  have "final_substage w \<in> set (map op_id ?ops)" using m stored_canonical [of w p] by (metis canonical_def)
  then obtain i where ix: "index_of (\<lambda>x. op_id x = final_substage w) ?ops = Some i"
    by (cases "index_of (\<lambda>x. op_id x = final_substage w) ?ops") (auto simp: index_of_None)
  have t: "op_status (update_operations H now stage ?r i ?ops ! i) = ''completed''"
    using index_of_Some [OF ix] by (simp add: update_operations_def nth_append operation_status_def)
  have r: "case complete_progress H now (Some p) job w message of Inl e \<Rightarrow> False
      | Inr q \<Rightarrow> pr_status q = ''completed'' \<and> pr_overall q = 100"
    by (simp add: complete_progress_def update_progress_def Let_def d ix the_or_def [of "Some _"] TERMINAL_STATUSES_def t)
  show thesis
  proof (cases "complete_progress H now (Some p) job w message")
    case (Inr q)
    with r have "pr_status q = ''completed'' \<and> pr_overall q = 100" by simp
    with Inr show thesis by (blast intro: that)
  qed (use r in simp)
qed

text \<open>
  Completion is final: completing a job succeeds from every snapshot, ends at 100 percent, and a
  late report of any other status only refreshes the timing of the completed snapshot.
\<close>
theorem completion_is_final:
  assumes "progress_ok w p"
  shows "\<exists>p'. complete_progress H now (Some p) job w message = Inr p' \<and> pr_status p' = ''completed'' \<and> pr_overall p' = 100
    \<and> (\<forall>now' r. rr_status r \<noteq> ''completed'' \<longrightarrow>
         update_progress H now' (Some p') job w r = Inr (enrich_progress_timing H now' p'))"
proof -
  obtain p' where c: "complete_progress H now (Some p) job w message = Inr p'" "pr_status p' = ''completed''" "pr_overall p' = 100"
    by (rule complete_final [OF assms])
  have "lower (strip ''completed'') = ''completed''" by code_simp
  with c(2) have "update_progress H now' (Some p') job w r = Inr (enrich_progress_timing H now' p')"
    if "rr_status r \<noteq> ''completed''" for now' r
    using that by (simp add: update_progress_def the_or_def)
  with c show ?thesis by blast
qed

theorem completion_is_final_witness:
  "\<exists>p'. complete_progress demo_progress_host 0 (Some demo_started) ''j'' None ''m'' = Inr p'
    \<and> update_progress demo_progress_host 5 (Some p') ''j'' None (demo_report ''parse_source'' 0 1)
        = Inr (enrich_progress_timing demo_progress_host 5 p')"
proof -
  have ok: "progress_ok None demo_started" by (simp add: demo_started_def initialize_ok)
  have "rr_status (demo_report ''parse_source'' 0 1) \<noteq> ''completed''" by (simp add: demo_report_def)
  with completion_is_final [OF ok, of demo_progress_host 0 "''j''" "''m''"] show ?thesis by blast
qed

text \<open>The reporter skips a write only inside its interval, and only when nothing changed.\<close>

lemma report_skips:
  "report now after substage status force s = (s', False) \<Longrightarrow>
   s' = s \<and> \<not> force \<and> rp_last_substage s = Some substage \<and> rp_last_status s = Some status
   \<and> status \<notin> set TERMINAL_STATUSES \<and> fl (now - rp_last_write s) < rp_interval s"
  by (auto simp: report_def Let_def split: if_splits)

end
