(* ===== verification/Telemetry_Domain.thy ===== *)
theory Telemetry_Domain
  imports Prelude
begin

text \<open>
  The telemetry domain, \<^verbatim>\<open>services/telemetry_domain.py\<close>: the enums, the lifecycle of a connection, the
  scope every row carries, the test for credential-shaped keys and the sanitation of public values.

  SHA-256 of a JSON document and the parsing and drawing of UUIDs are standard-library code: the
  record \<open>tele_host\<close> passes them. \<open>th_uuid s\<close> is \<open>str(uuid.UUID(s))\<close>, \<open>None\<close> when it raises;
  \<open>th_uuid4 n\<close> is the identifier drawn as the \<open>n\<close>-th.
\<close>

record tele_host =
  th_sha256 :: "json \<Rightarrow> string"
  th_json_bytes :: "json \<Rightarrow> nat"
  th_uuid :: "string \<Rightarrow> string option"
  th_uuid4 :: "nat \<Rightarrow> string"

datatype tele_error =
    TeleValueError string
  | TeleTypeError string
  | TeleKeyError string
  | InvalidLifecycleTransition string
  | RepositoryError string
  | LeaseLost string
  | CheckpointConflict string
  | MappingConflict string
  | RuntimeUnavailable string
  | ConnectorError string bool "int option"
  | DatabaseError string
  | OtherError string

type_synonym 'a tele = "(tele_error, 'a) res"

text \<open>
  What the code relies on of \<open>uuid\<close>: \<open>uuid4\<close> does not draw an identifier twice, and an identifier it
  drew is in the canonical spelling.
\<close>

definition uuid_supply :: "'a tele_host_scheme \<Rightarrow> bool" where
  "uuid_supply H = (inj (th_uuid4 H) \<and> (\<forall>n. th_uuid H (th_uuid4 H n) = Some (th_uuid4 H n))
     \<and> (\<forall>s t. th_uuid H s = Some t \<longrightarrow> th_uuid H t = Some t))"

subsection \<open>Enums\<close>

datatype connection_status =
    Draft | Validating | Connected | Degraded | Disconnected | Disabled | Errored | Archived

fun status_value :: "connection_status \<Rightarrow> string" where
  "status_value Draft = ''draft''"
| "status_value Validating = ''validating''"
| "status_value Connected = ''connected''"
| "status_value Degraded = ''degraded''"
| "status_value Disconnected = ''disconnected''"
| "status_value Disabled = ''disabled''"
| "status_value Errored = ''error''"
| "status_value Archived = ''archived''"

datatype checkpoint_mode = CkDiscovery | CkIncremental | CkBackfill

datatype run_mode = ValidationRun | DiscoveryRun | IncrementalRun | BackfillRun | RetryRun

datatype run_status = Pending | Running | Succeeded | Partial | RunFailed | Cancelled

datatype quality_state =
    Good | Stale | Missing | InvalidValue | UnitUnresolved | TimestampInvalid | MappingRequired | FormatInvalid

datatype disposition = Accepted | Duplicate | OutOfOrderAccepted | Quarantined | Rejected

datatype mapping_status = Unmapped | Mapped | InvalidMapping | DisabledMapping

subsection \<open>The lifecycle of a connection\<close>

fun LIFECYCLE_TRANSITIONS :: "connection_status \<Rightarrow> connection_status list" where
  "LIFECYCLE_TRANSITIONS Draft = [Validating]"
| "LIFECYCLE_TRANSITIONS Validating = [Connected, Degraded, Disconnected, Errored]"
| "LIFECYCLE_TRANSITIONS Connected = [Degraded, Disconnected, Disabled, Archived]"
| "LIFECYCLE_TRANSITIONS Degraded = [Connected, Disconnected, Disabled, Errored, Archived]"
| "LIFECYCLE_TRANSITIONS Disconnected = [Validating, Connected, Disabled, Archived]"
| "LIFECYCLE_TRANSITIONS Disabled = [Disconnected, Archived]"
| "LIFECYCLE_TRANSITIONS Errored = [Validating, Connected, Disabled, Archived]"
| "LIFECYCLE_TRANSITIONS Archived = []"

definition can_transition_connection :: "connection_status \<Rightarrow> connection_status \<Rightarrow> bool" where
  "can_transition_connection current target = (target \<in> set (LIFECYCLE_TRANSITIONS current))"

definition require_connection_transition :: "connection_status \<Rightarrow> connection_status \<Rightarrow> connection_status tele" where
  "require_connection_transition current target =
     (if target \<notin> set (LIFECYCLE_TRANSITIONS current)
      then Inl (InvalidLifecycleTransition (''invalid_connection_lifecycle_transition:'' @ status_value current
             @ '':'' @ status_value target))
      else Inr target)"

lemma require_transition_Inr [res_simps]:
  "require_connection_transition c t = Inr u \<longleftrightarrow> can_transition_connection c t \<and> u = t"
  by (auto simp: require_connection_transition_def can_transition_connection_def)

subsection \<open>Scopes\<close>

record tele_scope =
  ts_tenant :: string
  ts_workspace :: string
  ts_resource :: string
  ts_facility :: string

definition canonical_resource_scope_id :: "'a tele_host_scheme \<Rightarrow> string \<Rightarrow> string \<Rightarrow> string" where
  "canonical_resource_scope_id H tenant workspace = ''phase4-scope:'' @ take 32 (th_sha256 H (JObj
     [(''tenant_scope_id'', JStr (strip tenant)), (''version'', JStr ''phase4-authenticated-scope-v1''),
      (''workspace_id'', JStr (strip workspace))]))"

definition required_text :: "string \<Rightarrow> string \<Rightarrow> string tele" where
  "required_text field s = (if strip s = [] then Inl (TeleValueError (''telemetry_domain_missing:'' @ field)) else Inr (strip s))"

text \<open>\<open>TelemetryScopeRef.__post_init__\<close>: the normalised scope or the error that refuses it.\<close>

definition TelemetryScopeRef :: "'a tele_host_scheme \<Rightarrow> tele_scope \<Rightarrow> tele_scope tele" where
  "TelemetryScopeRef H r =
     bindE (required_text ''tenant_scope_id'' (ts_tenant r)) (\<lambda>tenant.
     bindE (required_text ''workspace_id'' (ts_workspace r)) (\<lambda>workspace.
     bindE (required_text ''resource_scope_id'' (ts_resource r)) (\<lambda>resource.
     bindE (required_text ''facility_id'' (ts_facility r)) (\<lambda>facility.
     if resource \<noteq> canonical_resource_scope_id H tenant workspace
     then Inl (TeleValueError ''telemetry_scope_resource_mismatch'')
     else if facility \<noteq> workspace then Inl (TeleValueError ''telemetry_scope_facility_workspace_mismatch'')
     else Inr \<lparr>ts_tenant = tenant, ts_workspace = workspace, ts_resource = resource, ts_facility = facility\<rparr>))))"

text \<open>Stripping twice is stripping once, so a validated scope validates to itself.\<close>

lemma dropWhile_idem': "dropWhile p (dropWhile p xs) = dropWhile p xs"
  by (induction xs) auto

lemma dropWhile_rev_keeps: "dropWhile p xs = xs \<Longrightarrow> dropWhile p (rev (dropWhile p (rev xs))) = rev (dropWhile p (rev xs))"
proof (cases xs)
  case (Cons x ys)
  assume "dropWhile p xs = xs"
  with Cons have "\<not> p x" by (metis dropWhile_eq_self_iff list.sel(1) list.simps(3))
  moreover have "\<exists>zs. rev (dropWhile p (rev xs)) = x # zs"
    using Cons \<open>\<not> p x\<close> by (auto simp: dropWhile_append) (metis rev_rev_ident)
  ultimately show ?thesis by fastforce
qed simp

lemma strip_idem [simp]: "strip (strip s) = strip s"
proof -
  let ?d = "dropWhile is_space"
  have "?d (rev (?d (rev (?d s)))) = rev (?d (rev (?d s)))"
    by (rule dropWhile_rev_keeps) (rule dropWhile_idem')
  then show ?thesis by (simp add: strip_def dropWhile_idem')
qed

lemma required_text_Inr [res_simps]: "required_text f s = Inr t \<longleftrightarrow> strip s \<noteq> [] \<and> t = strip s"
  by (auto simp: required_text_def)

lemma scope_ref_Inr:
  "TelemetryScopeRef H r = Inr sc \<longleftrightarrow>
     sc = \<lparr>ts_tenant = strip (ts_tenant r), ts_workspace = strip (ts_workspace r), ts_resource = strip (ts_resource r),
           ts_facility = strip (ts_facility r)\<rparr>
   \<and> strip (ts_tenant r) \<noteq> [] \<and> strip (ts_workspace r) \<noteq> [] \<and> strip (ts_resource r) \<noteq> [] \<and> strip (ts_facility r) \<noteq> []
   \<and> strip (ts_resource r) = canonical_resource_scope_id H (strip (ts_tenant r)) (strip (ts_workspace r))
   \<and> strip (ts_facility r) = strip (ts_workspace r)"
  by (simp add: TelemetryScopeRef_def required_text_def split: if_splits) auto

lemma scope_ref_idem: "TelemetryScopeRef H r = Inr sc \<Longrightarrow> TelemetryScopeRef H sc = Inr sc"
proof -
  assume "TelemetryScopeRef H r = Inr sc"
  note h = this [unfolded scope_ref_Inr, THEN conjunct2] and e = this [unfolded scope_ref_Inr, THEN conjunct1]
  show ?thesis unfolding scope_ref_Inr e tele_scope.select_convs strip_idem using h by blast
qed

subsection \<open>Credential-shaped keys\<close>

definition lower_alnum :: "char \<Rightarrow> bool" where
  "lower_alnum c = (let n = (of_char c :: int) in (48 \<le> n \<and> n \<le> 57) \<or> (97 \<le> n \<and> n \<le> 122))"

definition upper_letter :: "char \<Rightarrow> bool" where
  "upper_letter c = (let n = (of_char c :: int) in 65 \<le> n \<and> n \<le> 90)"

text \<open>\<open>re.sub(r"(?<=[a-z0-9])(?=[A-Z])", "_", s)\<close>\<close>

fun split_camel :: "string \<Rightarrow> string" where
  "split_camel (a # b # cs) = (if lower_alnum a \<and> upper_letter b then a # CHR ''_'' # split_camel (b # cs)
     else a # split_camel (b # cs))"
| "split_camel cs = cs"

text \<open>\<open>re.sub(r"[^a-z0-9]+", "_", s)\<close>\<close>

fun squash :: "bool \<Rightarrow> string \<Rightarrow> string" where
  "squash inside [] = []"
| "squash inside (c # cs) = (if lower_alnum c then c # squash False cs
     else if inside then squash True cs else CHR ''_'' # squash True cs)"

definition strip_under :: "string \<Rightarrow> string" where
  "strip_under s = rev (dropWhile (\<lambda>c. c = CHR ''_'') (rev (dropWhile (\<lambda>c. c = CHR ''_'') s)))"

definition normalized_key :: "string \<Rightarrow> string" where
  "normalized_key s = strip_under (squash False (lower (split_camel (strip s))))"

definition SENSITIVE_KEYS :: "string list" where
  "SENSITIVE_KEYS = [''access_token'', ''api_key'', ''api_token'', ''auth_token'', ''authorization'', ''bearer_token'',
     ''client_secret'', ''clientsecret'', ''credential'', ''credentials'', ''dsn'', ''internal_reference'', ''password'',
     ''secret'', ''secret_arn'', ''secret_binding_id'', ''secret_ref'', ''secret_reference'', ''token'', ''x_api_key'']"

text \<open>The words the alternation of \<open>_SENSITIVE_TELEMETRY_KEY_PATTERN\<close> spells.\<close>

definition SENSITIVE_WORDS :: "string list" where
  "SENSITIVE_WORDS = [''authorization'', ''credential'', ''credentials'', ''dsn'', ''password'', ''passwd'', ''private_key'',
     ''secret'', ''secret_arn'', ''secret_binding_id'', ''secret_ref'', ''secret_reference'', ''internal_reference'',
     ''access_token'', ''api_token'', ''auth_token'', ''bearer_token'', ''refresh_token'', ''api_key'', ''x_api_key'', ''token'']"

text \<open>\<open>(?:^|_)word(?:$|_)\<close> finds \<open>word\<close> between two separators, the ends of the key being separators.\<close>

definition sensitive_word_in :: "string \<Rightarrow> bool" where
  "sensitive_word_in key = list_ex (\<lambda>w. contains (''_'' @ key @ ''_'') (''_'' @ w @ ''_'')) SENSITIVE_WORDS"

definition is_sensitive_key :: "string \<Rightarrow> bool" where
  "is_sensitive_key s =
     (let key = normalized_key s; compact = filter (\<lambda>c. c \<noteq> CHR ''_'') key in
      key \<in> set SENSITIVE_KEYS \<or> compact \<in> {''clientsecret'', ''internalreference'', ''secretref''} \<or> sensitive_word_in key)"

subsection \<open>Public values\<close>

fun sanitize_public :: "json \<Rightarrow> json" where
  "sanitize_public (JObj kvs) =
     JObj (map (\<lambda>(k, v). (k, sanitize_public v)) (filter (\<lambda>(k, v). \<not> is_sensitive_key k) kvs))"
| "sanitize_public (JList xs) = JList (map sanitize_public xs)"
| "sanitize_public v = v"

text \<open>
  \<open>reject_sensitive_telemetry_fields\<close> raises at the first credential-shaped key in document order; the
  error names its path.
\<close>

fun reject_sensitive :: "string \<Rightarrow> string \<Rightarrow> json \<Rightarrow> unit tele"
  and reject_items :: "string \<Rightarrow> string \<Rightarrow> (string \<times> json) list \<Rightarrow> unit tele"
  and reject_elems :: "string \<Rightarrow> string \<Rightarrow> nat \<Rightarrow> json list \<Rightarrow> unit tele" where
  "reject_sensitive code path (JObj kvs) = reject_items code path kvs"
| "reject_sensitive code path (JList xs) = reject_elems code path 0 xs"
| "reject_sensitive code path JNull = Inr ()"
| "reject_sensitive code path (JBool b) = Inr ()"
| "reject_sensitive code path (JInt i) = Inr ()"
| "reject_sensitive code path (JFloat r) = Inr ()"
| "reject_sensitive code path (JStr s) = Inr ()"
| "reject_sensitive code path (JTime t) = Inr ()"
| "reject_items code path [] = Inr ()"
| "reject_items code path ((k, v) # kvs) =
     (if is_sensitive_key k then Inl (TeleValueError (code @ '':'' @ path @ ''.'' @ k))
      else bindE (reject_sensitive code (path @ ''.'' @ k) v) (\<lambda>_. reject_items code path kvs))"
| "reject_elems code path i [] = Inr ()"
| "reject_elems code path i (x # xs) =
     bindE (reject_sensitive code (path @ ''['' @ digits_of i @ '']'') x) (\<lambda>_. reject_elems code path (Suc i) xs)"

fun public_clean :: "json \<Rightarrow> bool" where
  "public_clean (JObj kvs) = list_all (\<lambda>(k, v). \<not> is_sensitive_key k \<and> public_clean v) kvs"
| "public_clean (JList xs) = list_all public_clean xs"
| "public_clean v = True"

lemma sanitize_clean: "public_clean (sanitize_public v)"
  by (induction v rule: sanitize_public.induct) (auto simp: list_all_iff)

lemma sanitize_id: "public_clean v \<Longrightarrow> sanitize_public v = v"
proof (induction v rule: sanitize_public.induct)
  case (1 kvs)
  then have "filter (\<lambda>(k, v). \<not> is_sensitive_key k) kvs = kvs" by (auto simp: list_all_iff filter_id_conv)
  moreover have "map (\<lambda>(k, v). (k, sanitize_public v)) kvs = kvs"
    using 1 by (intro map_idI) (auto simp: list_all_iff)
  ultimately show ?case by simp
next
  case (2 xs)
  then show ?case by (auto simp: list_all_iff intro: map_idI)
qed simp_all

lemma sanitize_iff: "sanitize_public v = v \<longleftrightarrow> public_clean v"
  by (metis sanitize_clean sanitize_id)

lemma reject_iff:
  "reject_sensitive code path v = Inr () \<longleftrightarrow> public_clean v"
  "reject_items code path kvs = Inr () \<longleftrightarrow> list_all (\<lambda>(k, v). \<not> is_sensitive_key k \<and> public_clean v) kvs"
  "reject_elems code path i xs = Inr () \<longleftrightarrow> list_all public_clean xs"
  by (induction code path v and code path kvs and code path i xs
      rule: reject_sensitive_reject_items_reject_elems.induct) (auto simp: res_simps)

text \<open>
  Sanitation of a public value leaves no credential-shaped key at any depth, changes nothing when
  applied again, and the persistence guard refuses exactly the values it would change.
\<close>

theorem sanitation_exact:
  "public_clean (sanitize_public v) \<and> sanitize_public (sanitize_public v) = sanitize_public v
   \<and> (reject_sensitive code path v = Inr () \<longleftrightarrow> sanitize_public v = v)"
  by (simp add: sanitize_clean sanitize_id sanitize_iff reject_iff)

end
