(* ===== verification/Telemetry_Units.thy ===== *)
theory Telemetry_Units
  imports Telemetry_Domain Floats
begin

text \<open>
  Values and units: the scalars a provider reports, Python's \<open>float\<close> of them, the unit table of
  \<^verbatim>\<open>water_intelligence/units.py\<close> and the conversions of \<^verbatim>\<open>services/telemetry_units.py\<close>.

  A finite double is the rational it denotes; \<open>dbl\<close> rounds to the nearest double, subnormals included, and
  is \<open>None\<close> where the rounded magnitude is beyond the largest double, so an infinity or a NaN is \<open>None\<close>. The
  sign of a zero is kept in what a provider reports and dropped in arithmetic. Strings hold code points
  below 256, so the replacement of the Greek capital delta in a unit label does not arise.
\<close>

subsection \<open>Scalars\<close>

datatype moment = Aware timestamp int | Naive int

record py_datetime =
  dt_iso :: string
  dt_moment :: moment
  dt_zone_key :: "string option"

datatype pyfloat = Finite rat | NegZero | Infinite bool | NotANumber

text \<open>A decimal is its \<open>str\<close>; \<open>SOther\<close> is a value of any other type, with the qualified name of the type and its \<open>str\<close>.\<close>

datatype scalar =
    SNone
  | SBool bool
  | SInt int
  | SFloat pyfloat
  | SDecimal string
  | SDatetime py_datetime
  | SStr string
  | SOther string string

definition dbl :: "rat \<Rightarrow> rat option" where
  "dbl x =
     (let r = (if \<bar>x\<bar> < 1 / 2 ^ 1022 then scale2 (- 1074) (of_int (round_half_even (scale2 1074 x))) else fl x)
      in if 2 ^ 1024 \<le> \<bar>r\<bar> then None else Some r)"

definition digit_char :: "char \<Rightarrow> bool" where
  "digit_char c = (let n = (of_char c :: int) in 48 \<le> n \<and> n \<le> 57)"

text \<open>Digits with single underscores between them: the value, how many digits, and the rest.\<close>

fun take_digits :: "nat \<Rightarrow> nat \<Rightarrow> string \<Rightarrow> nat \<times> nat \<times> string" where
  "take_digits v n [] = (v, n, [])"
| "take_digits v n (c # cs) =
     (if digit_char c then take_digits (10 * v + (of_char c - 48)) (Suc n) cs
      else if c = CHR ''_'' \<and> 0 < n \<and> cs \<noteq> [] \<and> digit_char (hd cs) then take_digits v n cs
      else (v, n, c # cs))"

definition signed :: "string \<Rightarrow> bool \<times> string" where
  "signed cs = (case cs of [] \<Rightarrow> (False, [])
     | c # ds \<Rightarrow> if c = CHR ''-'' then (True, ds) else if c = CHR ''+'' then (False, ds) else (False, c # ds))"

definition exponent_of :: "string \<Rightarrow> int option" where
  "exponent_of cs = (case cs of [] \<Rightarrow> Some 0
     | c # ds \<Rightarrow>
         if c \<noteq> CHR ''e'' \<and> c \<noteq> CHR ''E'' then None
         else (case signed ds of (neg, es) \<Rightarrow>
           (case take_digits 0 0 es of (v, n, rest) \<Rightarrow>
              if n = 0 \<or> rest \<noteq> [] then None else Some (if neg then - int v else int v))))"

definition ten_to :: "int \<Rightarrow> rat" where
  "ten_to e = (if 0 \<le> e then 10 ^ nat e else 1 / 10 ^ nat (- e))"

text \<open>\<open>float(s)\<close> of a string; \<open>None\<close> is \<open>ValueError\<close>.\<close>

definition float_of_str :: "string \<Rightarrow> pyfloat option" where
  "float_of_str s = (case signed (strip s) of (neg, cs) \<Rightarrow>
     if lower cs = ''inf'' \<or> lower cs = ''infinity'' then Some (Infinite neg)
     else if lower cs = ''nan'' then Some NotANumber
     else (case take_digits 0 0 cs of (a, n, rest) \<Rightarrow>
       (case (case rest of c # ds \<Rightarrow> if c = CHR ''.'' then take_digits 0 0 ds else (0, 0, rest) | [] \<Rightarrow> (0, 0, [])) of
          (b, m, tail) \<Rightarrow>
            if n + m = 0 then None
            else (case exponent_of tail of None \<Rightarrow> None
              | Some e \<Rightarrow>
                  (case dbl ((of_nat a + of_nat b / 10 ^ m) * ten_to e) of
                     None \<Rightarrow> Some (Infinite neg)
                   | Some r \<Rightarrow> Some (if neg then if r = 0 then NegZero else Finite (- r) else Finite r))))))"

definition finite_value :: "pyfloat option \<Rightarrow> rat option" where
  "finite_value x = (case x of Some (Finite r) \<Rightarrow> Some r | Some NegZero \<Rightarrow> Some 0 | _ \<Rightarrow> None)"

text \<open>The finite double of a value, \<open>None\<close> where \<open>float\<close> raises or is not finite; a boolean is no number here.\<close>

definition numeric_of :: "scalar \<Rightarrow> rat option" where
  "numeric_of v = (case v of
       SInt i \<Rightarrow> dbl (of_int i)
     | SFloat x \<Rightarrow> finite_value (Some x)
     | SDecimal s \<Rightarrow> finite_value (float_of_str s)
     | SStr s \<Rightarrow> finite_value (float_of_str s)
     | _ \<Rightarrow> None)"

subsection \<open>The unit table\<close>

type_synonym conversion = "rat \<Rightarrow> rat option"

record unit_definition =
  ud_canonical :: string
  ud_dimension :: string
  ud_normalized_unit :: string
  ud_to_normalized :: conversion
  ud_conversion :: string
  ud_aliases :: "string list"

definition chain :: "conversion \<Rightarrow> conversion \<Rightarrow> conversion" where
  "chain f g x = Option.bind (f x) g"

definition same :: conversion where "same x = Some x"

text \<open>\<open>v * c\<close>, \<open>v / c\<close>, \<open>v + c\<close> and \<open>v - c\<close> with a literal of \<open>n\<close> over \<open>d\<close>.\<close>

definition mul_lit :: "int \<Rightarrow> int \<Rightarrow> conversion" where "mul_lit n d v = dbl (v * fl (of_int n / of_int d))"
definition div_lit :: "int \<Rightarrow> conversion" where "div_lit n v = dbl (v / of_int n)"
definition add_lit :: "int \<Rightarrow> conversion" where "add_lit n v = dbl (v + of_int n)"
definition sub_lit :: "int \<Rightarrow> int \<Rightarrow> conversion" where "sub_lit n d v = dbl (v - fl (of_int n / of_int d))"

definition nine_fifths :: conversion where "nine_fifths = chain (mul_lit 9 1) (div_lit 5)"

abbreviation unit_row :: "string \<Rightarrow> string \<Rightarrow> string \<Rightarrow> conversion \<Rightarrow> string \<Rightarrow> string list \<Rightarrow> unit_definition" where
  "unit_row c d n f k as \<equiv> \<lparr>ud_canonical = c, ud_dimension = d, ud_normalized_unit = n, ud_to_normalized = f,
     ud_conversion = k, ud_aliases = as\<rparr>"

definition UNIT_DEFINITIONS :: "unit_definition list" where
  "UNIT_DEFINITIONS = [
     unit_row ''gpm'' ''flow'' ''gpm'' same ''identity'' [''gpm'', ''gal/min'', ''gallon/min'', ''gallons/minute''],
     unit_row ''lpm'' ''flow'' ''gpm'' (mul_lit 264172052 1000000000) ''lpm_to_gpm'' [''lpm'', ''l/min'', ''liter/min'', ''liters/minute''],
     unit_row ''lps'' ''flow'' ''gpm'' (mul_lit 15850323141 1000000000) ''lps_to_gpm'' [''l/s'', ''lps'', ''liter/s'', ''liters/second''],
     unit_row ''m3h'' ''flow'' ''gpm'' (mul_lit 4402867539 1000000000) ''m3h_to_gpm''
       [''m3/h'', ''m^3/h'', ''m3hr'', ''m3_per_hr'', ''m3_per_hour''],
     unit_row ''cfs'' ''flow'' ''gpm'' (mul_lit 4488311688 10000000) ''cfs_to_gpm'' [''cfs'', ''ft3/s'', ''ft^3/s''],
     unit_row ''psi'' ''pressure'' ''psi'' same ''identity'' [''psi'', ''psig''],
     unit_row ''kpa'' ''pressure'' ''psi'' (mul_lit 145037738 1000000000) ''kpa_to_psi'' [''kpa'', ''kilopascal'', ''kilopascals''],
     unit_row ''pa'' ''pressure'' ''psi'' (mul_lit 145037738 1000000000000) ''pa_to_psi'' [''pa'', ''pascal'', ''pascals''],
     unit_row ''bar'' ''pressure'' ''psi'' (mul_lit 145037738 10000000) ''bar_to_psi'' [''bar''],
     unit_row ''inh2o'' ''pressure'' ''psi'' (mul_lit 360912 10000000) ''inh2o_to_psi'' [''in_h2o'', ''inh2o'', ''inwc'', ''in.wc''],
     unit_row ''ft_h2o'' ''pressure'' ''psi'' (mul_lit 4335275 10000000) ''ft_h2o_to_psi'' [''ft_h2o'', ''ftwc'', ''feet_water''],
     unit_row ''f'' ''temperature'' ''degF'' same ''identity'' [''f'', ''degf'', ''degree_f'', ''degrees_f'', ''fahrenheit''],
     unit_row ''c'' ''temperature'' ''degF'' (chain nine_fifths (add_lit 32)) ''c_to_f''
       [''c'', ''degc'', ''degree_c'', ''degrees_c'', ''celsius''],
     unit_row ''k'' ''temperature'' ''degF'' (chain (sub_lit 27315 100) (chain nine_fifths (add_lit 32))) ''k_to_f'' [''k'', ''kelvin''],
     unit_row ''delta_f'' ''temperature_difference'' ''degF'' same ''identity'' [''delta_f'', ''delt_f'', ''degf_delta'', ''f_delta''],
     unit_row ''delta_c'' ''temperature_difference'' ''degF'' nine_fifths ''delta_c_to_delta_f''
       [''delta_c'', ''delt_c'', ''degc_delta'', ''c_delta''],
     unit_row ''kw'' ''power'' ''kW'' same ''identity'' [''kw'', ''kilowatt'', ''kilowatts''],
     unit_row ''w'' ''power'' ''kW'' (div_lit 1000) ''w_to_kw'' [''w'', ''watt'', ''watts''],
     unit_row ''hp'' ''power'' ''kW'' (mul_lit 745699872 1000000000) ''hp_to_kw'' [''hp'', ''horsepower''],
     unit_row ''kwh'' ''energy'' ''kWh'' same ''identity'' [''kwh'', ''kilowatt_hour'', ''kilowatt-hours''],
     unit_row ''wh'' ''energy'' ''kWh'' (div_lit 1000) ''wh_to_kwh'' [''wh'', ''watt_hour'', ''watt-hours''],
     unit_row ''us_cm'' ''conductivity'' ''uS/cm'' same ''identity'' [''us/cm'', CHR 0xB5 # ''s/cm'', ''uS/cm'', ''microsiemens/cm'', ''umho/cm''],
     unit_row ''ms_cm'' ''conductivity'' ''uS/cm'' (mul_lit 1000 1) ''ms_cm_to_us_cm'' [''ms/cm'', ''mS/cm'', ''millisiemens/cm''],
     unit_row ''percent'' ''fraction'' ''%'' same ''identity'' [''%'', ''pct'', ''percent'', ''percentage''],
     unit_row ''fraction'' ''fraction'' ''%'' (mul_lit 100 1) ''fraction_to_percent'' [''fraction'', ''ratio''],
     unit_row ''ft'' ''level'' ''ft'' same ''identity'' [''ft'', ''feet'', ''foot''],
     unit_row ''in'' ''level'' ''ft'' (div_lit 12) ''inch_to_ft'' [''in'', ''inch'', ''inches''],
     unit_row ''m'' ''level'' ''ft'' (mul_lit 3280839895 1000000000) ''m_to_ft'' [''m'', ''meter'', ''meters''],
     unit_row ''gal'' ''volume'' ''gal'' same ''identity'' [''gal'', ''gallon'', ''gallons''],
     unit_row ''l'' ''volume'' ''gal'' (mul_lit 264172052 1000000000) ''l_to_gal'' [''l'', ''liter'', ''liters''],
     unit_row ''m3'' ''volume'' ''gal'' (mul_lit 264172052 1000000) ''m3_to_gal'' [''m3'', ''m^3'', ''cubic_meter'', ''cubic_meters''],
     unit_row ''rpm'' ''speed'' ''rpm'' same ''identity'' [''rpm'', ''rev/min''],
     unit_row ''hz'' ''frequency'' ''Hz'' same ''identity'' [''hz'', ''hertz'']]"

definition DIMENSION_COMPATIBILITY :: "(string \<times> string) list" where
  "DIMENSION_COMPATIBILITY = [(''differential_pressure'', ''pressure''), (''temperature_delta'', ''temperature_difference''),
     (''valve_position'', ''fraction'')]"

definition normalize_dimension :: "string option \<Rightarrow> string option" where
  "normalize_dimension d = (case d of None \<Rightarrow> None
     | Some t \<Rightarrow> if t = [] then None
         else let n = lower (strip t) in Some (case map_of DIMENSION_COMPATIBILITY n of None \<Rightarrow> n | Some m \<Rightarrow> m))"

fun spell_degree :: "string \<Rightarrow> string" where
  "spell_degree [] = []"
| "spell_degree (c # cs) = (if (of_char c :: int) = 176 then ''deg'' @ spell_degree cs else c # spell_degree cs)"

definition normalize_unit_label :: "string option \<Rightarrow> string" where
  "normalize_unit_label u = spell_degree (strip (case u of None \<Rightarrow> [] | Some t \<Rightarrow> t))"

definition unit_key :: "string \<Rightarrow> string" where
  "unit_key u = filter (\<lambda>c. c \<noteq> CHR '' '' \<and> c \<noteq> CHR ''_'') (lower (normalize_unit_label (Some u)))"

subsection \<open>Supported units\<close>

definition definition_of :: "string \<Rightarrow> unit_definition" where
  "definition_of c = the (next_or (\<lambda>d. ud_canonical d = c) UNIT_DEFINITIONS)"

record supported_unit =
  su_token :: string
  su_display :: string
  su_definition :: unit_definition
  su_from_base :: conversion

definition KPA_TO_PSI :: rat where "KPA_TO_PSI = the (ud_to_normalized (definition_of ''kpa'') 1)"
definition LPS_TO_GPM :: rat where "LPS_TO_GPM = the (ud_to_normalized (definition_of ''lps'') 1)"

abbreviation supported_row :: "string \<Rightarrow> string \<Rightarrow> conversion \<Rightarrow> supported_unit" where
  "supported_row c n f \<equiv> \<lparr>su_token = c, su_display = n, su_definition = definition_of c, su_from_base = f\<rparr>"

definition SUPPORTED_UNITS :: "supported_unit list" where
  "SUPPORTED_UNITS = [
     supported_row ''f'' ''degF'' same,
     supported_row ''c'' ''degC'' (chain (sub_lit 32 1) (chain (mul_lit 5 1) (div_lit 9))),
     supported_row ''psi'' ''psi'' same,
     supported_row ''kpa'' ''kPa'' (\<lambda>v. dbl (v / KPA_TO_PSI)),
     supported_row ''gpm'' ''gpm'' same,
     supported_row ''lps'' ''L/s'' (\<lambda>v. dbl (v / LPS_TO_GPM)),
     supported_row ''kw'' ''kW'' same,
     supported_row ''w'' ''W'' (mul_lit 1000 1),
     supported_row ''percent'' ''%'' same,
     supported_row ''fraction'' ''fraction'' (div_lit 100)]"

text \<open>The dict of the aliases: a later unit would replace an earlier one under the same key.\<close>

definition SUPPORTED_LOOKUP :: "(string \<times> supported_unit) list" where
  "SUPPORTED_LOOKUP = concat (map (\<lambda>u. map (\<lambda>a. (unit_key a, u))
     (ud_canonical (su_definition u) # ud_aliases (su_definition u) @ [su_display u])) SUPPORTED_UNITS)"

definition lookup_unit :: "string \<Rightarrow> supported_unit option" where
  "lookup_unit label = (if label = [] then None else map_of (rev SUPPORTED_LOOKUP) (unit_key label))"

definition supported_units_for_dimension :: "string \<Rightarrow> string list" where
  "supported_units_for_dimension d = map su_display
     (filter (\<lambda>u. Some (ud_dimension (su_definition u)) = normalize_dimension (Some d)) SUPPORTED_UNITS)"

subsection \<open>Normalisation\<close>

record unit_result =
  ur_status :: string
  ur_quality :: quality_state
  ur_eligible :: bool
  ur_reason :: "string option"
  ur_original_value :: scalar
  ur_original_unit :: "string option"
  ur_value :: "rat option"
  ur_unit :: "string option"
  ur_dimension :: "string option"
  ur_conversion_id :: "string option"
  ur_conversion_version :: string

definition UNIT_NORMALIZATION_VERSION :: string where
  "UNIT_NORMALIZATION_VERSION = ''neraium.telemetry.units/v1''"

definition unit_failure ::
  "string \<Rightarrow> quality_state \<Rightarrow> string \<Rightarrow> scalar \<Rightarrow> string option \<Rightarrow> string option \<Rightarrow> string option \<Rightarrow> string option \<Rightarrow> unit_result" where
  "unit_failure status quality reason value original canonical dimension conv =
     \<lparr>ur_status = status, ur_quality = quality, ur_eligible = False, ur_reason = Some reason, ur_original_value = value,
      ur_original_unit = original, ur_value = None, ur_unit = canonical, ur_dimension = dimension, ur_conversion_id = conv,
      ur_conversion_version = UNIT_NORMALIZATION_VERSION\<rparr>"

definition or_else :: "string option \<Rightarrow> string option \<Rightarrow> string option" where
  "or_else x y = (case x of None \<Rightarrow> y | Some t \<Rightarrow> if t = [] then y else x)"

definition conversion_token :: "supported_unit \<Rightarrow> supported_unit \<Rightarrow> string" where
  "conversion_token source target = su_token source @ ''_to_'' @ su_token target"

definition convert :: "supported_unit \<Rightarrow> supported_unit \<Rightarrow> conversion" where
  "convert source target = chain (ud_to_normalized (su_definition source)) (su_from_base target)"

definition unit_dimension :: "supported_unit \<Rightarrow> string option" where
  "unit_dimension u = normalize_dimension (Some (ud_dimension (su_definition u)))"

definition normalize_telemetry_unit ::
  "scalar \<Rightarrow> string option \<Rightarrow> string option \<Rightarrow> string option \<Rightarrow> unit_result" where
  "normalize_telemetry_unit value source_unit canonical_unit expected_dimension =
     (let requested = normalize_unit_label canonical_unit;
          expected = normalize_dimension expected_dimension in
      case (lookup_unit (normalize_unit_label source_unit), lookup_unit requested) of
        (Some source, Some target) \<Rightarrow>
          let resolved = or_else expected (unit_dimension target) in
          if unit_dimension source \<noteq> unit_dimension target \<or> (expected \<noteq> None \<and> unit_dimension target \<noteq> expected)
          then unit_failure ''unit_incompatible'' UnitUnresolved ''unit_dimension_incompatible'' value source_unit
                 (Some (su_display target)) resolved None
          else (case numeric_of value of
              None \<Rightarrow> unit_failure ''invalid_value'' InvalidValue ''value_nonfinite'' value source_unit
                        (Some (su_display target)) resolved None
            | Some numeric \<Rightarrow>
              (case convert source target numeric of
                 None \<Rightarrow> unit_failure ''invalid_value'' InvalidValue ''conversion_nonfinite'' value source_unit
                           (Some (su_display target)) resolved (Some (conversion_token source target))
               | Some converted \<Rightarrow>
                   \<lparr>ur_status = ''normalized'', ur_quality = Good, ur_eligible = True, ur_reason = None,
                    ur_original_value = value, ur_original_unit = source_unit, ur_value = Some converted,
                    ur_unit = Some (su_display target), ur_dimension = resolved,
                    ur_conversion_id = Some (conversion_token source target),
                    ur_conversion_version = UNIT_NORMALIZATION_VERSION\<rparr>))
      | (source, target) \<Rightarrow>
          unit_failure ''unit_unresolved'' UnitUnresolved
            (if source = None then ''source_unit_unknown'' else ''canonical_unit_unknown'') value source_unit
            (case target of Some t \<Rightarrow> Some (su_display t) | None \<Rightarrow> if requested = [] then None else Some requested)
            expected None)"

record unit_contract =
  uc_valid :: bool
  uc_dimension :: "string option"
  uc_source_unit :: "string option"
  uc_canonical_unit :: "string option"
  uc_conversion_id :: "string option"
  uc_conversion_version :: string
  uc_reason :: "string option"

definition conversion_contract :: "string option \<Rightarrow> string option \<Rightarrow> string option \<Rightarrow> unit_contract" where
  "conversion_contract source_unit canonical_unit expected_dimension =
     (let r = normalize_telemetry_unit (SFloat (Finite 0)) source_unit canonical_unit expected_dimension in
      \<lparr>uc_valid = ur_eligible r, uc_dimension = ur_dimension r, uc_source_unit = ur_original_unit r,
       uc_canonical_unit = ur_unit r, uc_conversion_id = ur_conversion_id r,
       uc_conversion_version = ur_conversion_version r, uc_reason = ur_reason r\<rparr>)"

end
