(* ===== verification/Float_Order.thy ===== *)
theory Float_Order
  imports Floats
begin

text \<open>
  Rounding to a double keeps the order of numbers: \<open>fl\<close> is monotone, over the exponents it chooses and
  across them, and is off by at most one part in \<open>2 ^ 53\<close>. \<open>fl_exp\<close> is the exponent that brings a positive number
  to 53 bits.
\<close>

lemma scale2_powi: "scale2 k x = x * 2 powi k"
  by (simp add: scale2_def power_int_def field_simps)

definition fl_exp :: "rat \<Rightarrow> int" where
  "fl_exp x = (let nd = quotient_of x; k0 = 53 - (bitlen (fst nd) - bitlen (snd nd))
     in if scale2 k0 x \<ge> 2 ^ 53 then k0 - 1 else k0)"

lemma fl_pos: "0 < x \<Longrightarrow> fl x = scale2 (- fl_exp x) (of_int (round_half_even (scale2 (fl_exp x) x)))"
  by (simp add: fl_def fl_exp_def Let_def)

lemma fl_neg: "fl (- x) = - fl x"
  by (simp add: fl_def Let_def)

subsection \<open>Rounding to an integer\<close>

lemma round_floor: "\<lfloor>y\<rfloor> \<le> round_half_even y \<and> round_half_even y \<le> \<lfloor>y\<rfloor> + 1"
  by (simp add: round_half_even_def Let_def)

lemma round_mono: "y \<le> z \<Longrightarrow> round_half_even y \<le> round_half_even z"
proof (cases "\<lfloor>y\<rfloor> = \<lfloor>z\<rfloor>")
  case True
  assume "y \<le> z"
  with True show ?thesis by (auto simp: round_half_even_def Let_def)
next
  case False
  assume "y \<le> z"
  then have "\<lfloor>y\<rfloor> \<le> \<lfloor>z\<rfloor>" by (rule floor_mono)
  with False round_floor [of y] round_floor [of z] show ?thesis by linarith
qed

lemma round_int: "round_half_even (of_int n) = n"
  by (simp add: round_half_even_def Let_def)

lemma round_between: "of_int m \<le> y \<Longrightarrow> y \<le> of_int n \<Longrightarrow> m \<le> round_half_even y \<and> round_half_even y \<le> n"
  using round_mono [of "of_int m" y] round_mono [of y "of_int n"] by (simp add: round_int)

lemma round_neg: "round_half_even (- y) = - round_half_even y"
proof -
  define q where "q = \<lfloor>y\<rfloor>"
  define r where "r = y - of_int q"
  have r: "0 \<le> r" "r < 1" unfolding r_def q_def by linarith+
  have y: "y = of_int q + r" by (simp add: r_def)
  show ?thesis
  proof (cases "r = 0")
    case True
    then show ?thesis using round_int [of q] round_int [of "- q"] by (simp add: y)
  next
    case False
    with r have "\<lfloor>- y\<rfloor> = - q - 1" unfolding y by linarith
    with q_def r False show ?thesis by (auto simp: round_half_even_def Let_def y)
  qed
qed

subsection \<open>The chosen exponent\<close>

lemma bits_pos: "0 < n \<Longrightarrow> (2 :: rat) powi (bitlen n - 1) \<le> of_int n \<and> (of_int n :: rat) < 2 powi bitlen n"
proof -
  assume n: "0 < n"
  then have "1 \<le> bitlen n" by (auto simp: bitlen_alt_def)
  then have b: "0 < bitlen n" by simp
  have "2 ^ nat (bitlen n - 1) \<le> n" and "n < 2 ^ nat (bitlen n)" using bitlen_bounds [OF n] by simp_all
  then have "(of_int (2 ^ nat (bitlen n - 1)) :: rat) \<le> of_int n" and "(of_int n :: rat) < of_int (2 ^ nat (bitlen n))"
    by (simp_all only: of_int_le_iff of_int_less_iff)
  with b show ?thesis by (simp add: power_int_def)
qed

lemma quotient_bits:
  assumes x: "0 < x" and q: "quotient_of x = (a, b)"
  shows "2 powi (bitlen a - bitlen b - 1) < x \<and> x < 2 powi (bitlen a - bitlen b + 1)"
proof -
  have b: "0 < b" by (rule quotient_of_denom_pos [OF q])
  have xq: "x = of_int a / of_int b" by (rule quotient_of_div [OF q])
  with x b have a: "0 < a" by (simp add: zero_less_divide_iff)
  let ?A = "2 powi bitlen a :: rat" and ?B = "2 powi bitlen b :: rat"
  have A: "?A / 2 \<le> of_int a" "of_int a < ?A" and B: "?B / 2 \<le> of_int b" "of_int b < ?B"
    using bits_pos [OF a] bits_pos [OF b] by (simp_all add: power_int_diff)
  have pos: "0 < ?A" "0 < ?B" "(0 :: rat) < of_int b" "(0 :: rat) < of_int a" using a b by simp_all
  have "?A / 2 / ?B < of_int a / of_int b"
    using A(1) B(2) pos by (intro frac_less2) auto
  moreover have "of_int a / of_int b < ?A / (?B / 2)"
    using A(2) B(1) pos by (intro frac_less) auto
  ultimately show ?thesis by (simp add: xq power_int_diff power_int_add field_simps)
qed

lemma fl_exp_range: "0 < x \<Longrightarrow> 2 ^ 52 \<le> x * 2 powi fl_exp x \<and> x * 2 powi fl_exp x < 2 ^ 53"
proof -
  assume x: "0 < x"
  obtain a b where q: "quotient_of x = (a, b)" by (cases "quotient_of x")
  define e where "e = bitlen a - bitlen b"
  have lo: "2 powi (e - 1) < x" and hi: "x < 2 powi (e + 1)" using quotient_bits [OF x q] by (simp_all add: e_def)
  have "2 powi (e - 1) * 2 powi (53 - e) < x * 2 powi (53 - e)" using lo by simp
  moreover have "x * 2 powi (53 - e) < 2 powi (e + 1) * 2 powi (53 - e)" using hi by simp
  ultimately have b: "2 ^ 52 < x * 2 powi (53 - e)" "x * 2 powi (53 - e) < 2 ^ 54"
    by (simp_all flip: power_int_add)
  have k: "fl_exp x = (if 2 ^ 53 \<le> x * 2 powi (53 - e) then 52 - e else 53 - e)"
    by (simp add: fl_exp_def q e_def scale2_powi)
  have "x * 2 powi (53 - e) = 2 * (x * 2 powi (52 - e))"
    using power_int_add [of "2 :: rat" 1 "52 - e"] by (simp add: algebra_simps)
  with b k show ?thesis by auto
qed

lemma fl_exp_antimono:
  assumes "0 < x" and "x \<le> y"
  shows "fl_exp y \<le> fl_exp x"
proof (rule ccontr)
  assume "\<not> fl_exp y \<le> fl_exp x"
  then have "fl_exp x + 1 \<le> fl_exp y" by simp
  then have "(2 :: rat) powi (fl_exp x + 1) \<le> 2 powi fl_exp y" by (simp add: power_int_increasing)
  then have "2 * (x * 2 powi fl_exp x) \<le> x * 2 powi fl_exp y" using assms(1) by (simp add: power_int_add)
  also have "\<dots> \<le> y * 2 powi fl_exp y" using assms(2) by simp
  finally show False using fl_exp_range [of x] fl_exp_range [of y] assms by simp
qed

subsection \<open>Monotonicity\<close>

lemma fl_pos_range: "0 < x \<Longrightarrow> 2 powi (52 - fl_exp x) \<le> fl x \<and> fl x \<le> 2 powi (53 - fl_exp x)"
proof -
  assume x: "0 < x"
  let ?k = "fl_exp x" and ?m = "round_half_even (x * 2 powi fl_exp x)"
  have "2 ^ 52 \<le> ?m \<and> ?m \<le> 2 ^ 53"
    by (rule round_between) (use fl_exp_range [OF x] in auto)
  then have "(2 :: rat) ^ 52 \<le> of_int ?m" and "(of_int ?m :: rat) \<le> 2 ^ 53"
    by (metis of_int_le_iff of_int_numeral of_int_power)+
  then have "2 ^ 52 * 2 powi - ?k \<le> (of_int ?m :: rat) * 2 powi - ?k" and "of_int ?m * 2 powi - ?k \<le> (2 :: rat) ^ 53 * 2 powi - ?k"
    by (simp_all add: mult_right_mono)
  moreover have "(2 :: rat) powi (n - ?k) = 2 powi n * 2 powi - ?k" for n by (simp flip: power_int_add)
  ultimately show ?thesis by (simp add: fl_pos [OF x] scale2_powi)
qed

lemma fl_mono_pos: "0 < x \<Longrightarrow> x \<le> y \<Longrightarrow> fl x \<le> fl y"
proof -
  assume x: "0 < x" and le: "x \<le> y"
  then have y: "0 < y" by simp
  show ?thesis
  proof (cases "fl_exp x = fl_exp y")
    case True
    then have "round_half_even (x * 2 powi fl_exp x) \<le> round_half_even (y * 2 powi fl_exp y)"
      using le by (intro round_mono) simp
    then have "(of_int (round_half_even (x * 2 powi fl_exp x)) :: rat) \<le> of_int (round_half_even (y * 2 powi fl_exp y))"
      by (simp only: of_int_le_iff)
    then show ?thesis by (simp add: fl_pos [OF x] fl_pos [OF y] scale2_powi True)
  next
    case False
    with fl_exp_antimono [OF x le] have "53 - fl_exp x \<le> 52 - fl_exp y" by simp
    then have "(2 :: rat) powi (53 - fl_exp x) \<le> 2 powi (52 - fl_exp y)" by (simp add: power_int_increasing)
    with fl_pos_range [OF x] fl_pos_range [OF y] show ?thesis by linarith
  qed
qed

lemma fl_zero [simp]: "fl 0 = 0"
  by (simp add: fl_def)

lemma fl_mono: "x \<le> y \<Longrightarrow> fl x \<le> fl y"
proof -
  assume le: "x \<le> y"
  consider "0 < x" | "x \<le> 0" "0 \<le> y" | "y < 0" by linarith
  then show ?thesis
  proof cases
    case 1
    then show ?thesis by (rule fl_mono_pos [OF _ le])
  next
    case 2
    then have "0 \<le> fl (- x)" and "0 \<le> fl y" by (simp_all add: fl_nonneg)
    then show ?thesis by (simp add: fl_neg)
  next
    case 3
    then have "fl (- y) \<le> fl (- x)" using le by (intro fl_mono_pos) simp_all
    then show ?thesis by (simp add: fl_neg)
  qed
qed

text \<open>A power of two bounds the rounding of what it bounds.\<close>

lemma fl_power_le: "2 powi e \<le> x \<Longrightarrow> 2 powi e \<le> fl x"
proof -
  assume le: "2 powi e \<le> x"
  then have x: "0 < x" by (rule less_le_trans [rotated]) (simp add: zero_less_power_int)
  have "e \<le> 52 - fl_exp x"
  proof (rule ccontr)
    assume "\<not> e \<le> 52 - fl_exp x"
    then have "53 - fl_exp x \<le> e" by simp
    then have "(2 :: rat) powi (53 - fl_exp x) \<le> 2 powi e" by (simp add: power_int_increasing)
    with le have "2 powi (53 - fl_exp x) \<le> x" by linarith
    then have "2 powi (53 - fl_exp x) * 2 powi fl_exp x \<le> x * 2 powi fl_exp x" by simp
    then have "2 ^ 53 \<le> x * 2 powi fl_exp x" by (simp flip: power_int_add)
    with fl_exp_range [OF x] show False by simp
  qed
  then have "(2 :: rat) powi e \<le> 2 powi (52 - fl_exp x)" by (simp add: power_int_increasing)
  with fl_pos_range [OF x] show ?thesis by linarith
qed

lemma fl_le_power: "0 \<le> x \<Longrightarrow> x < 2 powi e \<Longrightarrow> fl x \<le> 2 powi e"
proof (cases "x = 0")
  case False
  assume "0 \<le> x" and lt: "x < 2 powi e"
  with False have x: "0 < x" by simp
  have "53 - fl_exp x \<le> e"
  proof (rule ccontr)
    assume "\<not> 53 - fl_exp x \<le> e"
    then have "e \<le> 52 - fl_exp x" by simp
    then have "(2 :: rat) powi e \<le> 2 powi (52 - fl_exp x)" by (simp add: power_int_increasing)
    with lt have "x < 2 powi (52 - fl_exp x)" by linarith
    then have "x * 2 powi fl_exp x < 2 powi (52 - fl_exp x) * 2 powi fl_exp x" by simp
    then have "x * 2 powi fl_exp x < 2 ^ 52" by (simp flip: power_int_add)
    with fl_exp_range [OF x] show False by simp
  qed
  then have "(2 :: rat) powi (53 - fl_exp x) \<le> 2 powi e" by (simp add: power_int_increasing)
  with fl_pos_range [OF x] show ?thesis by linarith
qed simp

subsection \<open>Rounding error\<close>

text \<open>Rounding is off by at most half a unit in the last place.\<close>

lemma round_error: "\<bar>of_int (round_half_even y) - y\<bar> \<le> 1 / 2"
proof -
  define q where "q = \<lfloor>y\<rfloor>"
  have "of_int q \<le> y" "y < of_int q + 1" unfolding q_def by linarith+
  then show ?thesis unfolding round_half_even_def Let_def q_def [symmetric] by (auto simp: abs_le_iff)
qed

lemma fl_error_pos: "0 < x \<Longrightarrow> \<bar>fl x - x\<bar> \<le> x / 2 ^ 53"
proof -
  assume x: "0 < x"
  let ?k = "fl_exp x"
  let ?m = "of_int (round_half_even (x * 2 powi ?k)) :: rat"
  have "\<bar>?m - x * 2 powi ?k\<bar> \<le> 1 / 2" by (rule round_error)
  also have "\<dots> \<le> x * 2 powi ?k / 2 ^ 53" using fl_exp_range [OF x] by simp
  finally have "\<bar>?m - x * 2 powi ?k\<bar> * 2 powi - ?k \<le> x * 2 powi ?k / 2 ^ 53 * 2 powi - ?k"
    by (rule mult_right_mono) simp
  also have "\<bar>?m - x * 2 powi ?k\<bar> * 2 powi - ?k = \<bar>(?m - x * 2 powi ?k) * 2 powi - ?k\<bar>" by (simp add: abs_mult)
  also have "(?m - x * 2 powi ?k) * 2 powi - ?k = fl x - x"
    by (simp add: fl_pos [OF x] scale2_powi left_diff_distrib mult.assoc flip: power_int_add)
  also have "x * 2 powi ?k / 2 ^ 53 * 2 powi - ?k = x / 2 ^ 53" by (simp add: mult.assoc flip: power_int_add)
  finally show ?thesis .
qed

lemma fl_error: "\<bar>fl x - x\<bar> \<le> \<bar>x\<bar> / 2 ^ 53"
  using fl_error_pos [of x] fl_error_pos [of "- x"] by (cases x "0 :: rat" rule: linorder_cases) (simp_all add: fl_neg abs_minus_commute)

end
