(* ===== verification/Telemetry_Conversions.thy ===== *)
theory Telemetry_Conversions
  imports Telemetry_Units Float_Order
begin

text \<open>
  What unit normalisation guarantees: the contract approved with a mapping decides every later reading, a
  conversion keeps the order of readings, and how far a reading mapped to its own unit
  is from the reading.
\<close>

subsection \<open>Doubles\<close>

definition to_double :: "rat \<Rightarrow> rat" where
  "to_double x = (if \<bar>x\<bar> < 1 / 2 ^ 1022 then scale2 (- 1074) (of_int (round_half_even (scale2 1074 x))) else fl x)"

lemma dbl_to_double: "dbl x = (if 2 ^ 1024 \<le> \<bar>to_double x\<bar> then None else Some (to_double x))"
  by (simp add: dbl_def to_double_def Let_def)

lemma to_double_neg: "to_double (- x) = - to_double x"
  by (simp add: to_double_def fl_neg scale2_powi round_neg)

lemma subnormal_range:
  assumes "0 \<le> x" and "x < 1 / 2 ^ 1022"
  shows "0 \<le> to_double x \<and> to_double x \<le> 1 / 2 ^ 1022"
proof -
  have "x * 2 ^ 1074 \<le> (1 / 2 ^ 1022) * 2 ^ 1074" using assms(2) by (intro mult_right_mono) simp_all
  also have "\<dots> = of_int (2 ^ 52)" by simp
  finally have "0 \<le> round_half_even (x * 2 ^ 1074) \<and> round_half_even (x * 2 ^ 1074) \<le> 2 ^ 52"
    using assms(1) by (intro round_between) simp_all
  then have "(of_int (round_half_even (x * 2 ^ 1074)) :: rat) \<le> of_int (2 ^ 52)"
    and "(0 :: rat) \<le> of_int (round_half_even (x * 2 ^ 1074))" by (simp_all only: of_int_le_iff of_int_0_le_iff)
  then have "of_int (round_half_even (x * 2 ^ 1074)) / 2 ^ 1074 \<le> (of_int (2 ^ 52) :: rat) / 2 ^ 1074"
    by (intro divide_right_mono) simp_all
  also have "\<dots> = 1 / 2 ^ 1022" by simp
  finally show ?thesis using assms by (simp add: to_double_def scale2_def round_nonneg)
qed

lemma tiny_power: "(1 :: rat) / 2 ^ 1022 = 2 powi (- 1022)"
  by (simp add: power_int_def field_simps)

lemma to_double_mono_pos:
  assumes "0 \<le> x" and "x \<le> y"
  shows "to_double x \<le> to_double y"
proof (cases "x < 1 / 2 ^ 1022")
  case True
  show ?thesis
  proof (cases "y < 1 / 2 ^ 1022")
    case small: True
    have "scale2 1074 x \<le> scale2 1074 y" by (rule scale2_mono [OF assms(2)])
    then have "(of_int (round_half_even (scale2 1074 x)) :: rat) \<le> of_int (round_half_even (scale2 1074 y))"
      by (simp only: of_int_le_iff round_mono)
    with True small assms show ?thesis by (simp add: to_double_def scale2_mono)
  next
    case False
    then have "2 powi (- 1022) \<le> fl y" by (intro fl_power_le) (simp flip: tiny_power)
    with False subnormal_range [OF assms(1) True] assms show ?thesis
      unfolding to_double_def [of y] tiny_power by (simp flip: tiny_power)
  qed
next
  case False
  with assms have "fl x \<le> fl y" by (intro fl_mono) simp
  with False assms show ?thesis by (simp add: to_double_def)
qed

lemma to_double_nonneg: "0 \<le> x \<Longrightarrow> 0 \<le> to_double x"
  using to_double_mono_pos [of 0 x] by (simp add: to_double_def scale2_def round_half_even_def)

lemma to_double_mono: "x \<le> y \<Longrightarrow> to_double x \<le> to_double y"
proof -
  assume le: "x \<le> y"
  consider "0 \<le> x" | "x \<le> 0" "0 \<le> y" | "y \<le> 0" by linarith
  then show ?thesis
  proof cases
    case 1
    then show ?thesis using le by (rule to_double_mono_pos)
  next
    case 2
    then have "0 \<le> to_double (- x)" and "0 \<le> to_double y" by (simp_all add: to_double_nonneg)
    then show ?thesis by (simp add: to_double_neg)
  next
    case 3
    then have "to_double (- y) \<le> to_double (- x)" using le by (intro to_double_mono_pos) simp_all
    then show ?thesis by (simp add: to_double_neg)
  qed
qed

subsection \<open>Rounding error\<close>

definition tiny :: rat where "tiny = 1 / 2 ^ 1075"

lemma tiny_bounds: "0 \<le> tiny" "2048 * tiny = 1 / 2 ^ 1064" "tiny \<le> 1 / 2 ^ 70"
  by (simp_all add: tiny_def)

lemma dbl_error:
  assumes "dbl z = Some r"
  shows "\<bar>r - z\<bar> \<le> \<bar>z\<bar> / 2 ^ 53 + tiny"
proof (cases "\<bar>z\<bar> < 1 / 2 ^ 1022")
  case True
  with assms have r: "r = of_int (round_half_even (z * 2 ^ 1074)) / 2 ^ 1074"
    by (simp add: dbl_to_double to_double_def scale2_def split: if_splits)
  have off: "\<bar>a / k - z\<bar> = \<bar>a - z * k\<bar> / k" if "0 < k" for a k :: rat
  proof -
    have "a / k - z = (a - z * k) / k" using that by (simp add: diff_divide_distrib)
    with that show ?thesis by (simp add: abs_divide)
  qed
  have "\<bar>r - z\<bar> = \<bar>of_int (round_half_even (z * 2 ^ 1074)) - z * 2 ^ 1074\<bar> / 2 ^ 1074" unfolding r by (rule off) simp
  also have "\<dots> \<le> (1 / 2) / 2 ^ 1074" by (intro divide_right_mono round_error) simp
  also have "\<dots> = tiny" by (simp add: tiny_def)
  finally show ?thesis by (simp add: add_increasing)
next
  case False
  with assms have "r = fl z" by (simp add: dbl_to_double to_double_def split: if_splits)
  with fl_error [of z] tiny_bounds(1) show ?thesis by linarith
qed

text \<open>One more rounding: \<open>z\<close> is within \<open>e\<close> of the exact \<open>s\<close>, which is within \<open>m\<close> of zero.\<close>

lemma dbl_step:
  assumes "dbl z = Some r" and "\<bar>z - s\<bar> \<le> e" and "\<bar>s\<bar> \<le> m"
  shows "\<bar>r - s\<bar> \<le> e + (m + e) / 2 ^ 53 + tiny"
proof -
  have "\<bar>z\<bar> \<le> m + e" using assms(2,3) by linarith
  then have "\<bar>z\<bar> / 2 ^ 53 \<le> (m + e) / 2 ^ 53" by (rule divide_right_mono) simp
  with dbl_error [OF assms(1)] assms(2) show ?thesis by linarith
qed

text \<open>Scaling there and back.\<close>

lemma there_and_back:
  assumes p: "dbl (x * k) = Some p" and y: "dbl (p / k) = Some y" and k: "1 / 1000 \<le> k"
  shows "\<bar>y - x\<bar> \<le> \<bar>x\<bar> / 2 ^ 51 + 1 / 2 ^ 1064"
proof -
  have k0: "0 < k" using k by linarith
  have "\<bar>p - x * k\<bar> \<le> \<bar>x * k\<bar> / 2 ^ 53 + tiny" by (rule dbl_error [OF p])
  then have "\<bar>p - x * k\<bar> / k \<le> (\<bar>x * k\<bar> / 2 ^ 53 + tiny) / k" by (rule divide_right_mono) (use k0 in simp)
  also have "\<dots> = \<bar>x\<bar> / 2 ^ 53 + tiny / k" using k0 by (simp add: add_divide_distrib abs_mult)
  also have "tiny / k \<le> tiny / (1 / 1000)" using k k0 tiny_bounds(1) by (intro divide_left_mono) simp_all
  also have "\<bar>p - x * k\<bar> / k = \<bar>p / k - x\<bar>" using k0 by (simp add: abs_div_pos diff_divide_distrib)
  finally have e: "\<bar>p / k - x\<bar> \<le> \<bar>x\<bar> / 2 ^ 53 + 1000 * tiny" by simp
  have "\<bar>y - x\<bar> \<le> (\<bar>x\<bar> / 2 ^ 53 + 1000 * tiny) + (\<bar>x\<bar> + (\<bar>x\<bar> / 2 ^ 53 + 1000 * tiny)) / 2 ^ 53 + tiny"
    by (rule dbl_step [OF y e]) simp
  then show ?thesis using tiny_bounds(1) unfolding tiny_bounds(2) [symmetric] by (simp add: field_simps)
qed

lemma celsius_back:
  assumes "dbl (x * 9) = Some a" "dbl (a / 5) = Some b" "dbl (b + 32) = Some c" "dbl (c - 32) = Some d" "dbl (d * 5) = Some e"
    "dbl (e / 9) = Some y"
  shows "\<bar>y - x\<bar> \<le> (\<bar>x\<bar> + 64) / 2 ^ 50"
proof -
  define X where "X = \<bar>x\<bar>"
  define u where "u = (1 :: rat) / 2 ^ 53"
  have u: "0 \<le> u" "u \<le> 1 / 1000000" "m / 2 ^ 53 = m * u" for m by (simp_all add: u_def)
  have X: "0 \<le> X" "0 \<le> X * u" "X * (u * u) \<le> X * u / 1000000" "u * u \<le> u / 1000000" and t: "tiny \<le> u / 1000"
    using mult_left_mono [OF u(2), of "X * u", unfolded mult.assoc] mult_left_mono [OF u(2) u(1)] by (simp_all add: X_def u_def tiny_def)
  note step = dbl_step [unfolded u(3)]
  have "\<bar>a - 9 * x\<bar> \<le> 0 + (9 * X + 0) * u + tiny" by (rule step [OF assms(1)]) (simp_all add: X_def abs_mult)
  then have a: "\<bar>a - 9 * x\<bar> \<le> 9 * (X * u) + u" using t u(1) by (simp add: algebra_simps)
  have "\<bar>b - 9 / 5 * x\<bar> \<le> (9 / 5 * (X * u) + u / 5) + (9 / 5 * X + (9 / 5 * (X * u) + u / 5)) * u + tiny"
    by (rule step [OF assms(2)]) (use a in \<open>simp_all add: X_def abs_mult\<close>)
  then have b: "\<bar>b - 9 / 5 * x\<bar> \<le> 4 * (X * u) + u" using t u(1) X unfolding distrib_right mult.assoc by linarith
  have "\<bar>c - (9 / 5 * x + 32)\<bar> \<le> (4 * (X * u) + u) + ((9 / 5 * X + 32) + (4 * (X * u) + u)) * u + tiny"
    by (rule step [OF assms(3)]) (use b in \<open>simp_all add: X_def abs_mult\<close>)
  then have c: "\<bar>c - (9 / 5 * x + 32)\<bar> \<le> 6 * (X * u) + 35 * u" using t u(1) X unfolding distrib_right mult.assoc by linarith
  have "\<bar>d - 9 / 5 * x\<bar> \<le> (6 * (X * u) + 35 * u) + (9 / 5 * X + (6 * (X * u) + 35 * u)) * u + tiny"
    by (rule step [OF assms(4)]) (use c in \<open>simp_all add: X_def abs_mult\<close>)
  then have d: "\<bar>d - 9 / 5 * x\<bar> \<le> 8 * (X * u) + 37 * u" using t u(1) X unfolding distrib_right mult.assoc by linarith
  have "\<bar>e - 9 * x\<bar> \<le> (40 * (X * u) + 185 * u) + (9 * X + (40 * (X * u) + 185 * u)) * u + tiny"
    by (rule step [OF assms(5)]) (use d in \<open>simp_all add: X_def abs_mult\<close>)
  then have e: "\<bar>e - 9 * x\<bar> \<le> 50 * (X * u) + 187 * u" using t u(1) X unfolding distrib_right mult.assoc by linarith
  have "\<bar>y - x\<bar> \<le> (50 / 9 * (X * u) + 187 / 9 * u) + (X + (50 / 9 * (X * u) + 187 / 9 * u)) * u + tiny"
    by (rule step [OF assms(6)]) (use e in \<open>simp_all add: X_def\<close>)
  then have "\<bar>y - x\<bar> \<le> 8 * (X * u) + 512 * u" using t u(1) X unfolding distrib_right mult.assoc by linarith
  also have "\<dots> = (\<bar>x\<bar> + 64) / 2 ^ 50" by (simp add: X_def u_def)
  finally show ?thesis .
qed

subsection \<open>Order\<close>

definition keeps_order :: "conversion \<Rightarrow> bool" where
  "keeps_order f = (\<forall>x y a b. x \<le> y \<longrightarrow> f x = Some a \<longrightarrow> f y = Some b \<longrightarrow> a \<le> b)"

named_theorems order_intros "conversions that keep the order of readings"

lemma keeps_order_dbl [order_intros]: "(\<And>x y. x \<le> y \<Longrightarrow> g x \<le> g y) \<Longrightarrow> keeps_order (\<lambda>v. dbl (g v))"
  by (auto simp: keeps_order_def dbl_to_double split: if_splits intro: to_double_mono)

lemma keeps_order_same [order_intros]: "keeps_order same"
  by (simp add: keeps_order_def same_def)

lemma keeps_orderD: "keeps_order f \<Longrightarrow> x \<le> y \<Longrightarrow> f x = Some a \<Longrightarrow> f y = Some b \<Longrightarrow> a \<le> b"
  unfolding keeps_order_def by blast

lemma keeps_order_chain [order_intros]:
  assumes "keeps_order f" and "keeps_order g"
  shows "keeps_order (chain f g)"
  unfolding keeps_order_def
proof (intro allI impI)
  fix x y a b :: rat
  assume le: "x \<le> y" and "chain f g x = Some a" and "chain f g y = Some b"
  then obtain c d where f: "f x = Some c" "f y = Some d" and g: "g c = Some a" "g d = Some b"
    by (auto simp: chain_def bind_eq_Some_conv)
  show "a \<le> b" by (rule keeps_orderD [OF assms(2) keeps_orderD [OF assms(1) le f] g])
qed

lemma fl_ratio_nonneg: "0 \<le> n \<Longrightarrow> 0 \<le> d \<Longrightarrow> 0 \<le> fl (of_int n / of_int d)"
  by (simp add: fl_nonneg)

lemma keeps_order_mul [order_intros]: "0 \<le> n \<Longrightarrow> 0 \<le> d \<Longrightarrow> keeps_order (mul_lit n d)"
  unfolding mul_lit_def [abs_def] by (rule keeps_order_dbl) (simp add: mult_right_mono fl_ratio_nonneg)

lemma keeps_order_div [order_intros]: "0 \<le> n \<Longrightarrow> keeps_order (div_lit n)"
  unfolding div_lit_def [abs_def] by (rule keeps_order_dbl) (simp add: divide_right_mono)

lemma keeps_order_shift [order_intros]: "keeps_order (add_lit n)" "keeps_order (sub_lit n d)"
  unfolding add_lit_def [abs_def] sub_lit_def [abs_def] by (rule keeps_order_dbl, simp)+

lemma keeps_order_nine_fifths [order_intros]: "keeps_order nine_fifths"
  unfolding nine_fifths_def by (intro order_intros) simp_all

subsection \<open>The supported units\<close>

lemma definition_rows:
  "definition_of ''f'' = unit_row ''f'' ''temperature'' ''degF'' same ''identity''
     [''f'', ''degf'', ''degree_f'', ''degrees_f'', ''fahrenheit'']"
  "definition_of ''c'' = unit_row ''c'' ''temperature'' ''degF'' (chain nine_fifths (add_lit 32)) ''c_to_f''
     [''c'', ''degc'', ''degree_c'', ''degrees_c'', ''celsius'']"
  "definition_of ''psi'' = unit_row ''psi'' ''pressure'' ''psi'' same ''identity''
     [''psi'', ''psig'']"
  "definition_of ''kpa'' = unit_row ''kpa'' ''pressure'' ''psi'' (mul_lit 145037738 1000000000) ''kpa_to_psi''
     [''kpa'', ''kilopascal'', ''kilopascals'']"
  "definition_of ''gpm'' = unit_row ''gpm'' ''flow'' ''gpm'' same ''identity''
     [''gpm'', ''gal/min'', ''gallon/min'', ''gallons/minute'']"
  "definition_of ''lps'' = unit_row ''lps'' ''flow'' ''gpm'' (mul_lit 15850323141 1000000000) ''lps_to_gpm''
     [''l/s'', ''lps'', ''liter/s'', ''liters/second'']"
  "definition_of ''kw'' = unit_row ''kw'' ''power'' ''kW'' same ''identity''
     [''kw'', ''kilowatt'', ''kilowatts'']"
  "definition_of ''w'' = unit_row ''w'' ''power'' ''kW'' (div_lit 1000) ''w_to_kw''
     [''w'', ''watt'', ''watts'']"
  "definition_of ''percent'' = unit_row ''percent'' ''fraction'' ''%'' same ''identity''
     [''%'', ''pct'', ''percent'', ''percentage'']"
  "definition_of ''fraction'' = unit_row ''fraction'' ''fraction'' ''%'' (mul_lit 100 1) ''fraction_to_percent''
     [''fraction'', ''ratio'']"
  unfolding definition_of_def UNIT_DEFINITIONS_def
  by (simp_all only: next_or.simps unit_definition.select_convs list.inject char.inject list.distinct if_True if_False simp_thms
        option.sel)

lemma dbl_zero: "dbl 0 = Some 0"
  by (simp add: dbl_def scale2_def round_half_even_def)

lemma dbl_normal: "1 / 1024 \<le> \<bar>x\<bar> \<Longrightarrow> \<bar>x\<bar> < 2 ^ 100 \<Longrightarrow> dbl x = Some (fl x)"
proof -
  assume lo: "1 / 1024 \<le> \<bar>x\<bar>" and hi: "\<bar>x\<bar> < 2 ^ 100"
  have "fl \<bar>x\<bar> \<le> 2 powi 100" by (rule fl_le_power) (use hi in \<open>simp_all add: power_int_def\<close>)
  then have "\<bar>fl x\<bar> \<le> 2 ^ 100"
    using fl_nonneg [of x] fl_nonneg [of "- x"] by (cases "0 \<le> x") (simp_all add: fl_neg power_int_def)
  moreover have "(2 :: rat) ^ 100 < 2 ^ 1024" by simp
  moreover have "(1 :: rat) / 2 ^ 1022 \<le> 1 / 1024" by simp
  ultimately show ?thesis using lo by (simp add: dbl_to_double to_double_def)
qed

lemma dbl_eval: "fl x = y \<Longrightarrow> 1 / 1024 \<le> \<bar>x\<bar> \<Longrightarrow> \<bar>x\<bar> < 2 ^ 100 \<Longrightarrow> dbl x = Some y"
  by (simp add: dbl_normal)

text \<open>A literal operation, evaluated: the literal, the rounded result, the range.\<close>

lemma lit_eval:
  "fl (of_int n / of_int d) = c \<Longrightarrow> fl (v * c) = y \<Longrightarrow> 1 / 1024 \<le> \<bar>v * c\<bar> \<Longrightarrow> \<bar>v * c\<bar> < 2 ^ 100 \<Longrightarrow> mul_lit n d v = Some y"
  "fl (of_int n / of_int d) = c \<Longrightarrow> fl (v - c) = y \<Longrightarrow> 1 / 1024 \<le> \<bar>v - c\<bar> \<Longrightarrow> \<bar>v - c\<bar> < 2 ^ 100 \<Longrightarrow> sub_lit n d v = Some y"
  "fl (v / of_int n) = y \<Longrightarrow> 1 / 1024 \<le> \<bar>v / of_int n\<bar> \<Longrightarrow> \<bar>v / of_int n\<bar> < 2 ^ 100 \<Longrightarrow> div_lit n v = Some y"
  "fl (v + of_int n) = y \<Longrightarrow> 1 / 1024 \<le> \<bar>v + of_int n\<bar> \<Longrightarrow> \<bar>v + of_int n\<bar> < 2 ^ 100 \<Longrightarrow> add_lit n v = Some y"
  unfolding mul_lit_def sub_lit_def div_lit_def add_lit_def by (simp_all only: dbl_eval)

lemma constants: "KPA_TO_PSI = 5225535222491677 / 36028797018963968" "LPS_TO_GPM = 4461469336969347 / 281474976710656"
proof -
  have "mul_lit 145037738 1000000000 1 = Some (5225535222491677 / 36028797018963968)"
    by (rule lit_eval(1) [where c = "5225535222491677 / 36028797018963968"]) code_simp+
  then show "KPA_TO_PSI = 5225535222491677 / 36028797018963968" by (simp only: KPA_TO_PSI_def definition_rows unit_definition.select_convs option.sel)
  have "mul_lit 15850323141 1000000000 1 = Some (4461469336969347 / 281474976710656)"
    by (rule lit_eval(1) [where c = "4461469336969347 / 281474976710656"]) code_simp+
  then show "LPS_TO_GPM = 4461469336969347 / 281474976710656" by (simp only: LPS_TO_GPM_def definition_rows unit_definition.select_convs option.sel)
qed

lemma to_base_keeps_order: "u \<in> set SUPPORTED_UNITS \<Longrightarrow> keeps_order (ud_to_normalized (su_definition u))"
  unfolding SUPPORTED_UNITS_def by (auto simp: definition_rows intro!: order_intros)

lemma from_base_keeps_order: "u \<in> set SUPPORTED_UNITS \<Longrightarrow> keeps_order (su_from_base u)"
  unfolding SUPPORTED_UNITS_def
  by (auto intro!: order_intros divide_right_mono simp: constants less_imp_le)

lemma convert_keeps_order:
  "source \<in> set SUPPORTED_UNITS \<Longrightarrow> target \<in> set SUPPORTED_UNITS \<Longrightarrow> keeps_order (convert source target)"
  unfolding convert_def by (intro keeps_order_chain from_base_keeps_order to_base_keeps_order)

lemma lookup_supported: "lookup_unit label = Some u \<Longrightarrow> u \<in> set SUPPORTED_UNITS"
  by (auto simp: lookup_unit_def SUPPORTED_LOOKUP_def dest!: map_of_SomeD split: if_splits)

text \<open>Zero is converted, so a contract fails for its units alone.\<close>

lemma fl_values: "fl 32 = 32" "fl 5 = 5" "fl 9 = 9" "fl 1000 = 1000" "fl 100 = 100" "fl 160 = 160" "fl 32000 = 32000"
  by code_simp+

lemmas literal_defs = same_def chain_def nine_fifths_def mul_lit_def div_lit_def add_lit_def sub_lit_def

lemma zero_to_base: "u \<in> set SUPPORTED_UNITS \<Longrightarrow> ud_to_normalized (su_definition u) 0 \<in> {Some 0, Some 32}"
  unfolding SUPPORTED_UNITS_def by (auto simp: definition_rows literal_defs dbl_zero dbl_normal fl_values)

lemma base_to_value: "u \<in> set SUPPORTED_UNITS \<Longrightarrow> x \<in> {0, 32} \<Longrightarrow> su_from_base u x \<noteq> None"
  unfolding SUPPORTED_UNITS_def
  by (auto simp: literal_defs dbl_zero dbl_normal fl_values fl_neg constants)

lemma zero_converts: "source \<in> set SUPPORTED_UNITS \<Longrightarrow> target \<in> set SUPPORTED_UNITS \<Longrightarrow> \<exists>x. convert source target 0 = Some x"
  using zero_to_base [of source] base_to_value [of target 0] base_to_value [of target 32]
  by (auto simp: convert_def chain_def)

subsection \<open>A unit converted to itself\<close>

lemma fl_constants: "fl (145037738 / 1000000000) = KPA_TO_PSI" "fl (15850323141 / 1000000000) = LPS_TO_GPM"
  unfolding constants by code_simp+

text \<open>A unit converted to itself, unit by unit.\<close>

definition BASE_TOKENS :: "string list" where
  "BASE_TOKENS = [''f'', ''psi'', ''gpm'', ''kw'', ''percent'']"

lemma scaled_self:
  assumes "dbl (x * k) = Some p" and "dbl (p / k) = Some y" and "1 / 1000 \<le> k"
  shows "\<bar>y - x\<bar> \<le> \<bar>x\<bar> / 2 ^ 51 + 1 / 2 ^ 1064 \<and> \<bar>y - x\<bar> \<le> (\<bar>x\<bar> + 64) / 2 ^ 50"
proof
  show a: "\<bar>y - x\<bar> \<le> \<bar>x\<bar> / 2 ^ 51 + 1 / 2 ^ 1064" by (rule there_and_back [OF assms])
  have "(1 :: rat) / 2 ^ 1064 \<le> 64 / 2 ^ 50" by simp
  moreover have "\<bar>x\<bar> / 2 ^ 51 \<le> \<bar>x\<bar> / 2 ^ 50" by (simp add: field_simps)
  ultimately show "\<bar>y - x\<bar> \<le> (\<bar>x\<bar> + 64) / 2 ^ 50" using a unfolding add_divide_distrib by linarith
qed

lemma fraction_scales: "mul_lit 100 1 = (\<lambda>v. dbl (v * 100))" "div_lit 100 = (\<lambda>v. dbl (v / 100))"
  by (simp_all add: mul_lit_def [abs_def] div_lit_def [abs_def] fl_values)

lemma watt_scales: "div_lit 1000 = (\<lambda>v. dbl (v * (1 / 1000)))" "mul_lit 1000 1 = (\<lambda>v. dbl (v / (1 / 1000)))"
  by (simp_all add: mul_lit_def [abs_def] div_lit_def [abs_def] fl_values)

lemma constant_scales:
  "mul_lit 145037738 1000000000 = (\<lambda>v. dbl (v * KPA_TO_PSI))" "mul_lit 15850323141 1000000000 = (\<lambda>v. dbl (v * LPS_TO_GPM))"
  by (simp_all only: mul_lit_def [abs_def] of_int_numeral fl_constants)

lemma scale_bounds: "1 / 1000 \<le> KPA_TO_PSI" "1 / 1000 \<le> LPS_TO_GPM"
  by (simp_all add: constants)

lemma unit_rows:
  assumes "u \<in> set SUPPORTED_UNITS"
  obtains (base) "su_token u \<in> set BASE_TOKENS" "ud_to_normalized (su_definition u) = same" "su_from_base u = same"
    | (scaled) k where "su_token u \<notin> set BASE_TOKENS" "su_token u \<noteq> ''c''" "1 / 1000 \<le> k"
        "ud_to_normalized (su_definition u) = (\<lambda>v. dbl (v * k))" "su_from_base u = (\<lambda>v. dbl (v / k))"
    | (celsius) "su_token u = ''c''" "ud_to_normalized (su_definition u) = chain nine_fifths (add_lit 32)"
        "su_from_base u = chain (sub_lit 32 1) (chain (mul_lit 5 1) (div_lit 9))"
proof -
  have "(su_token u \<in> set BASE_TOKENS \<and> ud_to_normalized (su_definition u) = same \<and> su_from_base u = same)
    \<or> (su_token u = ''c'' \<and> ud_to_normalized (su_definition u) = chain nine_fifths (add_lit 32)
         \<and> su_from_base u = chain (sub_lit 32 1) (chain (mul_lit 5 1) (div_lit 9)))
    \<or> (su_token u \<in> {''kpa'', ''lps'', ''w'', ''fraction''} \<and> (\<exists>k \<in> {KPA_TO_PSI, LPS_TO_GPM, 1 / 1000, 100}.
         ud_to_normalized (su_definition u) = (\<lambda>v. dbl (v * k)) \<and> su_from_base u = (\<lambda>v. dbl (v / k))))"
    using assms unfolding SUPPORTED_UNITS_def BASE_TOKENS_def list.set
    by (elim insertE emptyE; simp only: supported_unit.select_convs unit_definition.select_convs definition_rows
        fraction_scales watt_scales constant_scales bex_simps simp_thms list.inject char.inject insert_iff list.distinct)
  then show thesis
  proof (elim disjE conjE bexE)
    fix k
    assume t: "su_token u \<in> {''kpa'', ''lps'', ''w'', ''fraction''}" and k: "k \<in> {KPA_TO_PSI, LPS_TO_GPM, 1 / 1000, 100}"
      and c: "ud_to_normalized (su_definition u) = (\<lambda>v. dbl (v * k))" "su_from_base u = (\<lambda>v. dbl (v / k))"
    have "1 / 1000 \<le> k" using k scale_bounds by auto
    moreover have "su_token u \<notin> set BASE_TOKENS" "su_token u \<noteq> ''c''" using t by (auto simp: BASE_TOKENS_def)
    ultimately show thesis using c by (intro scaled)
  qed (rule base celsius; assumption)+
qed

lemma convert_self:
  assumes "u \<in> set SUPPORTED_UNITS" and "convert u u x = Some y"
  shows "(su_token u \<in> set BASE_TOKENS \<longrightarrow> y = x)
    \<and> (su_token u \<noteq> ''c'' \<longrightarrow> \<bar>y - x\<bar> \<le> \<bar>x\<bar> / 2 ^ 51 + 1 / 2 ^ 1064) \<and> \<bar>y - x\<bar> \<le> (\<bar>x\<bar> + 64) / 2 ^ 50"
  using assms(1)
proof (cases rule: unit_rows)
  case base
  have "(0 :: rat) \<le> \<bar>x\<bar> / 2 ^ 51 + 1 / 2 ^ 1064" "0 \<le> (\<bar>x\<bar> + 64) / 2 ^ 50" by (simp_all add: add_nonneg_nonneg)
  moreover have "y = x" using assms(2) base(2,3) by (simp add: convert_def chain_def same_def)
  ultimately show ?thesis by simp
next
  case (scaled k)
  from assms(2) scaled(4,5) obtain p where "dbl (x * k) = Some p" "dbl (p / k) = Some y"
    by (auto simp: convert_def chain_def bind_eq_Some_conv)
  from scaled_self [OF this scaled(3)] scaled(1) show ?thesis by simp
next
  case celsius
  from assms(2) celsius(2,3) obtain a b c d e where "dbl (x * 9) = Some a" "dbl (a / 5) = Some b" "dbl (b + 32) = Some c"
      "dbl (c - 32) = Some d" "dbl (d * 5) = Some e" "dbl (e / 9) = Some y"
    by (auto simp: convert_def chain_def bind_eq_Some_conv literal_defs fl_values)
  from celsius_back [OF this] celsius(1) show ?thesis by (simp add: BASE_TOKENS_def)
qed

subsection \<open>The dict of the aliases\<close>

definition SUPPORTED_KEYS :: "string list list" where
  "SUPPORTED_KEYS = [
     [''f'', ''f'', ''degf'', ''degreef'', ''degreesf'', ''fahrenheit'', ''degf''],
     [''c'', ''c'', ''degc'', ''degreec'', ''degreesc'', ''celsius'', ''degc''],
     [''psi'', ''psi'', ''psig'', ''psi''],
     [''kpa'', ''kpa'', ''kilopascal'', ''kilopascals'', ''kpa''],
     [''gpm'', ''gpm'', ''gal/min'', ''gallon/min'', ''gallons/minute'', ''gpm''],
     [''lps'', ''l/s'', ''lps'', ''liter/s'', ''liters/second'', ''l/s''],
     [''kw'', ''kw'', ''kilowatt'', ''kilowatts'', ''kw''],
     [''w'', ''w'', ''watt'', ''watts'', ''w''],
     [''percent'', ''%'', ''pct'', ''percent'', ''percentage'', ''%''],
     [''fraction'', ''fraction'', ''ratio'', ''fraction'']]"

lemma keys_evaluated: "map (map unit_key) [
     [''f'', ''f'', ''degf'', ''degree_f'', ''degrees_f'', ''fahrenheit'', ''degF''],
     [''c'', ''c'', ''degc'', ''degree_c'', ''degrees_c'', ''celsius'', ''degC''],
     [''psi'', ''psi'', ''psig'', ''psi''],
     [''kpa'', ''kpa'', ''kilopascal'', ''kilopascals'', ''kPa''],
     [''gpm'', ''gpm'', ''gal/min'', ''gallon/min'', ''gallons/minute'', ''gpm''],
     [''lps'', ''l/s'', ''lps'', ''liter/s'', ''liters/second'', ''L/s''],
     [''kw'', ''kw'', ''kilowatt'', ''kilowatts'', ''kW''],
     [''w'', ''w'', ''watt'', ''watts'', ''W''],
     [''percent'', ''%'', ''pct'', ''percent'', ''percentage'', ''%''],
     [''fraction'', ''fraction'', ''ratio'', ''fraction'']] = SUPPORTED_KEYS"
  by code_simp

lemma lookup_table: "SUPPORTED_LOOKUP = concat (map (\<lambda>(ks, u). map (\<lambda>k. (k, u)) ks) (zip SUPPORTED_KEYS SUPPORTED_UNITS))"
  unfolding keys_evaluated [symmetric] SUPPORTED_LOOKUP_def SUPPORTED_UNITS_def by (simp add: definition_rows)

text \<open>No alias is shared: each key names one unit.\<close>

lemma keys_unambiguous:
  "list_all (\<lambda>(i, ks). list_all (\<lambda>(j, ls). i = j \<or> list_all (\<lambda>k. k \<notin> set ls) ks) (List.enumerate 0 SUPPORTED_KEYS))
     (List.enumerate 0 SUPPORTED_KEYS)"
  by code_simp

text \<open>Code equations for evaluation: the table with its rows in place, and rounding without subnormal cases.\<close>

lemma SUPPORTED_LOOKUP_code [code]:
  "SUPPORTED_LOOKUP = concat (map (\<lambda>(ks, u). map (\<lambda>k. (k, u)) ks) (zip SUPPORTED_KEYS SUPPORTED_UNITS))"
  by (rule lookup_table)

lemmas SUPPORTED_UNITS_code [code] = SUPPORTED_UNITS_def [unfolded definition_rows constants]

lemma dbl_code [code]:
  "dbl x = (if x = 0 then Some 0 else if 1 / 1024 \<le> \<bar>x\<bar> \<and> \<bar>x\<bar> < 2 ^ 100 then Some (fl x)
     else let r = (if \<bar>x\<bar> < 1 / 2 ^ 1022 then scale2 (- 1074) (of_int (round_half_even (scale2 1074 x))) else fl x)
       in if 2 ^ 1024 \<le> \<bar>r\<bar> then None else Some r)"
  by (simp add: dbl_zero dbl_normal) (simp add: dbl_def)

subsection \<open>Readings\<close>

definition reading_ok :: "scalar \<Rightarrow> string option \<Rightarrow> unit_result \<Rightarrow> bool" where
  "reading_ok v s r = (ur_original_value r = v \<and> ur_original_unit r = s \<and> (ur_eligible r \<longleftrightarrow> ur_value r \<noteq> None)
     \<and> (ur_eligible r \<longleftrightarrow> ur_reason r = None) \<and> (ur_eligible r \<longleftrightarrow> ur_quality r = Good))"

lemma numeric_zero: "numeric_of (SFloat (Finite 0)) = Some 0"
  by (simp add: numeric_of_def finite_value_def)

text \<open>The three outcomes: no such conversion, no finite number, a converted value.\<close>

lemma unit_cases:
  assumes "uc_valid (conversion_contract s c d)"
  obtains source target where "source \<in> set SUPPORTED_UNITS" "target \<in> set SUPPORTED_UNITS"
    "lookup_unit (normalize_unit_label s) = Some source" "lookup_unit (normalize_unit_label c) = Some target"
    "unit_dimension source = unit_dimension target"
    "\<not> (normalize_dimension d \<noteq> None \<and> unit_dimension target \<noteq> normalize_dimension d)"
  using assms lookup_supported
  by (auto simp: conversion_contract_def normalize_telemetry_unit_def unit_failure_def Let_def split: option.splits if_splits)

lemma unit_invalid:
  assumes "\<not> uc_valid (conversion_contract s c d)"
  shows "\<not> ur_eligible (normalize_telemetry_unit v s c d)
    \<and> ur_reason (normalize_telemetry_unit v s c d) = uc_reason (conversion_contract s c d)"
proof (cases "lookup_unit (normalize_unit_label s)")
  case None
  then show ?thesis by (simp add: conversion_contract_def normalize_telemetry_unit_def unit_failure_def Let_def)
next
  case (Some source)
  show ?thesis
  proof (cases "lookup_unit (normalize_unit_label c)")
    case None
    with Some show ?thesis by (simp add: conversion_contract_def normalize_telemetry_unit_def unit_failure_def Let_def)
  next
    case target: (Some target)
    obtain x where "convert source target 0 = Some x"
      using zero_converts [OF lookup_supported [OF Some] lookup_supported [OF target]] by blast
    with Some target assms show ?thesis
      by (cases "unit_dimension source = unit_dimension target"; cases "normalize_dimension d")
        (auto simp: conversion_contract_def normalize_telemetry_unit_def unit_failure_def Let_def numeric_zero)
  qed
qed

lemma unit_valid:
  assumes k: "uc_valid (conversion_contract s c d)"
  shows "ur_unit (normalize_telemetry_unit v s c d) = uc_canonical_unit (conversion_contract s c d)
    \<and> ur_dimension (normalize_telemetry_unit v s c d) = uc_dimension (conversion_contract s c d)
    \<and> (ur_eligible (normalize_telemetry_unit v s c d)
         \<and> ur_conversion_id (normalize_telemetry_unit v s c d) = uc_conversion_id (conversion_contract s c d)
       \<or> \<not> ur_eligible (normalize_telemetry_unit v s c d) \<and> ur_quality (normalize_telemetry_unit v s c d) = InvalidValue)"
proof -
  obtain source target where m: "source \<in> set SUPPORTED_UNITS" "target \<in> set SUPPORTED_UNITS"
    and l: "lookup_unit (normalize_unit_label s) = Some source" "lookup_unit (normalize_unit_label c) = Some target"
    and g: "unit_dimension source = unit_dimension target"
      "\<not> (normalize_dimension d \<noteq> None \<and> unit_dimension target \<noteq> normalize_dimension d)"
    by (rule unit_cases [OF k])
  obtain x where "convert source target 0 = Some x" using zero_converts [OF m] by blast
  with l g show ?thesis
    by (auto simp: conversion_contract_def normalize_telemetry_unit_def unit_failure_def Let_def numeric_zero split: option.splits)
qed

lemma reading_ok_normalize: "reading_ok v s (normalize_telemetry_unit v s c d)"
  by (simp add: reading_ok_def normalize_telemetry_unit_def unit_failure_def Let_def split: option.splits)

text \<open>
  C24. The conversion contract approved with a mapping decides every later reading of it. Under a valid
  contract a reading has the contract's canonical unit and dimension and is either converted under the
  contract's conversion or refused as an invalid value; under an invalid one no reading is eligible, for the
  contract's reason. The original value and unit are kept, and a value is given exactly with a good quality.
\<close>

theorem contract_decides_readings:
  "reading_ok v s (normalize_telemetry_unit v s c d)
   \<and> (if uc_valid (conversion_contract s c d)
      then ur_unit (normalize_telemetry_unit v s c d) = uc_canonical_unit (conversion_contract s c d)
        \<and> ur_dimension (normalize_telemetry_unit v s c d) = uc_dimension (conversion_contract s c d)
        \<and> (ur_eligible (normalize_telemetry_unit v s c d)
             \<and> ur_conversion_id (normalize_telemetry_unit v s c d) = uc_conversion_id (conversion_contract s c d)
           \<or> \<not> ur_eligible (normalize_telemetry_unit v s c d) \<and> ur_quality (normalize_telemetry_unit v s c d) = InvalidValue)
      else \<not> ur_eligible (normalize_telemetry_unit v s c d)
        \<and> ur_reason (normalize_telemetry_unit v s c d) = uc_reason (conversion_contract s c d))"
  using reading_ok_normalize unit_valid unit_invalid by simp

lemma eligible_value:
  assumes "ur_value (normalize_telemetry_unit v s c d) = Some a"
  obtains source target x where "lookup_unit (normalize_unit_label s) = Some source" "lookup_unit (normalize_unit_label c) = Some target"
    "numeric_of v = Some x" "convert source target x = Some a"
  using assms by (auto simp: normalize_telemetry_unit_def unit_failure_def Let_def split: option.splits if_splits)

text \<open>
  C25. Conversion keeps the order of readings, rounding and all: of two readings under one mapping the larger
  is never stored as the smaller.
\<close>

theorem conversion_keeps_order:
  assumes "ur_value (normalize_telemetry_unit v s c d) = Some a" and "ur_value (normalize_telemetry_unit w s c d) = Some b"
    and "numeric_of v = Some x" and "numeric_of w = Some y" and "x \<le> y"
  shows "a \<le> b"
proof -
  obtain source target where l: "lookup_unit (normalize_unit_label s) = Some source" "lookup_unit (normalize_unit_label c) = Some target"
    and a: "convert source target x = Some a"
    by (rule eligible_value [OF assms(1)]) (use assms(3) in auto)
  have b: "convert source target y = Some b"
    by (rule eligible_value [OF assms(2)]) (use assms(4) l in auto)
  show ?thesis
    by (rule keeps_orderD [OF convert_keeps_order [OF lookup_supported [OF l(1)] lookup_supported [OF l(2)]] assms(5) a b])
qed

text \<open>Pounds per square inch, for the witnesses.\<close>

definition unit_psi :: supported_unit where
  "unit_psi = supported_row ''psi'' ''psi'' same"

lemma map_of_rev_unique:
  "(k, v) \<in> set xs \<Longrightarrow> (\<And>w. (k, w) \<in> set xs \<Longrightarrow> w = v) \<Longrightarrow> map_of (rev xs) k = Some v"
  by (metis map_of_SomeD map_of_eq_None_iff not_None_eq set_rev fst_conv image_eqI)

lemma lookup_psi: "lookup_unit (normalize_unit_label (Some ''psi'')) = Some unit_psi"
proof -
  have "map_of (rev SUPPORTED_LOOKUP) ''psi'' = Some unit_psi"
    by (rule map_of_rev_unique)
      (auto simp: lookup_table SUPPORTED_KEYS_def SUPPORTED_UNITS_def unit_psi_def)
  moreover have "normalize_unit_label (Some ''psi'') = ''psi''" "unit_key ''psi'' = ''psi''" by code_simp+
  ultimately show ?thesis by (simp add: lookup_unit_def)
qed

lemma psi_reading: "dbl (of_int i) = Some a \<Longrightarrow> ur_value (normalize_telemetry_unit (SInt i) (Some ''psi'') (Some ''psi'') None) = Some a"
  by (simp add: normalize_telemetry_unit_def lookup_psi Let_def normalize_dimension_def numeric_of_def convert_def unit_psi_def
        definition_rows chain_def same_def)

theorem conversion_keeps_order_witness:
  "\<exists>a b. ur_value (normalize_telemetry_unit (SInt 1) (Some ''psi'') (Some ''psi'') None) = Some a
     \<and> ur_value (normalize_telemetry_unit (SInt 3) (Some ''psi'') (Some ''psi'') None) = Some b \<and> a \<le> b"
proof -
  have d: "dbl (of_int 1) = Some (fl 1)" "dbl (of_int 3) = Some (fl 3)" by (simp_all add: dbl_normal)
  have n: "numeric_of (SInt 1) = Some (fl 1)" "numeric_of (SInt 3) = Some (fl 3)" using d by (simp_all add: numeric_of_def)
  have "fl 1 \<le> fl 3" by (rule fl_mono) simp
  from conversion_keeps_order [OF psi_reading [OF d(1)] psi_reading [OF d(2)] n this] psi_reading [OF d(1)] psi_reading [OF d(2)]
  show ?thesis by blast
qed

text \<open>
  C28. A reading mapped to its own unit, whatever spellings its source and the mapping use, is stored unchanged
  where the unit is the base of its dimension. Elsewhere it passes through the base unit and back and may come
  out as another double, off by at most the rounding of two operations, \<open>\<bar>x\<bar> / 2 ^ 51\<close> beside an
  underflow term, for kPa, L/s, W and fraction, and by at most \<open>(\<bar>x\<bar> + 64) / 2 ^ 50\<close> for degrees Celsius, which pass
  through Fahrenheit and its offset. The example stores one degree Celsius as \<open>1 - 7 / 2 ^ 52\<close>.
\<close>

theorem same_unit_within:
  assumes "lookup_unit (normalize_unit_label s) = Some u" and "lookup_unit (normalize_unit_label c) = Some u"
    and "numeric_of v = Some x" and "ur_value (normalize_telemetry_unit v s c d) = Some y"
  shows "(su_token u \<in> {''f'', ''psi'', ''gpm'', ''kw'', ''percent''} \<longrightarrow> y = x)
    \<and> (su_token u \<noteq> ''c'' \<longrightarrow> \<bar>y - x\<bar> \<le> \<bar>x\<bar> / 2 ^ 51 + 1 / 2 ^ 1064) \<and> \<bar>y - x\<bar> \<le> (\<bar>x\<bar> + 64) / 2 ^ 50"
proof -
  have "convert u u x = Some y" by (rule eligible_value [OF assms(4)]) (use assms(1-3) in auto)
  from convert_self [OF lookup_supported [OF assms(1)] this] show ?thesis by (simp add: BASE_TOKENS_def)
qed

definition unit_c :: supported_unit where
  "unit_c = supported_row ''c'' ''degC'' (chain (sub_lit 32 1) (chain (mul_lit 5 1) (div_lit 9)))"

lemma lookup_c: "lookup_unit (normalize_unit_label (Some ''c'')) = Some unit_c"
proof -
  have "map_of (rev SUPPORTED_LOOKUP) ''c'' = Some unit_c"
    by (rule map_of_rev_unique)
      (auto simp: lookup_table SUPPORTED_KEYS_def SUPPORTED_UNITS_def unit_c_def)
  moreover have "normalize_unit_label (Some ''c'') = ''c''" "unit_key ''c'' = ''c''" by code_simp+
  ultimately show ?thesis by (simp add: lookup_unit_def)
qed

lemma one_degree: "convert unit_c unit_c 1 = Some (1 - 7 / 2 ^ 52)"
proof -
  have "mul_lit 9 1 1 = Some 9" by (rule lit_eval(1) [where c = 9]) code_simp+
  moreover have "div_lit 5 9 = Some (8106479329266893 / 4503599627370496)" "add_lit 32 (8106479329266893 / 4503599627370496) = Some (2378463553205043 / 70368744177664)" by (rule lit_eval; code_simp)+
  moreover have "sub_lit 32 1 (2378463553205043 / 70368744177664) = Some (126663739519795 / 70368744177664)" by (rule lit_eval(2) [where c = 32]) code_simp+
  moreover have "mul_lit 5 1 (126663739519795 / 70368744177664) = Some (633318697598975 / 70368744177664)" by (rule lit_eval(1) [where c = 5]) code_simp+
  moreover have "div_lit 9 (633318697598975 / 70368744177664) = Some (4503599627370489 / 4503599627370496)" by (rule lit_eval; code_simp)
  ultimately have "chain (chain nine_fifths (add_lit 32)) (chain (sub_lit 32 1) (chain (mul_lit 5 1) (div_lit 9))) 1 = Some (1 - 7 / 2 ^ 52)"
    by (simp add: chain_def nine_fifths_def)
  then show ?thesis by (simp add: unit_c_def convert_def definition_rows)
qed

theorem same_unit_within_witness:
  "ur_value (normalize_telemetry_unit (SFloat (Finite 1)) (Some ''c'') (Some ''c'') None) = Some (1 - 7 / 2 ^ 52)
   \<and> \<bar>(1 - 7 / 2 ^ 52) - 1 :: rat\<bar> \<le> (\<bar>1\<bar> + 64) / 2 ^ 50"
proof
  have n: "numeric_of (SFloat (Finite 1)) = Some 1" by (simp add: numeric_of_def finite_value_def)
  show v: "ur_value (normalize_telemetry_unit (SFloat (Finite 1)) (Some ''c'') (Some ''c'') None) = Some (1 - 7 / 2 ^ 52)"
    by (simp add: normalize_telemetry_unit_def lookup_c Let_def normalize_dimension_def n one_degree)
  show "\<bar>(1 - 7 / 2 ^ 52) - 1 :: rat\<bar> \<le> (\<bar>1\<bar> + 64) / 2 ^ 50"
    using same_unit_within [OF lookup_c lookup_c n v] by blast
qed

end
