(* ===== verification/Telemetry_Store.thy ===== *)
theory Telemetry_Store
  imports Telemetry_Domain Floats
begin

text \<open>
  The tables of the telemetry schema (\<^verbatim>\<open>db/migrations/create_telemetry_connection_tables.py\<close>,
  \<^verbatim>\<open>extend_telemetry_ingestion_runtime.py\<close>) and the operations of
  \<^verbatim>\<open>services/telemetry_repository.py\<close> on connections: creation, metadata, lifecycle, archive, audit events,
  the secret bindings, and the leases of the ingestion queue.

  A table is a list in insertion order; an operation is one transaction, so it returns the new tables or
  an error that leaves them as they were. The database clock \<open>NOW()\<close> is the argument \<open>db\<close>. An \<open>UPDATE\<close> is
  \<open>upd\<close>; a violated constraint is \<open>DatabaseError\<close>. The three lease columns are null together
  (a check constraint), so they are one optional record.
\<close>

record repo_host = tele_host +
  th_zone_known :: "string \<Rightarrow> bool"

subsection \<open>Tables\<close>

record lease =
  ls_owner :: string
  ls_token :: string
  ls_expires :: timestamp

datatype connector_type = HttpsTelemetry | HistorianTemplate

record connection =
  cn_id :: string
  cn_scope :: tele_scope
  cn_name :: string
  cn_connector :: connector_type
  cn_status :: connection_status
  cn_enabled :: bool
  cn_safe_config :: jdict
  cn_timezone :: string
  cn_polling :: int
  cn_next_attempt :: "timestamp option"
  cn_last_attempt :: "timestamp option"
  cn_last_success :: "timestamp option"
  cn_last_healthy :: "timestamp option"
  cn_last_telemetry :: "timestamp option"
  cn_error_code :: "string option"
  cn_error_summary :: "string option"
  cn_retry_count :: int
  cn_lease :: "lease option"
  cn_created_by :: string
  cn_updated_by :: string
  cn_created_at :: timestamp
  cn_updated_at :: timestamp
  cn_archived_at :: "timestamp option"
  cn_secret :: "string option"

record secret_binding =
  sb_id :: string
  sb_scope :: tele_scope
  sb_connection :: string
  sb_provider :: string
  sb_reference :: string
  sb_version :: "string option"
  sb_created_at :: timestamp
  sb_updated_at :: timestamp

record run =
  rn_id :: string
  rn_scope :: tele_scope
  rn_connection :: string
  rn_mode :: run_mode
  rn_status :: run_status
  rn_token :: "string option"
  rn_range_start :: "timestamp option"
  rn_range_end :: "timestamp option"
  rn_started :: timestamp
  rn_finished :: "timestamp option"
  rn_attempts :: int
  rn_retries :: int
  rn_pages :: int
  rn_received :: int
  rn_accepted :: int
  rn_rejected :: int
  rn_duplicate :: int
  rn_out_of_order :: int
  rn_latency :: "int option"
  rn_before_digest :: "string option"
  rn_after_digest :: "string option"
  rn_error_code :: "string option"
  rn_error_summary :: "string option"
  rn_actor :: "string option"
  rn_worker :: "string option"
  rn_source_run :: "string option"
  rn_created_at :: timestamp
  rn_updated_at :: timestamp

record checkpoint =
  ck_scope :: tele_scope
  ck_connection :: string
  ck_mode :: checkpoint_mode
  ck_cursor :: jdict
  ck_high_water :: "timestamp option"
  ck_revision :: int
  ck_run :: "string option"
  ck_updated_at :: timestamp

record signal =
  sg_id :: string
  sg_scope :: tele_scope
  sg_connection :: string
  sg_tag :: string
  sg_enabled :: bool
  sg_mapping_status :: mapping_status
  sg_last_observed :: "timestamp option"
  sg_quality :: "quality_state option"
  sg_updated_at :: timestamp

record mapping_row =
  mp_id :: string
  mp_scope :: tele_scope
  mp_connection :: string
  mp_signal :: string
  mp_system :: string
  mp_asset :: "string option"
  mp_concept :: string
  mp_signal_name :: string
  mp_source_unit :: string
  mp_canonical_unit :: string
  mp_conversion_id :: string
  mp_conversion_version :: string
  mp_timezone :: string
  mp_enabled :: bool
  mp_provenance :: string
  mp_mapped_by :: string
  mp_mapped_at :: timestamp
  mp_authority_digest :: string
  mp_revision :: int

record page_observation =
  ob_id :: string
  ob_system :: string
  ob_asset :: "string option"
  ob_signal :: string
  ob_mapping :: string
  ob_mapping_revision :: int
  ob_concept :: string
  ob_signal_name :: string
  ob_tag :: string
  ob_event :: "string option"
  ob_timestamp_raw :: string
  ob_timezone :: string
  ob_offset :: "string option"
  ob_timestamp_version :: string
  ob_observed_at :: timestamp
  ob_original_value :: json
  ob_original_unit :: "string option"
  ob_value :: rat
  ob_canonical_unit :: string
  ob_conversion_id :: string
  ob_conversion_version :: string
  ob_quality :: quality_state
  ob_disposition :: disposition
  ob_eligible :: bool
  ob_reasons :: "string list"
  ob_digest :: string
  ob_metadata :: jdict
  ob_actor :: string
  ob_mapped_at :: timestamp
  ob_authority_digest :: string
  ob_provenance :: string

record observation = page_observation +
  so_scope :: tele_scope
  so_connection :: string
  so_run :: string

record page_rejection =
  rj_id :: string
  rj_signal :: "string option"
  rj_tag :: "string option"
  rj_event :: "string option"
  rj_mapping :: "string option"
  rj_timestamp_raw :: "string option"
  rj_digest :: string
  rj_original_value :: json
  rj_original_unit :: "string option"
  rj_reported_quality :: "string option"
  rj_quality :: quality_state
  rj_reason :: string
  rj_disposition :: disposition
  rj_context :: jdict

record rejection = page_rejection +
  sr_scope :: tele_scope
  sr_connection :: string
  sr_run :: string
  sr_occurrences :: int
  sr_first_seen :: timestamp
  sr_last_seen :: timestamp

record audit_event =
  au_id :: string
  au_scope :: tele_scope
  au_connection :: string
  au_actor :: string
  au_action :: string
  au_detail :: json
  au_occurred_at :: timestamp

record tele_db =
  td_connections :: "connection list"
  td_runs :: "run list"
  td_checkpoints :: "checkpoint list"
  td_signals :: "signal list"
  td_concepts :: "(string \<times> string) list"
  td_mappings :: "mapping_row list"
  td_observations :: "observation list"
  td_rejections :: "rejection list"
  td_audit :: "audit_event list"
  td_bindings :: "secret_binding list"
  td_drawn :: nat

definition upd :: "('a \<Rightarrow> bool) \<Rightarrow> ('a \<Rightarrow> 'a) \<Rightarrow> 'a list \<Rightarrow> 'a list" where
  "upd p f xs = map (\<lambda>x. if p x then f x else x) xs"

definition conn_at :: "tele_scope \<Rightarrow> string \<Rightarrow> connection \<Rightarrow> bool" where
  "conn_at sc i c = (cn_scope c = sc \<and> cn_id c = i)"

definition run_at :: "tele_scope \<Rightarrow> string \<Rightarrow> string \<Rightarrow> run \<Rightarrow> bool" where
  "run_at sc i r x = (rn_scope x = sc \<and> rn_connection x = i \<and> rn_id x = r)"

definition find_conn :: "tele_db \<Rightarrow> tele_scope \<Rightarrow> string \<Rightarrow> connection option" where
  "find_conn s sc i = next_or (conn_at sc i) (td_connections s)"

definition set_conn :: "tele_scope \<Rightarrow> string \<Rightarrow> (connection \<Rightarrow> connection) \<Rightarrow> tele_db \<Rightarrow> tele_db" where
  "set_conn sc i f s = s\<lparr>td_connections := upd (conn_at sc i) f (td_connections s)\<rparr>"

definition set_run :: "tele_scope \<Rightarrow> string \<Rightarrow> string \<Rightarrow> (run \<Rightarrow> run) \<Rightarrow> tele_db \<Rightarrow> tele_db" where
  "set_run sc i r f s = s\<lparr>td_runs := upd (run_at sc i r) f (td_runs s)\<rparr>"

definition lease_token :: "connection \<Rightarrow> string option" where
  "lease_token c = map_option ls_token (cn_lease c)"

subsection \<open>Argument checks\<close>

definition require_identifier :: "string \<Rightarrow> string \<Rightarrow> string tele" where
  "require_identifier s code = (if strip s = [] then Inl (TeleValueError code) else Inr (strip s))"

definition ascii_alnum :: "char \<Rightarrow> bool" where
  "ascii_alnum c = (lower_alnum c \<or> upper_letter c)"

definition public_identifier :: "string \<Rightarrow> bool" where
  "public_identifier s = (case s of [] \<Rightarrow> False
     | c # cs \<Rightarrow> ascii_alnum c \<and> length cs \<le> 159 \<and> list_all (\<lambda>d. ascii_alnum d \<or> d \<in> set ''._:/-'') cs)"

definition require_public_identifier :: "string \<Rightarrow> string \<Rightarrow> string tele" where
  "require_public_identifier s code =
     bindE (require_identifier s code) (\<lambda>n. if public_identifier n then Inr n else Inl (TeleValueError code))"

definition require_uuid :: "'a tele_host_scheme \<Rightarrow> string \<Rightarrow> string \<Rightarrow> string tele" where
  "require_uuid H s code = bindE (require_identifier s code) (\<lambda>n.
     case th_uuid H n of None \<Rightarrow> Inl (TeleValueError code) | Some u \<Rightarrow> Inr u)"

text \<open>The cast \<open>%s::UUID\<close> of an argument that was not checked before.\<close>

definition cast_uuid :: "'a tele_host_scheme \<Rightarrow> string \<Rightarrow> string tele" where
  "cast_uuid H s = (case th_uuid H s of None \<Rightarrow> Inl (DatabaseError ''invalid_text_representation'') | Some u \<Rightarrow> Inr u)"

definition safe_json :: "'a tele_host_scheme \<Rightarrow> string \<Rightarrow> bool \<Rightarrow> jdict \<Rightarrow> jdict tele" where
  "safe_json H code sensitive d =
     bindE (if sensitive then reject_sensitive code ''telemetry_json'' (JObj d) else Inr ()) (\<lambda>_.
     if int (th_json_bytes H (JObj d)) > 65536 then Inl (TeleValueError code) else Inr d)"

definition credential_text :: "string \<Rightarrow> bool" where
  "credential_text s = list_ex (contains (lower s)) [''authorization:'', ''bearer '', ''api_key='', ''token='']"

definition safe_error_fields :: "string \<Rightarrow> string option \<Rightarrow> (string \<times> string option) tele" where
  "safe_error_fields code summary =
     bindE (require_public_identifier code ''telemetry_ingestion_error_code_invalid'') (\<lambda>c.
     let t = (case summary of None \<Rightarrow> None | Some x \<Rightarrow> if x = [] then None else Some (strip x)) in
     (case t of None \<Rightarrow> Inr (c, None)
      | Some x \<Rightarrow>
          if length x > 500 then Inl (TeleValueError ''telemetry_ingestion_error_summary_invalid'')
          else bindE (reject_sensitive ''telemetry_ingestion_error_summary_invalid'' ''telemetry_json''
                        (JObj [(''error_summary'', JStr x)])) (\<lambda>_.
          if credential_text x then Inl (TeleValueError ''telemetry_ingestion_error_summary_invalid'')
          else Inr (c, Some x))))"

lemma upd_simps [simp]: "length (upd p f xs) = length xs"
  by (simp add: upd_def)

lemma set_upd: "x \<in> set (upd p f xs) \<longleftrightarrow> (\<exists>y \<in> set xs. x = (if p y then f y else y))"
  by (auto simp: upd_def)

lemma map_upd: "(\<And>x. g (f x) = g x) \<Longrightarrow> map g (upd p f xs) = map g xs"
  by (simp add: upd_def)

subsection \<open>Audit events\<close>

text \<open>The two digests an event may carry are written through and left out.\<close>

definition AUDIT_ACTIONS :: "string list" where
  "AUDIT_ACTIONS = [''connection_created'', ''connection_updated'', ''credential_binding_changed'', ''validation_completed'',
     ''signal_mapping_changed'', ''connection_enabled'', ''connection_disabled'', ''connection_archived'', ''backfill_started'',
     ''backfill_completed'', ''backfill_failed'', ''ingestion_retry_requested'']"

definition insert_audit_event ::
  "'a tele_host_scheme \<Rightarrow> timestamp \<Rightarrow> tele_scope \<Rightarrow> string \<Rightarrow> string \<Rightarrow> string \<Rightarrow> string \<Rightarrow> jdict \<Rightarrow> tele_db \<Rightarrow> tele_db tele" where
  "insert_audit_event H db sc eid cid actor action detail s =
     (let clean = sanitize_public (JObj detail) in
      if int (th_json_bytes H clean) > 65536 \<or> int (th_json_bytes H clean) > 16384
      then Inl (TeleValueError ''telemetry_audit_detail_invalid'')
      else if action \<notin> set AUDIT_ACTIONS \<or> list_ex (\<lambda>a. au_id a = eid) (td_audit s) \<or> find_conn s sc cid = None then Inl (DatabaseError ''audit_constraint'')
      else Inr (s\<lparr>td_audit := td_audit s @ [\<lparr>au_id = eid, au_scope = sc, au_connection = cid, au_actor = actor,
             au_action = action, au_detail = clean, au_occurred_at = db\<rparr>]\<rparr>))"

text \<open>An audit event under a fresh identifier, \<open>str(uuid.uuid4())\<close>.\<close>

definition audit ::
  "'a tele_host_scheme \<Rightarrow> timestamp \<Rightarrow> tele_scope \<Rightarrow> string \<Rightarrow> string \<Rightarrow> string \<Rightarrow> jdict \<Rightarrow> tele_db \<Rightarrow> tele_db tele" where
  "audit H db sc cid actor action detail s =
     insert_audit_event H db sc (th_uuid4 H (td_drawn s)) cid actor action detail (s\<lparr>td_drawn := Suc (td_drawn s)\<rparr>)"

definition record_audit_event ::
  "'a tele_host_scheme \<Rightarrow> timestamp \<Rightarrow> tele_scope \<Rightarrow> string \<Rightarrow> string \<Rightarrow> string \<Rightarrow> string \<Rightarrow> jdict \<Rightarrow> tele_db \<Rightarrow> tele_db tele" where
  "record_audit_event H db sc eid cid actor action detail s =
     bindE (require_uuid H eid ''telemetry_audit_event_id_invalid'') (\<lambda>e.
     bindE (require_uuid H cid ''telemetry_audit_connection_id_invalid'') (\<lambda>c.
     bindE (require_identifier actor ''telemetry_audit_actor_required'') (\<lambda>a.
     insert_audit_event H db sc e c a action detail s)))"

subsection \<open>Connections\<close>

definition get_connection :: "tele_scope \<Rightarrow> string \<Rightarrow> tele_db \<Rightarrow> connection tele" where
  "get_connection sc cid s =
     (case find_conn s sc cid of None \<Rightarrow> Inl (RepositoryError ''telemetry_connection_not_found'') | Some c \<Rightarrow> Inr c)"

text \<open>The active name of a facility is unique up to case.\<close>

definition name_taken :: "tele_scope \<Rightarrow> string \<Rightarrow> string \<Rightarrow> tele_db \<Rightarrow> bool" where
  "name_taken sc cid name s = list_ex (\<lambda>c. cn_id c \<noteq> cid \<and> ts_resource (cn_scope c) = ts_resource sc
     \<and> ts_facility (cn_scope c) = ts_facility sc \<and> cn_archived_at c = None \<and> lower (cn_name c) = lower name) (td_connections s)"

definition create_connection ::
  "'a repo_host_scheme \<Rightarrow> timestamp \<Rightarrow> tele_scope \<Rightarrow> string \<Rightarrow> string \<Rightarrow> connector_type \<Rightarrow> jdict \<Rightarrow> string \<Rightarrow> int \<Rightarrow> string
   \<Rightarrow> (string \<times> jdict) option \<Rightarrow> tele_db \<Rightarrow> (tele_db \<times> connection) tele" where
  "create_connection H db sc cid name connector config tz polling actor aud s =
     bindE (require_identifier cid ''telemetry_connection_id_required'') (\<lambda>cid.
     bindE (require_identifier name ''telemetry_connection_name_required'') (\<lambda>name.
     bindE (require_identifier actor ''telemetry_connection_actor_required'') (\<lambda>actor.
     bindE (safe_json H ''telemetry_connection_safe_config_invalid'' True config) (\<lambda>config.
     bindE (cast_uuid H cid) (\<lambda>i.
     if length name > 160 \<or> polling < 30 \<or> polling > 86400 \<or> list_ex (\<lambda>c. cn_id c = i) (td_connections s) \<or> name_taken sc i name s
     then Inl (DatabaseError ''connection_constraint'')
     else
       let c = \<lparr>cn_id = i, cn_scope = sc, cn_name = name, cn_connector = connector, cn_status = Draft, cn_enabled = False,
             cn_safe_config = config, cn_timezone = tz, cn_polling = polling, cn_next_attempt = None, cn_last_attempt = None,
             cn_last_success = None, cn_last_healthy = None, cn_last_telemetry = None, cn_error_code = None,
             cn_error_summary = None, cn_retry_count = 0, cn_lease = None, cn_created_by = actor, cn_updated_by = actor,
             cn_created_at = db, cn_updated_at = db, cn_archived_at = None, cn_secret = None\<rparr>;
           s1 = s\<lparr>td_connections := td_connections s @ [c]\<rparr> in
       bindE (case aud of None \<Rightarrow> Inr s1
              | Some (eid, detail) \<Rightarrow>
                  bindE (require_uuid H eid ''telemetry_audit_event_id_invalid'') (\<lambda>e.
                  insert_audit_event H db sc e i actor ''connection_created'' detail s1)) (\<lambda>s2.
       bindE (get_connection sc i s2) (\<lambda>c. Inr (s2, c))))))))"

definition opt_check :: "'b option \<Rightarrow> ('b \<Rightarrow> 'c tele) \<Rightarrow> 'c option tele" where
  "opt_check x f = (case x of None \<Rightarrow> Inr None | Some y \<Rightarrow> bindE (f y) (\<lambda>z. Inr (Some z)))"

definition changed_fields :: "(string \<times> bool) list \<Rightarrow> json" where
  "changed_fields fs = JList (map (JStr \<circ> fst) (filter snd fs))"

definition patch_metadata ::
  "string option \<Rightarrow> jdict option \<Rightarrow> string option \<Rightarrow> int option \<Rightarrow> string \<Rightarrow> timestamp \<Rightarrow> connection \<Rightarrow> connection" where
  "patch_metadata name config tz polling actor db c = c\<lparr>
     cn_name := (case name of None \<Rightarrow> cn_name c | Some n \<Rightarrow> n),
     cn_safe_config := (case config of None \<Rightarrow> cn_safe_config c | Some d \<Rightarrow> d),
     cn_timezone := (case tz of None \<Rightarrow> cn_timezone c | Some z \<Rightarrow> z),
     cn_polling := (case polling of None \<Rightarrow> cn_polling c | Some p \<Rightarrow> p),
     cn_updated_by := actor, cn_updated_at := db\<rparr>"

definition apply_metadata ::
  "'a tele_host_scheme \<Rightarrow> timestamp \<Rightarrow> tele_scope \<Rightarrow> string \<Rightarrow> string \<Rightarrow> string option \<Rightarrow> jdict option \<Rightarrow> string option
   \<Rightarrow> int option \<Rightarrow> tele_db \<Rightarrow> (tele_db \<times> connection option) tele" where
  "apply_metadata H db sc i actor name config tz polling s =
     (case find_conn s sc i of
        None \<Rightarrow> Inr (s, None)
      | Some c \<Rightarrow>
        if cn_archived_at c \<noteq> None then Inr (s, None)
        else if (case name of None \<Rightarrow> False | Some n \<Rightarrow> name_taken sc i n s) then Inl (DatabaseError ''connection_name'')
        else
          let s1 = set_conn sc i (patch_metadata name config tz polling actor db) s in
          bindE (audit H db sc i actor ''connection_updated'' [(''changed_fields'', changed_fields
                   [(''name'', name \<noteq> None), (''safe_config'', config \<noteq> None), (''timezone'', tz \<noteq> None),
                    (''polling_interval_seconds'', polling \<noteq> None)])] s1) (\<lambda>s2.
          bindE (get_connection sc i s2) (\<lambda>c. Inr (s2, Some c))))"

definition update_connection_metadata ::
  "'a repo_host_scheme \<Rightarrow> timestamp \<Rightarrow> tele_scope \<Rightarrow> string \<Rightarrow> string \<Rightarrow> string option \<Rightarrow> jdict option \<Rightarrow> string option \<Rightarrow> int option
   \<Rightarrow> tele_db \<Rightarrow> (tele_db \<times> connection option) tele" where
  "update_connection_metadata H db sc cid actor name config tz polling s =
     bindE (require_uuid H cid ''telemetry_connection_id_invalid'') (\<lambda>i.
     bindE (require_identifier actor ''telemetry_connection_actor_required'') (\<lambda>actor.
     bindE (opt_check name (\<lambda>n. bindE (require_identifier n ''telemetry_connection_name_required'') (\<lambda>n.
              if length n > 160 then Inl (TeleValueError ''telemetry_connection_name_invalid'') else Inr n))) (\<lambda>name.
     bindE (opt_check config (safe_json H ''telemetry_connection_safe_config_invalid'' True)) (\<lambda>config.
     bindE (opt_check tz (\<lambda>z. bindE (require_identifier z ''telemetry_connection_timezone_required'') (\<lambda>z.
              if th_zone_known H z then Inr z else Inl (TeleValueError ''telemetry_connection_timezone_invalid'')))) (\<lambda>tz.
     bindE (opt_check polling (\<lambda>p. if p < 30 \<or> p > 86400
              then Inl (TeleValueError ''telemetry_connection_polling_interval_invalid'') else Inr p)) (\<lambda>polling.
     if name = None \<and> config = None \<and> tz = None \<and> polling = None then Inr (s, find_conn s sc i)
     else apply_metadata H db sc i actor name config tz polling s))))))"

record status_facts =
  sf_last_attempt :: "timestamp option"
  sf_last_success :: "timestamp option"
  sf_last_healthy :: "timestamp option"
  sf_last_telemetry :: "timestamp option"
  sf_error_code :: "string option"
  sf_error_summary :: "string option"

definition coalesce :: "'b option \<Rightarrow> 'b option \<Rightarrow> 'b option" where
  "coalesce x y = (case x of None \<Rightarrow> y | Some _ \<Rightarrow> x)"

definition stripped :: "string option \<Rightarrow> string option" where
  "stripped x = (case x of None \<Rightarrow> None | Some t \<Rightarrow> if t = [] then None else Some (strip t))"

definition patch_lifecycle ::
  "connection_status \<Rightarrow> bool \<Rightarrow> status_facts \<Rightarrow> string option \<Rightarrow> string option \<Rightarrow> string \<Rightarrow> timestamp \<Rightarrow> connection \<Rightarrow> connection" where
  "patch_lifecycle target on f code summary actor db c = c\<lparr>cn_status := target, cn_enabled := on,
     cn_last_attempt := coalesce (sf_last_attempt f) (cn_last_attempt c),
     cn_last_success := coalesce (sf_last_success f) (cn_last_success c),
     cn_last_healthy := coalesce (sf_last_healthy f) (cn_last_healthy c),
     cn_last_telemetry := coalesce (sf_last_telemetry f) (cn_last_telemetry c),
     cn_error_code := code, cn_error_summary := summary, cn_updated_by := actor, cn_updated_at := db\<rparr>"

text \<open>The transaction, once the arguments are checked.\<close>

definition apply_lifecycle ::
  "'a tele_host_scheme \<Rightarrow> timestamp \<Rightarrow> tele_scope \<Rightarrow> string \<Rightarrow> connection_status \<Rightarrow> string \<Rightarrow> bool option \<Rightarrow> status_facts
   \<Rightarrow> string option \<Rightarrow> string option \<Rightarrow> connection \<Rightarrow> tele_db \<Rightarrow> (tele_db \<times> connection option) tele" where
  "apply_lifecycle H db sc i target actor enabled f code summary c s =
     bindE (if cn_status c \<noteq> target then require_connection_transition (cn_status c) target else Inr target) (\<lambda>_.
     let on = (if target = Disabled then False else case enabled of None \<Rightarrow> cn_enabled c | Some b \<Rightarrow> b) in
     if target = Archived then Inl (DatabaseError ''archived_at'')
     else
       let s1 = set_conn sc i (patch_lifecycle target on f code summary actor db) s;
           action = (if target = Disabled then ''connection_disabled''
                     else if on \<and> \<not> cn_enabled c then ''connection_enabled'' else ''connection_updated'') in
       bindE (audit H db sc i actor action [(''from_status'', JStr (status_value (cn_status c))),
                (''to_status'', JStr (status_value target)), (''enabled'', JBool on), (''error_code'', jopt JStr code)] s1) (\<lambda>s2.
       bindE (get_connection sc i s2) (\<lambda>c. Inr (s2, Some c))))"

definition set_connection_lifecycle ::
  "'a tele_host_scheme \<Rightarrow> timestamp \<Rightarrow> tele_scope \<Rightarrow> string \<Rightarrow> connection_status \<Rightarrow> string \<Rightarrow> bool option \<Rightarrow> status_facts
   \<Rightarrow> tele_db \<Rightarrow> (tele_db \<times> connection option) tele" where
  "set_connection_lifecycle H db sc cid target actor enabled f s =
     bindE (require_uuid H cid ''telemetry_connection_id_invalid'') (\<lambda>i.
     bindE (require_identifier actor ''telemetry_connection_actor_required'') (\<lambda>actor.
     let code = stripped (sf_error_code f); summary = stripped (sf_error_summary f) in
     if (case code of None \<Rightarrow> False | Some c \<Rightarrow> \<not> public_identifier c)
     then Inl (TeleValueError ''telemetry_connection_error_code_invalid'')
     else if (case summary of None \<Rightarrow> False | Some t \<Rightarrow> length t > 500 \<or> credential_text t)
     then Inl (TeleValueError ''telemetry_connection_error_summary_invalid'')
     else if target \<in> {Disabled, Archived} \<and> enabled = Some True
     then Inl (TeleValueError ''telemetry_connection_enabled_status_conflict'')
     else (case find_conn s sc i of
         None \<Rightarrow> Inr (s, None)
       | Some c \<Rightarrow> if cn_archived_at c \<noteq> None then Inr (s, None)
           else apply_lifecycle H db sc i target actor enabled f code summary c s)))"

definition archive_connection ::
  "'a tele_host_scheme \<Rightarrow> timestamp \<Rightarrow> tele_scope \<Rightarrow> string \<Rightarrow> string \<Rightarrow> tele_db \<Rightarrow> (tele_db \<times> connection option) tele" where
  "archive_connection H db sc cid actor s =
     bindE (require_uuid H cid ''telemetry_connection_id_invalid'') (\<lambda>i.
     bindE (require_identifier actor ''telemetry_connection_actor_required'') (\<lambda>actor.
     (case find_conn s sc i of
        None \<Rightarrow> Inr (s, None)
      | Some c \<Rightarrow>
        if cn_archived_at c \<noteq> None then Inr (s, None)
        else bindE (require_connection_transition (cn_status c) Archived) (\<lambda>_.
          let s1 = set_conn sc i (\<lambda>c. c\<lparr>cn_status := Archived, cn_enabled := False, cn_archived_at := Some db,
                cn_updated_by := actor, cn_updated_at := db, cn_lease := None\<rparr>) s in
          bindE (audit H db sc i actor ''connection_archived'' [(''from_status'', JStr (status_value (cn_status c)))] s1) (\<lambda>s2.
          bindE (get_connection sc i s2) (\<lambda>c. Inr (s2, Some c)))))))"

subsection \<open>Secret bindings\<close>

text \<open>
  A connection has at most one binding, an opaque reference to a secret a provider keeps. The insertion meets
  three constraints: the only provider the table knows, the primary key, and the foreign key of the
  connection, checked at the end of the transaction, by which the binding carries the connection's scope.
\<close>

definition bound_to :: "tele_scope \<Rightarrow> string \<Rightarrow> secret_binding \<Rightarrow> bool" where
  "bound_to sc i x = (ts_resource (sb_scope x) = ts_resource sc \<and> sb_connection x = i)"

definition put_binding ::
  "timestamp \<Rightarrow> tele_scope \<Rightarrow> string \<Rightarrow> string \<Rightarrow> string \<Rightarrow> string \<Rightarrow> string option \<Rightarrow> secret_binding list
   \<Rightarrow> secret_binding list tele" where
  "put_binding db sc i b provider reference version bs =
     (if provider \<noteq> ''aws_secrets_manager'' \<or> list_ex (\<lambda>x. sb_id x = b \<and> \<not> bound_to sc i x) bs
         \<or> list_ex (\<lambda>x. bound_to sc i x \<and> sb_scope x \<noteq> sc) bs
      then Inl (DatabaseError ''secret_binding_constraint'')
      else if list_ex (bound_to sc i) bs
      then Inr (upd (bound_to sc i) (\<lambda>x. x\<lparr>sb_id := b, sb_provider := provider, sb_reference := reference,
             sb_version := version, sb_updated_at := db\<rparr>) bs)
      else Inr (bs @ [\<lparr>sb_id = b, sb_scope = sc, sb_connection = i, sb_provider = provider, sb_reference = reference,
             sb_version = version, sb_created_at = db, sb_updated_at = db\<rparr>]))"

definition bind_secret :: "string \<Rightarrow> timestamp \<Rightarrow> connection \<Rightarrow> connection" where
  "bind_secret b db c = c\<lparr>cn_secret := Some b, cn_updated_at := db\<rparr>"

text \<open>The connection is found whether it is archived or not.\<close>

definition upsert_secret_binding ::
  "'a tele_host_scheme \<Rightarrow> timestamp \<Rightarrow> tele_scope \<Rightarrow> string \<Rightarrow> string \<Rightarrow> string \<Rightarrow> string \<Rightarrow> string option
   \<Rightarrow> string option \<Rightarrow> string option \<Rightarrow> jdict \<Rightarrow> tele_db \<Rightarrow> (tele_db \<times> string option) tele" where
  "upsert_secret_binding H db sc cid bid provider reference version actor eid detail s =
     bindE (require_identifier cid ''telemetry_connection_id_required'') (\<lambda>cid.
     bindE (require_identifier bid ''telemetry_secret_binding_id_required'') (\<lambda>bid.
     bindE (require_identifier reference ''telemetry_secret_internal_reference_required'') (\<lambda>reference.
     bindE (cast_uuid H cid) (\<lambda>i.
     (case find_conn s sc i of
        None \<Rightarrow> Inl (RepositoryError ''telemetry_connection_not_found'')
      | Some c \<Rightarrow>
        bindE (cast_uuid H bid) (\<lambda>b.
        bindE (put_binding db sc i b provider reference version (td_bindings s)) (\<lambda>bs.
        let s1 = set_conn sc i (bind_secret b db) (s\<lparr>td_bindings := bs\<rparr>) in
        bindE (case eid of None \<Rightarrow> Inr s1
               | Some eid \<Rightarrow>
                   bindE (require_uuid H eid ''telemetry_audit_event_id_invalid'') (\<lambda>e.
                   bindE (require_identifier (case actor of None \<Rightarrow> [] | Some a \<Rightarrow> a) ''telemetry_audit_actor_required'') (\<lambda>a.
                   insert_audit_event H db sc e i a ''credential_binding_changed'' detail s1))) (\<lambda>s2.
        Inr (s2, version)))))))))"

text \<open>The reading the worker does, which leaves archived connections out.\<close>

definition load_secret_binding :: "'a tele_host_scheme \<Rightarrow> tele_scope \<Rightarrow> string \<Rightarrow> tele_db \<Rightarrow> secret_binding option tele" where
  "load_secret_binding H sc cid s =
     bindE (require_uuid H cid ''telemetry_connection_id_invalid'') (\<lambda>i.
     (case find_conn s sc i of
        None \<Rightarrow> Inr None
      | Some c \<Rightarrow> if cn_archived_at c \<noteq> None then Inr None
          else Inr (next_or (\<lambda>x. sb_scope x = sc \<and> sb_connection x = i) (td_bindings s))))"

definition resolve_internal_secret_reference ::
  "'a tele_host_scheme \<Rightarrow> tele_scope \<Rightarrow> string \<Rightarrow> tele_db \<Rightarrow> (string \<times> string \<times> string option) tele" where
  "resolve_internal_secret_reference H sc cid s =
     bindE (load_secret_binding H sc cid s) (\<lambda>b.
     (case b of
        None \<Rightarrow> Inl (RepositoryError ''telemetry_secret_binding_not_found'')
      | Some x \<Rightarrow> Inr (sb_provider x, sb_reference x, if sb_version x = Some [] then None else sb_version x)))"

end
