(* ===== verification/Telemetry_Queue.thy ===== *)
theory Telemetry_Queue
  imports Telemetry_Store
begin

text \<open>
  The ingestion queue of \<^verbatim>\<open>services/telemetry_repository.py\<close>: claiming due work under a lease,
  renewing and releasing leases, the checkpoints with their compare-and-swap revision, the ends of a run
  (continuation, completion, failure with a bounded backoff), scheduling, backfills and retries.

  \<open>now\<close> is the worker's clock and \<open>db\<close> the database's. The rows that other transactions hold locked,
  which \<open>SKIP LOCKED\<close> passes over, are the argument \<open>locked\<close>. An identifier read back from a UUID column is
  in the canonical spelling, so checking it again with \<open>_require_uuid\<close> is the identity.
\<close>

subsection \<open>Choosing the row to work on\<close>

fun least_by :: "('a \<Rightarrow> 'k::linorder) \<Rightarrow> 'a list \<Rightarrow> 'a option" where
  "least_by key [] = None"
| "least_by key (x # xs) = (case least_by key xs of None \<Rightarrow> Some x | Some y \<Rightarrow> if key y < key x then Some y else Some x)"

definition bounded_lease :: "int \<Rightarrow> int" where
  "bounded_lease seconds = min (max seconds 30) 3600"

definition lease_until :: "timestamp \<Rightarrow> int \<Rightarrow> timestamp" where
  "lease_until now seconds = now + bounded_lease seconds * 1000000"

definition lease_free :: "timestamp \<Rightarrow> connection \<Rightarrow> bool" where
  "lease_free now c = (case cn_lease c of None \<Rightarrow> True | Some l \<Rightarrow> ls_expires l \<le> now)"

definition due :: "timestamp \<Rightarrow> connection \<Rightarrow> bool" where
  "due now c = (cn_enabled c \<and> cn_archived_at c = None \<and> lease_free now c
     \<and> (case cn_next_attempt c of None \<Rightarrow> False | Some t \<Rightarrow> t \<le> now))"

definition WORK_MODES :: "run_mode list" where
  "WORK_MODES = [IncrementalRun, BackfillRun, RetryRun]"

definition active :: "run \<Rightarrow> bool" where
  "active r = (rn_status r = Pending \<or> rn_status r = Running)"

definition open_runs :: "tele_db \<Rightarrow> connection \<Rightarrow> run list" where
  "open_runs s c = filter (\<lambda>r. rn_scope r = cn_scope c \<and> rn_connection r = cn_id c \<and> rn_mode r \<in> set WORK_MODES \<and> active r)
     (td_runs s)"

definition pending_run :: "tele_db \<Rightarrow> connection \<Rightarrow> run option" where
  "pending_run s c = least_by (\<lambda>r. (rn_status r \<noteq> Running, rn_created_at r, rn_id r)) (open_runs s c)"

definition due_candidate :: "string set \<Rightarrow> timestamp \<Rightarrow> tele_db \<Rightarrow> connection option" where
  "due_candidate locked now s =
     least_by (\<lambda>c. (pending_run s c = None, (case cn_next_attempt c of None \<Rightarrow> now | Some t \<Rightarrow> t), cn_id c))
       (filter (\<lambda>c. due now c \<and> cn_id c \<notin> locked) (td_connections s))"

subsection \<open>Claims\<close>

text \<open>A row whose scope is malformed is disabled and the search goes on, 32 times at most.\<close>

definition quarantine :: "timestamp \<Rightarrow> string \<Rightarrow> tele_db \<Rightarrow> tele_db" where
  "quarantine db i s = s\<lparr>td_connections := upd (\<lambda>c. cn_id c = i \<and> cn_enabled c)
     (\<lambda>c. c\<lparr>cn_enabled := False, cn_status := Errored, cn_error_code := Some ''telemetry_scope_invalid'',
            cn_error_summary := Some ''Connection requires scope remediation.'', cn_lease := None, cn_updated_at := db\<rparr>)
     (td_connections s)\<rparr>"

fun claim_scan ::
  "nat \<Rightarrow> 'a tele_host_scheme \<Rightarrow> string set \<Rightarrow> timestamp \<Rightarrow> timestamp \<Rightarrow> tele_db
   \<Rightarrow> (tele_db \<times> (connection \<times> tele_scope) option) tele" where
  "claim_scan 0 H locked now db s = Inr (s, None)"
| "claim_scan (Suc n) H locked now db s =
     (case due_candidate locked now s of
        None \<Rightarrow> Inr (s, None)
      | Some c \<Rightarrow>
        (case TelemetryScopeRef H (cn_scope c) of
           Inr sc \<Rightarrow> Inr (s, Some (c, sc))
         | Inl _ \<Rightarrow> claim_scan n H locked now db (quarantine db (cn_id c) s)))"

record work =
  wk_connection_row :: connection
  wk_scope :: tele_scope
  wk_connection :: string
  wk_run :: string
  wk_mode :: run_mode
  wk_checkpoint_mode :: checkpoint_mode
  wk_range_start :: "timestamp option"
  wk_range_end :: "timestamp option"
  wk_token :: string
  wk_expires :: timestamp

definition blank_run :: "string \<Rightarrow> tele_scope \<Rightarrow> string \<Rightarrow> run_mode \<Rightarrow> run_status \<Rightarrow> timestamp \<Rightarrow> timestamp \<Rightarrow> run" where
  "blank_run r sc i mode status started db = \<lparr>rn_id = r, rn_scope = sc, rn_connection = i, rn_mode = mode, rn_status = status,
     rn_token = None, rn_range_start = None, rn_range_end = None, rn_started = started, rn_finished = None, rn_attempts = 0,
     rn_retries = 0, rn_pages = 0, rn_received = 0, rn_accepted = 0, rn_rejected = 0, rn_duplicate = 0, rn_out_of_order = 0,
     rn_latency = None, rn_before_digest = None, rn_after_digest = None, rn_error_code = None, rn_error_summary = None,
     rn_actor = None, rn_worker = None, rn_source_run = None, rn_created_at = db, rn_updated_at = db\<rparr>"

text \<open>The primary key and the partial unique indexes of \<open>ingestion_runs\<close>.\<close>

definition bounded_run :: "run \<Rightarrow> bool" where
  "bounded_run r = (rn_mode r = BackfillRun \<or> (rn_mode r = RetryRun \<and> rn_range_start r \<noteq> None))"

definition same_connection :: "run \<Rightarrow> run \<Rightarrow> bool" where
  "same_connection r x = (ts_resource (rn_scope x) = ts_resource (rn_scope r) \<and> rn_connection x = rn_connection r)"

definition run_conflict :: "run \<Rightarrow> tele_db \<Rightarrow> bool" where
  "run_conflict r s = list_ex (\<lambda>x. rn_id x = rn_id r
       \<or> (same_connection r x \<and> active r \<and> active x \<and> bounded_run r \<and> bounded_run x)
       \<or> (same_connection r x \<and> active r \<and> active x \<and> rn_mode r = RetryRun \<and> rn_mode x = RetryRun
          \<and> rn_source_run r \<noteq> None \<and> rn_source_run x = rn_source_run r)) (td_runs s)"

definition insert_run :: "run \<Rightarrow> tele_db \<Rightarrow> tele_db tele" where
  "insert_run r s = (if run_conflict r s then Inl (DatabaseError ''unique_violation'')
     else Inr (s\<lparr>td_runs := td_runs s @ [r]\<rparr>))"

definition lease_connection ::
  "string \<Rightarrow> string \<Rightarrow> timestamp \<Rightarrow> int \<Rightarrow> connection \<Rightarrow> connection" where
  "lease_connection worker token now seconds c = c\<lparr>cn_lease := Some \<lparr>ls_owner = worker, ls_token = token,
     ls_expires = lease_until now seconds\<rparr>, cn_last_attempt := Some now, cn_updated_at := now\<rparr>"

definition start_run :: "string \<Rightarrow> string \<Rightarrow> timestamp \<Rightarrow> run \<Rightarrow> run" where
  "start_run worker token now r = r\<lparr>rn_status := Running, rn_token := Some token, rn_worker := Some worker,
     rn_started := now, rn_attempts := rn_attempts r + 1, rn_updated_at := now\<rparr>"

definition claimed_run ::
  "'a tele_host_scheme \<Rightarrow> timestamp \<Rightarrow> timestamp \<Rightarrow> tele_scope \<Rightarrow> string \<Rightarrow> string \<Rightarrow> string \<Rightarrow> run option \<Rightarrow> tele_db
   \<Rightarrow> (tele_db \<times> string \<times> run_mode) tele" where
  "claimed_run H now db sc i worker token p s =
     (case p of
        Some r \<Rightarrow>
          let rid = rn_id r in
          if \<not> list_ex (\<lambda>x. run_at sc i rid x \<and> rn_mode x \<in> set WORK_MODES \<and> active x) (td_runs s)
          then Inl (LeaseLost ''telemetry_backfill_claim_lost'')
          else Inr (set_run sc i rid (\<lambda>x. if rn_mode x \<in> set WORK_MODES \<and> active x then start_run worker token now x else x) s,
                    rid, rn_mode r)
      | None \<Rightarrow>
          let rid = th_uuid4 H (td_drawn s);
              fresh = blank_run rid sc i IncrementalRun Running now db in
          bindE (insert_run (fresh\<lparr>rn_token := Some token, rn_attempts := 1, rn_worker := Some worker\<rparr>)
                   (s\<lparr>td_drawn := Suc (td_drawn s)\<rparr>)) (\<lambda>s1.
          Inr (s1, rid, IncrementalRun)))"

text \<open>The claim of the row the scan found: its lease, then its run.\<close>

definition take_claim ::
  "'a tele_host_scheme \<Rightarrow> timestamp \<Rightarrow> timestamp \<Rightarrow> string \<Rightarrow> string \<Rightarrow> int \<Rightarrow> connection \<Rightarrow> tele_scope \<Rightarrow> tele_db
   \<Rightarrow> (tele_db \<times> work option) tele" where
  "take_claim H now db worker token seconds c sc s1 =
     (let i = cn_id c in
      case find_conn s1 sc i of
        None \<Rightarrow> Inl (LeaseLost ''telemetry_connection_claim_lost'')
      | Some row \<Rightarrow>
        if \<not> cn_enabled row \<or> cn_archived_at row \<noteq> None then Inl (LeaseLost ''telemetry_connection_claim_lost'')
        else
          let p = pending_run s1 c;
              s2 = set_conn sc i (lease_connection worker token now seconds) s1 in
          bindE (claimed_run H now db sc i worker token p s2) (\<lambda>(s3, rid, mode).
          let rs = (case p of None \<Rightarrow> None | Some r \<Rightarrow> rn_range_start r);
              re = (case p of None \<Rightarrow> None | Some r \<Rightarrow> rn_range_end r) in
          Inr (s3, Some \<lparr>wk_connection_row = c, wk_scope = sc, wk_connection = i, wk_run = rid, wk_mode = mode,
                 wk_checkpoint_mode = (if rs \<noteq> None \<and> re \<noteq> None then CkBackfill else CkIncremental),
                 wk_range_start = rs, wk_range_end = re, wk_token = token, wk_expires = lease_until now seconds\<rparr>)))"

definition claim_next_due_work ::
  "'a tele_host_scheme \<Rightarrow> string set \<Rightarrow> timestamp \<Rightarrow> string \<Rightarrow> timestamp \<Rightarrow> int \<Rightarrow> tele_db \<Rightarrow> (tele_db \<times> work option) tele" where
  "claim_next_due_work H locked db worker now seconds s =
     bindE (require_public_identifier worker ''telemetry_worker_id_invalid'') (\<lambda>worker.
     let token = th_uuid4 H (td_drawn s) in
     bindE (claim_scan 32 H locked now db (s\<lparr>td_drawn := Suc (td_drawn s)\<rparr>)) (\<lambda>(s1, found).
     case found of
       None \<Rightarrow> Inr (s1, None)
     | Some (c, sc) \<Rightarrow> take_claim H now db worker token seconds c sc s1))"

text \<open>The claim of one scope's due connection, without a run.\<close>

definition claim_due_connection ::
  "'a tele_host_scheme \<Rightarrow> string set \<Rightarrow> tele_scope \<Rightarrow> string \<Rightarrow> int \<Rightarrow> timestamp \<Rightarrow> tele_db
   \<Rightarrow> (tele_db \<times> connection option) tele" where
  "claim_due_connection H locked sc worker seconds now s0 =
     bindE (require_identifier worker ''telemetry_worker_id_required'') (\<lambda>worker.
     let token = th_uuid4 H (td_drawn s0); s = s0\<lparr>td_drawn := Suc (td_drawn s0)\<rparr> in
     (case least_by (\<lambda>c. ((case cn_next_attempt c of None \<Rightarrow> now | Some t \<Rightarrow> t), cn_id c))
             (filter (\<lambda>c. cn_scope c = sc \<and> due now c \<and> cn_id c \<notin> locked) (td_connections s)) of
        None \<Rightarrow> Inr (s, None)
      | Some c \<Rightarrow>
          let s1 = set_conn sc (cn_id c) (lease_connection worker token now seconds) s in
          Inr (s1, find_conn s1 sc (cn_id c))))"

subsection \<open>Holding a lease\<close>

definition renew_lease ::
  "'a tele_host_scheme \<Rightarrow> tele_scope \<Rightarrow> string \<Rightarrow> string \<Rightarrow> int \<Rightarrow> timestamp \<Rightarrow> tele_db \<Rightarrow> (tele_db \<times> bool) tele" where
  "renew_lease H sc cid token seconds now s =
     bindE (require_identifier cid ''telemetry_connection_id_required'') (\<lambda>cid.
     bindE (require_identifier token ''telemetry_lease_token_required'') (\<lambda>token.
     bindE (cast_uuid H cid) (\<lambda>i.
     bindE (cast_uuid H token) (\<lambda>t.
     let held = (\<lambda>c. conn_at sc i c \<and> (case cn_lease c of None \<Rightarrow> False | Some l \<Rightarrow> ls_token l = t \<and> now < ls_expires l)) in
     Inr (s\<lparr>td_connections := upd held (\<lambda>c. c\<lparr>cn_lease := map_option (\<lambda>l. l\<lparr>ls_expires := lease_until now seconds\<rparr>) (cn_lease c),
              cn_updated_at := now\<rparr>) (td_connections s)\<rparr>,
          list_ex held (td_connections s))))))"

definition release_lease ::
  "'a tele_host_scheme \<Rightarrow> timestamp \<Rightarrow> tele_scope \<Rightarrow> string \<Rightarrow> string \<Rightarrow> timestamp option \<Rightarrow> tele_db \<Rightarrow> (tele_db \<times> bool) tele" where
  "release_lease H db sc cid token next s =
     bindE (require_identifier cid ''telemetry_connection_id_required'') (\<lambda>cid.
     bindE (require_identifier token ''telemetry_lease_token_required'') (\<lambda>token.
     bindE (cast_uuid H cid) (\<lambda>i.
     bindE (cast_uuid H token) (\<lambda>t.
     let held = (\<lambda>c. conn_at sc i c \<and> lease_token c = Some t) in
     Inr (s\<lparr>td_connections := upd held (\<lambda>c. c\<lparr>cn_lease := None, cn_next_attempt := next, cn_updated_at := db\<rparr>) (td_connections s)\<rparr>,
          list_ex held (td_connections s))))))"

text \<open>The lease and the running run a worker must hold to write, \<open>SELECT ... FOR UPDATE OF c, r\<close>.\<close>

definition holds_run :: "tele_scope \<Rightarrow> string \<Rightarrow> string \<Rightarrow> string \<Rightarrow> tele_db \<Rightarrow> bool" where
  "holds_run sc i r t s = (list_ex (\<lambda>c. conn_at sc i c \<and> lease_token c = Some t) (td_connections s)
     \<and> list_ex (\<lambda>x. run_at sc i r x \<and> rn_status x = Running \<and> rn_token x = Some t) (td_runs s))"

definition lease_live :: "timestamp \<Rightarrow> tele_scope \<Rightarrow> string \<Rightarrow> string \<Rightarrow> tele_db \<Rightarrow> bool" where
  "lease_live db sc i t s = list_ex (\<lambda>c. conn_at sc i c
     \<and> (case cn_lease c of None \<Rightarrow> False | Some l \<Rightarrow> ls_token l = t \<and> db < ls_expires l)) (td_connections s)"

record mapping_view =
  mv_row :: mapping_row
  mv_tag :: string
  mv_dimension :: "string option"

record snapshot =
  sn_connection :: connection
  sn_scope :: tele_scope
  sn_run :: run
  sn_mappings :: "mapping_view list"
  sn_checkpoint :: checkpoint

definition checkpoint_at :: "tele_scope \<Rightarrow> string \<Rightarrow> checkpoint_mode \<Rightarrow> checkpoint \<Rightarrow> bool" where
  "checkpoint_at sc i m k = (ck_scope k = sc \<and> ck_connection k = i \<and> ck_mode k = m)"

definition get_checkpoint ::
  "'a tele_host_scheme \<Rightarrow> tele_scope \<Rightarrow> string \<Rightarrow> checkpoint_mode \<Rightarrow> tele_db \<Rightarrow> checkpoint option tele" where
  "get_checkpoint H sc cid m s =
     bindE (require_identifier cid ''telemetry_connection_id_required'') (\<lambda>cid.
     bindE (cast_uuid H cid) (\<lambda>i. Inr (next_or (checkpoint_at sc i m) (td_checkpoints s))))"

definition no_checkpoint :: "tele_scope \<Rightarrow> string \<Rightarrow> checkpoint_mode \<Rightarrow> checkpoint" where
  "no_checkpoint sc i m = \<lparr>ck_scope = sc, ck_connection = i, ck_mode = m, ck_cursor = [], ck_high_water = None,
     ck_revision = 0, ck_run = None, ck_updated_at = 0\<rparr>"

definition mapping_views :: "tele_scope \<Rightarrow> string \<Rightarrow> tele_db \<Rightarrow> mapping_view list" where
  "mapping_views sc i s =
     sort_key (\<lambda>v. (mv_tag v, mp_id (mv_row v)))
       (concat (map (\<lambda>m. concat (map (\<lambda>g.
            if mp_scope m = sc \<and> mp_connection m = i \<and> mp_enabled m \<and> sg_scope g = mp_scope m \<and> sg_connection g = mp_connection m
               \<and> sg_id g = mp_signal m \<and> sg_enabled g \<and> sg_mapping_status g = Mapped
            then (case map_of (td_concepts s) (mp_concept m) of None \<Rightarrow> []
                  | Some d \<Rightarrow> [\<lparr>mv_row = m, mv_tag = sg_tag g, mv_dimension = Some d\<rparr>])
            else []) (td_signals s))) (td_mappings s)))"

definition load_ingestion_snapshot ::
  "'a tele_host_scheme \<Rightarrow> timestamp \<Rightarrow> tele_scope \<Rightarrow> string \<Rightarrow> string \<Rightarrow> string \<Rightarrow> checkpoint_mode \<Rightarrow> tele_db \<Rightarrow> snapshot tele" where
  "load_ingestion_snapshot H db sc cid rid token m s =
     bindE (require_uuid H cid ''telemetry_connection_id_invalid'') (\<lambda>i.
     bindE (require_uuid H rid ''telemetry_ingestion_run_id_invalid'') (\<lambda>r.
     bindE (require_uuid H token ''telemetry_lease_token_invalid'') (\<lambda>t.
     (case (find_conn s sc i, next_or (run_at sc i r) (td_runs s)) of
        (Some c, Some x) \<Rightarrow>
          if holds_run sc i r t s \<and> lease_live db sc i t s
          then Inr \<lparr>sn_connection = c, sn_scope = sc, sn_run = x, sn_mappings = mapping_views sc i s,
                 sn_checkpoint = (case next_or (checkpoint_at sc i m) (td_checkpoints s) of
                    None \<Rightarrow> no_checkpoint sc i m | Some k \<Rightarrow> k)\<rparr>
          else Inl (LeaseLost ''telemetry_connection_lease_lost'')
      | _ \<Rightarrow> Inl (LeaseLost ''telemetry_connection_lease_lost'')))))"

end
