(* ===== verification/Telemetry_Runs.thy ===== *)
theory Telemetry_Runs
  imports Telemetry_Queue
begin

text \<open>
  The life of an ingestion run, \<^verbatim>\<open>services/telemetry_repository.py\<close>: the page a worker persists with its
  checkpoint in one transaction, and the four ends of a claim: continuation, completion, failure with
  a bounded backoff, and the requests that make a connection due (schedule, backfill, retry).

  \<open>pg_nonfinite\<close> says that the original value of some rejection is a NaN or an infinity. \<open>json.dumps\<close> writes it
  as a token that is not JSON, and the cast to \<open>JSONB\<close> fails; the model's own row keeps null in its place.

  \<open>ON CONFLICT DO NOTHING\<close> skips a row that violates a unique index, also one the same statement inserted;
  \<open>ON CONFLICT DO UPDATE\<close> fails when it would touch one row twice.
\<close>

subsection \<open>Checkpoints\<close>

definition put_checkpoint ::
  "timestamp \<Rightarrow> tele_scope \<Rightarrow> string \<Rightarrow> checkpoint_mode \<Rightarrow> int \<Rightarrow> jdict \<Rightarrow> timestamp option \<Rightarrow> string \<Rightarrow> checkpoint list
   \<Rightarrow> (checkpoint list \<times> int) option" where
  "put_checkpoint db sc i m expected cursor high rid ks =
     (if expected = 0
      then if list_ex (\<lambda>k. ts_resource (ck_scope k) = ts_resource sc \<and> ck_connection k = i \<and> ck_mode k = m) ks then None
           else Some (ks @ [\<lparr>ck_scope = sc, ck_connection = i, ck_mode = m, ck_cursor = cursor, ck_high_water = high,
                  ck_revision = 1, ck_run = Some rid, ck_updated_at = db\<rparr>], 1)
      else
        let hit = (\<lambda>k. checkpoint_at sc i m k \<and> ck_revision k = expected) in
        if list_ex hit ks
        then Some (upd hit (\<lambda>k. k\<lparr>ck_cursor := cursor, ck_high_water := high, ck_revision := ck_revision k + 1,
                     ck_run := Some rid, ck_updated_at := db\<rparr>) ks, expected + 1)
        else None)"

definition advance_checkpoint ::
  "'a tele_host_scheme \<Rightarrow> timestamp \<Rightarrow> tele_scope \<Rightarrow> string \<Rightarrow> checkpoint_mode \<Rightarrow> int \<Rightarrow> jdict \<Rightarrow> timestamp option \<Rightarrow> string \<Rightarrow> string
   \<Rightarrow> tele_db \<Rightarrow> (tele_db \<times> int) tele" where
  "advance_checkpoint H db sc cid m expected cursor high rid token s =
     bindE (safe_json H ''telemetry_checkpoint_cursor_invalid'' False cursor) (\<lambda>cursor.
     bindE (require_identifier cid ''telemetry_connection_id_required'') (\<lambda>cid.
     bindE (require_identifier rid ''telemetry_ingestion_run_id_required'') (\<lambda>rid.
     bindE (require_identifier token ''telemetry_lease_token_required'') (\<lambda>token.
     if expected < 0 then Inl (TeleValueError ''telemetry_checkpoint_revision_invalid'')
     else bindE (cast_uuid H cid) (\<lambda>i.
     bindE (cast_uuid H token) (\<lambda>t.
     if \<not> lease_live db sc i t s then Inl (LeaseLost ''telemetry_connection_lease_lost'')
     else bindE (cast_uuid H rid) (\<lambda>r.
     (case put_checkpoint db sc i m expected cursor high r (td_checkpoints s) of
        None \<Rightarrow> Inl (CheckpointConflict ''telemetry_checkpoint_revision_conflict'')
      | Some (ks, revision) \<Rightarrow>
          if \<not> list_ex (\<lambda>x. rn_scope x = sc \<and> rn_id x = r) (td_runs s) then Inl (DatabaseError ''updated_run_id'')
          else Inr (s\<lparr>td_checkpoints := ks\<rparr>, revision)))))))))"

definition drop_backfill_checkpoint :: "tele_scope \<Rightarrow> string \<Rightarrow> tele_db \<Rightarrow> tele_db" where
  "drop_backfill_checkpoint sc i s = s\<lparr>td_checkpoints := filter (\<lambda>k. \<not> checkpoint_at sc i CkBackfill k) (td_checkpoints s)\<rparr>"

subsection \<open>A page\<close>

record page_host = repo_host +
  th_observation_bytes :: "page_observation list \<Rightarrow> nat"
  th_rejection_bytes :: "page_rejection list \<Rightarrow> nat"

record page =
  pg_mode :: checkpoint_mode
  pg_expected :: int
  pg_cursor :: jdict
  pg_high_water :: "timestamp option"
  pg_observations :: "page_observation list"
  pg_rejections :: "page_rejection list"
  pg_received :: "int option"
  pg_before :: "string option"
  pg_after :: "string option"
  pg_nonfinite :: bool

definition hex_digest :: "string \<Rightarrow> bool" where
  "hex_digest s = (length s = 64 \<and> list_all (\<lambda>c. lower_alnum c \<and> (of_char c :: int) \<le> 102) s)"

definition prepare_observation :: "'a tele_host_scheme \<Rightarrow> page_observation \<Rightarrow> page_observation tele" where
  "prepare_observation H x =
     bindE (require_uuid H (ob_id x) ''telemetry_observation_identifier_invalid'') (\<lambda>a.
     bindE (require_uuid H (ob_signal x) ''telemetry_observation_identifier_invalid'') (\<lambda>b.
     bindE (require_uuid H (ob_mapping x) ''telemetry_observation_identifier_invalid'') (\<lambda>c.
     bindE (require_uuid H (ob_concept x) ''telemetry_observation_identifier_invalid'') (\<lambda>d.
     Inr (x\<lparr>ob_id := a, ob_signal := b, ob_mapping := c, ob_concept := d,
        ob_metadata := (case sanitize_public (JObj (ob_metadata x)) of JObj m \<Rightarrow> m | _ \<Rightarrow> [])\<rparr>)))))"

definition prepare_rejection :: "'a tele_host_scheme \<Rightarrow> page_rejection \<Rightarrow> page_rejection tele" where
  "prepare_rejection H x =
     bindE (require_uuid H (rj_id x) ''telemetry_rejection_id_invalid'') (\<lambda>a.
     bindE (require_identifier (rj_digest x) ''telemetry_rejection_digest_required'') (\<lambda>g.
     bindE (require_public_identifier (rj_reason x) ''telemetry_rejection_reason_invalid'') (\<lambda>n.
     if rj_disposition x \<notin> {Duplicate, Quarantined, Rejected}
     then Inl (TeleValueError ''telemetry_rejection_disposition_invalid'')
     else Inr (x\<lparr>rj_id := a, rj_digest := g, rj_reason := n,
        rj_quality := (if rj_disposition x = Duplicate then FormatInvalid else rj_quality x),
        rj_context := (case sanitize_public (JObj (rj_context x)) of JObj m \<Rightarrow> m | _ \<Rightarrow> [])\<rparr>))))"

text \<open>The mapping row an observation claims to have been made with.\<close>

definition unit_text :: "string \<Rightarrow> string" where
  "unit_text s = lower (rev (dropWhile (\<lambda>c. c = CHR '' '') (rev (dropWhile (\<lambda>c. c = CHR '' '') s))))"

definition snapshot_matches :: "tele_scope \<Rightarrow> string \<Rightarrow> page_observation \<Rightarrow> mapping_row \<Rightarrow> bool" where
  "snapshot_matches sc i x m = (mp_scope m = sc \<and> mp_connection m = i \<and> mp_id m = ob_mapping x \<and> mp_signal m = ob_signal x
     \<and> mp_revision m = ob_mapping_revision x \<and> mp_enabled m \<and> mp_system m = ob_system x \<and> mp_concept m = ob_concept x
     \<and> mp_signal_name m = ob_signal_name x \<and> mp_mapped_by m = ob_actor x \<and> mp_mapped_at m = ob_mapped_at x
     \<and> mp_authority_digest m = ob_authority_digest x \<and> mp_provenance m = ob_provenance x
     \<and> (case ob_original_unit x of None \<Rightarrow> True | Some u \<Rightarrow> unit_text u = unit_text (mp_source_unit m))
     \<and> mp_canonical_unit m = ob_canonical_unit x \<and> mp_conversion_id m = ob_conversion_id x
     \<and> mp_conversion_version m = ob_conversion_version x \<and> mp_timezone m = ob_timezone x)"

definition stored :: "tele_scope \<Rightarrow> string \<Rightarrow> string \<Rightarrow> page_observation \<Rightarrow> observation" where
  "stored sc i r x = page_observation.extend x \<lparr>so_scope = sc, so_connection = i, so_run = r\<rparr>"

text \<open>The unique indexes of \<open>normalized_observations\<close>: identifier, source record and provider event.\<close>

definition observation_conflict :: "observation \<Rightarrow> observation \<Rightarrow> bool" where
  "observation_conflict x y = (ob_id x = ob_id y
     \<or> (ts_resource (so_scope x) = ts_resource (so_scope y) \<and> so_connection x = so_connection y
        \<and> (ob_signal x = ob_signal y \<and> ob_digest x = ob_digest y
           \<or> ob_event x \<noteq> None \<and> ob_event x = ob_event y)))"

fun insert_observations ::
  "observation list \<Rightarrow> observation list \<Rightarrow> observation list \<times> observation list" where
  "insert_observations ys [] = (ys, [])"
| "insert_observations ys (x # xs) =
     (if list_ex (observation_conflict x) ys then insert_observations ys xs
      else (case insert_observations (ys @ [x]) xs of (zs, new) \<Rightarrow> (zs, x # new)))"

definition duplicate_rejection :: "string \<Rightarrow> page_observation \<Rightarrow> page_rejection" where
  "duplicate_rejection i x = \<lparr>rj_id = i, rj_signal = Some (ob_signal x), rj_tag = Some (ob_tag x), rj_event = None,
     rj_mapping = None, rj_timestamp_raw = Some (ob_timestamp_raw x), rj_digest = ob_digest x, rj_original_value = JNull,
     rj_original_unit = None, rj_reported_quality = None, rj_quality = FormatInvalid, rj_reason = ''duplicate_observation'',
     rj_disposition = Duplicate, rj_context = []\<rparr>"

text \<open>One rejection per prepared observation whose digest was not inserted, under fresh identifiers.\<close>

fun duplicates_of :: "(nat \<Rightarrow> string) \<Rightarrow> nat \<Rightarrow> string set \<Rightarrow> page_observation list \<Rightarrow> page_rejection list" where
  "duplicates_of draw n digests [] = []"
| "duplicates_of draw n digests (x # xs) =
     (if ob_digest x \<in> digests then duplicates_of draw n digests xs
      else duplicate_rejection (draw n) x # duplicates_of draw (Suc n) digests xs)"

type_synonym rejection_key = "string \<times> string \<times> string \<times> string"

definition rejection_key :: "rejection \<Rightarrow> rejection_key" where
  "rejection_key x = (ts_resource (sr_scope x), sr_connection x, rj_digest x, rj_reason x)"

definition fresh_rejection :: "timestamp \<Rightarrow> tele_scope \<Rightarrow> string \<Rightarrow> string \<Rightarrow> page_rejection \<Rightarrow> rejection" where
  "fresh_rejection db sc i r x = page_rejection.extend x \<lparr>sr_scope = sc, sr_connection = i, sr_run = r, sr_occurrences = 1,
     sr_first_seen = db, sr_last_seen = db\<rparr>"

definition seen_again :: "timestamp \<Rightarrow> rejection \<Rightarrow> rejection \<Rightarrow> rejection" where
  "seen_again db x old = old\<lparr>sr_run := sr_run x, rj_disposition := rj_disposition x, rj_event := rj_event x,
     rj_mapping := rj_mapping x, rj_original_value := rj_original_value x, rj_original_unit := rj_original_unit x,
     rj_reported_quality := rj_reported_quality x, rj_context := rj_context x,
     sr_occurrences := sr_occurrences old + 1, sr_last_seen := db\<rparr>"

definition rejection_valid :: "tele_db \<Rightarrow> rejection \<Rightarrow> bool" where
  "rejection_valid s x = (rj_quality x \<noteq> Good
     \<and> (case rj_signal x of None \<Rightarrow> True | Some g \<Rightarrow> list_ex (\<lambda>y. sg_scope y = sr_scope x \<and> sg_id y = g) (td_signals s)))"

fun upsert_rejections ::
  "tele_db \<Rightarrow> timestamp \<Rightarrow> rejection_key list \<Rightarrow> rejection list \<Rightarrow> rejection list \<Rightarrow> rejection list tele" where
  "upsert_rejections s db touched ys [] = Inr ys"
| "upsert_rejections s db touched ys (x # xs) =
     (let k = rejection_key x in
      if k \<in> set touched then Inl (DatabaseError ''cardinality_violation'')
      else if \<not> rejection_valid s x then Inl (DatabaseError ''rejection_constraint'')
      else if list_ex (\<lambda>y. rejection_key y = k) ys
      then upsert_rejections s db (k # touched) (upd (\<lambda>y. rejection_key y = k) (seen_again db x) ys) xs
      else if list_ex (\<lambda>y. rj_id y = rj_id x) ys then Inl (DatabaseError ''unique_violation'')
      else upsert_rejections s db (k # touched) (ys @ [x]) xs)"

text \<open>The newest observation a run stored of each signal dates the signal and gives its quality.\<close>

definition newest_of :: "tele_scope \<Rightarrow> string \<Rightarrow> string \<Rightarrow> observation list \<Rightarrow> observation option" where
  "newest_of sc r g obs = least_by (\<lambda>ob. - ob_observed_at ob)
     (filter (\<lambda>ob. ts_resource (so_scope ob) = ts_resource sc \<and> so_run ob = r \<and> ob_signal ob = g) obs)"

definition date_signals :: "timestamp \<Rightarrow> tele_scope \<Rightarrow> string \<Rightarrow> string \<Rightarrow> observation list \<Rightarrow> signal list \<Rightarrow> signal list" where
  "date_signals db sc i r obs gs = map (\<lambda>g. case newest_of sc r (sg_id g) obs of
       None \<Rightarrow> g
     | Some ob \<Rightarrow> if sg_scope g = sc \<and> sg_connection g = i
         then g\<lparr>sg_last_observed := Some (ob_observed_at ob), sg_quality := Some (ob_quality ob), sg_updated_at := db\<rparr> else g) gs"

record page_counts =
  pc_revision :: int
  pc_accepted :: nat
  pc_rejected :: nat
  pc_duplicate :: nat
  pc_out_of_order :: nat

definition count_page :: "page \<Rightarrow> int \<Rightarrow> page_counts \<Rightarrow> timestamp \<Rightarrow> run \<Rightarrow> run" where
  "count_page p received n db r = r\<lparr>rn_pages := rn_pages r + 1, rn_received := rn_received r + received,
     rn_accepted := rn_accepted r + int (pc_accepted n), rn_rejected := rn_rejected r + int (pc_rejected n),
     rn_duplicate := rn_duplicate r + int (pc_duplicate n), rn_out_of_order := rn_out_of_order r + int (pc_out_of_order n),
     rn_before_digest := coalesce (rn_before_digest r) (pg_before p),
     rn_after_digest := coalesce (pg_after p) (rn_after_digest r), rn_updated_at := db\<rparr>"

text \<open>The checks of a page, before the transaction.\<close>

definition check_page ::
  "'a page_host_scheme \<Rightarrow> page \<Rightarrow> (page_observation list \<times> page_rejection list \<times> jdict) tele" where
  "check_page H p =
     (if pg_expected p < 0 then Inl (TeleValueError ''telemetry_checkpoint_revision_invalid'')
     else if int (length (pg_observations p)) > 5000 \<or> int (length (pg_rejections p)) > 5000
     then Inl (TeleValueError ''telemetry_ingestion_page_too_large'')
     else if \<not> list_all (\<lambda>d. case d of None \<Rightarrow> True | Some g \<Rightarrow> hex_digest g) [pg_before p, pg_after p]
     then Inl (TeleValueError ''telemetry_checkpoint_digest_invalid'')
     else bindE (mapE (prepare_observation H) (pg_observations p)) (\<lambda>obs.
     bindE (mapE (prepare_rejection H) (pg_rejections p)) (\<lambda>rejs.
     if int (th_observation_bytes H obs) > 8388608 then Inl (TeleValueError ''telemetry_observation_contract_invalid'')
     else bindE (safe_json H ''telemetry_checkpoint_cursor_invalid'' False (pg_cursor p)) (\<lambda>cursor.
     Inr (obs, rejs, cursor)))))"

definition received_count :: "page \<Rightarrow> int" where
  "received_count p = (case pg_received p of None \<Rightarrow> int (length (pg_observations p) + length (pg_rejections p)) | Some n \<Rightarrow> n)"

text \<open>The transaction: the lease, the mapping rows, the rows of the page, the checkpoint, the counters.\<close>

definition write_page ::
  "'a page_host_scheme \<Rightarrow> timestamp \<Rightarrow> tele_scope \<Rightarrow> string \<Rightarrow> string \<Rightarrow> string \<Rightarrow> page \<Rightarrow> page_observation list
   \<Rightarrow> page_rejection list \<Rightarrow> jdict \<Rightarrow> tele_db \<Rightarrow> (tele_db \<times> page_counts) tele" where
  "write_page H db sc i r t p obs rejs cursor s =
     (if \<not> (holds_run sc i r t s \<and> lease_live db sc i t s) then Inl (LeaseLost ''telemetry_connection_lease_lost'')
     else if \<not> list_all (\<lambda>x. list_ex (snapshot_matches sc i x) (td_mappings s)) obs
     then Inl (MappingConflict ''telemetry_ingestion_mapping_snapshot_conflict'')
     else
       let inserted = insert_observations (td_observations s) (map (stored sc i r) obs);
           all_obs = fst inserted; new = snd inserted;
           dups = duplicates_of (th_uuid4 H) (td_drawn s) (ob_digest ` set new) obs;
           all_rejs = rejs @ dups in
       if int (th_rejection_bytes H all_rejs) > 8388608 \<or> int (length all_rejs) > 5000
       then Inl (TeleValueError ''telemetry_rejection_contract_invalid'')
       else if pg_nonfinite p then Inl (DatabaseError ''invalid_text_representation'')
       else bindE (upsert_rejections s db [] (td_rejections s) (map (fresh_rejection db sc i r) all_rejs)) (\<lambda>stored_rejs.
       (case put_checkpoint db sc i (pg_mode p) (pg_expected p) cursor (pg_high_water p) r (td_checkpoints s) of
          None \<Rightarrow> Inl (CheckpointConflict ''telemetry_checkpoint_revision_conflict'')
        | Some (ks, revision) \<Rightarrow>
          let n = \<lparr>pc_revision = revision, pc_accepted = length new, pc_rejected = length all_rejs - length dups,
                   pc_duplicate = length dups,
                   pc_out_of_order = length (filter (\<lambda>ob. ob_disposition ob = OutOfOrderAccepted) new)\<rparr> in
          if received_count p < 0 then Inl (TeleValueError ''telemetry_ingestion_received_count_invalid'')
          else Inr ((set_run sc i r (\<lambda>x. if rn_status x = Running \<and> rn_token x = Some t then count_page p (received_count p) n db x else x) s)
                 \<lparr>td_observations := all_obs, td_rejections := stored_rejs,
                  td_signals := (if new = [] then td_signals s else date_signals db sc i r all_obs (td_signals s)),
                  td_checkpoints := ks, td_drawn := td_drawn s + length dups\<rparr>, n))))"

definition persist_ingestion_page ::
  "'a page_host_scheme \<Rightarrow> timestamp \<Rightarrow> tele_scope \<Rightarrow> string \<Rightarrow> string \<Rightarrow> string \<Rightarrow> page \<Rightarrow> tele_db \<Rightarrow> (tele_db \<times> page_counts) tele" where
  "persist_ingestion_page H db sc cid rid token p s =
     bindE (require_uuid H cid ''telemetry_connection_id_invalid'') (\<lambda>i.
     bindE (require_uuid H rid ''telemetry_ingestion_run_id_invalid'') (\<lambda>r.
     bindE (require_uuid H token ''telemetry_lease_token_invalid'') (\<lambda>t.
     bindE (check_page H p) (\<lambda>(obs, rejs, cursor). write_page H db sc i r t p obs rejs cursor s))))"

subsection \<open>The ends of a claim\<close>

text \<open>The two updates every end makes, of the running run and of the leased connection, or the lease is lost.\<close>

definition end_claim ::
  "tele_scope \<Rightarrow> string \<Rightarrow> string \<Rightarrow> string \<Rightarrow> (run \<Rightarrow> run) \<Rightarrow> (connection \<Rightarrow> connection) \<Rightarrow> tele_db \<Rightarrow> tele_db tele" where
  "end_claim sc i r t f g s =
     (if \<not> list_ex (\<lambda>x. run_at sc i r x \<and> rn_status x = Running \<and> rn_token x = Some t) (td_runs s)
      then Inl (LeaseLost ''telemetry_ingestion_run_lease_lost'')
      else if \<not> list_ex (\<lambda>c. conn_at sc i c \<and> lease_token c = Some t) (td_connections s)
      then Inl (LeaseLost ''telemetry_connection_lease_lost'')
      else Inr (s\<lparr>td_runs := upd (\<lambda>x. run_at sc i r x \<and> rn_status x = Running \<and> rn_token x = Some t) f (td_runs s),
             td_connections := upd (\<lambda>c. conn_at sc i c \<and> lease_token c = Some t) g (td_connections s)\<rparr>))"

definition continue_ingestion_work ::
  "'a tele_host_scheme \<Rightarrow> tele_scope \<Rightarrow> string \<Rightarrow> string \<Rightarrow> string \<Rightarrow> timestamp \<Rightarrow> timestamp \<Rightarrow> tele_db \<Rightarrow> tele_db tele" where
  "continue_ingestion_work H sc cid rid token continued next s =
     bindE (require_uuid H cid ''telemetry_connection_id_invalid'') (\<lambda>i.
     bindE (require_uuid H rid ''telemetry_ingestion_run_id_invalid'') (\<lambda>r.
     bindE (require_uuid H token ''telemetry_lease_token_invalid'') (\<lambda>t.
     if next < continued then Inl (TeleValueError ''telemetry_ingestion_schedule_invalid'')
     else end_claim sc i r t
       (\<lambda>x. x\<lparr>rn_status := Pending, rn_token := None, rn_worker := None, rn_updated_at := continued\<rparr>)
       (\<lambda>c. c\<lparr>cn_lease := None, cn_next_attempt := Some next, cn_updated_at := continued\<rparr>) s)))"

text \<open>\<open>LEAST(2147483647, GREATEST(0, FLOOR(EXTRACT(EPOCH FROM (t - started)) * 1000)))\<close>\<close>

definition latency_ms :: "timestamp \<Rightarrow> timestamp \<Rightarrow> int" where
  "latency_ms t started = min 2147483647 (max 0 ((t - started) div 1000))"

definition range_run :: "run \<Rightarrow> bool" where
  "range_run x = (rn_mode x = BackfillRun \<or> (rn_mode x = RetryRun \<and> rn_range_start x \<noteq> None))"

definition audit_actor :: "run \<Rightarrow> string" where
  "audit_actor x = (case coalesce (rn_actor x) (rn_worker x) of None \<Rightarrow> ''telemetry-worker'' | Some a \<Rightarrow> a)"

definition counter_detail :: "run \<Rightarrow> jdict" where
  "counter_detail x = [(''pages_processed'', JInt (rn_pages x)), (''observations_received'', JInt (rn_received x)),
     (''observations_accepted'', JInt (rn_accepted x)), (''observations_rejected'', JInt (rn_rejected x)),
     (''observations_duplicate'', JInt (rn_duplicate x))]"

definition completed_status :: "bool \<Rightarrow> run \<Rightarrow> run_status" where
  "completed_status partial x = (if partial \<or> 0 < rn_rejected x then Partial else Succeeded)"

definition complete_connection :: "timestamp \<Rightarrow> timestamp option \<Rightarrow> run_status \<Rightarrow> connection \<Rightarrow> connection" where
  "complete_connection completed next status c = c\<lparr>cn_lease := None, cn_retry_count := 0, cn_next_attempt := next,
     cn_last_success := (if next \<noteq> None then Some completed else cn_last_success c),
     cn_error_code := None, cn_error_summary := None,
     cn_status := (if status = Partial then Degraded
        else if next \<noteq> None \<and> cn_status c \<in> {Validating, Degraded, Disconnected, Errored} then Connected else cn_status c),
     cn_updated_at := completed\<rparr>"

definition complete_run :: "timestamp \<Rightarrow> run_status \<Rightarrow> run \<Rightarrow> run" where
  "complete_run completed status x = x\<lparr>rn_status := status, rn_finished := Some completed, rn_error_code := None,
     rn_error_summary := None, rn_latency := Some (latency_ms completed (rn_started x)), rn_updated_at := completed\<rparr>"

text \<open>The audit event of a range that ended.\<close>

definition audit_range ::
  "'a tele_host_scheme \<Rightarrow> timestamp \<Rightarrow> tele_scope \<Rightarrow> string \<Rightarrow> run \<Rightarrow> bool \<Rightarrow> string \<Rightarrow> jdict \<Rightarrow> tele_db \<Rightarrow> tele_db tele" where
  "audit_range H db sc i x ended action detail s =
     (if ended \<and> range_run x then audit H db sc i (audit_actor x) action (detail @ counter_detail x) s else Inr s)"

definition complete_ingestion_work ::
  "'a tele_host_scheme \<Rightarrow> timestamp \<Rightarrow> tele_scope \<Rightarrow> string \<Rightarrow> string \<Rightarrow> string \<Rightarrow> timestamp \<Rightarrow> timestamp option \<Rightarrow> bool \<Rightarrow> tele_db
   \<Rightarrow> (tele_db \<times> run_status) tele" where
  "complete_ingestion_work H db sc cid rid token completed next partial s =
     bindE (require_uuid H cid ''telemetry_connection_id_invalid'') (\<lambda>i.
     bindE (require_uuid H rid ''telemetry_ingestion_run_id_invalid'') (\<lambda>r.
     bindE (require_uuid H token ''telemetry_lease_token_invalid'') (\<lambda>t.
     if (case next of None \<Rightarrow> False | Some n \<Rightarrow> n < completed) then Inl (TeleValueError ''telemetry_ingestion_schedule_invalid'')
     else (case next_or (\<lambda>x. run_at sc i r x \<and> rn_status x = Running \<and> rn_token x = Some t) (td_runs s) of
         None \<Rightarrow> Inl (LeaseLost ''telemetry_ingestion_run_lease_lost'')
       | Some x \<Rightarrow>
         let status = completed_status partial x in
         bindE (end_claim sc i r t (complete_run completed status) (complete_connection completed next status) s) (\<lambda>s1.
         bindE (audit_range H db sc i x True ''backfill_completed''
           [(''run_id'', JStr r), (''status'', JStr (if status = Partial then ''partial'' else ''succeeded''))] s1) (\<lambda>s2.
         Inr (s2, status)))))))"

text \<open>Full jitter within an exponential window that is capped, never below a second or above a day.\<close>

definition backoff_seconds :: "int \<Rightarrow> rat \<Rightarrow> rat option \<Rightarrow> int" where
  "backoff_seconds prior jitter retry_after =
     (let cap = min (30 * 2 ^ nat (min prior 7)) 3600;
          jitter_delay = max 1 \<lceil>fl (of_int cap * jitter)\<rceil>;
          after = (case retry_after of None \<Rightarrow> 0 | Some a \<Rightarrow> min (max (trunc a) 1) 86400)
      in min (max jitter_delay after) 86400)"

definition fail_run :: "timestamp \<Rightarrow> string \<Rightarrow> string option \<Rightarrow> int \<Rightarrow> bool \<Rightarrow> run \<Rightarrow> run" where
  "fail_run failed code summary retries exhausted x = x\<lparr>rn_status := (if exhausted then RunFailed else Pending),
     rn_finished := (if exhausted then Some failed else None), rn_retries := retries, rn_error_code := Some code,
     rn_error_summary := summary,
     rn_latency := (if exhausted then Some (latency_ms failed (rn_started x)) else rn_latency x),
     rn_token := None, rn_worker := None, rn_updated_at := failed\<rparr>"

definition fail_connection ::
  "timestamp \<Rightarrow> string \<Rightarrow> string option \<Rightarrow> int \<Rightarrow> bool \<Rightarrow> timestamp option \<Rightarrow> connection \<Rightarrow> connection" where
  "fail_connection failed code summary retries exhausted next c = c\<lparr>cn_lease := None, cn_retry_count := retries,
     cn_next_attempt := next, cn_error_code := Some code, cn_error_summary := summary,
     cn_status := (if exhausted then Errored else Degraded), cn_updated_at := failed\<rparr>"

definition retry_count_after :: "connection \<Rightarrow> int" where
  "retry_count_after c = min (cn_retry_count c + 1) 10"

definition exhausted_after :: "bool \<Rightarrow> connection \<Rightarrow> bool" where
  "exhausted_after retryable c = (\<not> retryable \<or> 10 \<le> retry_count_after c)"

definition record_ingestion_failure ::
  "'a tele_host_scheme \<Rightarrow> timestamp \<Rightarrow> tele_scope \<Rightarrow> string \<Rightarrow> string \<Rightarrow> string \<Rightarrow> timestamp \<Rightarrow> string \<Rightarrow> string option \<Rightarrow> bool
   \<Rightarrow> rat option \<Rightarrow> rat \<Rightarrow> tele_db \<Rightarrow> (tele_db \<times> run_status) tele" where
  "record_ingestion_failure H db sc cid rid token failed code summary retryable retry_after jitter s =
     bindE (require_uuid H cid ''telemetry_connection_id_invalid'') (\<lambda>i.
     bindE (require_uuid H rid ''telemetry_ingestion_run_id_invalid'') (\<lambda>r.
     bindE (require_uuid H token ''telemetry_lease_token_invalid'') (\<lambda>t.
     bindE (safe_error_fields code summary) (\<lambda>(code, summary).
     (case (next_or (\<lambda>c. conn_at sc i c \<and> lease_token c = Some t) (td_connections s),
            next_or (\<lambda>x. run_at sc i r x \<and> rn_status x = Running \<and> rn_token x = Some t) (td_runs s)) of
        (Some c, Some x) \<Rightarrow>
          let retries = retry_count_after c; exhausted = exhausted_after retryable c;
              next = (if exhausted then None else Some (failed
                + backoff_seconds (cn_retry_count c) (min (max jitter 0) 1) retry_after * 1000000)) in
          bindE (end_claim sc i r t (fail_run failed code summary retries exhausted)
                   (fail_connection failed code summary retries exhausted next) s) (\<lambda>s1.
          bindE (audit_range H db sc i x exhausted ''backfill_failed''
                   [(''run_id'', JStr r), (''status'', JStr ''failed''), (''error_code'', JStr code)] s1) (\<lambda>s2.
          Inr (s2, if exhausted then RunFailed else Pending)))
      | _ \<Rightarrow> Inl (LeaseLost ''telemetry_ingestion_run_lease_lost''))))))"

subsection \<open>Making a connection due\<close>

definition schedule_connection_now ::
  "'a tele_host_scheme \<Rightarrow> timestamp \<Rightarrow> tele_scope \<Rightarrow> string \<Rightarrow> timestamp \<Rightarrow> tele_db \<Rightarrow> (tele_db \<times> bool) tele" where
  "schedule_connection_now H db sc cid requested s =
     bindE (require_uuid H cid ''telemetry_connection_id_invalid'') (\<lambda>i.
     let open_conn = (\<lambda>c. conn_at sc i c \<and> cn_enabled c \<and> cn_archived_at c = None) in
     Inr (s\<lparr>td_connections := upd open_conn (\<lambda>c. c\<lparr>cn_next_attempt := Some requested, cn_retry_count := 0, cn_updated_at := db\<rparr>)
              (td_connections s)\<rparr>, list_ex open_conn (td_connections s)))"

definition make_due :: "timestamp \<Rightarrow> tele_scope \<Rightarrow> string \<Rightarrow> timestamp \<Rightarrow> tele_db \<Rightarrow> tele_db" where
  "make_due db sc i requested = set_conn sc i (\<lambda>c. c\<lparr>cn_next_attempt := Some requested, cn_retry_count := 0, cn_updated_at := db\<rparr>)"

definition require_actor :: "string \<Rightarrow> string \<Rightarrow> string tele" where
  "require_actor actor code = bindE (require_identifier actor code) (\<lambda>a. if length a > 320 then Inl (TeleValueError code) else Inr a)"

definition open_connection :: "tele_db \<Rightarrow> tele_scope \<Rightarrow> string \<Rightarrow> bool" where
  "open_connection s sc i = (case find_conn s sc i of None \<Rightarrow> False | Some c \<Rightarrow> cn_enabled c \<and> cn_archived_at c = None)"

definition create_backfill_run ::
  "'a tele_host_scheme \<Rightarrow> timestamp \<Rightarrow> tele_scope \<Rightarrow> string \<Rightarrow> string \<Rightarrow> timestamp \<Rightarrow> timestamp \<Rightarrow> string \<Rightarrow> timestamp \<Rightarrow> tele_db
   \<Rightarrow> (tele_db \<times> run) tele" where
  "create_backfill_run H db sc rid cid rs re actor requested s =
     bindE (require_uuid H rid ''telemetry_ingestion_run_id_invalid'') (\<lambda>r.
     bindE (require_uuid H cid ''telemetry_connection_id_invalid'') (\<lambda>i.
     bindE (require_actor actor ''telemetry_backfill_actor_invalid'') (\<lambda>actor.
     if re \<le> rs \<or> re - rs > 31 * 86400000000 then Inl (TeleValueError ''telemetry_backfill_range_invalid'')
     else if \<not> open_connection s sc i then Inl (RepositoryError ''telemetry_connection_not_found'')
     else
       let x = (blank_run r sc i BackfillRun Pending requested db)
                 \<lparr>rn_range_start := Some rs, rn_range_end := Some re, rn_actor := Some actor\<rparr> in
       (case insert_run x s of
          Inl _ \<Rightarrow> Inl (RepositoryError ''telemetry_backfill_already_active'')
        | Inr s1 \<Rightarrow>
            bindE (audit H db sc i actor ''backfill_started''
              [(''run_id'', JStr r), (''range_start'', JTime rs), (''range_end'', JTime re)]
              (make_due db sc i requested (drop_backfill_checkpoint sc i s1))) (\<lambda>s2. Inr (s2, x))))))"

definition retry_ingestion_run ::
  "'a tele_host_scheme \<Rightarrow> timestamp \<Rightarrow> tele_scope \<Rightarrow> string \<Rightarrow> string \<Rightarrow> timestamp \<Rightarrow> string option \<Rightarrow> tele_db \<Rightarrow> (tele_db \<times> run) tele" where
  "retry_ingestion_run H db sc rid actor requested new_id s0 =
     bindE (require_uuid H rid ''telemetry_ingestion_run_id_invalid'') (\<lambda>src.
     let fresh = (case new_id of None \<Rightarrow> True | Some x \<Rightarrow> x = []);
         s = (if fresh then s0\<lparr>td_drawn := Suc (td_drawn s0)\<rparr> else s0) in
     bindE (require_uuid H (if fresh then th_uuid4 H (td_drawn s0) else the new_id) ''telemetry_ingestion_run_id_invalid'') (\<lambda>r.
     bindE (require_actor actor ''telemetry_ingestion_retry_actor_invalid'') (\<lambda>actor.
     (case next_or (\<lambda>x. rn_scope x = sc \<and> rn_id x = src \<and> rn_mode x \<in> set WORK_MODES \<and> rn_status x \<in> {RunFailed, Partial}
             \<and> open_connection s sc (rn_connection x)) (td_runs s) of
        None \<Rightarrow> Inl (RepositoryError ''telemetry_ingestion_run_not_retryable'')
      | Some ob \<Rightarrow>
        let i = rn_connection ob;
            x = (blank_run r sc i RetryRun Pending requested db)
                  \<lparr>rn_range_start := rn_range_start ob, rn_range_end := rn_range_end ob, rn_actor := Some actor,
                   rn_source_run := Some src\<rparr> in
        (case insert_run x s of
           Inl _ \<Rightarrow> Inl (RepositoryError ''telemetry_retry_already_active'')
         | Inr s1 \<Rightarrow>
             bindE (audit H db sc i actor ''ingestion_retry_requested''
               [(''source_run_id'', JStr src), (''retry_run_id'', JStr r)]
               (make_due db sc i requested (if rn_range_start ob \<noteq> None then drop_backfill_checkpoint sc i s1 else s1)))
               (\<lambda>s2. Inr (s2, x)))))))"

end
