(* ===== verification/Telemetry_Timestamps.thy ===== *)
theory Telemetry_Timestamps
  imports Telemetry_Units
begin

text \<open>
  Source timestamps, \<^verbatim>\<open>services/telemetry_timestamps.py\<close>: the instant a provider's timestamp denotes and how
  it is ordered against the checkpoint.

  A wall-clock reading is an \<open>int\<close> of microseconds as an instant is. A zone of the IANA database, data that is
  not in the repository, is two functions: the offset of a wall time under either fold, which
  \<open>replace(tzinfo=zone, fold=late)\<close> gives it, and the offset in force at an instant, which \<open>astimezone\<close>
  uses. \<open>ih_iso\<close> is \<open>datetime.fromisoformat\<close>, \<open>None\<close> when it raises. Dates whose conversion leaves the
  calendar are not modelled.
\<close>

record zone =
  zn_wall_offset :: "int \<Rightarrow> bool \<Rightarrow> int"
  zn_offset :: "timestamp \<Rightarrow> int"

record clock_host =
  ih_iso :: "string \<Rightarrow> moment option"
  ih_zone :: "string \<Rightarrow> zone option"
  ih_float_str :: "pyfloat \<Rightarrow> string"

record timestamp_result =
  tr_status :: string
  tr_quality :: quality_state
  tr_disposition :: disposition
  tr_eligible :: bool
  tr_reason :: "string option"
  tr_raw :: string
  tr_timezone :: "string option"
  tr_offset :: "string option"
  tr_observed_at :: "timestamp option"
  tr_version :: string

definition TIMESTAMP_NORMALIZATION_VERSION :: string where
  "TIMESTAMP_NORMALIZATION_VERSION = ''neraium.telemetry.timestamps/v1''"

text \<open>\<open>DEFAULT_FUTURE_TOLERANCE\<close>, five minutes.\<close>

definition FUTURE_TOLERANCE :: int where "FUTURE_TOLERANCE = 300000000"

definition raw_text :: "'a clock_host_scheme \<Rightarrow> scalar \<Rightarrow> string" where
  "raw_text C v = (case v of
       SStr s \<Rightarrow> s
     | SDatetime d \<Rightarrow> dt_iso d
     | SNone \<Rightarrow> ''None''
     | SBool b \<Rightarrow> (if b then ''True'' else ''False'')
     | SInt i \<Rightarrow> str_of_int i
     | SFloat x \<Rightarrow> ih_float_str C x
     | SDecimal s \<Rightarrow> s
     | SOther _ s \<Rightarrow> s)"

text \<open>\<open>Z\<close> or \<open>[+-]dd:dd(:dd(.d+)?)?\<close>, the whole of a string.\<close>

definition two_digits :: "string \<Rightarrow> bool" where
  "two_digits cs = (length cs = 2 \<and> list_all digit_char cs)"

definition clock_suffix :: "string \<Rightarrow> bool" where
  "clock_suffix cs = (cs = [] \<or> (take 1 cs = '':'' \<and> two_digits (take 2 (drop 1 cs))
     \<and> (let rest = drop 3 cs in rest = [] \<or> (take 1 rest = ''.'' \<and> drop 1 rest \<noteq> [] \<and> list_all digit_char (drop 1 rest)))))"

definition is_offset :: "string \<Rightarrow> bool" where
  "is_offset cs = (lower cs = ''z'' \<or> (take 1 cs \<in> {''+'', ''-''} \<and> two_digits (take 2 (drop 1 cs))
     \<and> take 1 (drop 3 cs) = '':'' \<and> two_digits (take 2 (drop 4 cs)) \<and> clock_suffix (drop 6 cs)))"

text \<open>\<open>_OFFSET_SUFFIX.search\<close>: the longest suffix of that form.\<close>

fun search_offset :: "string \<Rightarrow> string option" where
  "search_offset [] = None"
| "search_offset (c # cs) = (if is_offset (c # cs) then Some (c # cs) else search_offset cs)"

definition two_places :: "int \<Rightarrow> string" where
  "two_places n = (if n < 10 then ''0'' @ str_of_int n else str_of_int n)"

definition format_offset :: "int \<Rightarrow> string" where
  "format_offset off =
     (let seconds = (if 0 \<le> off then off div 1000000 else - ((- off) div 1000000)); n = \<bar>seconds\<bar> in
      (if 0 \<le> seconds then ''+'' else ''-'') @ two_places (n div 3600) @ '':'' @ two_places (n mod 3600 div 60)
        @ (if n mod 60 \<noteq> 0 then '':'' @ two_places (n mod 60) else []))"

text \<open>\<open>replace("Z", "+00:00").replace("z", "+00:00")\<close>\<close>

fun spell_zulu :: "string \<Rightarrow> string" where
  "spell_zulu [] = []"
| "spell_zulu (c # cs) = (if c = CHR ''Z'' \<or> c = CHR ''z'' then ''+00:00'' @ spell_zulu cs else c # spell_zulu cs)"

definition iana_zone :: "'a clock_host_scheme \<Rightarrow> string option \<Rightarrow> zone option" where
  "iana_zone C name = (case name of None \<Rightarrow> None | Some n \<Rightarrow> if strip n = [] then None else ih_zone C (strip n))"

subsection \<open>Wall times\<close>

text \<open>The instant a wall time denotes under a fold, with the offset in force.\<close>

definition instant_of_wall :: "zone \<Rightarrow> int \<Rightarrow> bool \<Rightarrow> timestamp \<times> int" where
  "instant_of_wall Z w late = (w - zn_wall_offset Z w late, zn_wall_offset Z w late)"

definition round_trips :: "zone \<Rightarrow> int \<Rightarrow> timestamp \<times> int \<Rightarrow> bool" where
  "round_trips Z w p = (fst p + zn_offset Z (fst p) = w)"

definition localize_naive :: "int \<Rightarrow> zone \<Rightarrow> (string, timestamp \<times> int) res" where
  "localize_naive w Z =
     (let candidates = filter (round_trips Z w) (map (instant_of_wall Z w) [False, True]) in
      case candidates of
        [] \<Rightarrow> Inl ''timestamp_dst_nonexistent''
      | p # ps \<Rightarrow> if 1 < length (remdups (map snd candidates)) then Inl ''timestamp_dst_ambiguous'' else Inr p)"

text \<open>What \<open>zoneinfo\<close> documents: the offset in force at an instant is that of its wall time under one of the folds.\<close>

definition zone_law :: "zone \<Rightarrow> bool" where
  "zone_law Z = (\<forall>u. \<exists>late. zn_wall_offset Z (u + zn_offset Z u) late = zn_offset Z u)"

subsection \<open>Normalisation\<close>

definition timestamp_invalid :: "string \<Rightarrow> string option \<Rightarrow> string option \<Rightarrow> string \<Rightarrow> timestamp_result" where
  "timestamp_invalid raw tz off reason =
     \<lparr>tr_status = ''timestamp_invalid'', tr_quality = TimestampInvalid, tr_disposition = Rejected, tr_eligible = False,
      tr_reason = Some reason, tr_raw = raw, tr_timezone = tz, tr_offset = off, tr_observed_at = None,
      tr_version = TIMESTAMP_NORMALIZATION_VERSION\<rparr>"

definition source_zone :: "scalar \<Rightarrow> string option \<Rightarrow> string option" where
  "source_zone v tz =
     (case tz of
        Some t \<Rightarrow> if t = [] then (case v of SDatetime d \<Rightarrow> dt_zone_key d | _ \<Rightarrow> None) else Some (strip t)
      | None \<Rightarrow> (case v of SDatetime d \<Rightarrow> dt_zone_key d | _ \<Rightarrow> None))"

definition parse_moment :: "'a clock_host_scheme \<Rightarrow> scalar \<Rightarrow> (string, moment) res" where
  "parse_moment C v = (case v of
       SDatetime d \<Rightarrow> Inr (dt_moment d)
     | SStr s \<Rightarrow> (case ih_iso C (spell_zulu (strip s)) of None \<Rightarrow> Inl ''timestamp_parse_invalid'' | Some m \<Rightarrow> Inr m)
     | _ \<Rightarrow> Inl ''timestamp_type_invalid'')"

definition resolve_moment :: "zone option \<Rightarrow> moment \<Rightarrow> (string, timestamp \<times> int) res" where
  "resolve_moment Z m = (case m of
       Aware u off \<Rightarrow> Inr (u, off)
     | Naive w \<Rightarrow> (case Z of None \<Rightarrow> Inl ''source_timezone_required'' | Some z \<Rightarrow> localize_naive w z))"

text \<open>The instant, its offset and its zone, or the reason it has none with the zone and offset reported.\<close>

definition source_instant ::
  "'a clock_host_scheme \<Rightarrow> scalar \<Rightarrow> string option \<Rightarrow> (timestamp_result, timestamp \<times> int \<times> string option) res" where
  "source_instant C v tz =
     (let raw = raw_text C v; raw_offset = search_offset (strip raw); name = source_zone v tz; Z = iana_zone C name in
      if name \<noteq> None \<and> name \<noteq> Some [] \<and> Z = None
      then Inl (timestamp_invalid raw name raw_offset ''source_timezone_invalid'')
      else (case parse_moment C v of
          Inl reason \<Rightarrow> Inl (timestamp_invalid raw name raw_offset reason)
        | Inr m \<Rightarrow>
          (case resolve_moment Z m of
             Inl reason \<Rightarrow> Inl (timestamp_invalid raw name None reason)
           | Inr (u, off) \<Rightarrow> Inr (u, off, name))))"

definition order_of :: "timestamp \<Rightarrow> timestamp list \<Rightarrow> timestamp option \<Rightarrow> disposition \<times> bool \<times> string option" where
  "order_of u seen high =
     (if u \<in> set seen then (Duplicate, False, Some ''timestamp_duplicate'')
      else if (case high of None \<Rightarrow> False | Some h \<Rightarrow> u < h) then (OutOfOrderAccepted, True, Some ''timestamp_out_of_order'')
      else (Accepted, True, None))"

definition normalize_telemetry_timestamp ::
  "'a clock_host_scheme \<Rightarrow> scalar \<Rightarrow> string option \<Rightarrow> timestamp \<Rightarrow> int \<Rightarrow> timestamp option \<Rightarrow> timestamp list
   \<Rightarrow> timestamp_result tele" where
  "normalize_telemetry_timestamp C v tz now tolerance high seen =
     (case source_instant C v tz of
        Inl r \<Rightarrow> Inr r
      | Inr (u, off, name) \<Rightarrow>
          let raw = raw_text C v;
              shown = (case search_offset (strip raw) of None \<Rightarrow> Some (format_offset off) | Some t \<Rightarrow> Some t) in
          if tolerance < 0 then Inl (TeleValueError ''future_tolerance must not be negative'')
          else if u > now + tolerance then Inr (timestamp_invalid raw name shown ''timestamp_future'')
          else (case order_of u seen high of (d, eligible, reason) \<Rightarrow>
            Inr \<lparr>tr_status = ''normalized'', tr_quality = Good, tr_disposition = d, tr_eligible = eligible, tr_reason = reason,
                 tr_raw = raw, tr_timezone = name, tr_offset = shown, tr_observed_at = Some u,
                 tr_version = TIMESTAMP_NORMALIZATION_VERSION\<rparr>))"

subsection \<open>Which wall times are accepted\<close>

lemma localize_cases:
  "localize_naive w Z =
     (let p = instant_of_wall Z w False; q = instant_of_wall Z w True in
      if round_trips Z w p then if round_trips Z w q \<and> snd p \<noteq> snd q then Inl ''timestamp_dst_ambiguous'' else Inr p
      else if round_trips Z w q then Inr q else Inl ''timestamp_dst_nonexistent'')"
  by (simp add: localize_naive_def Let_def)

lemma late_instant:
  assumes "zone_law Z" and "u + zn_offset Z u = w"
  shows "\<exists>late. instant_of_wall Z w late = (u, zn_offset Z u) \<and> round_trips Z w (instant_of_wall Z w late)"
proof -
  from assms obtain late where "zn_wall_offset Z w late = zn_offset Z u" unfolding zone_law_def by blast
  moreover have "w - zn_offset Z u = u" using assms(2) by simp
  ultimately have "instant_of_wall Z w late = (u, zn_offset Z u)" by (simp add: instant_of_wall_def)
  then show ?thesis using assms(2) by (auto simp: round_trips_def)
qed

lemma round_trip_instant:
  "round_trips Z w (instant_of_wall Z w late) \<Longrightarrow>
   fst (instant_of_wall Z w late) + zn_offset Z (fst (instant_of_wall Z w late)) = w
   \<and> snd (instant_of_wall Z w late) = zn_offset Z (fst (instant_of_wall Z w late))"
  by (simp add: round_trips_def instant_of_wall_def)

lemma some_fold: "(\<exists>late. P late) \<longleftrightarrow> P False \<or> P True"
  by (metis (full_types))

text \<open>
  C20. A wall time without an offset is accepted exactly when one instant of the zone shows it, and then as
  that instant with the offset in force; it is refused as nonexistent exactly when no instant shows it and as
  ambiguous exactly when several do.
\<close>

theorem wall_time_exact:
  assumes "zone_law Z"
  shows "(localize_naive w Z = Inr (u, off) \<longleftrightarrow> (\<forall>v. v + zn_offset Z v = w \<longleftrightarrow> v = u) \<and> off = zn_offset Z u)
    \<and> (localize_naive w Z = Inl ''timestamp_dst_nonexistent'' \<longleftrightarrow> (\<forall>v. v + zn_offset Z v \<noteq> w))
    \<and> (localize_naive w Z = Inl ''timestamp_dst_ambiguous'' \<longleftrightarrow> (\<exists>v v'. v \<noteq> v' \<and> v + zn_offset Z v = w \<and> v' + zn_offset Z v' = w))"
proof -
  let ?i = "instant_of_wall Z w"
  have shows': "v + zn_offset Z v = w \<longleftrightarrow> (\<exists>late. ?i late = (v, zn_offset Z v) \<and> round_trips Z w (?i late))" for v
    using late_instant [OF assms, of v w] round_trip_instant [of Z w] by (metis fst_conv)
  have pq: "?i False = ?i True" if "snd (?i False) = snd (?i True)" using that by (simp add: instant_of_wall_def)
  have sf: "snd (?i late) = zn_offset Z (fst (?i late))" if "round_trips Z w (?i late)" for late
    using round_trip_instant [OF that] by simp
  show ?thesis
    unfolding shows' localize_cases Let_def some_fold
    using pq sf [of False] sf [of True]
    by (auto split: if_splits) (metis fst_conv snd_conv prod.collapse)+
qed

text \<open>A zone with one hour of 60 microseconds: skipped at instant 1000, repeated at instant 5000.\<close>

definition demo_zone :: zone where
  "demo_zone = \<lparr>zn_wall_offset = (\<lambda>w late. if 1060 \<le> w \<and> w < 5060 \<and> (w < 5000 \<or> \<not> late) then 60 else 0),
     zn_offset = (\<lambda>u. if 1000 \<le> u \<and> u < 5000 then 60 else 0)\<rparr>"

theorem wall_time_exact_witness:
  "localize_naive 2000 demo_zone = Inr (1940, 60) \<and> localize_naive 1030 demo_zone = Inl ''timestamp_dst_nonexistent''
   \<and> localize_naive 5030 demo_zone = Inl ''timestamp_dst_ambiguous''"
proof -
  have law: "zone_law demo_zone" unfolding zone_law_def some_fold by (auto simp: demo_zone_def)
  have "\<forall>v. v + zn_offset demo_zone v = 2000 \<longleftrightarrow> v = 1940" and "(60 :: int) = zn_offset demo_zone 1940"
    by (auto simp: demo_zone_def)
  moreover have "\<forall>v. v + zn_offset demo_zone v \<noteq> 1030" by (auto simp: demo_zone_def)
  moreover have "\<exists>v v'. v \<noteq> v' \<and> v + zn_offset demo_zone v = 5030 \<and> v' + zn_offset demo_zone v' = 5030"
    by (intro exI [of _ 4970] exI [of _ 5030]) (simp add: demo_zone_def)
  ultimately show ?thesis using wall_time_exact [OF law] by blast
qed

end
