(* ===== verification/Telemetry_Ingestion.thy ===== *)
theory Telemetry_Ingestion
  imports Telemetry_Runs Telemetry_Timestamps
begin

text \<open>
  The preparation of a connector page, \<^verbatim>\<open>services/telemetry_ingestion.py\<close>, with the envelopes of
  \<^verbatim>\<open>connectors/base.py\<close>: every source record of a page becomes a prepared observation or a prepared
  rejection, decided in the order of the code with the digests and the high-water mark of the records
  before it.

  An instant is an aware datetime, so the awareness checks of the code hold by type. \<open>ih_float_hex\<close> is
  \<open>float.hex\<close>, \<open>ih_metadata_bytes\<close> the length of the canonical UTF-8 encoding of a JSON value.
\<close>

record ingest_host = clock_host +
  ih_float_hex :: "pyfloat \<Rightarrow> string"
  ih_metadata_bytes :: "json \<Rightarrow> nat"

subsection \<open>Envelopes\<close>

datatype metadata = MValue scalar | MSeq "metadata list" | MMap "(string \<times> metadata) list"

record raw_observation =
  ro_tag :: string
  ro_name :: string
  ro_timestamp :: scalar
  ro_value :: scalar
  ro_unit :: "string option"
  ro_quality :: "string option"
  ro_event :: "string option"
  ro_metadata :: "(string \<times> metadata) list"

record connector_issue =
  ci_index :: int
  ci_code :: string

record connector_checkpoint =
  cc_cursor :: "string option"
  cc_high_water :: "timestamp option"

record connector_page =
  cp_observations :: "raw_observation list"
  cp_issues :: "connector_issue list"
  cp_next :: "connector_checkpoint option"
  cp_more :: bool
  cp_pages :: int
  cp_bytes :: int
  cp_retries :: int

text \<open>What the envelope's constructor guarantees of its identifiers.\<close>

definition tag_text :: "string \<Rightarrow> bool" where
  "tag_text s = (strip s = s \<and> s \<noteq> [] \<and> int (length s) \<le> 512)"

definition short_text :: "int \<Rightarrow> string option \<Rightarrow> bool" where
  "short_text n t = (case t of None \<Rightarrow> True | Some s \<Rightarrow> int (length s) \<le> n)"

definition envelope_ok :: "raw_observation \<Rightarrow> bool" where
  "envelope_ok x = (tag_text (ro_tag x) \<and> tag_text (ro_name x) \<and> short_text 128 (ro_unit x) \<and> short_text 128 (ro_quality x)
     \<and> short_text 512 (ro_event x) \<and> length (ro_metadata x) \<le> 32)"

subsection \<open>Texts and metadata\<close>

definition required :: "int \<Rightarrow> string \<Rightarrow> string \<Rightarrow> string tele" where
  "required maximum code s =
     (if strip s = [] \<or> int (length (strip s)) > maximum then Inl (TeleValueError code) else Inr (strip s))"

definition optional :: "string \<Rightarrow> string option \<Rightarrow> string option tele" where
  "optional code v = (case v of None \<Rightarrow> Inr None | Some s \<Rightarrow> bindE (required 512 code s) (\<lambda>t. Inr (Some t)))"

definition FORBIDDEN_METADATA_KEYS :: "string list" where
  "FORBIDDEN_METADATA_KEYS = [''body'', ''cookie'', ''cookies'', ''headers'', ''http_headers'', ''log'', ''logs'', ''payload'',
     ''query'', ''query_string'', ''raw_payload'', ''request'', ''request_body'', ''request_headers'', ''response'',
     ''response_body'', ''response_headers'', ''url'']"

text \<open>\<open>_metadata_key\<close> spells keys as the credential test does.\<close>

definition metadata_key :: "string \<Rightarrow> string" where
  "metadata_key s = normalized_key s"

definition safe_key :: "string \<Rightarrow> bool" where
  "safe_key k = (metadata_key k \<noteq> [] \<and> length k \<le> 128 \<and> \<not> is_sensitive_key k
     \<and> metadata_key k \<notin> set FORBIDDEN_METADATA_KEYS)"

definition safe_scalar :: "scalar \<Rightarrow> json tele" where
  "safe_scalar v = (case v of
       SNone \<Rightarrow> Inr JNull
     | SBool b \<Rightarrow> Inr (JBool b)
     | SInt i \<Rightarrow> Inr (JInt i)
     | SStr s \<Rightarrow> if int (length s) > 2048 then Inl (TeleValueError ''source_metadata_value_too_large'') else Inr (JStr s)
     | SFloat x \<Rightarrow> (case finite_value (Some x) of
           None \<Rightarrow> Inl (TeleValueError ''source_metadata_nonfinite'') | Some r \<Rightarrow> Inr (JFloat r))
     | _ \<Rightarrow> Inl (TeleValueError ''source_metadata_type_invalid''))"

text \<open>The count of keys is threaded through the whole value; the depth is that of the nesting.\<close>

fun safe_value :: "nat \<Rightarrow> nat \<Rightarrow> metadata \<Rightarrow> (json \<times> nat) tele"
  and safe_items :: "nat \<Rightarrow> nat \<Rightarrow> (string \<times> metadata) list \<Rightarrow> (jdict \<times> nat) tele"
  and safe_elems :: "nat \<Rightarrow> nat \<Rightarrow> metadata list \<Rightarrow> (json list \<times> nat) tele" where
  "safe_value depth n (MValue v) =
     (if depth > 4 then Inl (TeleValueError ''source_metadata_too_deep'') else bindE (safe_scalar v) (\<lambda>j. Inr (j, n)))"
| "safe_value depth n (MMap kvs) =
     (if depth > 4 then Inl (TeleValueError ''source_metadata_too_deep'')
      else bindE (safe_items depth n kvs) (\<lambda>(d, m). Inr (JObj d, m)))"
| "safe_value depth n (MSeq xs) =
     (if depth > 4 then Inl (TeleValueError ''source_metadata_too_deep'')
      else if length xs > 64 then Inl (TeleValueError ''source_metadata_list_too_large'')
      else bindE (safe_elems depth n xs) (\<lambda>(ys, m). Inr (JList ys, m)))"
| "safe_items depth n [] = Inr ([], n)"
| "safe_items depth n ((k, v) # kvs) =
     (if Suc n > 32 then Inl (TeleValueError ''source_metadata_too_many_keys'')
      else if \<not> safe_key k then Inl (TeleValueError ''source_metadata_unsafe'')
      else bindE (safe_value (Suc depth) (Suc n) v) (\<lambda>(j, m).
           bindE (safe_items depth m kvs) (\<lambda>(d, l). Inr ((k, j) # d, l))))"
| "safe_elems depth n [] = Inr ([], n)"
| "safe_elems depth n (x # xs) =
     bindE (safe_value (Suc depth) n x) (\<lambda>(j, m). bindE (safe_elems depth m xs) (\<lambda>(ys, l). Inr (j # ys, l)))"

definition safe_metadata :: "'a ingest_host_scheme \<Rightarrow> (string \<times> metadata) list \<Rightarrow> jdict tele" where
  "safe_metadata C kvs = bindE (safe_items 0 0 kvs) (\<lambda>(d, _).
     if int (ih_metadata_bytes C (JObj d)) > 16384 then Inl (TeleValueError ''source_metadata_too_large'') else Inr d)"

subsection \<open>The identity of a source record\<close>

definition digest_scalar :: "'a ingest_host_scheme \<Rightarrow> scalar \<Rightarrow> json" where
  "digest_scalar C v =
     (let tagged = (\<lambda>t j. JObj [(''type'', JStr t), (''value'', j)]) in
      case v of
        SNone \<Rightarrow> tagged ''null'' JNull
      | SBool b \<Rightarrow> tagged ''bool'' (JBool b)
      | SInt i \<Rightarrow> tagged ''int'' (JStr (str_of_int i))
      | SFloat NotANumber \<Rightarrow> tagged ''float'' (JStr ''nan'')
      | SFloat (Infinite neg) \<Rightarrow> tagged ''float'' (JStr (if neg then ''-infinity'' else ''infinity''))
      | SFloat x \<Rightarrow> tagged ''float'' (JStr (ih_float_hex C x))
      | SDecimal s \<Rightarrow> tagged ''decimal'' (JStr s)
      | SDatetime d \<Rightarrow> tagged ''datetime'' (JStr (dt_iso d))
      | SStr s \<Rightarrow> tagged ''str'' (JStr s)
      | SOther t _ \<Rightarrow> tagged ''unsupported'' (JStr t))"

definition text_scalar :: "string option \<Rightarrow> scalar" where
  "text_scalar t = (case t of None \<Rightarrow> SNone | Some s \<Rightarrow> SStr s)"

definition SOURCE_RECORD_DIGEST_VERSION :: string where
  "SOURCE_RECORD_DIGEST_VERSION = ''neraium.telemetry.source-record/v1''"

definition stable_source_record_digest :: "'b tele_host_scheme \<Rightarrow> 'a ingest_host_scheme \<Rightarrow> raw_observation \<Rightarrow> string" where
  "stable_source_record_digest H C x = th_sha256 H (JObj
     [(''external_tag_id'', digest_scalar C (SStr (ro_tag x))),
      (''provider_event_id'', digest_scalar C (text_scalar (ro_event x))),
      (''raw_value'', digest_scalar C (ro_value x)),
      (''reported_quality'', digest_scalar C (text_scalar (ro_quality x))),
      (''reported_unit'', digest_scalar C (text_scalar (ro_unit x))),
      (''source_timestamp'', digest_scalar C (ro_timestamp x)),
      (''version'', JStr SOURCE_RECORD_DIGEST_VERSION)])"

subsection \<open>Mapping snapshots\<close>

record mapping_snapshot =
  ms_scope :: tele_scope
  ms_connection :: string
  ms_tag :: string
  ms_signal :: string
  ms_mapping :: string
  ms_revision :: int
  ms_actor :: string
  ms_mapped_at :: timestamp
  ms_authority_digest :: string
  ms_facility :: string
  ms_system :: string
  ms_concept :: string
  ms_signal_name :: string
  ms_source_unit :: string
  ms_canonical_unit :: string
  ms_dimension :: string
  ms_conversion_id :: string
  ms_conversion_version :: string
  ms_timezone :: string
  ms_asset :: "string option"
  ms_provenance :: string
  ms_enabled :: bool

definition MappingSnapshot :: "mapping_snapshot \<Rightarrow> mapping_snapshot tele" where
  "MappingSnapshot m =
     bindE (required 512 ''mapping_connection_id_invalid'' (ms_connection m)) (\<lambda>connection.
     bindE (required 512 ''mapping_external_tag_id_invalid'' (ms_tag m)) (\<lambda>tag.
     bindE (required 512 ''mapping_external_signal_id_invalid'' (ms_signal m)) (\<lambda>signal.
     bindE (required 512 ''mapping_mapping_id_invalid'' (ms_mapping m)) (\<lambda>mapping.
     bindE (required 512 ''mapping_actor_id_invalid'' (ms_actor m)) (\<lambda>actor.
     bindE (required 512 ''mapping_facility_id_invalid'' (ms_facility m)) (\<lambda>facility.
     bindE (required 512 ''mapping_system_id_invalid'' (ms_system m)) (\<lambda>system.
     bindE (required 512 ''mapping_canonical_signal_id_invalid'' (ms_concept m)) (\<lambda>concept.
     bindE (required 512 ''mapping_canonical_signal_name_invalid'' (ms_signal_name m)) (\<lambda>name.
     bindE (required 512 ''mapping_source_unit_invalid'' (ms_source_unit m)) (\<lambda>source.
     bindE (required 512 ''mapping_canonical_unit_invalid'' (ms_canonical_unit m)) (\<lambda>canonical.
     bindE (required 512 ''mapping_expected_dimension_invalid'' (ms_dimension m)) (\<lambda>dimension.
     bindE (required 512 ''mapping_conversion_id_invalid'' (ms_conversion_id m)) (\<lambda>conv.
     bindE (required 512 ''mapping_conversion_version_invalid'' (ms_conversion_version m)) (\<lambda>version.
     bindE (required 512 ''mapping_source_timezone_invalid'' (ms_timezone m)) (\<lambda>tz.
     bindE (required 512 ''mapping_provenance_invalid'' (ms_provenance m)) (\<lambda>provenance.
     bindE (optional ''mapping_asset_id_invalid'' (ms_asset m)) (\<lambda>asset.
     if ms_revision m < 1 then Inl (TeleValueError ''mapping_revision_invalid'')
     else if facility \<noteq> ts_facility (ms_scope m) then Inl (TeleValueError ''mapping_facility_scope_mismatch'')
     else if \<not> hex_digest (lower (strip (ms_authority_digest m))) then Inl (TeleValueError ''mapping_authority_digest_invalid'')
     else Inr (m\<lparr>ms_connection := connection, ms_tag := tag, ms_signal := signal, ms_mapping := mapping, ms_actor := actor,
        ms_facility := facility, ms_system := system, ms_concept := concept, ms_signal_name := name, ms_source_unit := source,
        ms_canonical_unit := canonical, ms_dimension := dimension, ms_conversion_id := conv, ms_conversion_version := version,
        ms_timezone := tz, ms_provenance := provenance, ms_asset := asset,
        ms_authority_digest := lower (strip (ms_authority_digest m))\<rparr>))))))))))))))))))"

subsection \<open>Prepared records\<close>

text \<open>The identifier is drawn when the record is handed to the repository; an original value is in its JSON spelling.\<close>

record prepared_observation = page_observation +
  po_scope :: tele_scope
  po_connection :: string
  po_run :: string
  po_tag_name :: string
  po_ingested_at :: timestamp
  po_reported_quality :: "string option"

record prepared_rejection =
  pr_scope :: tele_scope
  pr_connection :: string
  pr_run :: string
  pr_tag :: "string option"
  pr_signal :: "string option"
  pr_mapping :: "string option"
  pr_event :: "string option"
  pr_timestamp_raw :: "string option"
  pr_original_value :: scalar
  pr_original_unit :: "string option"
  pr_reported_quality :: "string option"
  pr_quality :: quality_state
  pr_disposition :: disposition
  pr_reason :: string
  pr_digest :: string
  pr_context :: "(string \<times> metadata) list"

text \<open>What \<open>json.dumps\<close> writes of a source scalar; a NaN or an infinity has no JSON spelling.\<close>

definition scalar_json :: "scalar \<Rightarrow> json option" where
  "scalar_json v = (case v of
       SNone \<Rightarrow> Some JNull
     | SBool b \<Rightarrow> Some (JBool b)
     | SInt i \<Rightarrow> Some (JInt i)
     | SFloat x \<Rightarrow> map_option JFloat (finite_value (Some x))
     | SDecimal s \<Rightarrow> Some (JStr s)
     | SStr s \<Rightarrow> Some (JStr s)
     | _ \<Rightarrow> None)"

text \<open>The texts an observation must have, with their error codes and greatest lengths.\<close>

definition observation_texts :: "prepared_observation \<Rightarrow> (string \<times> int \<times> string) list" where
  "observation_texts x =
     [(''prepared_observation_connection_id_invalid'', 512, po_connection x),
      (''prepared_observation_ingestion_run_id_invalid'', 512, po_run x),
      (''prepared_observation_external_signal_id_invalid'', 512, ob_signal x),
      (''prepared_observation_mapping_id_invalid'', 512, ob_mapping x),
      (''prepared_observation_mapping_actor_id_invalid'', 512, ob_actor x),
      (''prepared_observation_mapping_authority_digest_invalid'', 512, ob_authority_digest x),
      (''prepared_observation_mapping_provenance_invalid'', 512, ob_provenance x),
      (''prepared_observation_system_id_invalid'', 512, ob_system x),
      (''prepared_observation_canonical_signal_id_invalid'', 512, ob_concept x),
      (''prepared_observation_canonical_signal_name_invalid'', 512, ob_signal_name x),
      (''prepared_observation_external_tag_id_invalid'', 512, ob_tag x),
      (''prepared_observation_external_tag_name_invalid'', 512, po_tag_name x),
      (''prepared_observation_source_timestamp_raw_invalid'', 2048, ob_timestamp_raw x),
      (''prepared_observation_source_timezone_invalid'', 512, ob_timezone x),
      (''prepared_observation_timestamp_normalization_version_invalid'', 512, ob_timestamp_version x),
      (''prepared_observation_canonical_unit_invalid'', 512, ob_canonical_unit x),
      (''prepared_observation_conversion_id_invalid'', 512, ob_conversion_id x),
      (''prepared_observation_conversion_version_invalid'', 512, ob_conversion_version x)]"

definition PreparedObservation :: "'a ingest_host_scheme \<Rightarrow> prepared_observation \<Rightarrow> (string \<times> metadata) list \<Rightarrow> prepared_observation tele" where
  "PreparedObservation C x meta =
     bindE (mapE (\<lambda>(code, maximum, s). required maximum code s) (observation_texts x)) (\<lambda>_.
     if ob_mapping_revision x < 1 then Inl (TeleValueError ''prepared_observation_mapping_revision_invalid'')
     else if \<not> hex_digest (ob_authority_digest x) then Inl (TeleValueError ''prepared_observation_authority_digest_invalid'')
     else if ob_disposition x \<notin> {Accepted, OutOfOrderAccepted} then Inl (TeleValueError ''prepared_observation_disposition_invalid'')
     else if \<not> ob_eligible x then Inl (TeleValueError ''prepared_observation_must_be_analysis_eligible'')
     else if \<not> hex_digest (ob_digest x) then Inl (TeleValueError ''prepared_observation_digest_invalid'')
     else bindE (safe_metadata C meta) (\<lambda>d. Inr (x\<lparr>ob_metadata := d\<rparr>)))"

definition PreparedRejection :: "'a ingest_host_scheme \<Rightarrow> prepared_rejection \<Rightarrow> prepared_rejection tele" where
  "PreparedRejection C x =
     bindE (required 512 ''prepared_rejection_connection_id_invalid'' (pr_connection x)) (\<lambda>_.
     bindE (required 512 ''prepared_rejection_run_id_invalid'' (pr_run x)) (\<lambda>_.
     if pr_disposition x \<notin> {Duplicate, Rejected, Quarantined} then Inl (TeleValueError ''prepared_rejection_disposition_invalid'')
     else bindE (required 128 ''prepared_rejection_reason_invalid'' (pr_reason x)) (\<lambda>_.
     if \<not> hex_digest (pr_digest x) then Inl (TeleValueError ''prepared_rejection_digest_invalid'')
     else bindE (safe_metadata C (pr_context x)) (\<lambda>_. Inr x))))"

record ingest_context =
  ic_scope :: tele_scope
  ic_connection :: string
  ic_run :: string

definition bounded_original_value :: "scalar \<Rightarrow> scalar" where
  "bounded_original_value v = (case v of
       SStr s \<Rightarrow> if int (length s) \<le> 2048 then v else SNone
     | SDatetime _ \<Rightarrow> SNone
     | SOther _ _ \<Rightarrow> SNone
     | _ \<Rightarrow> v)"

definition is_source_scalar :: "scalar \<Rightarrow> bool" where
  "is_source_scalar v = (case v of SDatetime _ \<Rightarrow> False | SOther _ _ \<Rightarrow> False | _ \<Rightarrow> True)"

text \<open>A rejection of a source record; blank provider identifiers raise.\<close>

definition record_rejection ::
  "'a ingest_host_scheme \<Rightarrow> ingest_context \<Rightarrow> raw_observation \<Rightarrow> mapping_snapshot option \<Rightarrow> string \<Rightarrow> quality_state \<Rightarrow> string
   \<Rightarrow> disposition \<Rightarrow> prepared_rejection tele" where
  "record_rejection C cx x mapping digest quality reason d =
     bindE (optional ''rejection_external_tag_id_invalid'' (Some (ro_tag x))) (\<lambda>tag.
     bindE (optional ''rejection_provider_event_id_invalid'' (ro_event x)) (\<lambda>event.
     PreparedRejection C \<lparr>pr_scope = ic_scope cx, pr_connection = ic_connection cx, pr_run = ic_run cx, pr_tag = tag,
       pr_signal = map_option ms_signal mapping, pr_mapping = map_option ms_mapping mapping, pr_event = event,
       pr_timestamp_raw = Some (raw_text C (ro_timestamp x)), pr_original_value = bounded_original_value (ro_value x),
       pr_original_unit = ro_unit x, pr_reported_quality = ro_quality x, pr_quality = quality, pr_disposition = d,
       pr_reason = reason, pr_digest = digest, pr_context = []\<rparr>))"

text \<open>\<open>re.sub(r"[^a-z0-9_.-]+", "_", code.strip().lower())[:128]\<close>\<close>

definition code_char :: "char \<Rightarrow> bool" where
  "code_char c = (lower_alnum c \<or> c = CHR ''_'' \<or> c = CHR ''.'' \<or> c = CHR ''-'')"

fun squash_code :: "bool \<Rightarrow> string \<Rightarrow> string" where
  "squash_code inside [] = []"
| "squash_code inside (c # cs) = (if code_char c then c # squash_code False cs
     else if inside then squash_code True cs else CHR ''_'' # squash_code True cs)"

definition issue_code :: "connector_issue \<Rightarrow> string" where
  "issue_code issue = take 128 (squash_code False (lower (strip (ci_code issue))))"

definition issue_rejection ::
  "'b tele_host_scheme \<Rightarrow> 'a ingest_host_scheme \<Rightarrow> ingest_context \<Rightarrow> connector_issue \<Rightarrow> prepared_rejection tele" where
  "issue_rejection H C cx issue =
     PreparedRejection C \<lparr>pr_scope = ic_scope cx, pr_connection = ic_connection cx, pr_run = ic_run cx, pr_tag = None,
       pr_signal = None, pr_mapping = None, pr_event = None, pr_timestamp_raw = None, pr_original_value = SNone,
       pr_original_unit = None, pr_reported_quality = None, pr_quality = FormatInvalid, pr_disposition = Quarantined,
       pr_reason = take 128 (''connector_record_'' @ issue_code issue),
       pr_digest = th_sha256 H (JObj [(''connector_issue'', JStr (issue_code issue)), (''record_index'', JInt (ci_index issue)),
         (''version'', JStr SOURCE_RECORD_DIGEST_VERSION)]),
       pr_context = [(''connector_record_index'', MValue (SInt (ci_index issue))),
         (''connector_issue_code'', MValue (SStr (issue_code issue)))]\<rparr>"

subsection \<open>The decision on a record\<close>

definition reported_quality :: "string option \<Rightarrow> quality_state \<times> string option" where
  "reported_quality v =
     (let token = metadata_key (case v of None \<Rightarrow> [] | Some t \<Rightarrow> t) in
      if token \<in> {[], ''0'', ''good'', ''normal'', ''ok'', ''pass'', ''passed'', ''true'', ''valid''} then (Good, None)
      else if token \<in> {''old'', ''stale''} then (Stale, Some ''reported_quality_stale'')
      else if token \<in> {''missing'', ''no_data'', ''nodata'', ''offline'', ''unavailable''} then (Missing, Some ''reported_quality_missing'')
      else if token \<in> {''bad'', ''error'', ''fault'', ''invalid'', ''poor'', ''questionable'', ''suspect'', ''uncertain''}
      then (InvalidValue, Some ''reported_quality_ineligible'')
      else (FormatInvalid, Some ''reported_quality_unrecognized''))"

datatype verdict =
    Refuse "mapping_snapshot option" quality_state string disposition
  | Take mapping_snapshot timestamp_result unit_result

definition or_reason :: "string option \<Rightarrow> string \<Rightarrow> string" where
  "or_reason r dflt = (case r of None \<Rightarrow> dflt | Some t \<Rightarrow> if t = [] then dflt else t)"

record page_clock =
  pk_now :: timestamp
  pk_ingested_at :: timestamp
  pk_tolerance :: int

definition record_unit :: "mapping_snapshot \<Rightarrow> raw_observation \<Rightarrow> unit_result" where
  "record_unit m x = normalize_telemetry_unit (ro_value x)
     (case ro_unit x of None \<Rightarrow> Some (ms_source_unit m) | Some u \<Rightarrow> Some u) (Some (ms_canonical_unit m)) (Some (ms_dimension m))"

text \<open>A record that passed the checks so far, or the verdict that refuses it.\<close>

type_synonym assessment = "(verdict, mapping_snapshot \<times> timestamp_result \<times> unit_result) res"

definition assess_value :: "mapping_snapshot \<Rightarrow> timestamp_result \<Rightarrow> raw_observation \<Rightarrow> assessment" where
  "assess_value m t x =
     (if \<not> tr_eligible t then Inl (Refuse (Some m) TimestampInvalid (or_reason (tr_reason t) ''timestamp_invalid'') Rejected)
      else if \<not> is_source_scalar (ro_value x) then Inl (Refuse (Some m) InvalidValue ''value_type_invalid'' Rejected)
      else let u = record_unit m x in
        if \<not> ur_eligible u then Inl (Refuse (Some m) (ur_quality u) (or_reason (ur_reason u) ''unit_normalization_failed'') Rejected)
        else if ur_conversion_id u \<noteq> Some (ms_conversion_id m) \<or> ur_conversion_version u \<noteq> ms_conversion_version m
        then Inl (Refuse (Some m) UnitUnresolved ''reported_unit_mapping_mismatch'' Rejected)
        else Inr (m, t, u))"

definition assess ::
  "'a ingest_host_scheme \<Rightarrow> (string \<rightharpoonup> mapping_snapshot) \<Rightarrow> page_clock \<Rightarrow> timestamp option \<Rightarrow> raw_observation \<Rightarrow> assessment tele" where
  "assess C ms k high x =
     (case ms (strip (ro_tag x)) of
        None \<Rightarrow> Inr (Inl (Refuse None MappingRequired ''mapping_not_approved'' Rejected))
      | Some m \<Rightarrow>
        if \<not> ms_enabled m then Inr (Inl (Refuse (Some m) MappingRequired ''signal_disabled'' Rejected))
        else (case safe_metadata C (ro_metadata x) of
            Inl (TeleValueError code) \<Rightarrow> Inr (Inl (Refuse (Some m) FormatInvalid code Rejected))
          | Inl e \<Rightarrow> Inl e
          | Inr _ \<Rightarrow>
            (case reported_quality (ro_quality x) of
               (q, Some reason) \<Rightarrow> Inr (Inl (Refuse (Some m) q reason Rejected))
             | (_, None) \<Rightarrow>
               bindE (normalize_telemetry_timestamp C (ro_timestamp x) (Some (ms_timezone m)) (pk_now k) (pk_tolerance k) high [])
                 (\<lambda>t. Inr (assess_value m t x)))))"

definition judge ::
  "'a ingest_host_scheme \<Rightarrow> (string \<rightharpoonup> mapping_snapshot) \<Rightarrow> page_clock \<Rightarrow> string list \<Rightarrow> timestamp option \<Rightarrow> string
   \<Rightarrow> raw_observation \<Rightarrow> verdict tele" where
  "judge C ms k seen high digest x =
     bindE (assess C ms k high x) (\<lambda>r. Inr (case r of
         Inl v \<Rightarrow> v
       | Inr (m, t, u) \<Rightarrow> if digest \<in> set seen then Refuse (Some m) FormatInvalid ''source_record_duplicate'' Duplicate
           else Take m t u))"

definition accepted_observation ::
  "'a ingest_host_scheme \<Rightarrow> ingest_context \<Rightarrow> page_clock \<Rightarrow> string \<Rightarrow> raw_observation \<Rightarrow> mapping_snapshot \<Rightarrow> timestamp_result
   \<Rightarrow> unit_result \<Rightarrow> prepared_observation tele" where
  "accepted_observation C cx k digest x m t u =
     PreparedObservation C \<lparr>ob_id = [], ob_system = ms_system m, ob_asset = ms_asset m, ob_signal = ms_signal m,
       ob_mapping = ms_mapping m, ob_mapping_revision = ms_revision m, ob_concept = ms_concept m,
       ob_signal_name = ms_signal_name m, ob_tag = ro_tag x, ob_event = ro_event x, ob_timestamp_raw = tr_raw t,
       ob_timezone = or_reason (tr_timezone t) (ms_timezone m), ob_offset = tr_offset t, ob_timestamp_version = tr_version t,
       ob_observed_at = the (tr_observed_at t), ob_original_value = the (scalar_json (ro_value x)), ob_original_unit = ro_unit x,
       ob_value = the (ur_value u), ob_canonical_unit = the (ur_unit u), ob_conversion_id = the (ur_conversion_id u),
       ob_conversion_version = ur_conversion_version u, ob_quality = Good, ob_disposition = tr_disposition t,
       ob_eligible = True, ob_reasons = (case tr_reason t of None \<Rightarrow> [] | Some r \<Rightarrow> if r = [] then [] else [r]),
       ob_digest = digest, ob_metadata = [], ob_actor = ms_actor m, ob_mapped_at = ms_mapped_at m,
       ob_authority_digest = ms_authority_digest m, ob_provenance = ms_provenance m, po_scope = ic_scope cx,
       po_connection = ic_connection cx, po_run = ic_run cx, po_tag_name = ro_name x, po_ingested_at = pk_ingested_at k,
       po_reported_quality = ro_quality x\<rparr> (ro_metadata x)"

subsection \<open>The page\<close>

record page_state =
  ps_prepared :: "prepared_observation list"
  ps_rejected :: "prepared_rejection list"
  ps_seen :: "string list"
  ps_high :: "timestamp option"

definition raise_high :: "timestamp option \<Rightarrow> timestamp \<Rightarrow> timestamp option" where
  "raise_high high t = (case high of None \<Rightarrow> Some t | Some h \<Rightarrow> if t > h then Some t else high)"

text \<open>One record; a record found to be a duplicate was seen before, so noting its digest again changes nothing.\<close>

definition prepare_record ::
  "'b tele_host_scheme \<Rightarrow> 'a ingest_host_scheme \<Rightarrow> ingest_context \<Rightarrow> (string \<rightharpoonup> mapping_snapshot) \<Rightarrow> page_clock
   \<Rightarrow> raw_observation \<Rightarrow> page_state \<Rightarrow> page_state tele" where
  "prepare_record H C cx ms k x s =
     (let digest = stable_source_record_digest H C x in
      bindE (judge C ms k (ps_seen s) (ps_high s) digest x) (\<lambda>v.
      case v of
        Refuse m q reason d \<Rightarrow>
          bindE (record_rejection C cx x m digest q reason d) (\<lambda>r.
          Inr (s\<lparr>ps_rejected := ps_rejected s @ [r],
                 ps_seen := (if d = Duplicate then ps_seen s else digest # ps_seen s)\<rparr>))
      | Take m t u \<Rightarrow>
          bindE (accepted_observation C cx k digest x m t u) (\<lambda>ob.
          Inr (s\<lparr>ps_prepared := ps_prepared s @ [ob], ps_seen := digest # ps_seen s,
                 ps_high := raise_high (ps_high s) (the (tr_observed_at t))\<rparr>))))"

fun prepare_records ::
  "'b tele_host_scheme \<Rightarrow> 'a ingest_host_scheme \<Rightarrow> ingest_context \<Rightarrow> (string \<rightharpoonup> mapping_snapshot) \<Rightarrow> page_clock
   \<Rightarrow> raw_observation list \<Rightarrow> page_state \<Rightarrow> page_state tele" where
  "prepare_records H C cx ms k [] s = Inr s"
| "prepare_records H C cx ms k (x # xs) s = bindE (prepare_record H C cx ms k x s) (prepare_records H C cx ms k xs)"

record prepared_page =
  pp_observations :: "prepared_observation list"
  pp_rejections :: "prepared_rejection list"
  pp_next :: "connector_checkpoint option"
  pp_more :: bool
  pp_pages :: int
  pp_bytes :: int
  pp_retries :: int
  pp_received :: int
  pp_accepted :: int
  pp_rejected :: int
  pp_duplicate :: int
  pp_out_of_order :: int
  pp_high :: "timestamp option"

definition PreparedPage :: "prepared_page \<Rightarrow> prepared_page tele" where
  "PreparedPage p =
     (if list_ex (\<lambda>n. n < 0) [pp_pages p, pp_bytes p, pp_retries p, pp_received p, pp_accepted p, pp_rejected p,
           pp_duplicate p, pp_out_of_order p] then Inl (TeleValueError ''prepared_page_counter_invalid'')
      else if pp_accepted p \<noteq> int (length (pp_observations p)) then Inl (TeleValueError ''prepared_page_accepted_count_mismatch'')
      else if pp_rejected p + pp_duplicate p \<noteq> int (length (pp_rejections p))
      then Inl (TeleValueError ''prepared_page_rejection_count_mismatch'')
      else if pp_received p \<noteq> pp_accepted p + int (length (pp_rejections p))
      then Inl (TeleValueError ''prepared_page_received_count_mismatch'')
      else if pp_out_of_order p > pp_accepted p then Inl (TeleValueError ''prepared_page_out_of_order_count_invalid'')
      else Inr p)"

definition counted_page :: "connector_page \<Rightarrow> page_state \<Rightarrow> prepared_page tele" where
  "counted_page p s =
     (let duplicates = int (length (filter (\<lambda>r. pr_disposition r = Duplicate) (ps_rejected s))) in
      PreparedPage \<lparr>pp_observations = ps_prepared s, pp_rejections = ps_rejected s, pp_next = cp_next p, pp_more = cp_more p,
        pp_pages = cp_pages p, pp_bytes = cp_bytes p, pp_retries = cp_retries p,
        pp_received = int (length (cp_observations p)) + int (length (cp_issues p)), pp_accepted = int (length (ps_prepared s)),
        pp_rejected = int (length (ps_rejected s)) - duplicates, pp_duplicate = duplicates,
        pp_out_of_order = int (length (filter (\<lambda>ob. ob_disposition ob = OutOfOrderAccepted) (ps_prepared s))),
        pp_high = ps_high s\<rparr>)"

definition check_mapping :: "tele_scope \<Rightarrow> string \<Rightarrow> string \<times> mapping_snapshot \<Rightarrow> (string \<times> mapping_snapshot) tele" where
  "check_mapping sc cid km = (case km of (key, m) \<Rightarrow>
     if strip key \<noteq> ms_tag m then Inl (TeleValueError ''mapping_snapshot_external_tag_mismatch'')
     else if ms_scope m \<noteq> sc \<or> ms_facility m \<noteq> ts_facility sc then Inl (TeleValueError ''mapping_snapshot_scope_mismatch'')
     else if ms_connection m \<noteq> cid then Inl (TeleValueError ''mapping_snapshot_connection_mismatch'')
     else Inr (strip key, m))"

definition check_digest :: "string \<Rightarrow> string tele" where
  "check_digest d = (if hex_digest (lower (strip d)) then Inr (lower (strip d))
     else Inl (TeleValueError ''existing_source_record_digest_invalid''))"

definition prepare_connector_page ::
  "'b tele_host_scheme \<Rightarrow> 'a ingest_host_scheme \<Rightarrow> connector_page \<Rightarrow> tele_scope \<Rightarrow> string \<Rightarrow> string
   \<Rightarrow> (string \<times> mapping_snapshot) list \<Rightarrow> string list \<Rightarrow> timestamp option \<Rightarrow> page_clock \<Rightarrow> prepared_page tele" where
  "prepare_connector_page H C p sc cid rid mappings existing high k =
     bindE (required 512 ''connection_id_required'' cid) (\<lambda>cid.
     bindE (required 512 ''ingestion_run_id_required'' rid) (\<lambda>rid.
     if pk_tolerance k < 0 then Inl (TeleValueError ''future_tolerance_must_not_be_negative'')
     else bindE (mapE (check_mapping sc cid) mappings) (\<lambda>ms.
     bindE (mapE check_digest existing) (\<lambda>seen.
     let cx = \<lparr>ic_scope = sc, ic_connection = cid, ic_run = rid\<rparr> in
     bindE (mapE (issue_rejection H C cx) (cp_issues p)) (\<lambda>issues.
     bindE (prepare_records H C cx (map_of (rev ms)) k (cp_observations p)
              \<lparr>ps_prepared = [], ps_rejected = issues, ps_seen = seen, ps_high = high\<rparr>) (counted_page p))))))"

end
