(* ===== verification/Telemetry_Worker.thy ===== *)
theory Telemetry_Worker
  imports Telemetry_Ingestion
begin

text \<open>
  One iteration of the ingestion worker, \<^verbatim>\<open>services/telemetry_scheduler.py\<close>: claim due work, load its
  snapshot, fetch and prepare one page, persist it, then hand the work back: continued, completed, retried or
  failed.

  The worker runs beside others. Its transactions are numbered; \<open>we_others n\<close> is what other transactions did
  to the tables before its \<open>n\<close>-th, the renewals of its own lease guardian among them. \<open>we_db\<close> and \<open>we_now\<close> are
  the database's clock at the \<open>n\<close>-th transaction and the worker's at its \<open>n\<close>-th reading. The provider that is
  fetched from, over the network, is \<open>we_fetch\<close>; the analysis handed a finished run is \<open>we_analysis\<close>, its
  status or \<open>None\<close> where none is configured, and whether its guardian lost the lease.
\<close>

record worker_env =
  we_worker :: string
  we_locked :: "string set"
  we_lease_seconds :: int
  we_others :: "nat \<Rightarrow> tele_db \<Rightarrow> tele_db"
  we_db :: "nat \<Rightarrow> timestamp"
  we_now :: "nat \<Rightarrow> timestamp"
  we_fetch :: "snapshot \<Rightarrow> (timestamp \<times> timestamp) option \<Rightarrow> connector_checkpoint option \<Rightarrow> connector_page tele"
  we_analysis :: "string option \<times> bool"
  we_jitter :: "rat option"
  we_str :: "json \<Rightarrow> string"

record run_result =
  rr_outcome :: string
  rr_connection :: "string option"
  rr_run :: "string option"
  rr_error :: "string option"
  rr_analysis :: "string option"

subsection \<open>Actions on the shared tables\<close>

text \<open>An action changes the tables and returns or raises; what was committed before it raised stays.\<close>

type_synonym 'a action = "tele_db \<Rightarrow> tele_db \<times> 'a tele"

definition pass :: "'a tele \<Rightarrow> 'a action" where
  "pass r s = (s, r)"

definition andThen :: "'a action \<Rightarrow> ('a \<Rightarrow> 'b action) \<Rightarrow> 'b action" where
  "andThen m f s = (case m s of (s1, Inl e) \<Rightarrow> (s1, Inl e) | (s1, Inr x) \<Rightarrow> f x s1)"

text \<open>A transaction on the tables as the others left them; a failing one changes nothing.\<close>

definition transact :: "worker_env \<Rightarrow> nat \<Rightarrow> (tele_db \<Rightarrow> (tele_db \<times> 'a) tele) \<Rightarrow> 'a action" where
  "transact E n f s = (let s1 = we_others E n s in
     case f s1 of Inl e \<Rightarrow> (s1, Inl e) | Inr (s2, x) \<Rightarrow> (s2, Inr x))"

definition unit_of :: "(tele_db \<Rightarrow> tele_db tele) \<Rightarrow> tele_db \<Rightarrow> (tele_db \<times> unit) tele" where
  "unit_of f s = bindE (f s) (\<lambda>s1. Inr (s1, ()))"

definition read_only :: "(tele_db \<Rightarrow> 'a tele) \<Rightarrow> tele_db \<Rightarrow> (tele_db \<times> 'a) tele" where
  "read_only f s = bindE (f s) (\<lambda>x. Inr (s, x))"

subsection \<open>The snapshot\<close>

text \<open>The cursor of a stored checkpoint; the worker stores a text or nothing.\<close>

definition stored_checkpoint :: "worker_env \<Rightarrow> checkpoint \<Rightarrow> connector_checkpoint option tele" where
  "stored_checkpoint E k =
     (let raw = jget (ck_cursor k) ''cursor'' in
      if raw = JNull \<and> ck_high_water k = None then Inr None
      else let cursor = (case raw of JNull \<Rightarrow> None | JStr t \<Rightarrow> Some (strip t) | j \<Rightarrow> Some (strip (we_str E j))) in
        if (case cursor of None \<Rightarrow> False | Some t \<Rightarrow> t = [] \<or> int (length t) > 2048)
        then Inl (TeleValueError ''checkpoint_cursor_invalid'')
        else Inr (Some \<lparr>cc_cursor = cursor, cc_high_water = ck_high_water k\<rparr>))"

definition snapshot_of_view :: "tele_scope \<Rightarrow> string \<Rightarrow> mapping_view \<Rightarrow> mapping_snapshot tele" where
  "snapshot_of_view sc cid v = (let m = mv_row v in MappingSnapshot
     \<lparr>ms_scope = sc, ms_connection = cid, ms_tag = mv_tag v, ms_signal = mp_signal m, ms_mapping = mp_id m,
      ms_revision = mp_revision m, ms_actor = mp_mapped_by m, ms_mapped_at = mp_mapped_at m,
      ms_authority_digest = mp_authority_digest m, ms_facility = ts_facility sc, ms_system = mp_system m,
      ms_concept = mp_concept m, ms_signal_name = mp_signal_name m, ms_source_unit = mp_source_unit m,
      ms_canonical_unit = mp_canonical_unit m, ms_dimension = (case mv_dimension v of None \<Rightarrow> [] | Some d \<Rightarrow> d),
      ms_conversion_id = mp_conversion_id m, ms_conversion_version = mp_conversion_version m, ms_timezone = mp_timezone m,
      ms_asset = mp_asset m, ms_provenance = (if mp_provenance m = [] then ''manual'' else mp_provenance m),
      ms_enabled = True\<rparr>)"

fun mapping_snapshots ::
  "tele_scope \<Rightarrow> string \<Rightarrow> mapping_view list \<Rightarrow> (string \<times> mapping_snapshot) list \<Rightarrow> (string \<times> mapping_snapshot) list tele" where
  "mapping_snapshots sc cid [] done = Inr done"
| "mapping_snapshots sc cid (v # vs) done =
     bindE (snapshot_of_view sc cid v) (\<lambda>m.
     if ms_tag m \<in> fst ` set done then Inl (TeleValueError ''telemetry_mapping_snapshot_duplicate'')
     else mapping_snapshots sc cid vs (done @ [(ms_tag m, m)]))"

text \<open>A backfill, or the retry of one, has a range; anything else is an incremental fetch.\<close>

definition fetch_range :: "work \<Rightarrow> snapshot \<Rightarrow> (timestamp \<times> timestamp) option tele" where
  "fetch_range w sn =
     (let rs = coalesce (wk_range_start w) (rn_range_start (sn_run sn)); re = coalesce (wk_range_end w) (rn_range_end (sn_run sn)) in
      if wk_mode w = BackfillRun \<or> (wk_mode w = RetryRun \<and> rs \<noteq> None \<and> re \<noteq> None)
      then (case (rs, re) of
          (Some a, Some b) \<Rightarrow> if a \<ge> b then Inl (TeleValueError ''backfill_range_invalid'') else Inr (Some (a, b))
        | _ \<Rightarrow> Inl (TeleValueError ''telemetry_backfill_bounds_missing''))
      else Inr None)"

subsection \<open>The page handed to the repository\<close>

definition observation_record :: "'b tele_host_scheme \<Rightarrow> nat \<Rightarrow> prepared_observation \<Rightarrow> page_observation" where
  "observation_record H n x = (page_observation.truncate x)\<lparr>ob_id := th_uuid4 H n\<rparr>"

definition plain_context :: "(string \<times> metadata) list \<Rightarrow> jdict" where
  "plain_context kvs = (case safe_items 0 0 kvs of Inl _ \<Rightarrow> [] | Inr (d, _) \<Rightarrow> d)"

definition rejection_record :: "'b tele_host_scheme \<Rightarrow> nat \<Rightarrow> prepared_rejection \<Rightarrow> page_rejection" where
  "rejection_record H n x = \<lparr>rj_id = th_uuid4 H n, rj_signal = pr_signal x, rj_tag = pr_tag x, rj_event = pr_event x,
     rj_mapping = pr_mapping x, rj_timestamp_raw = pr_timestamp_raw x, rj_digest = pr_digest x,
     rj_original_value = (case scalar_json (pr_original_value x) of None \<Rightarrow> JNull | Some j \<Rightarrow> j),
     rj_original_unit = pr_original_unit x, rj_reported_quality = pr_reported_quality x, rj_quality = pr_quality x,
     rj_reason = pr_reason x, rj_disposition = pr_disposition x, rj_context = plain_context (pr_context x)\<rparr>"

fun number_records :: "(nat \<Rightarrow> 'a \<Rightarrow> 'b) \<Rightarrow> nat \<Rightarrow> 'a list \<Rightarrow> 'b list" where
  "number_records f n [] = []"
| "number_records f n (x # xs) = f n x # number_records f (Suc n) xs"

fun mode_text :: "checkpoint_mode \<Rightarrow> string" where
  "mode_text CkDiscovery = ''discovery''"
| "mode_text CkIncremental = ''incremental''"
| "mode_text CkBackfill = ''backfill''"

definition checkpoint_digest ::
  "'b tele_host_scheme \<Rightarrow> checkpoint_mode \<Rightarrow> jdict \<Rightarrow> timestamp option \<Rightarrow> int \<Rightarrow> string tele" where
  "checkpoint_digest H m cursor high revision =
     (let projection = JObj [(''cursor_payload'', JObj cursor), (''high_water_at'', jopt JTime high), (''mode'', JStr (mode_text m)),
            (''revision'', JInt (max revision 0))] in
      if int (th_json_bytes H projection) > 65536 then Inl (TeleValueError ''telemetry_checkpoint_digest_input_invalid'')
      else Inr (th_sha256 H projection))"

definition next_checkpoint :: "prepared_page \<Rightarrow> connector_checkpoint option \<Rightarrow> connector_checkpoint option" where
  "next_checkpoint p before = (case pp_next p of None \<Rightarrow> before | Some c \<Rightarrow> Some c)"

definition cursor_of :: "connector_checkpoint option \<Rightarrow> string option" where
  "cursor_of c = Option.bind c cc_cursor"

text \<open>The page of a prepared page, its records identified from the \<open>n\<close>-th draw on.\<close>

definition page_of_prepared ::
  "'b tele_host_scheme \<Rightarrow> nat \<Rightarrow> checkpoint_mode \<Rightarrow> checkpoint \<Rightarrow> connector_checkpoint option \<Rightarrow> prepared_page \<Rightarrow> page tele" where
  "page_of_prepared H n m kept before p =
     (let after = next_checkpoint p before; expected = ck_revision kept;
          cursor = (case cursor_of after of None \<Rightarrow> [] | Some t \<Rightarrow> [(''cursor'', JStr t)]);
          high = coalesce (pp_high p) (Option.bind after cc_high_water) in
      if pp_more p \<and> (cursor_of after = None \<or> cursor_of after = cursor_of before)
      then Inl (TeleValueError ''telemetry_continuation_checkpoint_invalid'')
      else bindE (checkpoint_digest H m (ck_cursor kept) (ck_high_water kept) expected) (\<lambda>before_digest.
      bindE (checkpoint_digest H m cursor high (expected + 1)) (\<lambda>after_digest.
      Inr \<lparr>pg_mode = m, pg_expected = expected, pg_cursor = cursor, pg_high_water = high,
        pg_observations = number_records (observation_record H) n (pp_observations p),
        pg_rejections = number_records (rejection_record H) (n + length (pp_observations p)) (pp_rejections p),
        pg_received = Some (pp_received p), pg_before = Some before_digest, pg_after = Some after_digest,
        pg_nonfinite = list_ex (\<lambda>r. scalar_json (pr_original_value r) = None) (pp_rejections p)\<rparr>)))"

text \<open>The page a worker makes of what it fetched, before it is written.\<close>

definition prepare_page ::
  "'b tele_host_scheme \<Rightarrow> 'a ingest_host_scheme \<Rightarrow> worker_env \<Rightarrow> work \<Rightarrow> snapshot \<Rightarrow> timestamp
   \<Rightarrow> (connector_checkpoint option \<times> prepared_page) tele" where
  "prepare_page H C E w sn claimed =
     bindE (stored_checkpoint E (sn_checkpoint sn)) (\<lambda>before.
     bindE (fetch_range w sn) (\<lambda>range.
     bindE (we_fetch E sn range before) (\<lambda>p.
     bindE (mapping_snapshots (wk_scope w) (wk_connection w) (sn_mappings sn) []) (\<lambda>mappings.
     bindE (prepare_connector_page H C p (wk_scope w) (wk_connection w) (wk_run w) mappings []
              (ck_high_water (sn_checkpoint sn)) \<lparr>pk_now = claimed, pk_ingested_at = claimed, pk_tolerance = FUTURE_TOLERANCE\<rparr>) (\<lambda>q.
     Inr (before, q))))))"

subsection \<open>One iteration\<close>

definition draw_ids :: "nat \<Rightarrow> nat action" where
  "draw_ids n s = (s\<lparr>td_drawn := td_drawn s + n\<rparr>, Inr (td_drawn s))"

definition unit_jitter :: "worker_env \<Rightarrow> rat" where
  "unit_jitter E = (case we_jitter E of None \<Rightarrow> 1 / 2 | Some j \<Rightarrow> min (max j 0) 1)"

text \<open>\<open>timedelta(seconds=d)\<close> in microseconds.\<close>

definition seconds_delta :: "rat \<Rightarrow> int" where
  "seconds_delta d = trunc d * 1000000 + round_half_even (fl ((d - of_int (trunc d)) * 1000000))"

definition next_attempt :: "worker_env \<Rightarrow> connection \<Rightarrow> timestamp \<Rightarrow> timestamp tele" where
  "next_attempt E c completed =
     (if cn_polling c < 1 \<and> cn_polling c \<noteq> 0 \<or> cn_polling c > 86400 then Inl (TeleValueError ''telemetry_polling_interval_invalid'')
      else let cadence = (if cn_polling c = 0 then 60 else of_int (cn_polling c));
               delay = fl (cadence * fl (fl (9 / 10) + fl (fl (1 / 5) * unit_jitter E))) in
        Inr (completed + seconds_delta (max delay (fl (1 / 10)))))"

definition result :: "string \<Rightarrow> work \<Rightarrow> run_result" where
  "result outcome w = \<lparr>rr_outcome = outcome, rr_connection = Some (wk_connection w), rr_run = Some (wk_run w), rr_error = None,
     rr_analysis = None\<rparr>"

text \<open>The page is committed and the work goes on, in another claim or to its completion.\<close>

definition finish_page ::
  "'b page_host_scheme \<Rightarrow> worker_env \<Rightarrow> work \<Rightarrow> connection \<Rightarrow> bool \<Rightarrow> bool \<Rightarrow> run_result action" where
  "finish_page H E w c has_more partial =
     (if has_more
      then andThen (transact E 3 (unit_of (continue_ingestion_work H (wk_scope w) (wk_connection w) (wk_run w) (wk_token w)
             (we_now E 1) (we_now E 1)))) (\<lambda>_. pass (Inr (result ''continued'' w)))
      else andThen (transact E 3 (renew_lease H (wk_scope w) (wk_connection w) (wk_token w) (we_lease_seconds E) (we_now E 1))) (\<lambda>held.
        if \<not> held \<or> snd (we_analysis E) then pass (Inl (LeaseLost ''telemetry_connection_lease_lost''))
        else andThen (pass (next_attempt E c (we_now E 2))) (\<lambda>due_at.
          andThen (transact E 4 (complete_ingestion_work H (we_db E 4) (wk_scope w) (wk_connection w) (wk_run w) (wk_token w)
             (we_now E 2) (Some due_at) partial)) (\<lambda>_.
          pass (Inr ((result ''processed'' w)\<lparr>rr_analysis := fst (we_analysis E)\<rparr>))))))"

definition process_claim ::
  "'b page_host_scheme \<Rightarrow> 'a ingest_host_scheme \<Rightarrow> worker_env \<Rightarrow> work \<Rightarrow> run_result action" where
  "process_claim H C E w =
     andThen (transact E 1 (read_only (load_ingestion_snapshot H (we_db E 1) (wk_scope w) (wk_connection w) (wk_run w) (wk_token w)
        (wk_checkpoint_mode w)))) (\<lambda>sn.
     if \<not> cn_enabled (sn_connection sn)
     then andThen (transact E 2 (complete_ingestion_work H (we_db E 2) (wk_scope w) (wk_connection w) (wk_run w) (wk_token w)
        (we_now E 1) None True)) (\<lambda>_. pass (Inr (result ''disabled'' w)))
     else andThen (pass (prepare_page H C E w sn (we_now E 0))) (\<lambda>(before, q).
       andThen (draw_ids (length (pp_observations q) + length (pp_rejections q))) (\<lambda>n.
       andThen (pass (page_of_prepared H n (wk_checkpoint_mode w) (sn_checkpoint sn) before q)) (\<lambda>p.
       andThen (transact E 2 (persist_ingestion_page H (we_db E 2) (wk_scope w) (wk_connection w) (wk_run w) (wk_token w) p)) (\<lambda>_.
       finish_page H E w (sn_connection sn) (pp_more q) (pp_rejections q \<noteq> []))))))"

subsection \<open>Failures\<close>

definition safe_code :: "string \<Rightarrow> bool" where
  "safe_code s = (case s of [] \<Rightarrow> False | c # cs \<Rightarrow> lower_alnum c \<and> \<not> digit_char c \<and> length cs \<le> 127
     \<and> list_all (\<lambda>d. lower_alnum d \<or> d = CHR ''_'') cs)"

definition SAFE_MESSAGE_CODE_PREFIXES :: "string list" where
  "SAFE_MESSAGE_CODE_PREFIXES = [''backfill_'', ''checkpoint_'', ''connector_'', ''ingestion_'', ''mapping_'', ''source_'', ''telemetry_'']"

definition message_code :: "string \<Rightarrow> string \<Rightarrow> string" where
  "message_code dflt message = (let t = lower (strip message) in
     if safe_code t \<and> list_ex (starts_with t) SAFE_MESSAGE_CODE_PREFIXES then t else dflt)"

definition code_or :: "string \<Rightarrow> string \<Rightarrow> string" where
  "code_or code dflt = (let t = lower (strip code) in if safe_code t then t else dflt)"

definition stable_error_code :: "tele_error \<Rightarrow> string" where
  "stable_error_code e =
     (let internal = ''telemetry_scheduler_internal_error'' in
      case e of
        TeleValueError m \<Rightarrow> message_code ''telemetry_ingestion_contract_invalid'' m
      | InvalidLifecycleTransition m \<Rightarrow> message_code ''telemetry_ingestion_contract_invalid'' m
      | TeleTypeError m \<Rightarrow> message_code internal m
      | RepositoryError m \<Rightarrow> message_code internal m
      | LeaseLost m \<Rightarrow> message_code internal m
      | CheckpointConflict m \<Rightarrow> message_code internal m
      | MappingConflict m \<Rightarrow> message_code internal m
      | RuntimeUnavailable c \<Rightarrow> code_or c internal
      | ConnectorError c _ _ \<Rightarrow> code_or c internal
      | TeleKeyError _ \<Rightarrow> internal
      | DatabaseError _ \<Rightarrow> internal
      | OtherError _ \<Rightarrow> internal)"

definition error_retryable :: "tele_error \<Rightarrow> bool" where
  "error_retryable e = (case e of
       ConnectorError _ r _ \<Rightarrow> r
     | CheckpointConflict _ \<Rightarrow> True
     | TeleKeyError _ \<Rightarrow> False
     | RepositoryError _ \<Rightarrow> False
     | LeaseLost _ \<Rightarrow> False
     | MappingConflict _ \<Rightarrow> False
     | RuntimeUnavailable _ \<Rightarrow> False
     | TeleTypeError _ \<Rightarrow> False
     | TeleValueError _ \<Rightarrow> False
     | InvalidLifecycleTransition _ \<Rightarrow> False
     | _ \<Rightarrow> True)"

definition error_retry_after :: "tele_error \<Rightarrow> rat option" where
  "error_retry_after e = (case e of ConnectorError _ _ a \<Rightarrow> map_option of_int a | _ \<Rightarrow> None)"

definition lost_result :: "work \<Rightarrow> run_result" where
  "lost_result w = (result ''lease_lost'' w)\<lparr>rr_error := Some ''telemetry_connection_lease_lost''\<rparr>"

definition fail_claimed :: "'b page_host_scheme \<Rightarrow> worker_env \<Rightarrow> work \<Rightarrow> tele_error \<Rightarrow> run_result action" where
  "fail_claimed H E w e s =
     (case transact E 5 (record_ingestion_failure H (we_db E 5) (wk_scope w) (wk_connection w) (wk_run w) (wk_token w) (we_now E 3)
             (stable_error_code e) None (error_retryable e) (error_retry_after e) (unit_jitter E)) s of
        (s1, Inl (LeaseLost _)) \<Rightarrow> (s1, Inr (lost_result w))
      | (s1, Inl e') \<Rightarrow> (s1, Inl e')
      | (s1, Inr status) \<Rightarrow> (s1, Inr ((result (if status = Pending then ''retry_scheduled'' else ''failed'') w)
           \<lparr>rr_error := Some (stable_error_code e)\<rparr>)))"

definition guard_claim :: "'b page_host_scheme \<Rightarrow> worker_env \<Rightarrow> work \<Rightarrow> run_result action \<Rightarrow> run_result action" where
  "guard_claim H E w body s =
     (case body s of
        (s1, Inr r) \<Rightarrow> (s1, Inr r)
      | (s1, Inl (LeaseLost _)) \<Rightarrow> (s1, Inr (lost_result w))
      | (s1, Inl e) \<Rightarrow> fail_claimed H E w e s1)"

text \<open>\<open>run_once\<close>\<close>

definition run_once :: "'b page_host_scheme \<Rightarrow> 'a ingest_host_scheme \<Rightarrow> worker_env \<Rightarrow> run_result action" where
  "run_once H C E =
     andThen (transact E 0 (claim_next_due_work H (we_locked E) (we_db E 0) (we_worker E) (we_now E 0) (we_lease_seconds E))) (\<lambda>w.
     case w of
       None \<Rightarrow> pass (Inr \<lparr>rr_outcome = ''idle'', rr_connection = None, rr_run = None, rr_error = None, rr_analysis = None\<rparr>)
     | Some w \<Rightarrow> guard_claim H E w (process_claim H C E w))"

end
