(* ===== verification/Telemetry_Intake.thy ===== *)
theory Telemetry_Intake
  imports Telemetry_Ingestion Telemetry_Conversions "HOL-Library.Multiset"
begin

text \<open>
  What the preparation of a page guarantees: the accounting of its records, what an accepted observation
  rests on, that a page delivered again adds nothing, and which record fails a whole page.
\<close>

subsection \<open>A demonstration page\<close>

definition demo_sha :: "json \<Rightarrow> string" where
  "demo_sha j = replicate 64 (case j of JObj kvs \<Rightarrow>
     (if map_of kvs ''external_tag_id'' = Some (JObj [(''type'', JStr ''str''), (''value'', JStr ''t1'')]) then CHR ''a'' else CHR ''b'')
     | _ \<Rightarrow> CHR ''c'')"

definition demo_intake :: tele_host where
  "demo_intake = \<lparr>th_sha256 = demo_sha, th_json_bytes = (\<lambda>_. 2), th_uuid = Some, th_uuid4 = (\<lambda>n. replicate n (CHR ''u''))\<rparr>"

definition demo_clocks :: ingest_host where
  "demo_clocks = \<lparr>ih_iso = (\<lambda>_. None), ih_zone = (\<lambda>_. Some demo_zone), ih_float_str = (\<lambda>_. ''nan''), ih_float_hex = (\<lambda>_. ''0x0''),
     ih_metadata_bytes = (\<lambda>_. 2)\<rparr>"

definition demo_plant :: tele_scope where
  "demo_plant = \<lparr>ts_tenant = ''t'', ts_workspace = ''w'', ts_resource = ''r'', ts_facility = ''w''\<rparr>"

definition demo_mapping :: mapping_snapshot where
  "demo_mapping = \<lparr>ms_scope = demo_plant, ms_connection = ''c'', ms_tag = ''t1'', ms_signal = ''s'', ms_mapping = ''m'', ms_revision = 1,
     ms_actor = ''a'', ms_mapped_at = 0, ms_authority_digest = replicate 64 (CHR ''0''), ms_facility = ''w'', ms_system = ''p'',
     ms_concept = ''k'', ms_signal_name = ''n'', ms_source_unit = ''psi'', ms_canonical_unit = ''psi'', ms_dimension = ''pressure'',
     ms_conversion_id = ''psi_to_psi'', ms_conversion_version = UNIT_NORMALIZATION_VERSION, ms_timezone = ''UTC'', ms_asset = None,
     ms_provenance = ''manual'', ms_enabled = True\<rparr>"

definition demo_record :: raw_observation where
  "demo_record = \<lparr>ro_tag = ''t1'', ro_name = ''T'', ro_timestamp = SDatetime \<lparr>dt_iso = ''10'', dt_moment = Aware 10 0, dt_zone_key = None\<rparr>,
     ro_value = SInt 3, ro_unit = None, ro_quality = None, ro_event = None, ro_metadata = []\<rparr>"

definition demo_intake_page :: connector_page where
  "demo_intake_page = \<lparr>cp_observations = [demo_record, demo_record\<lparr>ro_tag := ''t2''\<rparr>], cp_issues = [], cp_next = None, cp_more = False,
     cp_pages = 1, cp_bytes = 10, cp_retries = 0\<rparr>"

definition demo_clock :: page_clock where "demo_clock = \<lparr>pk_now = 20, pk_ingested_at = 20, pk_tolerance = 5\<rparr>"

definition demo_prepared :: "prepared_page tele" where
  "demo_prepared = prepare_connector_page demo_intake demo_clocks demo_intake_page demo_plant ''c'' ''r'' [(''t1'', demo_mapping)] [] None demo_clock"

definition demo_digest :: string where
  "demo_digest = replicate 64 (CHR ''a'')"

definition demo_redelivered :: "prepared_page tele" where
  "demo_redelivered = prepare_connector_page demo_intake demo_clocks demo_intake_page demo_plant ''c'' ''r2'' [(''t1'', demo_mapping)]
     [demo_digest] (Some 10) demo_clock"

definition demo_blank :: raw_observation where
  "demo_blank = demo_record\<lparr>ro_tag := ''t2'', ro_event := Some '' ''\<rparr>"

lemma demo_accepted: "(case demo_prepared of Inl _ \<Rightarrow> False
    | Inr q \<Rightarrow> map ob_digest (pp_observations q) = [demo_digest] \<and> length (pp_rejections q) = 1)"
  by code_simp

lemma demo_redelivered_page: "\<not> isl demo_redelivered"
  by code_simp

lemma demo_digest_plain: "lower (strip demo_digest) = demo_digest"
  by code_simp

lemma demo_page_made:
  obtains page where "demo_prepared = Inr page" "map ob_digest (pp_observations page) = [demo_digest]" "length (pp_rejections page) = 1"
  using demo_accepted that by (auto split: sum.splits)

subsection \<open>One record\<close>

lemma record_rejection_Inr:
  "record_rejection C cx x m digest q reason d = Inr r \<Longrightarrow>
     pr_digest r = digest \<and> pr_disposition r = d \<and> pr_reason r = reason \<and> pr_tag r = Some (strip (ro_tag x))"
  by (auto simp: record_rejection_def PreparedRejection_def optional_def required_def Let_def elim!: bindE_elim split: if_split_asm)

lemma PreparedObservation_Inr:
  "PreparedObservation C x meta = Inr ob \<Longrightarrow> (\<exists>d. ob = x\<lparr>ob_metadata := d\<rparr>) \<and> ob_disposition x \<in> {Accepted, OutOfOrderAccepted}"
  by (auto simp: PreparedObservation_def elim!: bindE_elim split: if_split_asm)

text \<open>What an observation carries of the record and of its mapping.\<close>

definition made_of :: "page_clock \<Rightarrow> raw_observation \<Rightarrow> mapping_snapshot \<Rightarrow> timestamp_result \<Rightarrow> unit_result \<Rightarrow> prepared_observation \<Rightarrow> bool" where
  "made_of k x m t u ob = (ob_tag ob = ro_tag x \<and> ob_event ob = ro_event x \<and> ob_mapping ob = ms_mapping m
     \<and> ob_mapping_revision ob = ms_revision m \<and> ob_signal ob = ms_signal m \<and> ob_concept ob = ms_concept m
     \<and> ob_system ob = ms_system m \<and> ob_actor ob = ms_actor m \<and> ob_authority_digest ob = ms_authority_digest m
     \<and> ob_original_unit ob = ro_unit x \<and> ob_quality ob = Good \<and> ob_eligible ob
     \<and> Some (ob_observed_at ob) = tr_observed_at t \<and> ob_disposition ob = tr_disposition t
     \<and> Some (ob_value ob) = ur_value u \<and> Some (ob_canonical_unit ob) = ur_unit u
     \<and> ob_conversion_id ob = ms_conversion_id m \<and> ob_conversion_version ob = ms_conversion_version m)"

lemma unit_eligible_fields:
  "ur_eligible (normalize_telemetry_unit v s c d) \<Longrightarrow>
     (\<exists>a. ur_value (normalize_telemetry_unit v s c d) = Some a) \<and> (\<exists>b. ur_unit (normalize_telemetry_unit v s c d) = Some b)"
  by (auto simp: normalize_telemetry_unit_def unit_failure_def Let_def split: option.splits if_splits)

lemma assess_value_Inr:
  "assess_value m t x = Inr (m', t', u) \<Longrightarrow> m' = m \<and> t' = t \<and> tr_eligible t \<and> u = record_unit m x \<and> ur_eligible u
     \<and> ur_conversion_id u = Some (ms_conversion_id m) \<and> ur_conversion_version u = ms_conversion_version m"
  by (auto simp: assess_value_def Let_def split: if_splits)

lemma source_instant_Inl: "source_instant C v tz = Inl r \<Longrightarrow> \<not> tr_eligible r"
  by (auto simp: source_instant_def timestamp_invalid_def Let_def split: sum.splits if_splits prod.splits)

lemma timestamp_eligible:
  assumes n: "normalize_telemetry_timestamp C v tz now tol high [] = Inr t" and e: "tr_eligible t"
  shows "\<exists>u off name. source_instant C v tz = Inr (u, off, name) \<and> tr_observed_at t = Some u \<and> u \<le> now + tol
     \<and> tr_disposition t = (case high of None \<Rightarrow> Accepted | Some h \<Rightarrow> if u < h then OutOfOrderAccepted else Accepted)"
proof (cases "source_instant C v tz")
  case (Inl r)
  with n e source_instant_Inl [OF Inl] show ?thesis by (simp add: normalize_telemetry_timestamp_def)
next
  case (Inr p)
  obtain u off name where p: "p = (u, off, name)" by (cases p)
  from n e show ?thesis
    by (auto simp: normalize_telemetry_timestamp_def Inr p order_of_def timestamp_invalid_def Let_def split: if_splits option.splits)
qed

lemma assess_Inr:
  assumes "assess C ms k high x = Inr (Inr (m, t, u))"
  shows "ms (strip (ro_tag x)) = Some m \<and> ms_enabled m \<and> u = record_unit m x \<and> ur_eligible u
    \<and> ur_conversion_id u = Some (ms_conversion_id m) \<and> ur_conversion_version u = ms_conversion_version m
    \<and> tr_eligible t
    \<and> normalize_telemetry_timestamp C (ro_timestamp x) (Some (ms_timezone m)) (pk_now k) (pk_tolerance k) high [] = Inr t"
  using assms
  by (auto simp: assess_def dest!: assess_value_Inr split: option.splits if_splits sum.splits tele_error.splits prod.splits
      elim!: bindE_elim)

lemma judge_Take:
  "judge C ms k seen high digest x = Inr (Take m t u) \<longleftrightarrow> assess C ms k high x = Inr (Inr (m, t, u)) \<and> digest \<notin> set seen"
  by (cases "assess C ms k high x") (auto simp: judge_def assess_def assess_value_def Let_def
      split: sum.splits option.splits if_splits tele_error.splits prod.splits elim!: bindE_elim)

lemma accepted_Inr:
  assumes a: "accepted_observation C cx k digest x m t u = Inr ob"
    and m: "u = record_unit m x" "ur_eligible u" "ur_conversion_id u = Some (ms_conversion_id m)"
      "ur_conversion_version u = ms_conversion_version m" and t: "tr_observed_at t \<noteq> None"
  shows "made_of k x m t u ob \<and> ob_digest ob = digest"
proof -
  have "\<exists>a. ur_value u = Some a" "\<exists>b. ur_unit u = Some b"
    using unit_eligible_fields m(1,2) unfolding record_unit_def by blast+
  with PreparedObservation_Inr [OF a [unfolded accepted_observation_def]] t m(3,4) show ?thesis
    by (auto simp: made_of_def)
qed

lemma assess_observed: "assess C ms k high x = Inr (Inr (m, t, u)) \<Longrightarrow> \<exists>a. tr_observed_at t = Some a \<and> a \<le> pk_now k + pk_tolerance k"
  using assess_Inr timestamp_eligible by blast

text \<open>A step refuses the record or accepts it.\<close>

lemma prepare_record_cases:
  assumes "prepare_record H C cx ms k x s = Inr s'"
  obtains (refused) m q reason d r where "judge C ms k (ps_seen s) (ps_high s) (stable_source_record_digest H C x) x = Inr (Refuse m q reason d)"
      "record_rejection C cx x m (stable_source_record_digest H C x) q reason d = Inr r"
      "s' = s\<lparr>ps_rejected := ps_rejected s @ [r],
         ps_seen := (if d = Duplicate then ps_seen s else stable_source_record_digest H C x # ps_seen s)\<rparr>"
  | (taken) m t u ob where "assess C ms k (ps_high s) x = Inr (Inr (m, t, u))" "stable_source_record_digest H C x \<notin> set (ps_seen s)"
      "made_of k x m t u ob" "ob_digest ob = stable_source_record_digest H C x"
      "s' = s\<lparr>ps_prepared := ps_prepared s @ [ob], ps_seen := stable_source_record_digest H C x # ps_seen s,
         ps_high := raise_high (ps_high s) (ob_observed_at ob)\<rparr>"
proof -
  let ?g = "stable_source_record_digest H C x"
  obtain v where j: "judge C ms k (ps_seen s) (ps_high s) ?g x = Inr v"
    and v: "(case v of
        Refuse m q reason d \<Rightarrow> bindE (record_rejection C cx x m ?g q reason d) (\<lambda>r.
          Inr (s\<lparr>ps_rejected := ps_rejected s @ [r], ps_seen := (if d = Duplicate then ps_seen s else ?g # ps_seen s)\<rparr>))
      | Take m t u \<Rightarrow> bindE (accepted_observation C cx k ?g x m t u) (\<lambda>ob.
          Inr (s\<lparr>ps_prepared := ps_prepared s @ [ob], ps_seen := ?g # ps_seen s,
                 ps_high := raise_high (ps_high s) (the (tr_observed_at t))\<rparr>))) = Inr s'"
    using assms unfolding prepare_record_def Let_def by (rule bindE_elim)
  show thesis
  proof (cases v)
    case (Refuse m q reason d)
    with v obtain r where "record_rejection C cx x m ?g q reason d = Inr r"
      "s' = s\<lparr>ps_rejected := ps_rejected s @ [r], ps_seen := (if d = Duplicate then ps_seen s else ?g # ps_seen s)\<rparr>"
      by (auto elim: bindE_elim)
    with refused j Refuse show thesis by blast
  next
    case (Take m t u)
    with j judge_Take have a: "assess C ms k (ps_high s) x = Inr (Inr (m, t, u))" and n: "?g \<notin> set (ps_seen s)" by blast+
    from v Take obtain ob where o: "accepted_observation C cx k ?g x m t u = Inr ob"
      and s': "s' = s\<lparr>ps_prepared := ps_prepared s @ [ob], ps_seen := ?g # ps_seen s,
                 ps_high := raise_high (ps_high s) (the (tr_observed_at t))\<rparr>"
      by (auto elim: bindE_elim)
    have "made_of k x m t u ob \<and> ob_digest ob = ?g"
      by (rule accepted_Inr [OF o]) (use assess_Inr [OF a] assess_observed [OF a] in auto)
    moreover from this have "the (tr_observed_at t) = ob_observed_at ob" by (metis made_of_def option.sel)
    ultimately show thesis using taken [OF a n, of ob] s' by simp
  qed
qed

lemma judge_duplicate:
  "judge C ms k seen high g x = Inr (Refuse m q reason Duplicate) \<Longrightarrow> g \<in> set seen"
  by (auto simp: judge_def assess_def assess_value_def Let_def
      split: sum.splits option.splits if_splits tele_error.splits prod.splits elim!: bindE_elim)

text \<open>The digest of a record is seen afterwards, whatever the verdict.\<close>

lemma prepare_record_seen:
  "prepare_record H C cx ms k x s = Inr s' \<Longrightarrow> set (ps_seen s') = insert (stable_source_record_digest H C x) (set (ps_seen s))"
  by (erule prepare_record_cases) (auto dest: judge_duplicate)

lemma prepare_records_seen:
  "prepare_records H C cx ms k xs s = Inr s' \<Longrightarrow> set (ps_seen s') = stable_source_record_digest H C ` set xs \<union> set (ps_seen s)"
  by (induction xs arbitrary: s) (auto elim!: bindE_elim dest: prepare_record_seen)

subsection \<open>A page of records\<close>

definition digests_of :: "page_state \<Rightarrow> string multiset" where
  "digests_of s = mset (map ob_digest (ps_prepared s)) + mset (map pr_digest (ps_rejected s))"

text \<open>What a prefix of the page has done to the state.\<close>

definition page_progress ::
  "'b tele_host_scheme \<Rightarrow> 'a ingest_host_scheme \<Rightarrow> (string \<rightharpoonup> mapping_snapshot) \<Rightarrow> page_clock \<Rightarrow> page_state \<Rightarrow> page_state
   \<Rightarrow> raw_observation list \<Rightarrow> prepared_observation list \<Rightarrow> bool" where
  "page_progress H C ms k s s' xs new = (ps_prepared s' = ps_prepared s @ new
     \<and> digests_of s' = digests_of s + image_mset (stable_source_record_digest H C) (mset xs)
     \<and> ps_high s' = foldl raise_high (ps_high s) (map ob_observed_at new)
     \<and> (\<forall>ob \<in> set new. ob_disposition ob \<in> {Accepted, OutOfOrderAccepted}
          \<and> (\<exists>ys x zs m t h. xs = ys @ x # zs \<and> assess C ms k h x = Inr (Inr (m, t, record_unit m x))
               \<and> made_of k x m t (record_unit m x) ob \<and> ob_digest ob = stable_source_record_digest H C x
               \<and> ob_digest ob \<notin> stable_source_record_digest H C ` set ys \<and> ob_digest ob \<notin> set (ps_seen s)))
     \<and> distinct (map ob_digest new))"

lemma progress_Nil: "page_progress H C ms k s s [] []"
  by (simp add: page_progress_def)

lemma record_progress:
  assumes "prepare_record H C cx ms k x s = Inr s'"
  shows "\<exists>new. page_progress H C ms k s s' [x] new"
  using assms
proof (cases rule: prepare_record_cases)
  case (refused m q reason d r)
  then have "pr_digest r = stable_source_record_digest H C x" using record_rejection_Inr by blast
  with refused(3) have "page_progress H C ms k s s' [x] []" by (simp add: page_progress_def digests_of_def)
  then show ?thesis ..
next
  case (taken m t u ob)
  note a = assess_Inr [OF taken(1)]
  have d: "ob_disposition ob = tr_disposition t" using taken(3) by (simp add: made_of_def)
  from timestamp_eligible a have "tr_disposition t \<in> {Accepted, OutOfOrderAccepted}" by (fastforce split: option.splits if_splits)
  moreover have "\<exists>ys y zs m t h. [x] = ys @ y # zs \<and> assess C ms k h y = Inr (Inr (m, t, record_unit m y))
      \<and> made_of k y m t (record_unit m y) ob \<and> ob_digest ob = stable_source_record_digest H C y
      \<and> ob_digest ob \<notin> stable_source_record_digest H C ` set ys \<and> ob_digest ob \<notin> set (ps_seen s)"
    using taken(1,2,3,4) a by (intro exI [of _ "[]"] exI [of _ x] exI [of _ m] exI [of _ t] exI [of _ "ps_high s"]) simp
  ultimately have "page_progress H C ms k s s' [x] [ob]"
    unfolding page_progress_def using taken(4,5) d by (simp add: digests_of_def)
  then show ?thesis ..
qed

lemma progress_Cons:
  assumes f: "page_progress H C ms k s s1 [x] as" and r: "page_progress H C ms k s1 s' xs bs"
    and seen: "set (ps_seen s1) = insert (stable_source_record_digest H C x) (set (ps_seen s))"
  shows "page_progress H C ms k s s' (x # xs) (as @ bs)"
proof -
  let ?g = "stable_source_record_digest H C"
  have A: "ob_disposition ob \<in> {Accepted, OutOfOrderAccepted} \<and> (\<exists>ys y zs m t h. x # xs = ys @ y # zs
      \<and> assess C ms k h y = Inr (Inr (m, t, record_unit m y)) \<and> made_of k y m t (record_unit m y) ob \<and> ob_digest ob = ?g y
      \<and> ob_digest ob \<notin> ?g ` set ys \<and> ob_digest ob \<notin> set (ps_seen s))" if ob: "ob \<in> set (as @ bs)" for ob
  proof (cases "ob \<in> set as")
    case True
    then obtain m t h where "assess C ms k h x = Inr (Inr (m, t, record_unit m x))" "made_of k x m t (record_unit m x) ob"
      "ob_digest ob = ?g x" "ob_digest ob \<notin> set (ps_seen s)" and "ob_disposition ob \<in> {Accepted, OutOfOrderAccepted}"
      using f unfolding page_progress_def by (auto simp: Cons_eq_append_conv)
    then show ?thesis by (intro conjI exI [of _ "[]"] exI [of _ x] exI [of _ xs] exI [of _ m] exI [of _ t] exI [of _ h]) simp_all
  next
    case False
    with ob have "ob \<in> set bs" by simp
    then obtain ys y zs m t h where "xs = ys @ y # zs" "assess C ms k h y = Inr (Inr (m, t, record_unit m y))"
      "made_of k y m t (record_unit m y) ob" "ob_digest ob = ?g y" "ob_digest ob \<notin> ?g ` set ys" "ob_digest ob \<notin> set (ps_seen s1)"
      "ob_disposition ob \<in> {Accepted, OutOfOrderAccepted}"
      using r unfolding page_progress_def by blast
    then show ?thesis using seen
      by (intro conjI exI [of _ "x # ys"] exI [of _ y] exI [of _ zs] exI [of _ m] exI [of _ t] exI [of _ h]) simp_all
  qed
  have "ob_digest ob = ?g x" if "ob \<in> set as" for ob
    using f that unfolding page_progress_def by (auto simp: Cons_eq_append_conv)
  moreover have "ob_digest ob \<noteq> ?g x" if "ob \<in> set bs" for ob
    using r that seen unfolding page_progress_def by auto
  ultimately have "ob_digest ` set as \<inter> ob_digest ` set bs = {}" by fastforce
  with A f r show ?thesis unfolding page_progress_def by simp
qed

lemma records_progress:
  "prepare_records H C cx ms k xs s = Inr s' \<Longrightarrow> \<exists>new. page_progress H C ms k s s' xs new"
proof (induction xs arbitrary: s)
  case Nil
  then have "s' = s" by simp
  then show ?case using progress_Nil by blast
next
  case (Cons x xs)
  then obtain s1 where a: "prepare_record H C cx ms k x s = Inr s1" and b: "prepare_records H C cx ms k xs s1 = Inr s'"
    by (auto elim: bindE_elim)
  from record_progress [OF a] Cons.IH [OF b] progress_Cons prepare_record_seen [OF a] show ?case by metis
qed

lemma counted_page_Inr:
  assumes "counted_page p s = Inr page"
  shows "pp_observations page = ps_prepared s \<and> pp_rejections page = ps_rejected s \<and> pp_high page = ps_high s
    \<and> pp_received page = int (length (cp_observations p)) + int (length (cp_issues p))
    \<and> pp_accepted page = int (length (ps_prepared s))
    \<and> pp_rejected page + pp_duplicate page = int (length (ps_rejected s))
    \<and> pp_duplicate page = int (length (filter (\<lambda>r. pr_disposition r = Duplicate) (ps_rejected s)))
    \<and> pp_received page = pp_accepted page + pp_rejected page + pp_duplicate page
    \<and> pp_next page = cp_next p \<and> pp_more page = cp_more p"
  using assms by (auto simp: counted_page_def PreparedPage_def Let_def split: if_split_asm)

text \<open>A prepared page is its issues, then its records.\<close>

abbreviation context_of :: "tele_scope \<Rightarrow> string \<Rightarrow> string \<Rightarrow> ingest_context" where
  "context_of sc cid rid \<equiv> \<lparr>ic_scope = sc, ic_connection = strip cid, ic_run = strip rid\<rparr>"

lemma page_Inr:
  assumes "prepare_connector_page H C p sc cid rid mappings existing high k = Inr page"
  obtains ms seen issues s where
    "mapE (check_mapping sc (strip cid)) mappings = Inr ms" "mapE check_digest existing = Inr seen"
    "mapE (issue_rejection H C (context_of sc cid rid)) (cp_issues p) = Inr issues"
    "prepare_records H C (context_of sc cid rid) (map_of (rev ms)) k (cp_observations p)
       \<lparr>ps_prepared = [], ps_rejected = issues, ps_seen = seen, ps_high = high\<rparr> = Inr s"
    "counted_page p s = Inr page"
proof -
  have c: "a = strip c" if "required n e c = Inr a" for n e c a
    using that by (auto simp: required_def split: if_split_asm)
  from assms show thesis
    by (auto simp: prepare_connector_page_def Let_def dest!: c elim!: bindE_elim split: if_split_asm intro: that)
qed

lemma seen_digests: "mapE check_digest existing = Inr seen \<Longrightarrow> set seen = (lower \<circ> strip) ` set existing"
  by (induction existing arbitrary: seen) (auto simp: check_digest_def elim!: bindE_elim split: if_split_asm)

lemma mapping_of_page:
  assumes "mapE (check_mapping sc cid) mappings = Inr ms" and "map_of (rev ms) tag = Some m"
  shows "\<exists>key. (key, m) \<in> set mappings \<and> tag = strip key \<and> ms_tag m = tag \<and> ms_scope m = sc \<and> ms_connection m = cid"
proof -
  have "(tag, m) \<in> set ms" using map_of_SomeD [OF assms(2)] by simp
  from mapE_Inr_mem [OF assms(1) this] show ?thesis by (auto simp: check_mapping_def split: if_split_asm)
qed

text \<open>
  C13. A prepared page accounts for every source record: the digests of its observations and of its rejections
  are, with multiplicity, the digests of its issues and of its records; so the received count is the sum of
  the accepted, rejected and duplicate counts. No two observations have one digest, and the high-water mark
  is the old one raised by the observations in their order.
\<close>

theorem prepared_page_accounts:
  assumes "prepare_connector_page H C p sc cid rid mappings existing high k = Inr page"
  shows "\<exists>issues. mapE (issue_rejection H C (context_of sc cid rid)) (cp_issues p) = Inr issues
    \<and> mset (map ob_digest (pp_observations page)) + mset (map pr_digest (pp_rejections page))
        = mset (map pr_digest issues) + image_mset (stable_source_record_digest H C) (mset (cp_observations p))
    \<and> pp_received page = pp_accepted page + pp_rejected page + pp_duplicate page
    \<and> pp_accepted page = int (length (pp_observations page))
    \<and> distinct (map ob_digest (pp_observations page))
    \<and> pp_high page = foldl raise_high high (map ob_observed_at (pp_observations page))"
proof (rule page_Inr [OF assms])
  fix ms seen issues s
  assume i: "mapE (issue_rejection H C (context_of sc cid rid)) (cp_issues p) = Inr issues"
    and r: "prepare_records H C (context_of sc cid rid) (map_of (rev ms)) k (cp_observations p)
       \<lparr>ps_prepared = [], ps_rejected = issues, ps_seen = seen, ps_high = high\<rparr> = Inr s"
    and c: "counted_page p s = Inr page"
  from records_progress [OF r] obtain new where "page_progress H C (map_of (rev ms)) k
      \<lparr>ps_prepared = [], ps_rejected = issues, ps_seen = seen, ps_high = high\<rparr> s (cp_observations p) new" by blast
  with counted_page_Inr [OF c] i show ?thesis
    by (intro exI [of _ issues]) (auto simp: page_progress_def digests_of_def)
qed

theorem prepared_page_accounts_witness:
  "\<exists>page. demo_prepared = Inr page \<and> pp_received page = pp_accepted page + pp_rejected page + pp_duplicate page
     \<and> pp_accepted page = 1 \<and> distinct (map ob_digest (pp_observations page))"
proof (rule demo_page_made)
  fix page assume page: "demo_prepared = Inr page" and g: "map ob_digest (pp_observations page) = [demo_digest]"
  have n: "length (pp_observations page) = 1" using arg_cong [OF g, of length] by simp
  from prepared_page_accounts [OF page [unfolded demo_prepared_def]] have
    "pp_received page = pp_accepted page + pp_rejected page + pp_duplicate page"
    "pp_accepted page = int (length (pp_observations page))" "distinct (map ob_digest (pp_observations page))" by blast+
  with page n show ?thesis by (intro exI [of _ page]) simp
qed

text \<open>
  C12. An accepted observation rests on one record of the page: the first with its digest, which was not stored
  before; an enabled mapping of the record's tag in the page's scope and connection, whose identity, authority
  and conversion it carries; a value converted from the record's; and an instant its timestamp denotes, not
  further ahead of the clock than the tolerance.
\<close>

theorem accepted_observation_sound:
  assumes "prepare_connector_page H C p sc cid rid mappings existing high k = Inr page" and "ob \<in> set (pp_observations page)"
  shows "\<exists>ys x zs key m t. cp_observations p = ys @ x # zs \<and> ob_digest ob = stable_source_record_digest H C x
    \<and> ob_digest ob \<notin> stable_source_record_digest H C ` set ys \<and> ob_digest ob \<notin> (lower \<circ> strip) ` set existing
    \<and> (key, m) \<in> set mappings \<and> ms_tag m = strip (ro_tag x) \<and> ms_scope m = sc \<and> ms_connection m = strip cid \<and> ms_enabled m
    \<and> made_of k x m t (record_unit m x) ob \<and> ur_eligible (record_unit m x)
    \<and> (\<exists>off name. source_instant C (ro_timestamp x) (Some (ms_timezone m)) = Inr (ob_observed_at ob, off, name))
    \<and> ob_observed_at ob \<le> pk_now k + pk_tolerance k"
proof (rule page_Inr [OF assms(1)])
  fix ms seen issues s
  assume m: "mapE (check_mapping sc (strip cid)) mappings = Inr ms" and g: "mapE check_digest existing = Inr seen"
    and r: "prepare_records H C (context_of sc cid rid) (map_of (rev ms)) k (cp_observations p)
       \<lparr>ps_prepared = [], ps_rejected = issues, ps_seen = seen, ps_high = high\<rparr> = Inr s"
    and c: "counted_page p s = Inr page"
  from records_progress [OF r] counted_page_Inr [OF c] assms(2) obtain ys x zs mp t h where
    x: "cp_observations p = ys @ x # zs" "ob_digest ob = stable_source_record_digest H C x"
      "ob_digest ob \<notin> stable_source_record_digest H C ` set ys" "ob_digest ob \<notin> set seen"
    and a: "assess C (map_of (rev ms)) k h x = Inr (Inr (mp, t, record_unit mp x))" and o: "made_of k x mp t (record_unit mp x) ob"
    unfolding page_progress_def by auto
  note e = assess_Inr [OF a]
  from mapping_of_page [OF m] e obtain key where
    "(key, mp) \<in> set mappings \<and> ms_tag mp = strip (ro_tag x) \<and> ms_scope mp = sc \<and> ms_connection mp = strip cid" by metis
  moreover from e timestamp_eligible o obtain off name where
    "source_instant C (ro_timestamp x) (Some (ms_timezone mp)) = Inr (ob_observed_at ob, off, name)"
    "ob_observed_at ob \<le> pk_now k + pk_tolerance k" unfolding made_of_def by (metis option.sel)
  ultimately show ?thesis using x seen_digests [OF g] o e by metis
qed

theorem accepted_observation_sound_witness:
  "\<exists>page ob x t. demo_prepared = Inr page \<and> ob \<in> set (pp_observations page) \<and> x \<in> set (cp_observations demo_intake_page)
     \<and> made_of demo_clock x demo_mapping t (record_unit demo_mapping x) ob \<and> ob_observed_at ob \<le> 25"
proof (rule demo_page_made)
  fix page assume page: "demo_prepared = Inr page" and g: "map ob_digest (pp_observations page) = [demo_digest]"
  then obtain ob where ob: "ob \<in> set (pp_observations page)" by (cases "pp_observations page") simp_all
  from accepted_observation_sound [OF page [unfolded demo_prepared_def] ob] obtain ys x zs key m t where
    x: "cp_observations demo_intake_page = ys @ x # zs" and m: "(key, m) \<in> set [(''t1'', demo_mapping)]"
    and o: "made_of demo_clock x m t (record_unit m x) ob" and b: "ob_observed_at ob \<le> pk_now demo_clock + pk_tolerance demo_clock" by blast
  from x have "x \<in> set (cp_observations demo_intake_page)" by simp
  moreover from m have "m = demo_mapping" by simp
  moreover from b have "ob_observed_at ob \<le> 25" by (simp add: demo_clock_def)
  ultimately show ?thesis using page ob o by blast
qed

subsection \<open>Which records are accepted\<close>

definition mapping_table :: "(string \<times> mapping_snapshot) list \<Rightarrow> (string \<rightharpoonup> mapping_snapshot)" where
  "mapping_table mappings = map_of (rev (map (\<lambda>(key, m). (strip key, m)) mappings))"

text \<open>A record passes when nothing but a copy of it stands against it; the high-water mark has no say.\<close>

definition passes :: "'a ingest_host_scheme \<Rightarrow> (string \<times> mapping_snapshot) list \<Rightarrow> page_clock \<Rightarrow> raw_observation \<Rightarrow> bool" where
  "passes C mappings k x = (case assess C (mapping_table mappings) k None x of Inr (Inr _) \<Rightarrow> True | _ \<Rightarrow> False)"

lemma checked_mappings: "mapE (check_mapping sc cid) mappings = Inr ms \<Longrightarrow> map_of (rev ms) = mapping_table mappings"
proof -
  assume "mapE (check_mapping sc cid) mappings = Inr ms"
  then have "ms = map (\<lambda>(key, m). (strip key, m)) mappings"
    by (induction mappings arbitrary: ms) (auto simp: check_mapping_def elim!: bindE_elim split: if_split_asm)
  then show ?thesis by (simp add: mapping_table_def)
qed

lemma timestamp_any_high:
  assumes "normalize_telemetry_timestamp C v tz now tol h [] = Inr t"
  shows "\<exists>t'. normalize_telemetry_timestamp C v tz now tol h' [] = Inr t' \<and> tr_eligible t' = tr_eligible t"
  using assms
  by (auto simp: normalize_telemetry_timestamp_def order_of_def timestamp_invalid_def Let_def split: sum.splits if_splits option.splits)

lemma assess_value_any:
  "tr_eligible t' = tr_eligible t \<Longrightarrow> assess_value m t x = Inr (m1, t1, u1) \<Longrightarrow> \<exists>t2. assess_value m t' x = Inr (m1, t2, u1)"
  by (auto simp: assess_value_def Let_def split: if_splits)

lemma assess_any_high:
  assumes "assess C ms k h x = Inr (Inr r)"
  shows "\<exists>r'. assess C ms k h' x = Inr (Inr r')"
proof -
  obtain m t u where r: "r = (m, t, u)" by (cases r)
  note a = assess_Inr [OF assms [unfolded r]]
  from a have n: "normalize_telemetry_timestamp C (ro_timestamp x) (Some (ms_timezone m)) (pk_now k) (pk_tolerance k) h [] = Inr t" by blast
  from timestamp_any_high [OF n] obtain t' where
    t': "normalize_telemetry_timestamp C (ro_timestamp x) (Some (ms_timezone m)) (pk_now k) (pk_tolerance k) h' [] = Inr t'"
    "tr_eligible t' = tr_eligible t" by blast
  from assms a n r have v: "assess_value m t x = Inr (m, t, u)"
    by (auto simp: assess_def split: sum.splits tele_error.splits prod.splits option.splits if_splits)
  from assess_value_any [OF t'(2) v] obtain t2 where "assess_value m t' x = Inr (m, t2, u)" by blast
  with assms a n t'(1) r show ?thesis
    by (auto simp: assess_def split: sum.splits tele_error.splits prod.splits option.splits if_splits)
qed

lemma passes_assess:
  assumes "mapE (check_mapping sc cid) mappings = Inr ms"
  shows "passes C mappings k x \<longleftrightarrow> (\<exists>r. assess C (map_of (rev ms)) k h x = Inr (Inr r))"
proof -
  have "passes C mappings k x \<longleftrightarrow> (\<exists>r. assess C (mapping_table mappings) k None x = Inr (Inr r))"
    unfolding passes_def by (auto split: sum.splits)
  then show ?thesis unfolding checked_mappings [OF assms] using assess_any_high [of C "mapping_table mappings" k] by metis
qed

lemma prepare_records_split:
  "prepare_records H C cx ms k (ys @ x # zs) s = Inr s' \<Longrightarrow> \<exists>s1 s2. prepare_records H C cx ms k ys s = Inr s1
     \<and> prepare_record H C cx ms k x s1 = Inr s2 \<and> prepare_records H C cx ms k zs s2 = Inr s'"
  by (induction ys arbitrary: s) (auto elim!: bindE_elim)

lemma records_keep_prepared: "prepare_records H C cx ms k xs s = Inr s' \<Longrightarrow> set (ps_prepared s) \<subseteq> set (ps_prepared s')"
  using records_progress [of H C cx ms k xs s s'] by (auto simp: page_progress_def)

text \<open>The first copy of a record that passes is accepted.\<close>

lemma first_copy_accepted:
  assumes r: "prepare_records H C cx ms k (ys @ x # zs) s = Inr s'" and a: "\<And>h. \<exists>p. assess C ms k h x = Inr (Inr p)"
    and n: "stable_source_record_digest H C x \<notin> stable_source_record_digest H C ` set ys \<union> set (ps_seen s)"
  shows "\<exists>ob \<in> set (ps_prepared s'). ob_digest ob = stable_source_record_digest H C x"
proof -
  from prepare_records_split [OF r] obtain s1 s2 where 1: "prepare_records H C cx ms k ys s = Inr s1"
    and 2: "prepare_record H C cx ms k x s1 = Inr s2" and 3: "prepare_records H C cx ms k zs s2 = Inr s'" by blast
  have seen: "stable_source_record_digest H C x \<notin> set (ps_seen s1)" using n prepare_records_seen [OF 1] by simp
  obtain m t u where a1: "assess C ms k (ps_high s1) x = Inr (Inr (m, t, u))" using a by (metis prod_cases3)
  from 2 show ?thesis
  proof (cases rule: prepare_record_cases)
    case (refused m' q reason d r)
    with judge_Take [THEN iffD2, OF conjI, OF a1 seen] show ?thesis by simp
  next
    case (taken m' t' u' ob)
    with records_keep_prepared [OF 3] show ?thesis by auto
  qed
qed

lemma accepted_digests:
  assumes "prepare_connector_page H C p sc cid rid mappings existing high k = Inr page"
  shows "ob_digest ` set (pp_observations page) = {d. \<exists>ys x zs. cp_observations p = ys @ x # zs
     \<and> d = stable_source_record_digest H C x \<and> d \<notin> stable_source_record_digest H C ` set ys
     \<and> d \<notin> (lower \<circ> strip) ` set existing \<and> passes C mappings k x}" (is "?A = ?B")
proof (rule page_Inr [OF assms])
  fix ms seen issues s
  assume m: "mapE (check_mapping sc (strip cid)) mappings = Inr ms" and g: "mapE check_digest existing = Inr seen"
    and r: "prepare_records H C (context_of sc cid rid) (map_of (rev ms)) k (cp_observations p)
       \<lparr>ps_prepared = [], ps_rejected = issues, ps_seen = seen, ps_high = high\<rparr> = Inr s"
    and c: "counted_page p s = Inr page"
  have "?A \<subseteq> ?B"
  proof
    fix d assume "d \<in> ?A"
    then obtain ob where ob: "ob \<in> set (ps_prepared s)" "d = ob_digest ob" using counted_page_Inr [OF c] by auto
    from records_progress [OF r] ob obtain ys x zs mp t h where x: "cp_observations p = ys @ x # zs" "d = stable_source_record_digest H C x"
      "d \<notin> stable_source_record_digest H C ` set ys" "d \<notin> set seen"
      and a: "assess C (map_of (rev ms)) k h x = Inr (Inr (mp, t, record_unit mp x))"
      unfolding page_progress_def by auto
    from a passes_assess [OF m] have "passes C mappings k x" by blast
    with x seen_digests [OF g] show "d \<in> ?B" by blast
  qed
  moreover have "?B \<subseteq> ?A"
  proof
    fix d assume "d \<in> ?B"
    then obtain ys x zs where x: "cp_observations p = ys @ x # zs" "d = stable_source_record_digest H C x"
      "d \<notin> stable_source_record_digest H C ` set ys" "d \<notin> set seen" and a: "passes C mappings k x"
      using seen_digests [OF g] by auto
    have "\<exists>ob \<in> set (ps_prepared s). ob_digest ob = stable_source_record_digest H C x"
    proof (rule first_copy_accepted [OF r [unfolded x(1)]])
      show "\<exists>q. assess C (map_of (rev ms)) k h x = Inr (Inr q)" for h using a passes_assess [OF m] by blast
      show "stable_source_record_digest H C x \<notin> stable_source_record_digest H C ` set ys
          \<union> set (ps_seen \<lparr>ps_prepared = [], ps_rejected = issues, ps_seen = seen, ps_high = high\<rparr>)"
        using x(2,3,4) by simp
    qed
    then show "d \<in> ?A" unfolding x(2) counted_page_Inr [OF c, THEN conjunct1] by force
  qed
  ultimately show ?thesis by blast
qed

text \<open>
  C6. The digests a prepared page accepts are exactly those of the records that are the first of the page with
  their digest, were not stored before, and pass: an approved, enabled mapping, safe metadata, good quality, a
  timestamp that denotes an instant, a value the mapping's conversion applies to. A record that passes is
  therefore lost when an earlier copy of it did not.
\<close>

theorem accepted_exactly:
  assumes "prepare_connector_page H C p sc cid rid mappings existing high k = Inr page"
  shows "ob_digest ` set (pp_observations page) = {d. \<exists>ys x zs. cp_observations p = ys @ x # zs
     \<and> d = stable_source_record_digest H C x \<and> d \<notin> stable_source_record_digest H C ` set ys
     \<and> d \<notin> (lower \<circ> strip) ` set existing \<and> passes C mappings k x}"
  using assms by (rule accepted_digests)

theorem accepted_exactly_witness:
  "demo_digest \<in> {d. \<exists>ys x zs. cp_observations demo_intake_page = ys @ x # zs
     \<and> d = stable_source_record_digest demo_intake demo_clocks x \<and> d \<notin> stable_source_record_digest demo_intake demo_clocks ` set ys
     \<and> d \<notin> (lower \<circ> strip) ` set [] \<and> passes demo_clocks [(''t1'', demo_mapping)] demo_clock x}"
proof (rule demo_page_made)
  fix page assume page: "demo_prepared = Inr page" and g: "map ob_digest (pp_observations page) = [demo_digest]"
  have "demo_digest \<in> ob_digest ` set (pp_observations page)" using arg_cong [OF g, of set] by simp
  then show ?thesis unfolding accepted_exactly [OF page [unfolded demo_prepared_def]] .
qed

text \<open>
  C27. A page delivered again adds nothing: under the same mappings and clock, with the digests stored before
  and those of the first delivery, no record of it is accepted.
\<close>

theorem redelivery_adds_nothing:
  assumes "prepare_connector_page H C p sc cid rid mappings existing high k = Inr page"
    and "prepare_connector_page H C p sc cid rid' mappings existing' high' k = Inr page'"
    and "(lower \<circ> strip) ` set existing \<union> ob_digest ` set (pp_observations page) \<subseteq> (lower \<circ> strip) ` set existing'"
  shows "pp_observations page' = []"
proof -
  have "ob_digest ` set (pp_observations page') \<subseteq> ob_digest ` set (pp_observations page)"
    unfolding accepted_digests [OF assms(1)] accepted_digests [OF assms(2)] using assms(3) by blast
  moreover have "ob_digest ` set (pp_observations page') \<inter> (lower \<circ> strip) ` set existing' = {}"
    unfolding accepted_digests [OF assms(2)] by blast
  ultimately show ?thesis using assms(3) by (cases "pp_observations page'") auto
qed

theorem redelivery_adds_nothing_witness:
  "\<exists>page. demo_redelivered = Inr page \<and> pp_observations page = []"
proof (rule demo_page_made)
  fix page assume page: "demo_prepared = Inr page" and g: "map ob_digest (pp_observations page) = [demo_digest]"
  obtain page' where page': "demo_redelivered = Inr page'" using demo_redelivered_page unfolding isl_def by (metis sumE)
  have "(lower \<circ> strip) ` set [] \<union> ob_digest ` set (pp_observations page) \<subseteq> (lower \<circ> strip) ` set [demo_digest]"
    using arg_cong [OF g, of set] by (simp add: demo_digest_plain)
  from redelivery_adds_nothing [OF page [unfolded demo_prepared_def] page' [unfolded demo_redelivered_def] this] page'
  show ?thesis by blast
qed

subsection \<open>Records that are refused\<close>

lemma record_extends_rejected: "prepare_record H C cx ms k x s = Inr s' \<Longrightarrow> \<exists>more. ps_rejected s' = ps_rejected s @ more"
  by (erule prepare_record_cases) auto

lemma records_extend_rejected: "prepare_records H C cx ms k xs s = Inr s' \<Longrightarrow> \<exists>more. ps_rejected s' = ps_rejected s @ more"
proof (induction xs arbitrary: s)
  case (Cons x xs)
  then obtain s1 where a: "prepare_record H C cx ms k x s = Inr s1" and b: "prepare_records H C cx ms k xs s1 = Inr s'"
    by (auto elim: bindE_elim)
  from record_extends_rejected [OF a] Cons.IH [OF b] show ?case by fastforce
qed simp

lemma judge_unmapped: "ms (strip (ro_tag x)) = None \<Longrightarrow> judge C ms k seen high g x = Inr (Refuse None MappingRequired ''mapping_not_approved'' Rejected)"
  by (simp add: judge_def assess_def)

text \<open>A record that does not pass leaves its rejection between those of the records around it.\<close>

lemma refused_record:
  assumes "prepare_records H C cx ms k (ys @ x # zs) s = Inr s'" and "\<And>h r. assess C ms k h x \<noteq> Inr (Inr r)"
  shows "\<exists>s1 before after m q reason d r. prepare_records H C cx ms k ys s = Inr s1
    \<and> judge C ms k (ps_seen s1) (ps_high s1) (stable_source_record_digest H C x) x = Inr (Refuse m q reason d)
    \<and> record_rejection C cx x m (stable_source_record_digest H C x) q reason d = Inr r
    \<and> before = ps_rejected s1 \<and> ps_rejected s' = before @ r # after"
proof -
  from prepare_records_split [OF assms(1)] obtain s1 s2 where 1: "prepare_records H C cx ms k ys s = Inr s1"
    and 2: "prepare_record H C cx ms k x s1 = Inr s2" and 3: "prepare_records H C cx ms k zs s2 = Inr s'" by blast
  from 2 show ?thesis
  proof (cases rule: prepare_record_cases)
    case (refused m q reason d r)
    from records_extend_rejected [OF 3] obtain more where "ps_rejected s' = ps_rejected s2 @ more" by blast
    with refused(3) have "ps_rejected s' = ps_rejected s1 @ r # more" by simp
    with 1 refused(1,2) show ?thesis by blast
  next
    case (taken m t u ob)
    with assms(2) show ?thesis by blast
  qed
qed

lemma blank_event_no_rejection: "ro_event x = Some e \<Longrightarrow> strip e = [] \<Longrightarrow> isl (record_rejection C cx x m g q reason d)"
  by (simp add: record_rejection_def optional_def required_def bindE_def split: sum.split)

text \<open>
  C21. A record whose provider event identifier is blank and that does not pass fails the preparation of its whole
  page: the rejection that would report it cannot be made. Its valid siblings are discarded with it.
\<close>

theorem blank_event_fails_page:
  assumes "x \<in> set (cp_observations p)" and "ro_event x = Some e" and "strip e = []" and "\<not> passes C mappings k x"
  shows "isl (prepare_connector_page H C p sc cid rid mappings existing high k)"
proof (cases "prepare_connector_page H C p sc cid rid mappings existing high k")
  case (Inr page)
  show ?thesis
  proof (rule page_Inr [OF Inr])
    fix ms seen issues s
    assume m: "mapE (check_mapping sc (strip cid)) mappings = Inr ms"
      and r: "prepare_records H C (context_of sc cid rid) (map_of (rev ms)) k (cp_observations p)
         \<lparr>ps_prepared = [], ps_rejected = issues, ps_seen = seen, ps_high = high\<rparr> = Inr s"
    obtain ys zs where x: "cp_observations p = ys @ x # zs" using assms(1) by (metis split_list)
    have "assess C (map_of (rev ms)) k h x \<noteq> Inr (Inr r)" for h r using assms(4) passes_assess [OF m] by blast
    from refused_record [OF r [unfolded x] this] blank_event_no_rejection [OF assms(2,3)] show ?thesis
      by (metis isl_def sum.disc(2))
  qed
qed simp

theorem blank_event_fails_page_witness:
  "isl (prepare_connector_page demo_intake demo_clocks (demo_intake_page\<lparr>cp_observations := [demo_record, demo_blank]\<rparr>) demo_plant
     ''c'' ''r'' [(''t1'', demo_mapping)] [] None demo_clock)"
proof (rule blank_event_fails_page)
  show "demo_blank \<in> set (cp_observations (demo_intake_page\<lparr>cp_observations := [demo_record, demo_blank]\<rparr>))" by simp
  show "ro_event demo_blank = Some '' ''" "strip '' '' = []" by code_simp+
  show "\<not> passes demo_clocks [(''t1'', demo_mapping)] demo_clock demo_blank" by code_simp
qed


end
