(* ===== verification/Telemetry_Steps.thy ===== *)
theory Telemetry_Steps
  imports Telemetry_Runs
begin

text \<open>
  What the operations of the repository may do to the tables. \<open>queue_step\<close> has one rule per operation
  (\<open>remapped\<close> stands for those that write the catalogue, \<open>drawn\<close> for a worker that draws identifiers);
  \<open>table_change\<close> is the specification it refines: a handful of primitive changes, each with the condition
  under which it is allowed. Invariants are shown for the primitive changes and carried to the
  operations by the refinement.
\<close>

subsection \<open>The operations\<close>

inductive queue_step :: "'a page_host_scheme \<Rightarrow> tele_db \<Rightarrow> tele_db \<Rightarrow> bool" for H where
  created: "create_connection H db sc cid name kind config tz polling actor aud s = Inr (s', c) \<Longrightarrow> queue_step H s s'"
| updated: "update_connection_metadata H db sc cid actor name config' tz' polling' s = Inr (s', c') \<Longrightarrow> queue_step H s s'"
| lifecycle: "set_connection_lifecycle H db sc cid target actor enabled f s = Inr (s', c') \<Longrightarrow> queue_step H s s'"
| archived: "archive_connection H db sc cid actor s = Inr (s', c') \<Longrightarrow> queue_step H s s'"
| bound: "upsert_secret_binding H db sc cid bid provider reference version actor' eid' detail s = Inr (s', v) \<Longrightarrow> queue_step H s s'"
| audited: "record_audit_event H db sc eid cid actor action detail s = Inr s' \<Longrightarrow> queue_step H s s'"
| claimed: "claim_next_due_work H locked db worker now seconds s = Inr (s', w) \<Longrightarrow> queue_step H s s'"
| claimed_due: "claim_due_connection H locked sc worker seconds now s = Inr (s', c') \<Longrightarrow> queue_step H s s'"
| renewed: "renew_lease H sc cid token seconds now s = Inr (s', b) \<Longrightarrow> queue_step H s s'"
| released: "release_lease H db sc cid token next s = Inr (s', b) \<Longrightarrow> queue_step H s s'"
| advanced: "advance_checkpoint H db sc cid m expected cursor high rid token s = Inr (s', n) \<Longrightarrow> queue_step H s s'"
| persisted: "persist_ingestion_page H db sc cid rid token p s = Inr (s', counts) \<Longrightarrow> queue_step H s s'"
| continued: "continue_ingestion_work H sc cid rid token t next' s = Inr s' \<Longrightarrow> queue_step H s s'"
| completed: "complete_ingestion_work H db sc cid rid token t next partial s = Inr (s', st) \<Longrightarrow> queue_step H s s'"
| failed: "record_ingestion_failure H db sc cid rid token t code summary retryable after jitter s = Inr (s', st) \<Longrightarrow> queue_step H s s'"
| scheduled: "schedule_connection_now H db sc cid t s = Inr (s', b) \<Longrightarrow> queue_step H s s'"
| backfilled: "create_backfill_run H db sc rid cid rs re actor t s = Inr (s', r) \<Longrightarrow> queue_step H s s'"
| retried: "retry_ingestion_run H db sc rid actor t new_id s = Inr (s', r) \<Longrightarrow> queue_step H s s'"
| remapped: "queue_step H s (s\<lparr>td_signals := gs, td_concepts := cs, td_mappings := ms\<rparr>)"
| drawn: "queue_step H s (s\<lparr>td_drawn := td_drawn s + n\<rparr>)"

subsection \<open>The primitive changes\<close>

definition conn_ok :: "connection \<Rightarrow> bool" where
  "conn_ok c = ((cn_status c = Archived) = (cn_archived_at c \<noteq> None)
     \<and> (cn_archived_at c \<noteq> None \<longrightarrow> \<not> cn_enabled c \<and> cn_lease c = None) \<and> 0 \<le> cn_retry_count c \<and> cn_retry_count c \<le> 10)"

definition run_ok :: "run \<Rightarrow> bool" where
  "run_ok r = (rn_mode r \<in> set WORK_MODES \<and> active r = (rn_finished r = None) \<and> 0 \<le> rn_retries r \<and> rn_retries r \<le> 10)"

text \<open>
  A change of a connection: never of an archived one, and a lease is kept or dropped. The one other change,
  \<open>bind\<close> below, sets the reference to the secret of any connection, archived or not.
\<close>

definition conn_change :: "connection \<Rightarrow> connection \<Rightarrow> bool" where
  "conn_change c d = (cn_archived_at c = None \<and> cn_id d = cn_id c \<and> cn_scope d = cn_scope c
     \<and> (cn_lease d = None \<or> lease_token d = lease_token c) \<and> (conn_ok c \<longrightarrow> conn_ok d))"

text \<open>A change of a run: never of a finished one, and only \<open>start\<close> makes a run running.\<close>

definition run_change :: "run \<Rightarrow> run \<Rightarrow> bool" where
  "run_change r x = (active r \<and> rn_id x = rn_id r \<and> rn_scope x = rn_scope r \<and> rn_connection x = rn_connection r
     \<and> rn_mode x = rn_mode r \<and> rn_accepted x = rn_accepted r \<and> (rn_status x = Running \<longrightarrow> rn_status r = Running)
     \<and> (run_ok r \<longrightarrow> run_ok x))"

text \<open>Which connection holds which token.\<close>

definition holders :: "tele_db \<Rightarrow> (string \<times> string) set" where
  "holders s = {(cn_id c, t) | c t. c \<in> set (td_connections s) \<and> lease_token c = Some t}"

definition held_tokens :: "tele_db \<Rightarrow> string set" where
  "held_tokens s = snd ` holders s"

text \<open>A lease may be made with any token drawn since the operation began, when \<open>k\<close> were drawn.\<close>

inductive table_change :: "'a tele_host_scheme \<Rightarrow> nat \<Rightarrow> tele_db \<Rightarrow> tele_db \<Rightarrow> bool" for H k where
  draw: "table_change H k s (s\<lparr>td_drawn := td_drawn s + n\<rparr>)"
| audited: "table_change H k s (s\<lparr>td_audit := as\<rparr>)"
| reference: "table_change H k s (s\<lparr>td_signals := gs, td_concepts := cs, td_mappings := ms\<rparr>)"
| bindings: "table_change H k s (s\<lparr>td_bindings := bs\<rparr>)"
| bind: "table_change H k s (set_conn sc i (bind_secret b t) s)"
| rejected: "table_change H k s (s\<lparr>td_rejections := rs\<rparr>)"
| connect: "\<not> list_ex (\<lambda>d. cn_id d = cn_id c) (td_connections s) \<Longrightarrow> cn_lease c = None \<Longrightarrow> conn_ok c
    \<Longrightarrow> table_change H k s (s\<lparr>td_connections := td_connections s @ [c]\<rparr>)"
| conn: "(\<And>c. c \<in> set (td_connections s) \<Longrightarrow> P c \<Longrightarrow> conn_change c (f c))
    \<Longrightarrow> table_change H k s (s\<lparr>td_connections := upd P f (td_connections s)\<rparr>)"
| lease: "k \<le> n \<Longrightarrow> n < td_drawn s \<Longrightarrow> th_uuid4 H n \<notin> held_tokens s
    \<Longrightarrow> (\<And>c. c \<in> set (td_connections s) \<Longrightarrow> conn_at sc i c \<Longrightarrow> cn_archived_at c = None)
    \<Longrightarrow> table_change H k s (set_conn sc i (lease_connection worker (th_uuid4 H n) now seconds) s)"
| queue: "\<not> run_conflict r s \<Longrightarrow> run_ok r \<Longrightarrow> active r \<Longrightarrow> rn_accepted r = 0
    \<Longrightarrow> (rn_status r = Running \<Longrightarrow> \<not> list_ex (\<lambda>x. rn_scope x = rn_scope r \<and> rn_connection x = rn_connection r \<and> active x) (td_runs s))
    \<Longrightarrow> table_change H k s (s\<lparr>td_runs := td_runs s @ [r]\<rparr>)"
| run: "(\<And>r. r \<in> set (td_runs s) \<Longrightarrow> P r \<Longrightarrow> run_change r (f r)) \<Longrightarrow> table_change H k s (s\<lparr>td_runs := upd P f (td_runs s)\<rparr>)"
| start: "(\<And>r. r \<in> set (td_runs s) \<Longrightarrow> rn_scope r = sc \<Longrightarrow> rn_connection r = i \<Longrightarrow> rn_status r = Running \<Longrightarrow> rn_id r = rid)
    \<Longrightarrow> (\<And>r. P r \<Longrightarrow> run_at sc i rid r \<and> active r)
    \<Longrightarrow> table_change H k s (s\<lparr>td_runs := upd P (start_run worker token now) (td_runs s)\<rparr>)"
| page: "r \<in> set (td_runs s) \<Longrightarrow> run_at sc i rid r \<Longrightarrow> rn_status r = Running \<Longrightarrow> rn_token r = Some t
    \<Longrightarrow> insert_observations (td_observations s) (map (stored sc i rid) xs) = (obs, new) \<Longrightarrow> pc_accepted n = length new
    \<Longrightarrow> table_change H k s (s\<lparr>td_observations := obs,
          td_runs := upd (run_at sc i rid) (\<lambda>x. if rn_status x = Running \<and> rn_token x = Some t then count_page p received n db x else x) (td_runs s)\<rparr>)"
| check: "put_checkpoint db sc i m expected cursor high rid (td_checkpoints s) = Some (ks, revision) \<Longrightarrow> 0 \<le> expected
    \<Longrightarrow> table_change H k s (s\<lparr>td_checkpoints := ks\<rparr>)"
| uncheck: "table_change H k s (drop_backfill_checkpoint sc i s)"

abbreviation table_changes :: "'a tele_host_scheme \<Rightarrow> nat \<Rightarrow> tele_db \<Rightarrow> tele_db \<Rightarrow> bool" where
  "table_changes H k \<equiv> rtranclp (table_change H k)"

subsection \<open>The operations refine the primitive changes\<close>

lemma least_by_Some: "least_by key xs = Some x \<Longrightarrow> x \<in> set xs \<and> (\<forall>y \<in> set xs. key x \<le> key y)"
proof (induction xs arbitrary: x)
  case (Cons a xs)
  then show ?case
  proof (cases "least_by key xs")
    case None
    then have "xs = []" by (cases xs) (auto split: option.splits if_splits)
    then show ?thesis using Cons.prems by simp
  next
    case (Some y)
    then show ?thesis using Cons.IH [OF Some] Cons.prems by (auto split: if_splits)
  qed
qed simp

lemma least_by_None: "least_by key xs = None \<longleftrightarrow> xs = []"
  by (cases xs) (auto split: option.splits)

lemma find_conn_Some: "find_conn s sc i = Some c \<Longrightarrow> c \<in> set (td_connections s) \<and> cn_scope c = sc \<and> cn_id c = i"
  by (auto simp: find_conn_def conn_at_def dest: next_or_Some)

lemma changes_conn:
  "(\<And>c. c \<in> set (td_connections s) \<Longrightarrow> P c \<Longrightarrow> conn_change c (f c))
   \<Longrightarrow> table_changes H k s (s\<lparr>td_connections := upd P f (td_connections s)\<rparr>)"
  by (rule r_into_rtranclp) (rule table_change.conn)

lemma changes_draw: "table_changes H k s (s\<lparr>td_drawn := td_drawn s + n\<rparr>)"
  by (rule r_into_rtranclp) (rule table_change.draw)

lemma changes_draw1: "table_changes H k s (s\<lparr>td_drawn := Suc (td_drawn s)\<rparr>)"
  using changes_draw [of H k s 1] by simp

lemma insert_audit_changes: "insert_audit_event H db sc e i actor action d s = Inr s' \<Longrightarrow> table_changes H k s s'"
  by (auto simp: insert_audit_event_def Let_def intro!: r_into_rtranclp table_change.audited split: if_splits)

lemma audit_changes: "audit H db sc i actor action d s = Inr s' \<Longrightarrow> table_changes H k s s'"
  unfolding audit_def by (rule rtranclp_trans [OF changes_draw1 insert_audit_changes])

text \<open>The rows with one scope and one identifier are one row.\<close>

definition ids_ok :: "tele_db \<Rightarrow> bool" where
  "ids_ok s = (distinct (map cn_id (td_connections s)) \<and> distinct (map rn_id (td_runs s)))"

lemma same_row:
  assumes "ids_ok s" "c \<in> set (td_connections s)" "d \<in> set (td_connections s)" "cn_id c = cn_id d"
  shows "c = d"
  using assms by (auto simp: ids_ok_def distinct_map dest: inj_onD)

lemma same_run:
  assumes "ids_ok s" "c \<in> set (td_runs s)" "d \<in> set (td_runs s)" "rn_id c = rn_id d"
  shows "c = d"
  using assms by (auto simp: ids_ok_def distinct_map dest: inj_onD)

text \<open>An update of the row found, which is not archived.\<close>

lemma changes_row:
  assumes "ids_ok s" and "find_conn s sc i = Some c" and "cn_archived_at c = None"
    and "\<And>d. cn_archived_at d = None \<Longrightarrow> conn_change d (f d)"
  shows "table_changes H k s (set_conn sc i f s)"
proof -
  have "cn_archived_at d = None" if d: "d \<in> set (td_connections s)" "conn_at sc i d" for d
  proof -
    have "c = d" by (rule same_row [OF assms(1)]) (use find_conn_Some [OF assms(2)] d in \<open>auto simp: conn_at_def\<close>)
    with assms(3) show ?thesis by simp
  qed
  then show ?thesis unfolding set_conn_def by (intro changes_conn) (auto intro: assms(4))
qed

lemma changes_row_audit:
  assumes "ids_ok s" and "audit H db sc i a act d (set_conn sc i f s) = Inr s'" and "find_conn s sc i = Some c"
    and "cn_archived_at c = None" and "\<And>d. cn_archived_at d = None \<Longrightarrow> conn_change d (f d)"
  shows "table_changes H k s s'"
  by (rule rtranclp_trans [OF changes_row [OF assms(1,3,4)] audit_changes [OF assms(2)]]) (rule assms(5))

lemma changes_connect:
  "\<not> list_ex (\<lambda>d. cn_id d = cn_id c) (td_connections s) \<Longrightarrow> cn_lease c = None \<Longrightarrow> conn_ok c
   \<Longrightarrow> table_changes H k s (s\<lparr>td_connections := td_connections s @ [c]\<rparr>)"
  by (rule r_into_rtranclp) (rule table_change.connect)

lemma changes_connect_audit:
  "insert_audit_event H db sc e i a act d (s\<lparr>td_connections := td_connections s @ [c]\<rparr>) = Inr s'
   \<Longrightarrow> \<not> list_ex (\<lambda>d. cn_id d = cn_id c) (td_connections s) \<Longrightarrow> cn_lease c = None \<Longrightarrow> conn_ok c
   \<Longrightarrow> table_changes H k s s'"
  by (rule rtranclp_trans [OF changes_connect insert_audit_changes])

lemma create_changes:
  assumes "create_connection H db sc cid name kind config tz polling actor aud s = Inr (s', c)"
  shows "table_changes H k s s'"
  using assms unfolding create_connection_def
  by (auto simp: chain_simps Let_def conn_ok_def split: option.splits if_splits prod.splits
      intro!: changes_connect elim!: changes_connect_audit)

text \<open>A secret is bound to any connection, archived or not.\<close>

lemma upsert_changes:
  assumes "upsert_secret_binding H db sc cid bid provider reference version actor eid detail s = Inr (s', v)"
  shows "table_changes H k s s'"
proof -
  obtain i b bs s1 where s1: "s1 = set_conn sc i (bind_secret b db) (s\<lparr>td_bindings := bs\<rparr>)"
    and s': "s' = s1 \<or> (\<exists>e a act d. insert_audit_event H db sc e i a act d s1 = Inr s')"
    using assms unfolding upsert_secret_binding_def Let_def
    by (auto elim!: bindE_elim split: option.split_asm) blast+
  have "table_changes H k s (s\<lparr>td_bindings := bs\<rparr>)" by (rule r_into_rtranclp) (rule table_change.bindings)
  also have "table_changes H k (s\<lparr>td_bindings := bs\<rparr>) s1" unfolding s1 by (rule r_into_rtranclp) (rule table_change.bind)
  also have "table_changes H k s1 s'" using s' by (auto dest: insert_audit_changes)
  finally show ?thesis .
qed

lemma patch_change: "cn_archived_at c = None \<Longrightarrow> conn_change c (patch_metadata name config tz polling actor db c)"
  by (simp add: conn_change_def conn_ok_def patch_metadata_def lease_token_def)

lemma update_changes:
  assumes ok: "ids_ok s" and u: "update_connection_metadata H db sc cid actor name config tz polling s = Inr (s', c')"
  shows "table_changes H k s s'"
proof -
  have "s' = s \<or> (\<exists>i a n f z p. apply_metadata H db sc i a n f z p s = Inr (s', c'))"
    using u unfolding update_connection_metadata_def by (auto elim!: bindE_elim split: if_split_asm)
  then show ?thesis
    by (auto simp: apply_metadata_def Let_def split: option.split_asm if_split_asm
        elim!: bindE_elim changes_row_audit [OF ok] intro!: patch_change)
qed

lemma lifecycle_patch_change:
  "cn_archived_at c = None \<Longrightarrow> target \<noteq> Archived \<Longrightarrow> conn_change c (patch_lifecycle target on f code summary actor db c)"
  by (simp add: conn_change_def conn_ok_def patch_lifecycle_def lease_token_def)

lemma apply_lifecycle_Inr:
  assumes "apply_lifecycle H db sc i target actor enabled f code summary c s = Inr (s', c')"
  shows "(cn_status c = target \<or> can_transition_connection (cn_status c) target) \<and> target \<noteq> Archived
    \<and> (\<exists>act d on. audit H db sc i actor act d (set_conn sc i (patch_lifecycle target on f code summary actor db) s) = Inr s'
         \<and> (target = Disabled \<longrightarrow> \<not> on))"
  using assms unfolding apply_lifecycle_def Let_def
  by (auto elim!: bindE_elim simp: res_simps split: if_split_asm)

lemma lifecycle_Inr:
  assumes "set_connection_lifecycle H db sc cid target actor enabled f s = Inr (s', c')"
  shows "s' = s \<or> (\<exists>i a c code summary. require_uuid H cid ''telemetry_connection_id_invalid'' = Inr i
    \<and> find_conn s sc i = Some c \<and> cn_archived_at c = None
    \<and> apply_lifecycle H db sc i target a enabled f code summary c s = Inr (s', c'))"
  using assms unfolding set_connection_lifecycle_def Let_def
  by (auto elim!: bindE_elim split: if_split_asm option.split_asm)

lemma lifecycle_changes:
  assumes ok: "ids_ok s" and u: "set_connection_lifecycle H db sc cid target actor enabled f s = Inr (s', c')"
  shows "table_changes H k s s'"
  using lifecycle_Inr [OF u] by (auto dest!: apply_lifecycle_Inr elim!: changes_row_audit [OF ok] intro!: lifecycle_patch_change)

lemma archive_changes:
  assumes ok: "ids_ok s" and "archive_connection H db sc cid actor s = Inr (s', c')"
  shows "table_changes H k s s'"
  using assms(2) unfolding archive_connection_def Let_def
  by (auto elim!: bindE_elim changes_row_audit [OF ok] simp: conn_change_def conn_ok_def split: if_split_asm option.split_asm)

text \<open>A leased connection is not archived.\<close>

definition rows_valid :: "tele_db \<Rightarrow> bool" where
  "rows_valid s = (ids_ok s \<and> list_all conn_ok (td_connections s))"

lemma valid_ids: "rows_valid s \<Longrightarrow> ids_ok s"
  by (simp add: rows_valid_def)

lemma leased_open: "rows_valid s \<Longrightarrow> c \<in> set (td_connections s) \<Longrightarrow> lease_token c = Some t \<Longrightarrow> cn_archived_at c = None"
  by (auto simp: rows_valid_def list_all_iff conn_ok_def lease_token_def)

lemma changes_leased:
  assumes ok: "rows_valid s" and P: "\<And>c. P c \<Longrightarrow> \<exists>t. lease_token c = Some t"
    and f: "\<And>c. cn_archived_at c = None \<Longrightarrow> conn_change c (f c)"
  shows "table_changes H k s (s\<lparr>td_connections := upd P f (td_connections s)\<rparr>)"
  by (rule changes_conn) (use P f leased_open [OF ok] in blast)

lemma drop_lease_change:
  "cn_archived_at c = None \<Longrightarrow> conn_change c (c\<lparr>cn_lease := None, cn_next_attempt := n, cn_updated_at := t\<rparr>)"
  by (simp add: conn_change_def conn_ok_def)

lemma renew_change:
  "cn_archived_at c = None
   \<Longrightarrow> conn_change c (c\<lparr>cn_lease := map_option (\<lambda>l. l\<lparr>ls_expires := e\<rparr>) (cn_lease c), cn_updated_at := n\<rparr>)"
  by (cases "cn_lease c") (simp_all add: conn_change_def conn_ok_def lease_token_def)

lemma renew_changes:
  assumes ok: "rows_valid s" and "renew_lease H sc cid token seconds now s = Inr (s', b)"
  shows "table_changes H k s s'"
proof -
  have P: "(case cn_lease c of None \<Rightarrow> False | Some l \<Rightarrow> ls_token l = t \<and> now < ls_expires l) \<Longrightarrow> lease_token c = Some t" for c t
    by (auto simp: lease_token_def split: option.split_asm)
  show ?thesis using assms(2) unfolding renew_lease_def Let_def
    by (elim bindE_elim) (auto intro!: changes_leased [OF ok] renew_change dest!: P)
qed

lemma release_changes:
  assumes ok: "rows_valid s" and "release_lease H db sc cid token next s = Inr (s', b)"
  shows "table_changes H k s s'"
  using assms(2) unfolding release_lease_def Let_def
  by (auto elim!: bindE_elim intro!: changes_leased [OF ok] drop_lease_change)

lemma end_claim_changes:
  assumes ok: "rows_valid s" and e: "end_claim sc i r t f g s = Inr s'"
    and f: "\<And>x. rn_status x = Running \<Longrightarrow> run_change x (f x)" and g: "\<And>c. cn_archived_at c = None \<Longrightarrow> conn_change c (g c)"
  shows "table_changes H k s s'"
proof -
  let ?s1 = "s\<lparr>td_runs := upd (\<lambda>x. run_at sc i r x \<and> rn_status x = Running \<and> rn_token x = Some t) f (td_runs s)\<rparr>"
  have 1: "table_changes H k s ?s1" by (rule r_into_rtranclp) (rule table_change.run, simp add: f)
  have "table_changes H k ?s1 (?s1\<lparr>td_connections := upd (\<lambda>c. conn_at sc i c \<and> lease_token c = Some t) g (td_connections ?s1)\<rparr>)"
    by (rule changes_conn) (use leased_open [OF ok] g in auto)
  with 1 e show ?thesis by (auto simp: end_claim_def split: if_split_asm intro: rtranclp_trans)
qed

lemma continue_changes:
  assumes ok: "rows_valid s" and "continue_ingestion_work H sc cid rid token t n s = Inr s'"
  shows "table_changes H k s s'"
  using assms(2) unfolding continue_ingestion_work_def
  by (auto elim!: bindE_elim end_claim_changes [OF ok] split: if_split_asm
      simp: run_change_def run_ok_def active_def intro!: drop_lease_change)

lemma complete_change: "cn_archived_at c = None \<Longrightarrow> conn_change c (complete_connection t n st c)"
  by (simp add: conn_change_def conn_ok_def complete_connection_def)

lemma changes_audit:
  "table_changes H k s s1 \<Longrightarrow> audit H db sc i a act d s1 = Inr s' \<Longrightarrow> table_changes H k s s'"
  by (rule rtranclp_trans [OF _ audit_changes])

lemma audit_range_changes: "audit_range H db sc i x ended act d s = Inr s' \<Longrightarrow> table_changes H k s s'"
  by (auto simp: audit_range_def split: if_split_asm dest: audit_changes)

lemma end_claim_then:
  "end_claim sc i r t f g s = Inr s1 \<Longrightarrow> table_changes H k s1 s' \<Longrightarrow> rows_valid s
   \<Longrightarrow> (\<And>x. rn_status x = Running \<Longrightarrow> run_change x (f x)) \<Longrightarrow> (\<And>c. cn_archived_at c = None \<Longrightarrow> conn_change c (g c))
   \<Longrightarrow> table_changes H k s s'"
  by (rule rtranclp_trans [OF end_claim_changes])

lemma complete_run_change:
  "rn_status x = Running \<Longrightarrow> run_change x (complete_run t (completed_status partial y) x)"
  "rn_status x = Running \<Longrightarrow> run_change x (complete_run t Partial x)"
  by (simp_all add: run_change_def run_ok_def active_def complete_run_def completed_status_def)

lemma complete_changes:
  assumes ok: "rows_valid s" and "complete_ingestion_work H db sc cid rid token t n partial s = Inr (s', st)"
  shows "table_changes H k s s'"
  using assms(2) unfolding complete_ingestion_work_def Let_def
  by (elim bindE_elim)
    (auto elim!: bindE_elim end_claim_then [OF _ audit_range_changes ok] split: if_splits option.split_asm
      intro!: complete_run_change complete_change)

lemma retry_bounds: "conn_ok c \<Longrightarrow> 0 \<le> retry_count_after c \<and> retry_count_after c \<le> 10"
  by (simp add: retry_count_after_def conn_ok_def)

lemma fail_run_change:
  "rn_status x = Running \<Longrightarrow> 0 \<le> n \<Longrightarrow> n \<le> 10 \<Longrightarrow> run_change x (fail_run t code summary n exhausted x)"
  by (simp add: run_change_def run_ok_def active_def fail_run_def)

lemma fail_change:
  "cn_archived_at c = None \<Longrightarrow> 0 \<le> n \<Longrightarrow> n \<le> 10 \<Longrightarrow> conn_change c (fail_connection t code summary n exhausted next c)"
  by (simp add: conn_change_def conn_ok_def fail_connection_def)

lemma failure_changes:
  assumes ok: "rows_valid s" and "record_ingestion_failure H db sc cid rid token t code summary retryable after jitter s = Inr (s', st)"
  shows "table_changes H k s s'"
proof -
  have "conn_ok c" if "c \<in> set (td_connections s)" for c using ok that by (simp add: rows_valid_def list_all_iff)
  then have n: "0 \<le> retry_count_after c \<and> retry_count_after c \<le> 10" if "next_or P (td_connections s) = Some c" for c P
    using next_or_Some [OF that] retry_bounds by blast
  show ?thesis
    using assms(2) unfolding record_ingestion_failure_def Let_def
    by (auto elim!: bindE_elim end_claim_then [OF _ audit_range_changes ok] split: option.split_asm prod.split_asm dest!: n
        intro!: fail_run_change fail_change)
qed

lemma schedule_changes:
  assumes "schedule_connection_now H db sc cid t s = Inr (s', b)"
  shows "table_changes H k s s'"
  using assms unfolding schedule_connection_now_def Let_def
  by (auto elim!: bindE_elim intro!: changes_conn simp: conn_change_def conn_ok_def lease_token_def)

lemma advance_changes:
  assumes "advance_checkpoint H db sc cid m expected cursor high rid token s = Inr (s', n)"
  shows "table_changes H k s s'"
  using assms unfolding advance_checkpoint_def
  by (auto elim!: bindE_elim intro!: r_into_rtranclp table_change.check simp: not_less split: if_split_asm option.split_asm)

lemma uncheck_changes: "table_changes H k s (drop_backfill_checkpoint sc i s)"
  by (rule r_into_rtranclp) (rule table_change.uncheck)

lemma insert_run_changes:
  assumes "insert_run r s = Inr s'" and "run_ok r" "active r" "rn_accepted r = 0"
    and "rn_status r = Running \<Longrightarrow> \<not> list_ex (\<lambda>x. rn_scope x = rn_scope r \<and> rn_connection x = rn_connection r \<and> active x) (td_runs s)"
  shows "table_changes H k s s'"
  using assms by (auto simp: insert_run_def split: if_split_asm intro!: r_into_rtranclp table_change.queue)

lemma insert_run_frame: "insert_run r s = Inr s' \<Longrightarrow> td_connections s' = td_connections s"
  by (auto simp: insert_run_def split: if_split_asm)

lemma find_conn_frame: "td_connections s' = td_connections s \<Longrightarrow> find_conn s' sc i = find_conn s sc i"
  by (simp add: find_conn_def)

lemma open_connection_row:
  assumes ok: "ids_ok s" and o: "open_connection s sc i" and c: "c \<in> set (td_connections s)" "conn_at sc i c"
  shows "cn_archived_at c = None"
proof -
  obtain d where d: "find_conn s sc i = Some d" "cn_archived_at d = None" using o by (auto simp: open_connection_def split: option.splits)
  have "d = c" by (rule same_row [OF ok]) (use find_conn_Some [OF d(1)] c in \<open>auto simp: conn_at_def\<close>)
  with d show ?thesis by simp
qed

lemma make_due_changes:
  assumes "ids_ok s" "open_connection s sc i" "td_connections s1 = td_connections s"
  shows "table_changes H k s1 (make_due db sc i t s1)"
  unfolding make_due_def set_conn_def
  by (rule changes_conn) (use open_connection_row [OF assms(1,2)] assms(3) in \<open>auto simp: conn_change_def conn_ok_def lease_token_def\<close>)

text \<open>A new pending run, perhaps a reset of the range checkpoint, and a connection made due.\<close>

lemma queued_changes:
  assumes ok: "ids_ok s" "open_connection s sc i" and r: "insert_run r s = Inr s1" "run_ok r" "rn_status r = Pending" "rn_accepted r = 0"
    and a: "audit H db sc i a act d (make_due db' sc i t (if b then drop_backfill_checkpoint sc i s1 else s1)) = Inr s'"
  shows "table_changes H k s s'"
proof -
  let ?s2 = "if b then drop_backfill_checkpoint sc i s1 else s1"
  have "table_changes H k s s1" by (rule insert_run_changes [OF r(1,2)]) (use r in \<open>auto simp: active_def\<close>)
  also have "table_changes H k s1 ?s2" by (simp add: uncheck_changes)
  also have "table_changes H k ?s2 (make_due db' sc i t ?s2)"
    by (rule make_due_changes [OF ok]) (simp add: insert_run_frame [OF r(1)] drop_backfill_checkpoint_def)
  also have "table_changes H k (make_due db' sc i t ?s2) s'" by (rule audit_changes [OF a])
  finally show ?thesis .
qed

lemma backfill_changes:
  assumes ok: "ids_ok s" and "create_backfill_run H db sc rid cid rs re actor t s = Inr (s', r)"
  shows "table_changes H k s s'"
  using assms(2) unfolding create_backfill_run_def Let_def
  by (auto elim!: bindE_elim queued_changes [OF ok, where b = True, simplified] split: if_split_asm sum.split_asm
      simp: blank_run_def run_ok_def WORK_MODES_def active_def)

lemma draw_valid [simp]:
  "ids_ok (s\<lparr>td_drawn := n\<rparr>) = ids_ok s" "rows_valid (s\<lparr>td_drawn := n\<rparr>) = rows_valid s"
  "open_connection (s\<lparr>td_drawn := n\<rparr>) sc i = open_connection s sc i"
  by (simp_all add: ids_ok_def rows_valid_def open_connection_def find_conn_def)

lemma retry_changes:
  assumes ok: "ids_ok s" and "retry_ingestion_run H db sc rid actor t new_id s = Inr (s', r)"
  shows "table_changes H k s s'"
proof -
  define fresh where "fresh = (case new_id of None \<Rightarrow> True | Some x \<Rightarrow> x = [])"
  define s0 where "s0 = (if fresh then s\<lparr>td_drawn := Suc (td_drawn s)\<rparr> else s)"
  have 0: "table_changes H k s s0" and ok0: "ids_ok s0" by (simp_all add: s0_def changes_draw1 ok)
  have "table_changes H k s0 s'" using assms(2) unfolding retry_ingestion_run_def Let_def fresh_def [symmetric] s0_def [symmetric]
    by (auto elim!: bindE_elim queued_changes [OF ok0] split: option.split_asm sum.split_asm dest!: next_or_Some
        simp: blank_run_def run_ok_def WORK_MODES_def active_def)
  with 0 show ?thesis by (rule rtranclp_trans)
qed

subsection \<open>What the primitive changes keep\<close>

definition tokens_ok :: "'a tele_host_scheme \<Rightarrow> tele_db \<Rightarrow> bool" where
  "tokens_ok H s = ((\<forall>p \<in> holders s. \<exists>n < td_drawn s. snd p = th_uuid4 H n) \<and> inj_on snd (holders s))"

definition runs_ok :: "tele_db \<Rightarrow> bool" where
  "runs_ok s = (list_all run_ok (td_runs s) \<and> (\<forall>r \<in> set (td_runs s). \<forall>x \<in> set (td_runs s).
     rn_status r = Running \<and> rn_status x = Running \<and> rn_scope r = rn_scope x \<and> rn_connection r = rn_connection x
     \<longrightarrow> rn_id r = rn_id x))"

definition checkpoints_ok :: "tele_db \<Rightarrow> bool" where
  "checkpoints_ok s = (distinct (map (\<lambda>k. (ts_resource (ck_scope k), ck_connection k, ck_mode k)) (td_checkpoints s))
     \<and> list_all (\<lambda>k. 1 \<le> ck_revision k) (td_checkpoints s))"

definition observations_ok :: "tele_db \<Rightarrow> bool" where
  "observations_ok s = sorted_wrt (\<lambda>x y. \<not> observation_conflict y x) (td_observations s)"

definition observed_in :: "run \<Rightarrow> observation list \<Rightarrow> nat" where
  "observed_in r xs = length (filter (\<lambda>x. so_run x = rn_id r) xs)"

definition counts_ok :: "tele_db \<Rightarrow> bool" where
  "counts_ok s = ((\<forall>r \<in> set (td_runs s). rn_accepted r = int (observed_in r (td_observations s)))
     \<and> (\<forall>x \<in> set (td_observations s). so_run x \<in> rn_id ` set (td_runs s)))"

definition queue_ok :: "'a tele_host_scheme \<Rightarrow> tele_db \<Rightarrow> bool" where
  "queue_ok H s = (rows_valid s \<and> tokens_ok H s \<and> runs_ok s \<and> checkpoints_ok s \<and> observations_ok s \<and> counts_ok s)"

lemmas queue_frames = rows_valid_def ids_ok_def tokens_ok_def runs_ok_def checkpoints_ok_def observations_ok_def
  counts_ok_def observed_in_def holders_def

lemma map_upd_mem: "(\<And>x. x \<in> set xs \<Longrightarrow> p x \<Longrightarrow> g (f x) = g x) \<Longrightarrow> map g (upd p f xs) = map g xs"
  by (auto simp: upd_def)

lemma list_all_upd: "list_all Q xs \<Longrightarrow> (\<And>x. x \<in> set xs \<Longrightarrow> p x \<Longrightarrow> Q x \<Longrightarrow> Q (f x)) \<Longrightarrow> list_all Q (upd p f xs)"
  by (auto simp: list_all_iff upd_def)

lemma conn_list_ok:
  assumes "list_all conn_ok cs" and "\<And>c. c \<in> set cs \<Longrightarrow> P c \<Longrightarrow> conn_change c (f c)"
  shows "list_all conn_ok (upd P f cs)" and "map cn_id (upd P f cs) = map cn_id cs"
  using assms by (auto simp: conn_change_def intro!: list_all_upd map_upd_mem)

lemma rows_kept: "table_change H k s s' \<Longrightarrow> rows_valid s \<Longrightarrow> rows_valid s'"
proof (induction rule: table_change.induct)
  case (connect c s)
  then show ?case by (auto simp: rows_valid_def ids_ok_def list_ex_iff)
next
  case (conn s P f)
  then show ?case using conn_list_ok [of "td_connections s" P f] by (simp add: rows_valid_def ids_ok_def)
next
  case (bind s sc i b t)
  have "map cn_id (upd (conn_at sc i) (bind_secret b t) (td_connections s)) = map cn_id (td_connections s)"
    by (rule map_upd_mem) (simp add: bind_secret_def)
  moreover have "list_all conn_ok (upd (conn_at sc i) (bind_secret b t) (td_connections s))"
    by (rule list_all_upd) (use bind in \<open>auto simp: rows_valid_def conn_ok_def bind_secret_def\<close>)
  ultimately show ?case using bind.prems by (simp add: rows_valid_def ids_ok_def set_conn_def)
next
  case (lease n s sc i worker now seconds)
  have "map cn_id (upd (conn_at sc i) (lease_connection worker (th_uuid4 H n) now seconds) (td_connections s)) = map cn_id (td_connections s)"
    by (rule map_upd_mem) (simp add: lease_connection_def)
  moreover have "list_all conn_ok (upd (conn_at sc i) (lease_connection worker (th_uuid4 H n) now seconds) (td_connections s))"
    by (rule list_all_upd) (use lease in \<open>auto simp: rows_valid_def conn_ok_def lease_connection_def\<close>)
  ultimately show ?case using lease.prems by (simp add: rows_valid_def ids_ok_def set_conn_def)
next
  case (queue r s)
  then show ?case by (auto simp: rows_valid_def ids_ok_def run_conflict_def list_ex_iff)
next
  case (run s P f)
  then have "map rn_id (upd P f (td_runs s)) = map rn_id (td_runs s)" by (intro map_upd_mem) (simp add: run_change_def)
  with run show ?case by (simp add: rows_valid_def ids_ok_def)
next
  case (start s sc i rid P worker token now)
  then have "map rn_id (upd P (start_run worker token now) (td_runs s)) = map rn_id (td_runs s)"
    by (intro map_upd_mem) (simp add: start_run_def)
  with start show ?case by (simp add: rows_valid_def ids_ok_def)
next
  case (page r s sc i rid t xs obs new n p received db)
  have "map rn_id (upd (run_at sc i rid) (\<lambda>x. if rn_status x = Running \<and> rn_token x = Some t then count_page p received n db x else x)
      (td_runs s)) = map rn_id (td_runs s)"
    by (rule map_upd_mem) (simp add: count_page_def)
  with page show ?case by (simp add: rows_valid_def ids_ok_def)
qed (simp_all add: rows_valid_def ids_ok_def drop_backfill_checkpoint_def)

text \<open>Where the tokens come from: a change keeps, drops or draws them.\<close>

lemma conn_row_back:
  assumes d: "d \<in> set (upd P f cs)" and f: "\<And>c. c \<in> set cs \<Longrightarrow> P c \<Longrightarrow> conn_change c (f c)"
  shows "\<exists>c \<in> set cs. cn_id c = cn_id d \<and> (lease_token d = None \<or> lease_token d = lease_token c)"
proof -
  obtain c where c: "c \<in> set cs" "d = (if P c then f c else c)" using d by (auto simp: set_upd)
  have "cn_id c = cn_id d \<and> (lease_token d = None \<or> lease_token d = lease_token c)"
    using c f [OF c(1)] by (cases "P c") (auto simp: conn_change_def lease_token_def)
  with c(1) show ?thesis by blast
qed

lemma lease_row_back:
  assumes "d \<in> set (upd (conn_at sc i) (lease_connection worker t now seconds) cs)"
  shows "\<exists>c \<in> set cs. cn_id c = cn_id d \<and> (lease_token d = lease_token c \<or> lease_token d = Some t \<and> cn_id c = i)"
  using assms unfolding set_upd by (auto simp: lease_connection_def lease_token_def conn_at_def split: if_split_asm)

lemma holdersI: "c \<in> set (td_connections s) \<Longrightarrow> lease_token c = Some t \<Longrightarrow> (cn_id c, t) \<in> holders s"
  by (auto simp: holders_def)

lemma holdersE: "(i, t) \<in> holders s \<Longrightarrow> (\<And>c. c \<in> set (td_connections s) \<Longrightarrow> cn_id c = i \<Longrightarrow> lease_token c = Some t \<Longrightarrow> Q) \<Longrightarrow> Q"
  by (auto simp: holders_def)

lemma holders_conn:
  assumes "\<And>c. c \<in> set (td_connections s) \<Longrightarrow> P c \<Longrightarrow> conn_change c (f c)"
  shows "holders (s\<lparr>td_connections := upd P f (td_connections s)\<rparr>) \<subseteq> holders s"
proof (rule subrelI, elim holdersE)
  fix i t d assume d: "d \<in> set (td_connections (s\<lparr>td_connections := upd P f (td_connections s)\<rparr>))" "cn_id d = i" "lease_token d = Some t"
  then have "d \<in> set (upd P f (td_connections s))" by simp
  from conn_row_back [OF this assms] obtain c where "c \<in> set (td_connections s)" "cn_id c = cn_id d" "lease_token c = Some t"
    using d(3) by auto
  with d(2) show "(i, t) \<in> holders s" using holdersI by metis
qed

lemma holders_bind: "holders (set_conn sc i (bind_secret b t) s) \<subseteq> holders s"
proof (rule subrelI, elim holdersE)
  fix j u d
  assume d: "d \<in> set (td_connections (set_conn sc i (bind_secret b t) s))" "cn_id d = j" "lease_token d = Some u"
  then obtain c where c: "c \<in> set (td_connections s)" "d = (if conn_at sc i c then bind_secret b t c else c)"
    by (auto simp: set_conn_def set_upd)
  have "cn_id c = j" "lease_token c = Some u"
    using c(2) d(2,3) by (auto simp: bind_secret_def lease_token_def split: if_split_asm)
  then show "(j, u) \<in> holders s" using holdersI [OF c(1)] by blast
qed

lemma holders_lease:
  "holders (set_conn sc i (lease_connection worker t now seconds) s) \<subseteq> insert (i, t) (holders s)"
proof (rule subrelI, elim holdersE)
  fix j u d
  assume d: "d \<in> set (td_connections (set_conn sc i (lease_connection worker t now seconds) s))" "cn_id d = j" "lease_token d = Some u"
  then have "d \<in> set (upd (conn_at sc i) (lease_connection worker t now seconds) (td_connections s))" by (simp add: set_conn_def)
  from lease_row_back [OF this] obtain c where c: "c \<in> set (td_connections s)" "cn_id c = cn_id d"
      "lease_token d = lease_token c \<or> lease_token d = Some t \<and> cn_id c = i" by blast
  then show "(j, u) \<in> insert (i, t) (holders s)" using d(2,3) holdersI [OF c(1)] by auto
qed

lemma tokens_subset:
  "holders s' \<subseteq> holders s \<Longrightarrow> td_drawn s \<le> td_drawn s' \<Longrightarrow> tokens_ok H s \<Longrightarrow> tokens_ok H s'"
  unfolding tokens_ok_def
  by (elim conjE, intro conjI ballI) (blast dest: order_less_le_trans, rule inj_on_subset)

lemma holders_frame: "td_connections s' = td_connections s \<Longrightarrow> holders s' = holders s"
  by (simp add: holders_def)

lemma tokens_frame: "td_connections s' = td_connections s \<Longrightarrow> td_drawn s \<le> td_drawn s' \<Longrightarrow> tokens_ok H s \<Longrightarrow> tokens_ok H s'"
  using tokens_subset [of s' s] holders_frame [of s' s] by blast

lemma tokens_kept:
  assumes "table_change H k s s'" and "tokens_ok H s"
  shows "tokens_ok H s'"
  using assms
proof (induction rule: table_change.induct)
  case (connect c s)
  then have "holders (s\<lparr>td_connections := td_connections s @ [c]\<rparr>) \<subseteq> holders s" by (auto simp: holders_def lease_token_def)
  then show ?case by (rule tokens_subset) (simp_all add: connect.prems)
next
  case (conn s P f)
  have "holders (s\<lparr>td_connections := upd P f (td_connections s)\<rparr>) \<subseteq> holders s" by (rule holders_conn) (rule conn.hyps)
  then show ?case by (rule tokens_subset) (simp_all add: conn.prems)
next
  case (lease n s sc i worker now seconds)
  let ?t = "th_uuid4 H n" and ?s' = "set_conn sc i (lease_connection worker (th_uuid4 H n) now seconds) s"
  have "inj_on snd (insert (i, ?t) (holders s))"
    using lease.prems lease.hyps(3) by (auto simp: tokens_ok_def held_tokens_def)
  then have "inj_on snd (holders ?s')" by (rule inj_on_subset) (rule holders_lease)
  moreover have "\<exists>m < td_drawn s. snd p = th_uuid4 H m" if "p \<in> holders ?s'" for p
  proof -
    have "p = (i, ?t) \<or> p \<in> holders s" using that holders_lease [of sc i worker ?t now seconds s] by blast
    then show ?thesis using lease.prems lease.hyps(2) by (auto simp: tokens_ok_def)
  qed
  ultimately show ?case by (simp add: tokens_ok_def set_conn_def)
next
  case (bind s sc i b t)
  show ?case by (rule tokens_subset [OF holders_bind]) (simp_all add: bind.prems set_conn_def)
qed (rule tokens_frame; simp add: drop_backfill_checkpoint_def)+

definition running_unique :: "run list \<Rightarrow> bool" where
  "running_unique rs = (\<forall>r \<in> set rs. \<forall>x \<in> set rs. rn_status r = Running \<and> rn_status x = Running
     \<and> rn_scope r = rn_scope x \<and> rn_connection r = rn_connection x \<longrightarrow> rn_id r = rn_id x)"

lemma runs_ok_unique: "runs_ok s = (list_all run_ok (td_runs s) \<and> running_unique (td_runs s))"
  by (simp add: runs_ok_def running_unique_def)

text \<open>An update that makes no run running keeps the running runs apart.\<close>

lemma running_unique_upd:
  assumes u: "running_unique rs"
    and f: "\<And>r. r \<in> set rs \<Longrightarrow> P r \<Longrightarrow> rn_id (f r) = rn_id r \<and> rn_scope (f r) = rn_scope r
      \<and> rn_connection (f r) = rn_connection r \<and> (rn_status (f r) = Running \<longrightarrow> rn_status r = Running)"
  shows "running_unique (upd P f rs)"
proof -
  have "\<exists>r \<in> set rs. rn_id x = rn_id r \<and> rn_scope x = rn_scope r \<and> rn_connection x = rn_connection r
      \<and> (rn_status x = Running \<longrightarrow> rn_status r = Running)" if x: "x \<in> set (upd P f rs)" for x
  proof -
    obtain r where r: "r \<in> set rs" "x = (if P r then f r else r)" using x by (auto simp: set_upd)
    show ?thesis using r f [OF r(1)] by (intro bexI [OF _ r(1)]) (cases "P r"; simp)
  qed
  with u show ?thesis unfolding running_unique_def by metis
qed

lemma start_run_ok: "run_ok r \<Longrightarrow> active r \<Longrightarrow> run_ok (start_run worker token now r)"
  by (auto simp: run_ok_def start_run_def active_def)

lemma count_page_ok: "run_ok (count_page p received n db r) = run_ok r"
  by (simp add: run_ok_def count_page_def active_def)

lemma runs_kept: "table_change H k s s' \<Longrightarrow> runs_ok s \<Longrightarrow> runs_ok s'"
  unfolding runs_ok_unique
proof (induction rule: table_change.induct)
  case (queue r s)
  have "running_unique (td_runs s @ [r])" unfolding running_unique_def
  proof (intro ballI impI)
    fix a b
    assume a: "a \<in> set (td_runs s @ [r])" "b \<in> set (td_runs s @ [r])"
      and e: "rn_status a = Running \<and> rn_status b = Running \<and> rn_scope a = rn_scope b \<and> rn_connection a = rn_connection b"
    have n: "\<not> (rn_scope x = rn_scope r \<and> rn_connection x = rn_connection r)"
      if "x \<in> set (td_runs s)" "rn_status x = Running" "rn_status r = Running" for x
      using queue.hyps(5) that by (auto simp: list_ex_iff active_def)
    show "rn_id a = rn_id b"
    proof (cases "a \<in> set (td_runs s) \<and> b \<in> set (td_runs s)")
      case True
      with queue.prems e show ?thesis by (auto simp: running_unique_def)
    next
      case False
      with a e n show ?thesis by (metis Un_iff empty_iff empty_set insert_iff list.set(2) set_append)
    qed
  qed
  with queue show ?case by simp
next
  case (run s P f)
  have "list_all run_ok (upd P f (td_runs s))"
    by (rule list_all_upd) (use run in \<open>auto simp: run_change_def\<close>)
  moreover have "running_unique (upd P f (td_runs s))"
    by (rule running_unique_upd) (use run in \<open>auto simp: run_change_def\<close>)
  ultimately show ?case by simp
next
  case (start s sc i rid P worker token now)
  let ?f = "start_run worker token now"
  have "list_all run_ok (upd P ?f (td_runs s))"
    by (rule list_all_upd) (use start in \<open>auto intro: start_run_ok\<close>)
  moreover have "running_unique (upd P ?f (td_runs s))" unfolding running_unique_def
  proof (intro ballI impI)
    fix a b
    assume a: "a \<in> set (upd P ?f (td_runs s))" "b \<in> set (upd P ?f (td_runs s))"
      and e: "rn_status a = Running \<and> rn_status b = Running \<and> rn_scope a = rn_scope b \<and> rn_connection a = rn_connection b"
    have origin: "z \<in> set (td_runs s) \<or> rn_scope z = sc \<and> rn_connection z = i \<and> rn_id z = rid" if z: "z \<in> set (upd P ?f (td_runs s))" for z
    proof -
      obtain x where x: "x \<in> set (td_runs s)" "z = (if P x then ?f x else x)" using z by (auto simp: set_upd)
      show ?thesis using x start.hyps(2) [of x] by (cases "P x") (simp_all add: start_run_def run_at_def)
    qed
    have one: "rn_id z = rid" if "z \<in> set (td_runs s)" "rn_scope z = sc" "rn_connection z = i" "rn_status z = Running" for z
      using start.hyps(1) that by blast
    show "rn_id a = rn_id b"
    proof (cases "a \<in> set (td_runs s) \<and> b \<in> set (td_runs s)")
      case True
      with start.prems e show ?thesis unfolding running_unique_def by blast
    next
      case False
      with origin [OF a(1)] origin [OF a(2)] e one [of a] one [of b] show ?thesis by auto
    qed
  qed
  ultimately show ?case by simp
next
  case (page r s sc i rid t xs obs new n p received db)
  let ?f = "\<lambda>x. if rn_status x = Running \<and> rn_token x = Some t then count_page p received n db x else x"
  have "list_all run_ok (upd (run_at sc i rid) ?f (td_runs s))"
    by (rule list_all_upd) (use page in \<open>auto simp: count_page_ok\<close>)
  moreover have "running_unique (upd (run_at sc i rid) ?f (td_runs s))"
    by (rule running_unique_upd) (use page in \<open>auto simp: count_page_def\<close>)
  ultimately show ?case by simp
qed (simp_all add: drop_backfill_checkpoint_def set_conn_def)

lemma distinct_map_filter': "distinct (map f xs) \<Longrightarrow> distinct (map f (filter P xs))"
  by (induction xs) auto

lemma checkpoints_kept: "table_change H k s s' \<Longrightarrow> checkpoints_ok s \<Longrightarrow> checkpoints_ok s'"
proof (induction rule: table_change.induct)
  case (check db sc i m expected cursor high rid s ks revision)
  show ?case
  proof (cases "expected = 0")
    case True
    let ?k = "\<lparr>ck_scope = sc, ck_connection = i, ck_mode = m, ck_cursor = cursor, ck_high_water = high, ck_revision = 1,
      ck_run = Some rid, ck_updated_at = db\<rparr>"
    from check True have k: "ks = td_checkpoints s @ [?k]"
      "\<forall>k \<in> set (td_checkpoints s). \<not> (ts_resource (ck_scope k) = ts_resource sc \<and> ck_connection k = i \<and> ck_mode k = m)"
      by (auto simp: put_checkpoint_def list_ex_iff split: if_split_asm)
    with check.prems show ?thesis unfolding checkpoints_ok_def by (fastforce simp: image_iff)
  next
    case False
    let ?f = "\<lambda>k. k\<lparr>ck_cursor := cursor, ck_high_water := high, ck_revision := ck_revision k + 1, ck_run := Some rid, ck_updated_at := db\<rparr>"
    have ks: "ks = upd (\<lambda>k. checkpoint_at sc i m k \<and> ck_revision k = expected) ?f (td_checkpoints s)"
      using check False by (auto simp: put_checkpoint_def Let_def split: if_split_asm)
    have "map (\<lambda>k. (ts_resource (ck_scope k), ck_connection k, ck_mode k)) ks
        = map (\<lambda>k. (ts_resource (ck_scope k), ck_connection k, ck_mode k)) (td_checkpoints s)"
      unfolding ks by (rule map_upd) simp
    moreover have "list_all (\<lambda>k. 1 \<le> ck_revision k) ks" unfolding ks
      by (rule list_all_upd) (use check.prems in \<open>auto simp: checkpoints_ok_def\<close>)
    ultimately show ?thesis using check.prems by (simp add: checkpoints_ok_def)
  qed
next
  case (uncheck s sc i)
  then show ?case by (auto simp: checkpoints_ok_def drop_backfill_checkpoint_def list_all_iff intro: distinct_map_filter')
qed (simp_all add: checkpoints_ok_def set_conn_def)

end
