(* ===== verification/Telemetry_Invariants.thy ===== *)
theory Telemetry_Invariants
  imports Telemetry_Steps
begin

text \<open>
  The invariant \<open>queue_ok\<close> of the telemetry tables: every primitive change keeps it, every operation of the
  repository is a sequence of primitive changes, so it holds in every state the operations reach.
\<close>

subsection \<open>The observations and the counters of the runs\<close>

lemma insert_observations_append:
  "insert_observations ys xs = (zs, new) \<Longrightarrow> zs = ys @ new \<and> set new \<subseteq> set xs"
  by (induction ys xs arbitrary: zs new rule: insert_observations.induct) (fastforce split: if_split_asm prod.split_asm)+

lemma insert_observations_sorted:
  "insert_observations ys xs = (zs, new) \<Longrightarrow> sorted_wrt (\<lambda>x y. \<not> observation_conflict y x) ys
   \<Longrightarrow> sorted_wrt (\<lambda>x y. \<not> observation_conflict y x) zs"
proof (induction ys xs arbitrary: zs new rule: insert_observations.induct)
  case (2 ys x xs)
  show ?case
  proof (cases "list_ex (observation_conflict x) ys")
    case True
    with 2 show ?thesis by simp
  next
    case False
    with 2(2)[OF False] 2(3,4) show ?thesis
      by (auto simp: sorted_wrt_append list_ex_iff split: prod.split_asm)
  qed
qed simp

lemma observations_kept: "table_change H k s s' \<Longrightarrow> observations_ok s \<Longrightarrow> observations_ok s'"
proof (induction rule: table_change.induct)
  case (page r s sc i rid t xs obs new n p received db)
  then show ?case using insert_observations_sorted [OF page.hyps(5)] by (simp add: observations_ok_def)
qed (simp_all add: observations_ok_def set_conn_def drop_backfill_checkpoint_def)

lemma observed_append: "observed_in r (xs @ ys) = observed_in r xs + observed_in r ys"
  by (simp add: observed_in_def)

lemma observed_other: "(\<And>x. x \<in> set xs \<Longrightarrow> so_run x \<noteq> rn_id r) \<Longrightarrow> observed_in r xs = 0"
  by (induction xs) (simp_all add: observed_in_def)

lemma observed_all: "(\<And>x. x \<in> set xs \<Longrightarrow> so_run x = rn_id r) \<Longrightarrow> observed_in r xs = length xs"
  by (induction xs) (simp_all add: observed_in_def)

lemma observed_id: "rn_id x = rn_id r \<Longrightarrow> observed_in x xs = observed_in r xs"
  by (simp add: observed_in_def)

text \<open>An update that keeps identifiers and accepted counts keeps the counters exact.\<close>

lemma counts_upd:
  assumes c: "counts_ok s" and f: "\<And>r. r \<in> set (td_runs s) \<Longrightarrow> P r \<Longrightarrow> rn_id (f r) = rn_id r \<and> rn_accepted (f r) = rn_accepted r"
  shows "counts_ok (s\<lparr>td_runs := upd P f (td_runs s)\<rparr>)"
proof -
  have "map rn_id (upd P f (td_runs s)) = map rn_id (td_runs s)" by (rule map_upd_mem) (simp add: f)
  then have ids: "rn_id ` set (upd P f (td_runs s)) = rn_id ` set (td_runs s)" by (metis set_map)
  have "rn_accepted x = int (observed_in x (td_observations s))" if x: "x \<in> set (upd P f (td_runs s))" for x
  proof -
    obtain r where r: "r \<in> set (td_runs s)" "x = (if P r then f r else r)" using x by (auto simp: set_upd)
    then have "rn_id x = rn_id r \<and> rn_accepted x = rn_accepted r" using f [OF r(1)] by simp
    with c r(1) show ?thesis by (simp add: counts_ok_def observed_id [of x r])
  qed
  with c ids show ?thesis by (simp add: counts_ok_def)
qed

lemma counts_page:
  assumes c: "counts_ok s" and ids: "ids_ok s" and r: "r \<in> set (td_runs s)" "run_at sc i rid r" "rn_status r = Running" "rn_token r = Some t"
    and ins: "insert_observations (td_observations s) (map (stored sc i rid) xs) = (obs, new)" and n: "pc_accepted n = length new"
  shows "counts_ok (s\<lparr>td_observations := obs,
    td_runs := upd (run_at sc i rid) (\<lambda>x. if rn_status x = Running \<and> rn_token x = Some t then count_page p received n db x else x) (td_runs s)\<rparr>)"
    (is "counts_ok (s\<lparr>td_observations := obs, td_runs := upd _ ?f _\<rparr>)")
proof -
  have o: "obs = td_observations s @ new" and new: "so_run x = rid" if "x \<in> set new" for x
    using insert_observations_append [OF ins] that by (auto simp: stored_def page_observation.extend_def)
  have obs: "obs = td_observations s @ new" using insert_observations_append [OF ins] by simp
  have rid: "rn_id r = rid" using r(2) by (simp add: run_at_def)
  let ?rs = "upd (run_at sc i rid) ?f (td_runs s)"
  have "map rn_id ?rs = map rn_id (td_runs s)" by (rule map_upd_mem) (simp add: count_page_def)
  then have ids': "rn_id ` set ?rs = rn_id ` set (td_runs s)" by (metis set_map)
  have "rn_accepted x = int (observed_in x obs)" if x: "x \<in> set ?rs" for x
  proof -
    obtain y where y: "y \<in> set (td_runs s)" "x = (if run_at sc i rid y then ?f y else y)" using x by (auto simp: set_upd)
    show ?thesis
    proof (cases "rn_id y = rid")
      case True
      then have "y = r" by (intro same_run [OF ids y(1) r(1)]) (simp add: rid)
      then have "x = count_page p received n db r" using y(2) r by simp
      then have x': "rn_id x = rn_id r" "rn_accepted x = rn_accepted r + int (length new)" by (simp_all add: count_page_def n)
      have "observed_in r new = length new" using new by (intro observed_all) (simp add: rid)
      then show ?thesis using c r(1) by (simp add: obs counts_ok_def observed_id [OF x'(1)] observed_append x'(2))
    next
      case False
      then have "x = y" using y(2) by (simp add: run_at_def)
      moreover have "observed_in y new = 0" using new False by (intro observed_other) auto
      ultimately show ?thesis using c y(1) by (simp add: obs counts_ok_def observed_append)
    qed
  qed
  moreover have "so_run x \<in> rn_id ` set ?rs" if "x \<in> set obs" for x
    using that c new r(1) rid ids' by (auto simp: obs counts_ok_def)
  ultimately show ?thesis by (simp add: counts_ok_def)
qed

lemma counts_kept: "table_change H k s s' \<Longrightarrow> counts_ok s \<Longrightarrow> ids_ok s \<Longrightarrow> counts_ok s'"
proof (induction rule: table_change.induct)
  case (queue r s)
  have "so_run x \<noteq> rn_id r" if "x \<in> set (td_observations s)" for x
    using queue that by (auto simp: counts_ok_def run_conflict_def list_ex_iff)
  then have "observed_in r (td_observations s) = 0" by (rule observed_other)
  with queue show ?case by (auto simp: counts_ok_def)
next
  case (run s P f)
  show ?case by (rule counts_upd [OF run.prems(1)]) (use run.hyps in \<open>auto simp: run_change_def\<close>)
next
  case (start s sc i rid P worker token now)
  show ?case by (rule counts_upd [OF start.prems(1)]) (simp add: start_run_def)
next
  case (page r s sc i rid t xs obs new n p received db)
  show ?case by (rule counts_page [OF page.prems page.hyps])
qed (simp_all add: counts_ok_def set_conn_def drop_backfill_checkpoint_def)

lemma ok_kept: "table_change H k s s' \<Longrightarrow> queue_ok H s \<Longrightarrow> queue_ok H s'"
  unfolding queue_ok_def
  using rows_kept [of H k s s'] tokens_kept [of H k s s'] runs_kept [of H k s s'] checkpoints_kept [of H k s s']
    observations_kept [of H k s s'] counts_kept [of H k s s'] valid_ids [of s] by blast

lemma ok_changes: "table_changes H k s s' \<Longrightarrow> queue_ok H s \<Longrightarrow> queue_ok H s'"
  by (induction rule: rtranclp_induct) (auto dest: ok_kept)

subsection \<open>Claims and pages\<close>

lemma quarantine_changes:
  assumes ok: "rows_valid s"
  shows "table_changes H k s (quarantine db i s)"
  unfolding quarantine_def
  by (rule changes_conn) (use ok in \<open>auto simp: rows_valid_def list_all_iff conn_change_def conn_ok_def\<close>)

lemma valid_changes: "table_changes H k s s' \<Longrightarrow> rows_valid s \<Longrightarrow> rows_valid s'"
  by (induction rule: rtranclp_induct) (auto dest: rows_kept)

lemma claim_scan_changes:
  "claim_scan n H locked now db s = Inr (s', found) \<Longrightarrow> rows_valid s
   \<Longrightarrow> table_changes H k s s' \<and> td_drawn s' = td_drawn s
     \<and> (\<forall>c sc. found = Some (c, sc) \<longrightarrow> due_candidate locked now s' = Some c \<and> TelemetryScopeRef H (cn_scope c) = Inr sc)"
proof (induction n arbitrary: s)
  case (Suc n)
  show ?case
  proof (cases "due_candidate locked now s")
    case None
    with Suc.prems show ?thesis by simp
  next
    case (Some c)
    show ?thesis
    proof (cases "TelemetryScopeRef H (cn_scope c)")
      case (Inr sc)
      with Some Suc.prems show ?thesis by auto
    next
      case (Inl e)
      let ?q = "quarantine db (cn_id c) s"
      have q: "table_changes H k s ?q" by (rule quarantine_changes [OF Suc.prems(2)])
      have d: "td_drawn ?q = td_drawn s" by (simp add: quarantine_def)
      have "claim_scan n H locked now db ?q = Inr (s', found)" using Suc.prems(1) Some Inl by simp
      from Suc.IH [OF this valid_changes [OF q Suc.prems(2)]] d rtranclp_trans [OF q] show ?thesis by simp
    qed
  qed
qed simp

lemma due_candidateD: "due_candidate locked now s = Some c \<Longrightarrow> c \<in> set (td_connections s) \<and> due now c"
  unfolding due_candidate_def by (drule least_by_Some) simp

lemma fresh_token:
  assumes "tokens_ok H s" "uuid_supply H" "td_drawn s \<le> n"
  shows "th_uuid4 H n \<notin> held_tokens s"
proof
  assume "th_uuid4 H n \<in> held_tokens s"
  then obtain m where "m < td_drawn s" "th_uuid4 H n = th_uuid4 H m" using assms(1) by (auto simp: tokens_ok_def held_tokens_def)
  with assms show False by (auto simp: uuid_supply_def dest: injD)
qed

lemma open_runs_all:
  assumes "runs_ok s" "r \<in> set (td_runs s)" "rn_scope r = cn_scope c" "rn_connection r = cn_id c" "active r"
  shows "r \<in> set (open_runs s c)"
  using assms by (auto simp: open_runs_def runs_ok_def list_all_iff run_ok_def)

text \<open>The run that is claimed is the running one, if there is one.\<close>

lemma pending_run_running:
  assumes ok: "runs_ok s" and p: "pending_run s c = Some r"
    and x: "x \<in> set (td_runs s)" "rn_scope x = cn_scope c" "rn_connection x = cn_id c" "rn_status x = Running"
  shows "rn_id x = rn_id r"
proof -
  have o: "x \<in> set (open_runs s c)" by (rule open_runs_all [OF ok x(1-3)]) (simp add: active_def x(4))
  from least_by_Some [OF p [unfolded pending_run_def]] have r: "r \<in> set (open_runs s c)"
    and le: "(rn_status r \<noteq> Running, rn_created_at r, rn_id r) \<le> (rn_status x \<noteq> Running, rn_created_at x, rn_id x)"
    using o by auto
  have "rn_status r = Running" using le x(4) by (simp add: less_eq_prod_def)
  moreover have "r \<in> set (td_runs s)" "rn_scope r = cn_scope c" "rn_connection r = cn_id c"
    using r by (simp_all add: open_runs_def)
  ultimately show ?thesis using x ok unfolding runs_ok_def by metis
qed

lemma pending_run_none: "runs_ok s \<Longrightarrow> pending_run s c = None
    \<Longrightarrow> \<not> list_ex (\<lambda>x. rn_scope x = cn_scope c \<and> rn_connection x = cn_id c \<and> active x) (td_runs s)"
  using open_runs_all [of s _ c] by (auto simp: pending_run_def least_by_None list_ex_iff)

lemma claimed_run_changes:
  assumes ok: "runs_ok s" and c: "cn_scope c = sc" "cn_id c = i" and s2: "td_runs s2 = td_runs s"
    and r: "claimed_run H now db sc i worker token (pending_run s c) s2 = Inr (s3, rid, m)"
  shows "table_changes H k s2 s3"
proof (cases "pending_run s c")
  case None
  let ?r = "(blank_run (th_uuid4 H (td_drawn s2)) sc i IncrementalRun Running now db)
    \<lparr>rn_token := Some token, rn_attempts := 1, rn_worker := Some worker\<rparr>"
  have i: "insert_run ?r (s2\<lparr>td_drawn := Suc (td_drawn s2)\<rparr>) = Inr s3"
    using r None by (auto simp: claimed_run_def Let_def elim!: bindE_elim)
  have "table_changes H k (s2\<lparr>td_drawn := Suc (td_drawn s2)\<rparr>) s3"
    by (rule insert_run_changes [OF i])
      (use pending_run_none [OF ok None] c s2 in \<open>auto simp: blank_run_def run_ok_def active_def WORK_MODES_def\<close>)
  with changes_draw1 show ?thesis by (rule rtranclp_trans)
next
  case (Some x)
  let ?P = "\<lambda>y. run_at sc i (rn_id x) y \<and> rn_mode y \<in> set WORK_MODES \<and> active y"
  have s3: "s3 = s2\<lparr>td_runs := upd ?P (start_run worker token now) (td_runs s2)\<rparr>"
    using r Some by (auto simp: claimed_run_def Let_def set_run_def upd_def split: if_split_asm)
  show ?thesis unfolding s3
    by (rule r_into_rtranclp, rule table_change.start [where sc = sc and i = i and rid = "rn_id x"])
      (use pending_run_running [OF ok Some] c s2 in auto)
qed

lemma lease_changes:
  assumes ok: "ids_ok s" "tokens_ok H s" "uuid_supply H" and n: "k \<le> n" "n < td_drawn s" "th_uuid4 H n \<notin> held_tokens s"
    and c: "c \<in> set (td_connections s)" "cn_id c = i" "cn_archived_at c = None"
  shows "table_changes H k s (set_conn sc i (lease_connection worker (th_uuid4 H n) now seconds) s)"
proof (rule r_into_rtranclp, rule table_change.lease [OF n])
  fix d assume d: "d \<in> set (td_connections s)" "conn_at sc i d"
  have "d = c" by (rule same_row [OF ok(1) d(1) c(1)]) (use d(2) c(2) in \<open>simp add: conn_at_def\<close>)
  with c(3) show "cn_archived_at d = None" by simp
qed

lemma queue_okD: "queue_ok H s \<Longrightarrow> rows_valid s" "queue_ok H s \<Longrightarrow> tokens_ok H s" "queue_ok H s \<Longrightarrow> runs_ok s"
  "queue_ok H s \<Longrightarrow> ids_ok s"
  by (simp_all add: queue_ok_def rows_valid_def)

lemma quarantine_holders: "rows_valid s \<Longrightarrow> holders (quarantine db i s) \<subseteq> holders s"
  unfolding quarantine_def
  by (rule holders_conn) (auto simp: rows_valid_def list_all_iff conn_change_def conn_ok_def)

lemma claim_scan_holders:
  "claim_scan n H locked now db s = Inr (s', found) \<Longrightarrow> rows_valid s \<Longrightarrow> holders s' \<subseteq> holders s"
proof (induction n arbitrary: s)
  case (Suc n)
  show ?case
  proof (cases "due_candidate locked now s")
    case None
    with Suc.prems show ?thesis by simp
  next
    case (Some c)
    show ?thesis
    proof (cases "TelemetryScopeRef H (cn_scope c)")
      case (Inr sc)
      with Some Suc.prems show ?thesis by simp
    next
      case (Inl e)
      have n: "claim_scan n H locked now db (quarantine db (cn_id c) s) = Inr (s', found)" using Suc.prems(1) Some Inl by simp
      have "rows_valid (quarantine db (cn_id c) s)"
        by (rule valid_changes [OF quarantine_changes [OF Suc.prems(2)] Suc.prems(2)])
      from order_trans [OF Suc.IH [OF n this] quarantine_holders [OF Suc.prems(2)]] show ?thesis .
    qed
  qed
qed simp

lemma take_claim_Inr:
  assumes "take_claim H now db worker token seconds c sc s1 = Inr (s', w)"
  shows "\<exists>row rid m. find_conn s1 sc (cn_id c) = Some row \<and> cn_enabled row \<and> cn_archived_at row = None
    \<and> claimed_run H now db sc (cn_id c) worker token (pending_run s1 c)
        (set_conn sc (cn_id c) (lease_connection worker token now seconds) s1) = Inr (s', rid, m)"
  using assms unfolding take_claim_def Let_def
  by (cases "find_conn s1 sc (cn_id c)") (auto elim!: bindE_elim split: if_split_asm)

lemma take_claim_changes:
  assumes ok: "queue_ok H s" "uuid_supply H" and n: "k \<le> n" "n < td_drawn s" "th_uuid4 H n \<notin> held_tokens s"
    and c: "c \<in> set (td_connections s)" and t: "take_claim H now db worker (th_uuid4 H n) seconds c sc s = Inr (s', w)"
  shows "table_changes H k s s'"
proof -
  let ?s2 = "set_conn sc (cn_id c) (lease_connection worker (th_uuid4 H n) now seconds) s"
  obtain row rid m where row: "find_conn s sc (cn_id c) = Some row" "cn_archived_at row = None"
    and r: "claimed_run H now db sc (cn_id c) worker (th_uuid4 H n) (pending_run s c) ?s2 = Inr (s', rid, m)"
    using take_claim_Inr [OF t] by blast
  have rc: "row = c" by (rule same_row [OF queue_okD(4) [OF ok(1)]]) (use find_conn_Some [OF row(1)] c in simp_all)
  have sc: "cn_scope c = sc" using find_conn_Some [OF row(1)] rc by simp
  have "table_changes H k s ?s2"
    by (rule lease_changes [OF queue_okD(4) [OF ok(1)] queue_okD(2) [OF ok(1)] ok(2) n c refl]) (use rc row in simp)
  moreover have "table_changes H k ?s2 s'"
    by (rule claimed_run_changes [OF queue_okD(3) [OF ok(1)] sc refl _ r]) (simp add: set_conn_def)
  ultimately show ?thesis by (rule rtranclp_trans)
qed

lemma claim_next_Inr:
  assumes "claim_next_due_work H locked db worker now seconds s = Inr (s', w)"
  shows "\<exists>worker' s1 found. claim_scan 32 H locked now db (s\<lparr>td_drawn := Suc (td_drawn s)\<rparr>) = Inr (s1, found)
    \<and> (found = None \<and> s' = s1 \<and> w = None
       \<or> (\<exists>c sc. found = Some (c, sc) \<and> take_claim H now db worker' (th_uuid4 H (td_drawn s)) seconds c sc s1 = Inr (s', w)))"
  using assms unfolding claim_next_due_work_def Let_def by (fastforce elim!: bindE_elim split: option.split_asm)

lemma claim_changes:
  assumes ok: "queue_ok H s" "uuid_supply H" and w: "claim_next_due_work H locked db worker now seconds s = Inr (s', w)"
  shows "table_changes H (td_drawn s) s s'"
proof -
  let ?s0 = "s\<lparr>td_drawn := Suc (td_drawn s)\<rparr>" and ?t = "th_uuid4 H (td_drawn s)"
  have 0: "table_changes H (td_drawn s) s ?s0" by (rule changes_draw1)
  have ok0: "queue_ok H ?s0" by (rule ok_changes [OF 0 ok(1)])
  obtain worker' s1 found where scan: "claim_scan 32 H locked now db ?s0 = Inr (s1, found)"
    and rest: "found = None \<and> s' = s1 \<and> w = None
       \<or> (\<exists>c sc. found = Some (c, sc) \<and> take_claim H now db worker' ?t seconds c sc s1 = Inr (s', w))"
    using claim_next_Inr [OF w] by blast
  have s1: "table_changes H (td_drawn s) ?s0 s1" "td_drawn s1 = Suc (td_drawn s)"
    using claim_scan_changes [OF scan queue_okD(1) [OF ok0]] by simp_all
  have "?t \<notin> held_tokens s" by (rule fresh_token [OF queue_okD(2) [OF ok(1)] ok(2)]) simp
  then have t: "?t \<notin> held_tokens s1"
    using claim_scan_holders [OF scan queue_okD(1) [OF ok0]] holders_frame [of ?s0 s] by (auto simp: held_tokens_def)
  have "table_changes H (td_drawn s) s1 s'"
  proof (cases found)
    case (Some cs)
    with rest obtain c sc where c: "found = Some (c, sc)" "take_claim H now db worker' ?t seconds c sc s1 = Inr (s', w)" by blast
    have "c \<in> set (td_connections s1)"
      using claim_scan_changes [OF scan queue_okD(1) [OF ok0]] c(1) due_candidateD by blast
    from take_claim_changes [OF ok_changes [OF s1(1) ok0] ok(2) _ _ t this c(2)] s1(2) show ?thesis by simp
  qed (use rest in simp)
  with 0 s1(1) show ?thesis by (meson rtranclp_trans)
qed

lemma claim_due_changes:
  assumes ok: "queue_ok H s" "uuid_supply H" and w: "claim_due_connection H locked sc worker seconds now s = Inr (s', c')"
  shows "table_changes H (td_drawn s) s s'"
proof -
  let ?s0 = "s\<lparr>td_drawn := Suc (td_drawn s)\<rparr>" and ?t = "th_uuid4 H (td_drawn s)"
  have 0: "table_changes H (td_drawn s) s ?s0" by (rule changes_draw1)
  have ok0: "queue_ok H ?s0" by (rule ok_changes [OF 0 ok(1)])
  have "?t \<notin> held_tokens s" by (rule fresh_token [OF queue_okD(2) [OF ok(1)] ok(2)]) simp
  then have t: "?t \<notin> held_tokens ?s0" by (simp add: held_tokens_def holders_def)
  have "s' = ?s0 \<or> (\<exists>c worker'. c \<in> set (td_connections ?s0) \<and> cn_archived_at c = None
      \<and> s' = set_conn sc (cn_id c) (lease_connection worker' ?t now seconds) ?s0)"
    using w unfolding claim_due_connection_def Let_def
    by (elim bindE_elim) (auto simp: due_def split: option.split_asm dest!: least_by_Some)
  moreover have "table_changes H (td_drawn s) ?s0 (set_conn sc (cn_id c) (lease_connection worker' ?t now seconds) ?s0)"
    if "c \<in> set (td_connections ?s0)" "cn_archived_at c = None" for c worker'
    by (rule lease_changes [OF queue_okD(4) [OF ok0] queue_okD(2) [OF ok0] ok(2) _ _ t that(1) refl that(2)]) simp_all
  ultimately show ?thesis using 0 by (auto intro: rtranclp_trans)
qed

text \<open>What a persisted page does to the tables.\<close>

lemma write_page_Inr:
  assumes "write_page H db sc i r t p obs rejs cursor s = Inr (s', n)"
  shows "\<exists>all_obs new rs ks.
    holds_run sc i r t s \<and> lease_live db sc i t s \<and> list_all (\<lambda>x. list_ex (snapshot_matches sc i x) (td_mappings s)) obs
    \<and> insert_observations (td_observations s) (map (stored sc i r) obs) = (all_obs, new)
    \<and> upsert_rejections s db [] (td_rejections s)
        (map (fresh_rejection db sc i r) (rejs @ duplicates_of (th_uuid4 H) (td_drawn s) (ob_digest ` set new) obs)) = Inr rs
    \<and> put_checkpoint db sc i (pg_mode p) (pg_expected p) cursor (pg_high_water p) r (td_checkpoints s) = Some (ks, pc_revision n)
    \<and> pc_accepted n = length new \<and> \<not> pg_nonfinite p
    \<and> s' = (set_run sc i r (\<lambda>x. if rn_status x = Running \<and> rn_token x = Some t then count_page p (received_count p) n db x else x) s)
        \<lparr>td_observations := all_obs, td_rejections := rs,
         td_signals := (if new = [] then td_signals s else date_signals db sc i r all_obs (td_signals s)), td_checkpoints := ks,
         td_drawn := td_drawn s + length (duplicates_of (th_uuid4 H) (td_drawn s) (ob_digest ` set new) obs)\<rparr>"
proof -
  obtain all_obs new where ins: "insert_observations (td_observations s) (map (stored sc i r) obs) = (all_obs, new)" by fastforce
  show ?thesis
    by (intro exI [of _ all_obs] exI [of _ new])
      (use assms ins in \<open>auto simp: write_page_def Let_def elim!: bindE_elim split: if_split_asm option.split_asm\<close>)
qed

lemma write_page_changes:
  assumes w: "write_page H db sc i r t p obs rejs cursor s = Inr (s', n)" and e: "0 \<le> pg_expected p"
  shows "table_changes H k s s'"
proof -
  from write_page_Inr [OF w] obtain all_obs new rs ks where
    h: "holds_run sc i r t s" and ins: "insert_observations (td_observations s) (map (stored sc i r) obs) = (all_obs, new)"
    and ck: "put_checkpoint db sc i (pg_mode p) (pg_expected p) cursor (pg_high_water p) r (td_checkpoints s) = Some (ks, pc_revision n)"
    and n: "pc_accepted n = length new"
    and s': "s' = (set_run sc i r (\<lambda>x. if rn_status x = Running \<and> rn_token x = Some t then count_page p (received_count p) n db x else x) s)
        \<lparr>td_observations := all_obs, td_rejections := rs,
         td_signals := (if new = [] then td_signals s else date_signals db sc i r all_obs (td_signals s)), td_checkpoints := ks,
         td_drawn := td_drawn s + length (duplicates_of (th_uuid4 H) (td_drawn s) (ob_digest ` set new) obs)\<rparr>"
    by blast
  obtain x where x: "x \<in> set (td_runs s)" "run_at sc i r x" "rn_status x = Running" "rn_token x = Some t"
    using h by (auto simp: holds_run_def list_ex_iff)
  let ?g = "if new = [] then td_signals s else date_signals db sc i r all_obs (td_signals s)"
  let ?n = "length (duplicates_of (th_uuid4 H) (td_drawn s) (ob_digest ` set new) obs)"
  let ?a = "s\<lparr>td_checkpoints := ks\<rparr>"
  let ?b = "?a\<lparr>td_observations := all_obs, td_runs := upd (run_at sc i r)
    (\<lambda>x. if rn_status x = Running \<and> rn_token x = Some t then count_page p (received_count p) n db x else x) (td_runs ?a)\<rparr>"
  let ?c = "?b\<lparr>td_rejections := rs\<rparr>"
  let ?d = "?c\<lparr>td_signals := ?g, td_concepts := td_concepts ?c, td_mappings := td_mappings ?c\<rparr>"
  have "table_change H k s ?a" by (rule table_change.check [OF ck e])
  moreover have "table_change H k ?a ?b"
    by (rule table_change.page [where xs = obs and new = new]) (use x ins n in simp_all)
  moreover have "table_change H k ?b ?c" by (rule table_change.rejected)
  moreover have "table_change H k ?c ?d" by (rule table_change.reference)
  moreover have "table_change H k ?d (?d\<lparr>td_drawn := td_drawn ?d + ?n\<rparr>)" by (rule table_change.draw)
  moreover have "s' = ?d\<lparr>td_drawn := td_drawn ?d + ?n\<rparr>" by (simp add: s' set_run_def)
  ultimately show ?thesis by (meson r_into_rtranclp rtranclp_trans)
qed

lemma check_page_Inr:
  "check_page H p = Inr (obs, rejs, cursor) \<Longrightarrow> 0 \<le> pg_expected p \<and> cursor = pg_cursor p
     \<and> mapE (prepare_observation H) (pg_observations p) = Inr obs \<and> mapE (prepare_rejection H) (pg_rejections p) = Inr rejs"
  unfolding check_page_def safe_json_def by (auto elim!: bindE_elim split: if_split_asm)

lemma persist_Inr:
  assumes "persist_ingestion_page H db sc cid rid token p s = Inr (s', n)"
  shows "\<exists>i r t obs rejs cursor. require_uuid H cid ''telemetry_connection_id_invalid'' = Inr i
    \<and> require_uuid H rid ''telemetry_ingestion_run_id_invalid'' = Inr r
    \<and> require_uuid H token ''telemetry_lease_token_invalid'' = Inr t \<and> check_page H p = Inr (obs, rejs, cursor)
    \<and> write_page H db sc i r t p obs rejs cursor s = Inr (s', n)"
  using assms unfolding persist_ingestion_page_def by (auto elim!: bindE_elim split: prod.split_asm)

lemma persist_changes:
  assumes "persist_ingestion_page H db sc cid rid token p s = Inr (s', n)"
  shows "table_changes H k s s'"
  using persist_Inr [OF assms] check_page_Inr write_page_changes by blast

subsection \<open>The operations keep the invariant\<close>

lemma record_audit_changes: "record_audit_event H db sc eid cid actor action d s = Inr s' \<Longrightarrow> table_changes H k s s'"
  by (auto simp: record_audit_event_def elim!: bindE_elim dest: insert_audit_changes)

lemma queue_step_changes:
  assumes "queue_step H s s'" and ok: "queue_ok H s" and u: "uuid_supply H"
  shows "table_changes H (td_drawn s) s s'"
  using assms(1)
proof cases
  case (remapped gs cs ms)
  then show ?thesis by (auto intro: r_into_rtranclp table_change.reference)
next
  case (drawn n)
  then show ?thesis by (auto intro: changes_draw)
qed (use ok u queue_okD [OF ok] in \<open>blast intro: create_changes update_changes lifecycle_changes archive_changes upsert_changes record_audit_changes
    claim_changes claim_due_changes renew_changes release_changes advance_changes persist_changes continue_changes
    complete_changes failure_changes schedule_changes backfill_changes retry_changes\<close>)+

lemma queue_step_ok: "queue_step H s s' \<Longrightarrow> queue_ok H s \<Longrightarrow> uuid_supply H \<Longrightarrow> queue_ok H s'"
  using queue_step_changes ok_changes by blast

definition tables_empty :: "tele_db \<Rightarrow> bool" where
  "tables_empty s = (td_connections s = [] \<and> td_runs s = [] \<and> td_checkpoints s = [] \<and> td_observations s = [])"

lemma tables_empty_ok: "tables_empty s \<Longrightarrow> queue_ok H s"
  by (simp add: tables_empty_def queue_ok_def rows_valid_def ids_ok_def tokens_ok_def holders_def runs_ok_def
      checkpoints_ok_def observations_ok_def counts_ok_def)

abbreviation queue_steps :: "'a page_host_scheme \<Rightarrow> tele_db \<Rightarrow> tele_db \<Rightarrow> bool" where
  "queue_steps H \<equiv> rtranclp (queue_step H)"

lemma queue_steps_ok: "queue_steps H s s' \<Longrightarrow> queue_ok H s \<Longrightarrow> uuid_supply H \<Longrightarrow> queue_ok H s'"
  by (induction rule: rtranclp_induct) (auto dest: queue_step_ok)

lemma change_holders: "table_change H k s s' \<Longrightarrow> holders s' \<subseteq> holders s \<union> {(i, th_uuid4 H n) | i n. k \<le> n}"
proof (induction rule: table_change.induct)
  case (connect c s)
  then show ?case by (auto simp: holders_def lease_token_def)
next
  case (conn s P f)
  have "holders (s\<lparr>td_connections := upd P f (td_connections s)\<rparr>) \<subseteq> holders s" by (rule holders_conn) (rule conn.hyps)
  then show ?case by blast
next
  case (lease n s sc i worker now seconds)
  from holders_lease [of sc i worker "th_uuid4 H n" now seconds s] lease(1) show ?case by blast
next
  case (bind s sc i b t)
  from holders_bind [of sc i b t s] show ?case by blast
qed (simp_all add: holders_def drop_backfill_checkpoint_def)

lemma changes_holders: "table_changes H k s s' \<Longrightarrow> holders s' \<subseteq> holders s \<union> {(i, th_uuid4 H n) | i n. k \<le> n}"
  by (induction rule: rtranclp_induct) (auto dest!: change_holders)

lemma change_drawn: "table_change H k s s' \<Longrightarrow> td_drawn s \<le> td_drawn s'"
  by (induction rule: table_change.induct) (simp_all add: set_conn_def drop_backfill_checkpoint_def)

lemma changes_drawn: "table_changes H k s s' \<Longrightarrow> td_drawn s \<le> td_drawn s'"
  by (induction rule: rtranclp_induct) (auto dest!: change_drawn)

end
