(* ===== verification/Telemetry_Fence.thy ===== *)
theory Telemetry_Fence
  imports Telemetry_Invariants
begin

text \<open>
  Two interfaces of the telemetry queue, proved for its operations. A lease token fences its holder:
  an operation hands out only tokens that were never drawn before, so a token that is lost is lost for
  good (\<open>fenced_tokens\<close>). A checkpoint revision is a ratchet: an operation that commits with an expected
  revision moves it past that revision and none takes it back (\<open>ratchet\<close>), so one revision admits one commit.
\<close>

subsection \<open>The interfaces\<close>

locale fenced_tokens =
  fixes step :: "'s \<Rightarrow> 's \<Rightarrow> bool" and held :: "'s \<Rightarrow> ('k \<times> 't) set" and drawn :: "'s \<Rightarrow> 't set"
  assumes held_drawn: "step s s' \<Longrightarrow> snd ` held s \<subseteq> drawn s"
    and drawn_grows: "step s s' \<Longrightarrow> drawn s \<subseteq> drawn s'"
    and leases_fresh: "step s s' \<Longrightarrow> p \<in> held s' \<Longrightarrow> p \<in> held s \<or> snd p \<notin> drawn s"
begin

lemma drawn_stays: "rtranclp step s s' \<Longrightarrow> drawn s \<subseteq> drawn s'"
  by (induction rule: rtranclp_induct) (auto dest: drawn_grows)

lemma lost_stays_lost: "rtranclp step s s' \<Longrightarrow> snd p \<in> drawn s \<Longrightarrow> p \<notin> held s \<Longrightarrow> p \<notin> held s'"
proof (induction rule: rtranclp_induct)
  case (step y z)
  then show ?case using drawn_stays [OF step.hyps(1)] leases_fresh [OF step.hyps(2)] by blast
qed

text \<open>A token moves to no other holder.\<close>

lemma token_keeps_holder:
  "rtranclp step s s' \<Longrightarrow> (i, t) \<in> held s \<Longrightarrow> inj_on snd (held s) \<Longrightarrow> t \<in> drawn s \<Longrightarrow> (j, t) \<in> held s' \<Longrightarrow> j = i"
  using lost_stays_lost [of s s' "(j, t)"] inj_onD [of snd "held s" "(i, t)" "(j, t)"] by auto

end

locale ratchet =
  fixes step :: "'s \<Rightarrow> 's \<Rightarrow> bool" and level :: "'k \<Rightarrow> 's \<Rightarrow> int"
  assumes level_up: "step s s' \<Longrightarrow> level x s \<le> level x s'"
begin

lemma level_stays_up: "rtranclp step s s' \<Longrightarrow> level x s \<le> level x s'"
  by (induction rule: rtranclp_induct) (auto dest: level_up [of _ _ x])

lemma passed_stays_passed: "rtranclp step s s' \<Longrightarrow> n < level x s \<Longrightarrow> level x s' \<noteq> n"
  using level_stays_up [of s s' x] by linarith

end

subsection \<open>The operations satisfy them\<close>

definition sound_step :: "'a page_host_scheme \<Rightarrow> tele_db \<Rightarrow> tele_db \<Rightarrow> bool" where
  "sound_step H s s' = (uuid_supply H \<and> queue_ok H s \<and> queue_step H s s')"

definition drawn_tokens :: "'a tele_host_scheme \<Rightarrow> tele_db \<Rightarrow> string set" where
  "drawn_tokens H s = th_uuid4 H ` {..< td_drawn s}"

lemma sound_steps:
  assumes "uuid_supply H" "queue_ok H s" "queue_steps H s s'"
  shows "rtranclp (sound_step H) s s'"
  using assms(3)
proof (induction rule: rtranclp_induct)
  case (step y z)
  have "sound_step H y z" using step.hyps queue_steps_ok [OF step.hyps(1) assms(2,1)] assms(1) by (simp add: sound_step_def)
  with step.IH show ?case by simp
qed simp

lemma sound_step_fresh: "sound_step H s s' \<Longrightarrow> p \<in> holders s' \<Longrightarrow> p \<in> holders s \<or> snd p \<notin> drawn_tokens H s"
proof -
  assume s: "sound_step H s s'" "p \<in> holders s'"
  then have "table_changes H (td_drawn s) s s'" by (simp add: sound_step_def queue_step_changes)
  from changes_holders [OF this] s(2) have "p \<in> holders s \<or> p \<in> {(i, th_uuid4 H n) | i n. td_drawn s \<le> n}" by blast
  then have "p \<in> holders s \<or> (\<exists>n \<ge> td_drawn s. snd p = th_uuid4 H n)" by auto
  then show ?thesis using s(1) by (auto simp: sound_step_def uuid_supply_def drawn_tokens_def inj_eq)
qed

lemma drawn_tokens_mono: "td_drawn s \<le> td_drawn s' \<Longrightarrow> drawn_tokens H s \<subseteq> drawn_tokens H s'"
  by (auto simp: drawn_tokens_def)

interpretation tokens: fenced_tokens "sound_step H" holders "drawn_tokens H" for H :: "'a page_host_scheme"
proof
  fix s s' assume s: "sound_step H s s'"
  then show "snd ` holders s \<subseteq> drawn_tokens H s"
    by (auto simp: sound_step_def queue_ok_def tokens_ok_def drawn_tokens_def)
  from s have "table_changes H (td_drawn s) s s'" by (simp add: sound_step_def queue_step_changes)
  then show "drawn_tokens H s \<subseteq> drawn_tokens H s'" by (intro drawn_tokens_mono changes_drawn)
qed (rule sound_step_fresh)

text \<open>The revision of a checkpoint, 0 where there is none.\<close>

definition revision_at :: "tele_scope \<times> string \<times> checkpoint_mode \<Rightarrow> tele_db \<Rightarrow> int" where
  "revision_at x s = (case x of (sc, i, m) \<Rightarrow>
     (case next_or (checkpoint_at sc i m) (td_checkpoints s) of None \<Rightarrow> 0 | Some k \<Rightarrow> ck_revision k))"

lemma next_or_upd: "(\<And>x. P (f x) = P x) \<Longrightarrow> next_or P (upd Q f xs) = map_option (\<lambda>x. if Q x then f x else x) (next_or P xs)"
  by (induction xs) (auto simp: upd_def)

lemma next_or_filter: "(\<And>x. P x \<Longrightarrow> Q x) \<Longrightarrow> next_or P (filter Q xs) = next_or P xs"
  by (induction xs) auto

text \<open>A commit finds the revision it expected and leaves the next one.\<close>

lemma put_checkpoint_revision:
  assumes ok: "checkpoints_ok s" and p: "put_checkpoint db sc i m expected cursor high r (td_checkpoints s) = Some (ks, n)"
  shows "n = expected + 1" and "revision_at (sc, i, m) s = expected" and "revision_at (sc, i, m) (s\<lparr>td_checkpoints := ks\<rparr>) = n"
    and "x \<noteq> (sc, i, m) \<Longrightarrow> revision_at x (s\<lparr>td_checkpoints := ks\<rparr>) = revision_at x s"
proof -
  let ?new = "\<lparr>ck_scope = sc, ck_connection = i, ck_mode = m, ck_cursor = cursor, ck_high_water = high, ck_revision = 1,
      ck_run = Some r, ck_updated_at = db\<rparr>"
  let ?f = "\<lambda>k. k\<lparr>ck_cursor := cursor, ck_high_water := high, ck_revision := ck_revision k + 1, ck_run := Some r, ck_updated_at := db\<rparr>"
  let ?Q = "\<lambda>k. checkpoint_at sc i m k \<and> ck_revision k = expected"
  show "n = expected + 1" using p by (auto simp: put_checkpoint_def Let_def split: if_split_asm)
  have "n = expected + 1 \<and> revision_at (sc, i, m) s = expected \<and> revision_at (sc, i, m) (s\<lparr>td_checkpoints := ks\<rparr>) = n
    \<and> (x \<noteq> (sc, i, m) \<longrightarrow> revision_at x (s\<lparr>td_checkpoints := ks\<rparr>) = revision_at x s)"
  proof (cases "expected = 0")
    case True
    with p have k: "ks = td_checkpoints s @ [?new]" "n = 1"
      and none: "\<forall>k \<in> set (td_checkpoints s). \<not> (ts_resource (ck_scope k) = ts_resource sc \<and> ck_connection k = i \<and> ck_mode k = m)"
      by (auto simp: put_checkpoint_def list_ex_iff split: if_split_asm)
    have "next_or (checkpoint_at sc i m) (td_checkpoints s) = None"
      using none by (auto simp: next_or_None checkpoint_at_def)
    with k True show ?thesis
      by (auto simp: revision_at_def next_or_append checkpoint_at_def split: option.splits prod.splits)
  next
    case False
    with p have k: "ks = upd ?Q ?f (td_checkpoints s)" "n = expected + 1" and ex: "list_ex ?Q (td_checkpoints s)"
      by (auto simp: put_checkpoint_def Let_def split: if_split_asm)
    obtain a where a: "a \<in> set (td_checkpoints s)" "?Q a" using ex by (auto simp: list_ex_iff)
    obtain b where b: "next_or (checkpoint_at sc i m) (td_checkpoints s) = Some b"
      using a next_or_None [of "checkpoint_at sc i m" "td_checkpoints s"] by (cases "next_or (checkpoint_at sc i m) (td_checkpoints s)") auto
    let ?k = "\<lambda>k. (ts_resource (ck_scope k), ck_connection k, ck_mode k)"
    have "inj_on ?k (set (td_checkpoints s))" using ok by (simp add: checkpoints_ok_def distinct_map)
    moreover have "b \<in> set (td_checkpoints s)" "?k a = ?k b" using next_or_Some [OF b] a by (auto simp: checkpoint_at_def)
    ultimately have "a = b" using a(1) by (simp add: inj_on_def)
    have up: "next_or (checkpoint_at sc' i' m') (upd ?Q ?f xs) = map_option (\<lambda>k. if ?Q k then ?f k else k) (next_or (checkpoint_at sc' i' m') xs)"
      for sc' i' m' xs by (rule next_or_upd) (simp add: checkpoint_at_def)
    from b \<open>a = b\<close> a k up show ?thesis
      by (auto simp: revision_at_def checkpoint_at_def dest!: next_or_Some split: option.splits prod.splits)
  qed
  then show "revision_at (sc, i, m) s = expected" "revision_at (sc, i, m) (s\<lparr>td_checkpoints := ks\<rparr>) = n"
    "x \<noteq> (sc, i, m) \<Longrightarrow> revision_at x (s\<lparr>td_checkpoints := ks\<rparr>) = revision_at x s" by auto
qed

text \<open>Only the reset of a range checkpoint takes a revision back.\<close>

definition commit_level :: "tele_scope \<times> string \<times> checkpoint_mode \<Rightarrow> tele_db \<Rightarrow> int" where
  "commit_level x s = (if snd (snd x) = CkBackfill then 0 else revision_at x s)"

lemma commit_level_change: "table_change H k s s' \<Longrightarrow> checkpoints_ok s \<Longrightarrow> commit_level x s \<le> commit_level x s'"
proof (induction rule: table_change.induct)
  case (check db sc i m expected cursor high r s ks n)
  note put = put_checkpoint_revision [OF check.prems check.hyps(1)]
  show ?case
  proof (cases "x = (sc, i, m)")
    case True
    with put(1-3) show ?thesis by (simp add: commit_level_def)
  next
    case False
    with put(4) show ?thesis by (simp add: commit_level_def)
  qed
next
  case (uncheck s sc i)
  obtain sc' i' m where x: "x = (sc', i', m)" by (cases x)
  have "next_or (checkpoint_at sc' i' m) (filter (\<lambda>k. \<not> checkpoint_at sc i CkBackfill k) (td_checkpoints s))
      = next_or (checkpoint_at sc' i' m) (td_checkpoints s)" if "m \<noteq> CkBackfill"
    by (rule next_or_filter) (use that in \<open>auto simp: checkpoint_at_def\<close>)
  then show ?case by (auto simp: x commit_level_def revision_at_def drop_backfill_checkpoint_def)
qed (simp_all add: commit_level_def revision_at_def set_conn_def split: prod.splits)

lemma commit_level_changes:
  assumes "table_changes H k s s'" "checkpoints_ok s"
  shows "commit_level x s \<le> commit_level x s'"
  using assms(1)
proof (induction rule: rtranclp_induct)
  case (step y z)
  have "checkpoints_ok y" using step.hyps(1) assms(2) by (induction rule: rtranclp_induct) (auto dest: checkpoints_kept)
  from commit_level_change [OF step.hyps(2) this, of x] step.IH show ?case by simp
qed simp

interpretation revisions: ratchet "sound_step H" commit_level for H :: "'a page_host_scheme"
proof
  fix s s' x assume s: "sound_step H s s'"
  then have "table_changes H (td_drawn s) s s'" "checkpoints_ok s" by (simp_all add: sound_step_def queue_step_changes queue_ok_def)
  then show "commit_level x s \<le> commit_level x s'" by (rule commit_level_changes)
qed

subsection \<open>What an operation needs\<close>

text \<open>The canonical identifier an argument denotes.\<close>

definition denotes :: "'a tele_host_scheme \<Rightarrow> string \<Rightarrow> string \<Rightarrow> bool" where
  "denotes H s u = (strip s \<noteq> [] \<and> th_uuid H (strip s) = Some u)"

lemma require_uuid_denotes: "require_uuid H s code = Inr u \<longleftrightarrow> denotes H s u"
  by (auto simp: require_uuid_def require_identifier_def denotes_def split: option.splits)

lemma cast_uuid_denotes: "require_identifier s code = Inr n \<Longrightarrow> cast_uuid H n = Inr u \<Longrightarrow> denotes H s u"
  by (auto simp: cast_uuid_def require_identifier_def denotes_def split: option.split_asm if_split_asm)

lemma denotes_fun: "denotes H s u \<Longrightarrow> denotes H s v \<Longrightarrow> u = v"
  by (simp add: denotes_def)

definition holds_lease :: "'a tele_host_scheme \<Rightarrow> tele_db \<Rightarrow> string \<Rightarrow> string \<Rightarrow> bool" where
  "holds_lease H s cid token = (\<exists>i t. denotes H cid i \<and> denotes H token t \<and> (i, t) \<in> holders s)"

lemma holds_leaseI: "denotes H cid i \<Longrightarrow> denotes H token t \<Longrightarrow> (i, t) \<in> holders s \<Longrightarrow> holds_lease H s cid token"
  by (auto simp: holds_lease_def)

lemma holds_lease_denoted: "denotes H cid i \<Longrightarrow> denotes H token t \<Longrightarrow> holds_lease H s cid token \<longleftrightarrow> (i, t) \<in> holders s"
  by (auto simp: holds_lease_def dest: denotes_fun)

lemma holds_run_holder: "holds_run sc i r t s \<Longrightarrow> (i, t) \<in> holders s"
  by (auto simp: holds_run_def list_ex_iff conn_at_def intro: holdersI)

lemma lease_live_holder: "lease_live db sc i t s \<Longrightarrow> (i, t) \<in> holders s"
  by (auto simp: lease_live_def list_ex_iff conn_at_def lease_token_def holders_def split: option.split_asm)

lemma end_claim_holder: "end_claim sc i r t f g s = Inr s' \<Longrightarrow> (i, t) \<in> holders s"
  by (auto simp: end_claim_def list_ex_iff conn_at_def holders_def split: if_split_asm)

lemma persist_needs: "persist_ingestion_page H db sc cid rid token p s = Inr (s', n)
    \<Longrightarrow> holds_lease H s cid token"
  by (auto dest!: persist_Inr write_page_Inr simp: require_uuid_denotes intro: holds_leaseI holds_run_holder)

lemma continue_needs: "continue_ingestion_work H sc cid rid token a b s = Inr s'
    \<Longrightarrow> holds_lease H s cid token"
  unfolding continue_ingestion_work_def
  by (auto elim!: bindE_elim split: if_split_asm simp: require_uuid_denotes intro: holds_leaseI dest!: end_claim_holder)

lemma complete_needs: "complete_ingestion_work H db sc cid rid token a b partial s = Inr (s', st)
    \<Longrightarrow> holds_lease H s cid token"
  unfolding complete_ingestion_work_def Let_def
  by (elim bindE_elim) (auto elim!: bindE_elim split: if_splits option.split_asm simp: require_uuid_denotes intro: holds_leaseI dest!: end_claim_holder)

lemma failure_needs: "record_ingestion_failure H db sc cid rid token a code summary retryable after jitter s = Inr (s', st)
    \<Longrightarrow> holds_lease H s cid token"
  unfolding record_ingestion_failure_def Let_def
  by (auto elim!: bindE_elim split: prod.split_asm option.split_asm simp: require_uuid_denotes intro: holds_leaseI dest!: end_claim_holder)

lemma advance_needs: "advance_checkpoint H db sc cid m expected cursor high rid token s = Inr (s', n)
    \<Longrightarrow> holds_lease H s cid token"
  unfolding advance_checkpoint_def
  by (elim bindE_elim)
    (auto elim!: bindE_elim split: if_split_asm option.split_asm intro: holds_leaseI cast_uuid_denotes dest!: lease_live_holder)

lemma snapshot_needs: "load_ingestion_snapshot H db sc cid rid token m s = Inr n
    \<Longrightarrow> holds_lease H s cid token"
  unfolding load_ingestion_snapshot_def
  by (auto elim!: bindE_elim split: if_split_asm option.split_asm simp: require_uuid_denotes intro: holds_leaseI dest!: holds_run_holder)

lemma upd_none: "(\<And>x. x \<in> set xs \<Longrightarrow> \<not> p x) \<Longrightarrow> upd p f xs = xs"
  by (simp add: upd_def map_idI)

lemma renew_Inr:
  assumes "renew_lease H sc cid token seconds now s = Inr (s', b)"
  shows "\<exists>i t. denotes H cid i \<and> denotes H token t \<and> (let held = (\<lambda>c. conn_at sc i c
      \<and> (case cn_lease c of None \<Rightarrow> False | Some l \<Rightarrow> ls_token l = t \<and> now < ls_expires l)) in
    s' = s\<lparr>td_connections := upd held (\<lambda>c. c\<lparr>cn_lease := map_option (\<lambda>l. l\<lparr>ls_expires := lease_until now seconds\<rparr>) (cn_lease c),
      cn_updated_at := now\<rparr>) (td_connections s)\<rparr> \<and> b = list_ex held (td_connections s))"
  using assms unfolding renew_lease_def Let_def by (elim bindE_elim, intro exI conjI) (erule (1) cast_uuid_denotes, erule (1) cast_uuid_denotes, simp+)

lemma release_Inr:
  assumes "release_lease H db sc cid token n s = Inr (s', b)"
  shows "\<exists>i t. denotes H cid i \<and> denotes H token t \<and> (let held = (\<lambda>c. conn_at sc i c \<and> lease_token c = Some t) in
    s' = s\<lparr>td_connections := upd held (\<lambda>c. c\<lparr>cn_lease := None, cn_next_attempt := n, cn_updated_at := db\<rparr>) (td_connections s)\<rparr>
      \<and> b = list_ex held (td_connections s))"
  using assms unfolding release_lease_def Let_def by (elim bindE_elim, intro exI conjI) (erule (1) cast_uuid_denotes, erule (1) cast_uuid_denotes, simp+)

lemma upd_none_ex: "\<not> list_ex p xs \<Longrightarrow> upd p f xs = xs"
  by (rule upd_none) (auto simp: list_ex_iff)

lemma renew_needs:
  assumes "renew_lease H sc cid token seconds now s = Inr (s', b)" "\<not> holds_lease H s cid token"
  shows "\<not> b \<and> s' = s"
proof -
  obtain i t where it: "denotes H cid i" "denotes H token t"
    and r: "let held = (\<lambda>c. conn_at sc i c \<and> (case cn_lease c of None \<Rightarrow> False | Some l \<Rightarrow> ls_token l = t \<and> now < ls_expires l)) in
      s' = s\<lparr>td_connections := upd held (\<lambda>c. c\<lparr>cn_lease := map_option (\<lambda>l. l\<lparr>ls_expires := lease_until now seconds\<rparr>) (cn_lease c),
      cn_updated_at := now\<rparr>) (td_connections s)\<rparr> \<and> b = list_ex held (td_connections s)"
    using renew_Inr [OF assms(1)] by blast
  have "(i, t) \<notin> holders s" using assms(2) holds_lease_denoted [OF it] by simp
  then have "\<not> list_ex (\<lambda>c. conn_at sc i c \<and> (case cn_lease c of None \<Rightarrow> False | Some l \<Rightarrow> ls_token l = t \<and> now < ls_expires l)) (td_connections s)"
    using lease_live_holder [of now sc i t s] by (auto simp: lease_live_def)
  then show ?thesis using r by (simp add: upd_none_ex)
qed

lemma release_needs:
  assumes "release_lease H db sc cid token n s = Inr (s', b)" "\<not> holds_lease H s cid token"
  shows "\<not> b \<and> s' = s"
proof -
  obtain i t where it: "denotes H cid i" "denotes H token t"
    and r: "let held = (\<lambda>c. conn_at sc i c \<and> lease_token c = Some t) in
      s' = s\<lparr>td_connections := upd held (\<lambda>c. c\<lparr>cn_lease := None, cn_next_attempt := n, cn_updated_at := db\<rparr>) (td_connections s)\<rparr>
        \<and> b = list_ex held (td_connections s)"
    using release_Inr [OF assms(1)] by blast
  have "(i, t) \<notin> holders s" using assms(2) holds_lease_denoted [OF it] by simp
  then have "\<not> list_ex (\<lambda>c. conn_at sc i c \<and> lease_token c = Some t) (td_connections s)"
    by (auto simp: list_ex_iff holders_def conn_at_def)
  then show ?thesis using r by (simp add: upd_none_ex)
qed

lemma persist_revision:
  assumes "persist_ingestion_page H db sc cid rid token p s = Inr (s', n)" and "checkpoints_ok s" and "denotes H cid i"
  shows "revision_at (sc, i, pg_mode p) s = pg_expected p" and "revision_at (sc, i, pg_mode p) s' = pg_expected p + 1"
    and "pc_revision n = pg_expected p + 1"
proof -
  obtain j r t obs rejs cursor where j: "denotes H cid j" and w: "write_page H db sc j r t p obs rejs cursor s = Inr (s', n)"
    using persist_Inr [OF assms(1)] by (auto simp: require_uuid_denotes)
  have ij: "j = i" by (rule denotes_fun [OF j assms(3)])
  obtain ks where k: "put_checkpoint db sc j (pg_mode p) (pg_expected p) cursor (pg_high_water p) r (td_checkpoints s) = Some (ks, pc_revision n)"
    and "td_checkpoints s' = ks"
    using write_page_Inr [OF w] by (auto simp: set_run_def)
  then have "revision_at x s' = revision_at x (s\<lparr>td_checkpoints := ks\<rparr>)" for x by (simp add: revision_at_def)
  with put_checkpoint_revision [OF assms(2) k] ij
  show "revision_at (sc, i, pg_mode p) s = pg_expected p" "revision_at (sc, i, pg_mode p) s' = pg_expected p + 1"
    "pc_revision n = pg_expected p + 1" by simp_all
qed

end
