(* ===== verification/Telemetry_Laws.thy ===== *)
theory Telemetry_Laws
  imports Telemetry_Fence
begin

text \<open>
  The properties of the telemetry queue. A small concrete run of the queue, from empty tables to a lease
  that was lost, serves the witnesses.
\<close>

subsection \<open>A concrete queue\<close>

definition demo_uuid4 :: "nat \<Rightarrow> string" where
  "demo_uuid4 n = CHR ''u'' # replicate n CHR ''0''"

definition demo_host :: page_host where
  "demo_host = \<lparr>th_sha256 = (\<lambda>_. ''0123456789abcdef0123456789abcdef''), th_json_bytes = (\<lambda>_. 2), th_uuid = Some, th_uuid4 = demo_uuid4,
     th_zone_known = (\<lambda>_. True), th_observation_bytes = (\<lambda>_. 0), th_rejection_bytes = (\<lambda>_. 0)\<rparr>"

lemma demo_supply: "uuid_supply demo_host"
  by (auto simp: uuid_supply_def demo_host_def demo_uuid4_def inj_on_def dest: arg_cong [where f = length])

definition demo_scope :: tele_scope where
  "demo_scope = \<lparr>ts_tenant = ''t'', ts_workspace = ''w'', ts_resource = ''phase4-scope:0123456789abcdef0123456789abcdef'', ts_facility = ''w''\<rparr>"

definition no_facts :: status_facts where
  "no_facts = \<lparr>sf_last_attempt = None, sf_last_success = None, sf_last_healthy = None, sf_last_telemetry = None,
     sf_error_code = None, sf_error_summary = None\<rparr>"

definition demo0 :: tele_db where
  "demo0 = \<lparr>td_connections = [], td_runs = [], td_checkpoints = [], td_signals = [], td_concepts = [], td_mappings = [],
     td_observations = [], td_rejections = [], td_audit = [], td_bindings = [], td_drawn = 0\<rparr>"

definition demo1 where
  "demo1 = create_connection demo_host 1 demo_scope ''c'' ''Plant'' HttpsTelemetry [] ''UTC'' 60 ''ann'' None demo0"

definition demo2 where
  "demo2 = set_connection_lifecycle demo_host 2 demo_scope ''c'' Validating ''ann'' (Some True) no_facts (fst (projr demo1))"

definition demo3 where
  "demo3 = schedule_connection_now demo_host 3 demo_scope ''c'' 3 (fst (projr demo2))"

definition demo4 where
  "demo4 = claim_next_due_work demo_host {} 4 ''worker-1'' 4 60 (fst (projr demo3))"

definition demo_page :: page where
  "demo_page = \<lparr>pg_mode = CkIncremental, pg_expected = 0, pg_cursor = [], pg_high_water = None, pg_observations = [],
     pg_rejections = [], pg_received = None, pg_before = None, pg_after = None, pg_nonfinite = False\<rparr>"

definition demo5 where
  "demo5 = persist_ingestion_page demo_host 5 demo_scope ''c'' ''u00'' ''u0'' demo_page (fst (projr demo4))"

definition demo6 where
  "demo6 = record_ingestion_failure demo_host 6 demo_scope ''c'' ''u00'' ''u0'' 6 ''timeout'' None True None (1 / 2) (fst (projr demo5))"

text \<open>Each of the six requests succeeds; the third state is the one with the lease held, the last has lost it.\<close>

definition demo_held :: tele_db where "demo_held = fst (projr demo4)"
definition demo_written :: tele_db where "demo_written = fst (projr demo5)"
definition demo_lost :: tele_db where "demo_lost = fst (projr demo6)"

lemma demo_runs: "\<not> isl demo1" "\<not> isl demo2" "\<not> isl demo3" "\<not> isl demo4" "\<not> isl demo5" "\<not> isl demo6"
  by code_simp+

lemma Inr_parts: "\<not> isl x \<Longrightarrow> x = Inr (fst (projr x), snd (projr x))"
  by (cases x) simp_all

lemma demo_validates: "queue_steps demo_host demo0 (fst (projr demo2))"
proof -
  have "queue_step demo_host demo0 (fst (projr demo1))"
    using Inr_parts [OF demo_runs(1)] unfolding demo1_def by (rule queue_step.created)
  moreover have "queue_step demo_host (fst (projr demo1)) (fst (projr demo2))"
    using Inr_parts [OF demo_runs(2)] unfolding demo2_def by (rule queue_step.lifecycle)
  ultimately show ?thesis by (meson r_into_rtranclp rtranclp_trans)
qed

lemma demo_reaches: "queue_steps demo_host demo0 (fst (projr demo3))"
proof -
  have "queue_step demo_host (fst (projr demo2)) (fst (projr demo3))"
    using Inr_parts [OF demo_runs(3)] unfolding demo3_def by (rule queue_step.scheduled)
  with demo_validates show ?thesis by simp
qed

lemma demo_claims: "queue_steps demo_host demo0 demo_held"
proof -
  have "queue_step demo_host (fst (projr demo3)) demo_held"
    using Inr_parts [OF demo_runs(4)] unfolding demo4_def demo_held_def by (rule queue_step.claimed)
  with demo_reaches show ?thesis by simp
qed

lemma demo_persists: "persist_ingestion_page demo_host 5 demo_scope ''c'' ''u00'' ''u0'' demo_page demo_held = Inr (demo_written, snd (projr demo5))"
  using Inr_parts [OF demo_runs(5)] unfolding demo5_def demo_held_def demo_written_def .

lemma demo_writes: "queue_steps demo_host demo_held demo_written"
  using demo_persists by (auto intro: queue_step.persisted)

lemma demo_failure: "record_ingestion_failure demo_host 6 demo_scope ''c'' ''u00'' ''u0'' 6 ''timeout'' None True None (1 / 2) demo_written
    = Inr (demo_lost, snd (projr demo6))"
  using Inr_parts [OF demo_runs(6)] unfolding demo6_def demo_written_def demo_lost_def .

lemma demo_fails: "queue_steps demo_host demo_written demo_lost"
  by (rule r_into_rtranclp) (rule queue_step.failed [OF demo_failure])

lemma demo_empty: "tables_empty demo0"
  by (simp add: tables_empty_def demo0_def)

lemma demo_lost_lease: "denotes demo_host ''c'' ''c'' \<and> denotes demo_host ''u0'' ''u0'' \<and> (''c'', ''u0'') \<notin> holders demo_lost
    \<and> ''u0'' \<in> drawn_tokens demo_host demo_lost"
proof -
  have "list_all (\<lambda>c. cn_lease c = None) (td_connections demo_lost)" by code_simp
  then have "holders demo_lost = {}" by (auto simp: holders_def lease_token_def list_all_iff)
  moreover have "1 < td_drawn demo_lost" by code_simp
  then have "th_uuid4 demo_host 1 \<in> drawn_tokens demo_host demo_lost" by (auto simp: drawn_tokens_def)
  ultimately show ?thesis by (simp add: denotes_def demo_host_def demo_uuid4_def strip_def is_space_def)
qed

subsection \<open>The invariant and the refinement\<close>

text \<open>
  C9. From empty tables, every sequence of requests leaves the telemetry tables sound: identifiers are
  unique, an archived connection is disabled and unleased, retry counts stay within 0..10, a lease token
  was drawn by the repository and has one holder, a connection has at most one running run, a run is
  finished exactly when it is terminal, a checkpoint key is unique and its revision positive, stored
  observations do not conflict, and the accepted count of every run is the number of observations it stored.
\<close>

theorem queue_invariant:
  assumes "tables_empty s0" and "uuid_supply H" and "queue_steps H s0 s"
  shows "queue_ok H s"
  by (rule queue_steps_ok [OF assms(3) tables_empty_ok [OF assms(1)] assms(2)])

theorem queue_invariant_witness: "queue_ok demo_host demo_held \<and> td_connections demo_held \<noteq> []"
proof
  show "queue_ok demo_host demo_held" by (rule queue_invariant [OF demo_empty demo_supply demo_claims])
  show "td_connections demo_held \<noteq> []" by code_simp
qed

text \<open>
  C11. Every operation of the model, from creation and secret bindings to claims, pages and retries, is a
  sequence of the primitive table changes of the specification. No finished run changes, and of an archived
  connection only the reference to its secret and the time of its update; a lease is made on an unarchived
  connection and under a token the operation drew itself and nobody holds; a run starts only where no other
  run of the connection is running; rows are inserted, counted and committed only as the primitive changes
  allow.
\<close>

theorem operations_are_table_changes:
  assumes "queue_step H s s'" and "queue_ok H s" and "uuid_supply H"
  shows "table_changes H (td_drawn s) s s'"
  by (rule queue_step_changes [OF assms])

theorem operations_are_table_changes_witness: "table_changes demo_host (td_drawn demo_held) demo_held demo_written"
proof (rule operations_are_table_changes)
  show "queue_step demo_host demo_held demo_written" by (rule queue_step.persisted [OF demo_persists])
  show "queue_ok demo_host demo_held" by (rule queue_steps_ok [OF demo_claims tables_empty_ok [OF demo_empty] demo_supply])
qed (rule demo_supply)

subsection \<open>Leases and checkpoints\<close>

lemma isl_or: "(\<And>y. x = Inr y \<Longrightarrow> False) \<Longrightarrow> isl x"
  by (cases x) auto

lemma writes_need_lease:
  assumes "\<not> holds_lease H s cid token"
  shows "isl (persist_ingestion_page H db sc cid rid token p s)" "isl (continue_ingestion_work H sc cid rid token a b s)"
    "isl (complete_ingestion_work H db sc cid rid token a next partial s)"
    "isl (record_ingestion_failure H db sc cid rid token a code summary retryable after jitter s)"
    "isl (advance_checkpoint H db sc cid m expected cursor high rid token s)" "isl (load_ingestion_snapshot H db sc cid rid token m s)"
  using assms by (auto intro!: isl_or dest: persist_needs continue_needs complete_needs failure_needs advance_needs snapshot_needs)

text \<open>
  C2. A worker that lost its lease is fenced off for good. Once a token that was drawn is not held for a
  connection, then after any further requests of any workers every write under it fails (the page, the
  continuation, the completion, the failure, the checkpoint, the snapshot), and a renewal or a release
  reports False and changes nothing.
\<close>

theorem zombie_worker_fenced:
  assumes "tables_empty s0" and "uuid_supply H" and "queue_steps H s0 s" and "queue_steps H s s'"
    and "denotes H cid i" and "denotes H token t" and "t \<in> drawn_tokens H s" and "(i, t) \<notin> holders s"
  shows "isl (persist_ingestion_page H db sc cid rid token p s') \<and> isl (continue_ingestion_work H sc cid rid token a b s')
    \<and> isl (complete_ingestion_work H db sc cid rid token a next partial s')
    \<and> isl (record_ingestion_failure H db sc cid rid token a code summary retryable after jitter s')
    \<and> isl (advance_checkpoint H db sc cid m expected cursor high rid token s')
    \<and> isl (load_ingestion_snapshot H db sc cid rid token m s')
    \<and> (\<forall>s'' held. renew_lease H sc cid token seconds now s' = Inr (s'', held) \<longrightarrow> \<not> held \<and> s'' = s')
    \<and> (\<forall>s'' held. release_lease H db sc cid token next s' = Inr (s'', held) \<longrightarrow> \<not> held \<and> s'' = s')"
proof -
  have "rtranclp (sound_step H) s s'"
    by (rule sound_steps [OF assms(2) queue_steps_ok [OF assms(3) tables_empty_ok [OF assms(1)] assms(2)] assms(4)])
  from tokens.lost_stays_lost [OF this, of "(i, t)"] assms(7,8) have "(i, t) \<notin> holders s'" by simp
  then have "\<not> holds_lease H s' cid token" by (simp add: holds_lease_denoted [OF assms(5,6)])
  then show ?thesis by (intro conjI allI impI writes_need_lease) (auto dest: renew_needs release_needs)
qed

theorem zombie_worker_fenced_witness:
  "isl (persist_ingestion_page demo_host 9 demo_scope ''c'' ''u00'' ''u0'' demo_page demo_lost)"
  using zombie_worker_fenced [OF demo_empty demo_supply rtranclp_trans [OF demo_claims rtranclp_trans [OF demo_writes demo_fails]]
      rtranclp.rtrancl_refl, of "''c''" "''c''" "''u0''" "''u0''" 9 demo_scope "''u00''" demo_page] demo_lost_lease by blast

text \<open>
  C4. A page is committed once. After a page was persisted under an expected revision of a discovery or
  incremental checkpoint, no request under that revision is committed again for the connection, whatever
  worker, run, lease or page it comes from and whatever happened in between.
\<close>

theorem page_committed_once:
  assumes "tables_empty s0" and "uuid_supply H" and "queue_steps H s0 s"
    and "persist_ingestion_page H db sc cid rid token p s = Inr (s1, n)" and "pg_mode p \<noteq> CkBackfill" and "queue_steps H s1 s2"
    and "denotes H cid i" and "denotes H cid' i" and "pg_mode q = pg_mode p" and "pg_expected q = pg_expected p"
  shows "isl (persist_ingestion_page H db' sc cid' rid' token' q s2)"
proof (rule isl_or)
  fix y assume y: "persist_ingestion_page H db' sc cid' rid' token' q s2 = Inr y"
  have ok: "queue_ok H s" by (rule queue_steps_ok [OF assms(3) tables_empty_ok [OF assms(1)] assms(2)])
  have ok1: "queue_ok H s1" by (rule ok_changes [OF persist_changes [OF assms(4)] ok])
  have ok2: "queue_ok H s2" by (rule queue_steps_ok [OF assms(6) ok1 assms(2)])
  let ?x = "(sc, i, pg_mode p)"
  have "revision_at ?x s1 = pg_expected p + 1"
    using persist_revision [OF assms(4) _ assms(7)] ok by (simp add: queue_ok_def)
  then have "pg_expected p < commit_level ?x s1" using assms(5) by (simp add: commit_level_def)
  from revisions.passed_stays_passed [OF sound_steps [OF assms(2) ok1 assms(6)] this]
  have "revision_at ?x s2 \<noteq> pg_expected p" using assms(5) by (simp add: commit_level_def)
  moreover have "revision_at ?x s2 = pg_expected p"
    using persist_revision [of H db' sc cid' rid' token' q s2 "fst y" "snd y" i] y ok2 assms(8-10) by (simp add: queue_ok_def)
  ultimately show False by simp
qed

theorem page_committed_once_witness:
  "isl (persist_ingestion_page demo_host 9 demo_scope ''c'' ''u00'' ''u0'' demo_page demo_written)"
  by (rule page_committed_once [OF demo_empty demo_supply demo_claims demo_persists _ rtranclp.rtrancl_refl, where i = "''c''"])
    (use demo_lost_lease in \<open>simp_all add: demo_page_def\<close>)

end
