(* ===== verification/Telemetry_Outcomes.thy ===== *)
theory Telemetry_Outcomes
  imports Telemetry_Laws
begin

text \<open>
  What single operations of the telemetry queue guarantee: the claim of due work, the accounting of a page,
  the bounded retries, the lifecycle of a connection.
\<close>

subsection \<open>Claiming\<close>

lemma draw_frames [simp]:
  "due_candidate locked now (s\<lparr>td_drawn := n\<rparr>) = due_candidate locked now s"
  "pending_run (s\<lparr>td_drawn := n\<rparr>) c = pending_run s c" "find_conn (s\<lparr>td_drawn := n\<rparr>) sc i = find_conn s sc i"
proof -
  have *: "pending_run (s\<lparr>td_drawn := n\<rparr>) = pending_run s" by (rule ext) (simp add: pending_run_def open_runs_def)
  then show "pending_run (s\<lparr>td_drawn := n\<rparr>) c = pending_run s c" by simp
  show "due_candidate locked now (s\<lparr>td_drawn := n\<rparr>) = due_candidate locked now s" by (simp add: due_candidate_def *)
qed (simp add: find_conn_def)

lemma claimed_run_effect:
  assumes "claimed_run H now db sc i worker token p s = Inr (s', rid, m)"
  shows "td_connections s' = td_connections s \<and> list_ex (\<lambda>x. run_at sc i rid x \<and> rn_status x = Running \<and> rn_token x = Some token) (td_runs s')"
proof (cases p)
  case None
  with assms show ?thesis
    by (auto simp: claimed_run_def Let_def insert_run_def blank_run_def run_at_def elim!: bindE_elim split: if_split_asm)
next
  case (Some r)
  with assms have rid: "rid = rn_id r"
    and ex: "list_ex (\<lambda>x. run_at sc i rid x \<and> rn_mode x \<in> set WORK_MODES \<and> active x) (td_runs s)"
    and s': "s' = set_run sc i rid (\<lambda>x. if rn_mode x \<in> set WORK_MODES \<and> active x then start_run worker token now x else x) s"
    by (auto simp: claimed_run_def Let_def split: if_split_asm)
  obtain x where x: "x \<in> set (td_runs s)" "run_at sc i rid x" "rn_mode x \<in> set WORK_MODES" "active x" using ex by (auto simp: list_ex_iff)
  then have "start_run worker token now x \<in> set (td_runs s')"
    unfolding s' set_run_def by (simp add: set_upd) (rule bexI [of _ x]; simp)
  moreover have "run_at sc i rid (start_run worker token now x)" using x(2) by (simp add: run_at_def start_run_def)
  ultimately show ?thesis by (auto simp: s' set_run_def list_ex_iff start_run_def intro!: bexI [of _ "start_run worker token now x"])
qed

lemma take_claim_work:
  assumes "take_claim H now db worker token seconds c sc s = Inr (s', Some w)"
  shows "wk_connection_row w = c \<and> wk_scope w = sc \<and> wk_connection w = cn_id c \<and> wk_token w = token \<and> wk_expires w = lease_until now seconds
    \<and> (\<exists>row m. find_conn s sc (cn_id c) = Some row \<and> claimed_run H now db sc (cn_id c) worker token (pending_run s c)
          (set_conn sc (cn_id c) (lease_connection worker token now seconds) s) = Inr (s', wk_run w, m))"
  using assms unfolding take_claim_def Let_def
  by (cases "find_conn s sc (cn_id c)") (auto elim!: bindE_elim split: if_split_asm)

lemma take_claim_holds:
  assumes t: "take_claim H now db worker token seconds c sc s = Inr (s', Some w)"
  shows "holds_run sc (cn_id c) (wk_run w) token s' \<and> (\<forall>d < lease_until now seconds. lease_live d sc (cn_id c) token s')"
proof -
  obtain row m where row: "find_conn s sc (cn_id c) = Some row"
    and r: "claimed_run H now db sc (cn_id c) worker token (pending_run s c)
          (set_conn sc (cn_id c) (lease_connection worker token now seconds) s) = Inr (s', wk_run w, m)"
    using take_claim_work [OF t] by blast
  let ?l = "lease_connection worker token now seconds row"
  have "row \<in> set (td_connections s)" "conn_at sc (cn_id c) row" using find_conn_Some [OF row] by (simp_all add: conn_at_def)
  then have l: "?l \<in> set (td_connections s')" "conn_at sc (cn_id c) ?l"
    using claimed_run_effect [OF r] by (auto simp: set_conn_def set_upd conn_at_def lease_connection_def)
  have "lease_token ?l = Some token" "cn_lease ?l = Some \<lparr>ls_owner = worker, ls_token = token, ls_expires = lease_until now seconds\<rparr>"
    by (simp_all add: lease_connection_def lease_token_def)
  with l claimed_run_effect [OF r] show ?thesis
    by (auto simp: holds_run_def lease_live_def list_ex_iff intro!: bexI [of _ ?l])
qed

text \<open>
  C19. A claim that returns work leased a connection that was due at the worker's clock and not locked by
  another transaction, under a token nobody held before; the worker holds the lease and the running run it
  is to write under, and the lease is live until it expires.
\<close>

theorem claim_leases_due_work:
  assumes "tables_empty s0" and "uuid_supply H" and "queue_steps H s0 s"
    and c: "claim_next_due_work H locked db worker now seconds s = Inr (s', Some w)"
  shows "due now (wk_connection_row w) \<and> cn_id (wk_connection_row w) = wk_connection w \<and> wk_connection w \<notin> locked
    \<and> wk_token w \<notin> held_tokens s \<and> holds_run (wk_scope w) (wk_connection w) (wk_run w) (wk_token w) s'
    \<and> (\<forall>d < wk_expires w. lease_live d (wk_scope w) (wk_connection w) (wk_token w) s')"
proof -
  let ?s0 = "s\<lparr>td_drawn := Suc (td_drawn s)\<rparr>"
  have ok: "queue_ok H s" by (rule queue_steps_ok [OF assms(3) tables_empty_ok [OF assms(1)] assms(2)])
  have ok0: "queue_ok H ?s0" by (rule ok_changes [OF changes_draw1 ok])
  obtain worker' s1 found where scan: "claim_scan 32 H locked now db ?s0 = Inr (s1, found)"
    and rest: "found = None \<and> s' = s1 \<and> Some w = None
       \<or> (\<exists>c sc. found = Some (c, sc) \<and> take_claim H now db worker' (th_uuid4 H (td_drawn s)) seconds c sc s1 = Inr (s', Some w))"
    using claim_next_Inr [OF c] by blast
  then obtain c sc where f: "found = Some (c, sc)" and t: "take_claim H now db worker' (th_uuid4 H (td_drawn s)) seconds c sc s1 = Inr (s', Some w)"
    by blast
  have d: "due_candidate locked now s1 = Some c"
    using claim_scan_changes [OF scan queue_okD(1) [OF ok0]] f by blast
  then have "cn_id c \<notin> locked" unfolding due_candidate_def by (auto dest!: least_by_Some)
  moreover have "th_uuid4 H (td_drawn s) \<notin> held_tokens s" by (rule fresh_token [OF queue_okD(2) [OF ok] assms(2)]) simp
  ultimately show ?thesis using take_claim_work [OF t] take_claim_holds [OF t] due_candidateD [OF d] by auto
qed

theorem claim_leases_due_work_witness:
  "due 4 (wk_connection_row (the (snd (projr demo4)))) \<and> wk_connection (the (snd (projr demo4))) \<notin> {''other''}"
proof -
  have 1: "queue_steps demo_host demo0 (fst (projr demo3))"
    using demo_reaches by blast
  have 2: "claim_next_due_work demo_host {''other''} 4 ''worker-1'' 4 60 (fst (projr demo3)) = Inr (demo_held, Some (the (snd (projr demo4))))"
    by code_simp
  from claim_leases_due_work [OF demo_empty demo_supply 1 2] show ?thesis by blast
qed

lemma due_exists: "c \<in> set (td_connections s) \<Longrightarrow> due now c \<Longrightarrow> cn_id c \<notin> locked \<Longrightarrow> \<exists>d. due_candidate locked now s = Some d"
  by (cases "due_candidate locked now s") (auto simp: due_candidate_def least_by_None filter_empty_conv)

lemma claimed_run_exists:
  assumes ok: "runs_ok s" and c: "cn_scope c = sc" "cn_id c = i" and fresh: "th_uuid4 H (td_drawn s2) \<notin> rn_id ` set (td_runs s)"
    and s2: "td_runs s2 = td_runs s"
  shows "\<exists>s3 rid m. claimed_run H now db sc i worker token (pending_run s c) s2 = Inr (s3, rid, m)"
proof (cases "pending_run s c")
  case None
  have "rn_id x \<noteq> th_uuid4 H (td_drawn s2)" if "x \<in> set (td_runs s)" for x using fresh that by (metis imageI)
  with None s2 show ?thesis
    by (auto simp: claimed_run_def Let_def insert_run_def run_conflict_def bounded_run_def blank_run_def list_ex_iff)
next
  case (Some r)
  have "r \<in> set (open_runs s c)" using least_by_Some [OF Some [unfolded pending_run_def]] by simp
  then have "list_ex (\<lambda>x. run_at sc i (rn_id r) x \<and> rn_mode x \<in> set WORK_MODES \<and> active x) (td_runs s2)"
    using c by (auto simp: open_runs_def run_at_def list_ex_iff s2)
  with Some show ?thesis by (simp add: claimed_run_def Let_def)
qed

text \<open>
  C18. Due work does not wait: while the scopes of the rows are canonical, a claim by a worker with a public
  identifier returns work whenever some unlocked connection is due, provided the identifier the repository
  draws for a new run is not taken. No error and no empty answer is possible.
\<close>

theorem due_work_is_claimed:
  assumes "tables_empty s0" and "uuid_supply H" and "queue_steps H s0 s"
    and w: "require_public_identifier worker ''telemetry_worker_id_invalid'' = Inr worker'"
    and c: "c \<in> set (td_connections s)" "due now c" "cn_id c \<notin> locked"
    and scopes: "\<forall>d \<in> set (td_connections s). TelemetryScopeRef H (cn_scope d) = Inr (cn_scope d)"
    and fresh: "th_uuid4 H (Suc (td_drawn s)) \<notin> rn_id ` set (td_runs s)"
  shows "\<exists>s' w. claim_next_due_work H locked db worker now seconds s = Inr (s', Some w)"
proof -
  let ?s0 = "s\<lparr>td_drawn := Suc (td_drawn s)\<rparr>"
  have ok: "queue_ok H s" by (rule queue_steps_ok [OF assms(3) tables_empty_ok [OF assms(1)] assms(2)])
  have ok0: "queue_ok H ?s0" by (rule ok_changes [OF changes_draw1 ok])
  obtain d where d: "due_candidate locked now s = Some d" using due_exists [OF c] by blast
  have dm: "d \<in> set (td_connections s)" "due now d" using due_candidateD [OF d] by simp_all
  let ?sc = "cn_scope d" and ?t = "th_uuid4 H (td_drawn s)"
  have scan: "claim_scan 32 H locked now db ?s0 = Inr (?s0, Some (d, ?sc))"
    using d scopes dm(1) by (simp add: numeral_eq_Suc)
  obtain row where row: "find_conn s ?sc (cn_id d) = Some row"
    using dm(1) by (cases "find_conn s ?sc (cn_id d)") (auto simp: find_conn_def next_or_None conn_at_def)
  have "row = d" by (rule same_row [OF queue_okD(4) [OF ok]]) (use find_conn_Some [OF row] dm in simp_all)
  then have open_row: "cn_enabled row" "cn_archived_at row = None" using dm(2) by (simp_all add: due_def)
  let ?s2 = "set_conn ?sc (cn_id d) (lease_connection worker' ?t now seconds) ?s0"
  obtain s3 rid m where r: "claimed_run H now db ?sc (cn_id d) worker' ?t (pending_run ?s0 d) ?s2 = Inr (s3, rid, m)"
    using claimed_run_exists [OF queue_okD(3) [OF ok0] refl refl, where H = H and ?s2.0 = ?s2 and c = d and now = now and db = db and worker = worker' and token = ?t] fresh by (auto simp: set_conn_def)
  have "\<exists>w. take_claim H now db worker' ?t seconds d ?sc ?s0 = Inr (s3, Some w)"
    using row open_row r by (simp add: take_claim_def Let_def)
  then show ?thesis unfolding claim_next_due_work_def Let_def by (auto simp: w scan)
qed

theorem due_work_is_claimed_witness:
  "\<exists>s' w. claim_next_due_work demo_host {} 4 ''worker-1'' 4 60 (fst (projr demo3)) = Inr (s', Some w)"
proof (rule due_work_is_claimed [OF demo_empty demo_supply demo_reaches])
  show "require_public_identifier ''worker-1'' ''telemetry_worker_id_invalid'' = Inr ''worker-1''" by code_simp
  show "hd (td_connections (fst (projr demo3))) \<in> set (td_connections (fst (projr demo3)))" by (rule hd_in_set) code_simp
  show "due 4 (hd (td_connections (fst (projr demo3))))" by code_simp
  show "\<forall>d \<in> set (td_connections (fst (projr demo3))). TelemetryScopeRef demo_host (cn_scope d) = Inr (cn_scope d)" by code_simp
  show "th_uuid4 demo_host (Suc (td_drawn (fst (projr demo3)))) \<notin> rn_id ` set (td_runs (fst (projr demo3)))" by code_simp
qed simp

text \<open>
  C37. A row whose stored scope is not in its canonical spelling blocks the queue: the scan accepts it, the
  update of the normalised scope misses it, and as long as it is the first candidate every claim of every
  worker ends with a lost lease, however much other work is due.
\<close>

theorem padded_scope_blocks_claims:
  assumes "ids_ok s" and "due_candidate locked now s = Some c" and "TelemetryScopeRef H (cn_scope c) = Inr sc" and "sc \<noteq> cn_scope c"
    and w: "require_public_identifier worker ''telemetry_worker_id_invalid'' = Inr worker'"
  shows "claim_next_due_work H locked db worker now seconds s = Inl (LeaseLost ''telemetry_connection_claim_lost'')"
proof -
  let ?s0 = "s\<lparr>td_drawn := Suc (td_drawn s)\<rparr>"
  have scan: "claim_scan 32 H locked now db ?s0 = Inr (?s0, Some (c, sc))" using assms(2,3) by (simp add: numeral_eq_Suc)
  have "find_conn s sc (cn_id c) = None"
  proof (cases "find_conn s sc (cn_id c)")
    case (Some d)
    have "d = c" by (rule same_row [OF assms(1)]) (use find_conn_Some [OF Some] due_candidateD [OF assms(2)] in simp_all)
    with find_conn_Some [OF Some] assms(4) show ?thesis by simp
  qed simp
  then show ?thesis unfolding claim_next_due_work_def Let_def by (simp add: w scan take_claim_def)
qed

definition demo_padded :: tele_db where
  "demo_padded = (fst (projr demo3))\<lparr>td_connections := map (\<lambda>c. c\<lparr>cn_scope := (cn_scope c)\<lparr>ts_tenant := ''t ''\<rparr>\<rparr>)
     (td_connections (fst (projr demo3)))\<rparr>"

theorem padded_scope_blocks_claims_witness:
  "claim_next_due_work demo_host {} 4 ''worker-1'' 4 60 demo_padded = Inl (LeaseLost ''telemetry_connection_claim_lost'')"
proof (rule padded_scope_blocks_claims)
  show "ids_ok demo_padded" unfolding ids_ok_def by code_simp
  show "due_candidate {} 4 demo_padded = Some (hd (td_connections demo_padded))" by code_simp
  show "TelemetryScopeRef demo_host (cn_scope (hd (td_connections demo_padded))) = Inr demo_scope" by code_simp
  show "demo_scope \<noteq> cn_scope (hd (td_connections demo_padded))" by code_simp
  show "require_public_identifier ''worker-1'' ''telemetry_worker_id_invalid'' = Inr ''worker-1''" by code_simp
qed

subsection \<open>History\<close>

lemma upd_keeps: "x \<in> set xs \<Longrightarrow> \<not> p x \<Longrightarrow> x \<in> set (upd p f xs)"
  by (auto simp: set_upd intro!: bexI [of _ x])

text \<open>Equal but for the reference to the secret and the time of the last update.\<close>

definition same_but_secret :: "connection \<Rightarrow> connection \<Rightarrow> bool" where
  "same_but_secret c d = (d = c\<lparr>cn_secret := cn_secret d, cn_updated_at := cn_updated_at d\<rparr>)"

definition frozen :: "tele_db \<Rightarrow> tele_db \<Rightarrow> bool" where
  "frozen s s' = ((\<forall>c \<in> set (td_connections s). cn_archived_at c \<noteq> None
       \<longrightarrow> (\<exists>d \<in> set (td_connections s'). same_but_secret c d))
     \<and> (\<forall>r \<in> set (td_runs s). \<not> active r \<longrightarrow> r \<in> set (td_runs s')) \<and> (\<exists>xs. td_observations s' = td_observations s @ xs))"

lemma same_but_secret_simps [simp]:
  "same_but_secret c c" "same_but_secret c (bind_secret b t c)"
  by (simp_all add: same_but_secret_def bind_secret_def)

lemma same_but_secret_trans: "same_but_secret c d \<Longrightarrow> same_but_secret d e \<Longrightarrow> same_but_secret c e"
  by (cases c, cases d, cases e) (simp add: same_but_secret_def)

lemma same_but_secret_archived: "same_but_secret c d \<Longrightarrow> cn_archived_at d = cn_archived_at c"
  by (cases c, cases d) (simp add: same_but_secret_def)

lemma frozen_conns:
  assumes "td_runs s' = td_runs s" "td_observations s' = td_observations s"
    and "\<And>c. c \<in> set (td_connections s) \<Longrightarrow> cn_archived_at c \<noteq> None \<Longrightarrow> c \<in> set (td_connections s')"
  shows "frozen s s'"
  unfolding frozen_def using assms by (auto intro: same_but_secret_simps(1))

lemma frozen_rows:
  assumes "td_connections s' = td_connections s" and "\<And>r. r \<in> set (td_runs s) \<Longrightarrow> \<not> active r \<Longrightarrow> r \<in> set (td_runs s')"
    and "\<exists>xs. td_observations s' = td_observations s @ xs"
  shows "frozen s s'"
  unfolding frozen_def using assms by (auto intro: same_but_secret_simps(1))

lemma frozen_bind: "frozen s (set_conn sc i (bind_secret b t) s)"
proof -
  have "\<exists>d \<in> set (upd (conn_at sc i) (bind_secret b t) (td_connections s)). same_but_secret c d"
    if c: "c \<in> set (td_connections s)" for c
  proof (rule bexI)
    let ?d = "if conn_at sc i c then bind_secret b t c else c"
    show "same_but_secret c ?d" by simp
    show "?d \<in> set (upd (conn_at sc i) (bind_secret b t) (td_connections s))" using c by (auto simp: set_upd)
  qed
  then show ?thesis by (simp add: frozen_def set_conn_def)
qed

lemma frozen_change: "table_change H k s s' \<Longrightarrow> frozen s s'"
proof (induction rule: table_change.induct)
  case (connect c s)
  show ?case by (rule frozen_conns) simp_all
next
  case (conn s P f)
  then show ?case by (intro frozen_conns) (auto simp: conn_change_def intro!: upd_keeps)
next
  case (lease n s sc i worker now seconds)
  then show ?case by (intro frozen_conns) (auto simp: set_conn_def intro!: upd_keeps)
next
  case (bind s sc i b t)
  show ?case by (rule frozen_bind)
next
  case (run s P f)
  then show ?case by (intro frozen_rows) (auto simp: run_change_def intro!: upd_keeps)
next
  case (start s sc i rid P worker token now)
  then show ?case by (intro frozen_rows) (auto intro!: upd_keeps)
next
  case (page r s sc i rid t xs obs new n p received db)
  let ?f = "\<lambda>x. if rn_status x = Running \<and> rn_token x = Some t then count_page p received n db x else x"
  have "upd (run_at sc i rid) ?f (td_runs s) = upd (\<lambda>x. run_at sc i rid x \<and> rn_status x = Running \<and> rn_token x = Some t)
      (count_page p received n db) (td_runs s)" by (simp add: upd_def)
  moreover have "x \<in> set (upd (\<lambda>x. run_at sc i rid x \<and> rn_status x = Running \<and> rn_token x = Some t) (count_page p received n db) (td_runs s))"
    if "x \<in> set (td_runs s)" "\<not> active x" for x by (rule upd_keeps) (use that in \<open>auto simp: active_def\<close>)
  ultimately show ?case using insert_observations_append [OF page.hyps(5)] by (intro frozen_rows) simp_all
qed (rule frozen_rows; simp add: drop_backfill_checkpoint_def)+

lemma frozen_trans:
  assumes "frozen s s'" and "frozen s' s''"
  shows "frozen s s''"
proof -
  have "\<exists>e \<in> set (td_connections s''). same_but_secret c e" if c: "c \<in> set (td_connections s)" "cn_archived_at c \<noteq> None" for c
  proof -
    obtain d where d: "d \<in> set (td_connections s')" "same_but_secret c d" using assms(1) c unfolding frozen_def by blast
    then obtain e where "e \<in> set (td_connections s'')" "same_but_secret d e"
      using assms(2) c(2) same_but_secret_archived [OF d(2)] unfolding frozen_def by metis
    with d(2) show ?thesis by (blast intro: same_but_secret_trans)
  qed
  moreover have "\<exists>xs. td_observations s'' = td_observations s @ xs" using assms unfolding frozen_def by force
  ultimately show ?thesis using assms unfolding frozen_def by blast
qed

lemma frozen_changes: "table_changes H k s s' \<Longrightarrow> frozen s s'"
proof (induction rule: rtranclp_induct)
  case base
  show ?case by (rule frozen_rows) simp_all
next
  case (step y z)
  from step.IH frozen_change [OF step.hyps(2)] show ?case by (rule frozen_trans)
qed

text \<open>
  C38. What is over stays as it was: no sequence of requests changes a finished run or a stored observation,
  observations are only appended, and of an archived connection every column stays but two: a secret can
  still be bound to it (\<open>upsert_secret_binding\<close> does not ask whether it is archived), which sets the reference to the
  secret and the time of the update. The example archives a connection and then binds a secret to it.
\<close>

theorem telemetry_history_frozen:
  assumes "tables_empty s0" and "uuid_supply H" and "queue_steps H s0 s" and "queue_steps H s s'"
  shows "(\<forall>c \<in> set (td_connections s). cn_archived_at c \<noteq> None
        \<longrightarrow> (\<exists>d \<in> set (td_connections s'). d = c\<lparr>cn_secret := cn_secret d, cn_updated_at := cn_updated_at d\<rparr>))
     \<and> (\<forall>r \<in> set (td_runs s). \<not> active r \<longrightarrow> r \<in> set (td_runs s'))
     \<and> (\<exists>xs. td_observations s' = td_observations s @ xs)"
proof -
  have "frozen s s'" using assms(4)
  proof (induction rule: rtranclp_induct)
    case base
    show ?case by (rule frozen_rows) simp_all
  next
    case (step y z)
    have "queue_ok H y"
      by (rule queue_steps_ok [OF step.hyps(1) queue_steps_ok [OF assms(3) tables_empty_ok [OF assms(1)] assms(2)] assms(2)])
    from frozen_changes [OF queue_step_changes [OF step.hyps(2) this assms(2)]] step.IH show ?case by (metis frozen_trans)
  qed
  then show ?thesis by (simp add: frozen_def same_but_secret_def)
qed

definition demo_connected :: "(tele_db \<times> connection option) tele" where
  "demo_connected = set_connection_lifecycle demo_host 3 demo_scope ''c'' Connected ''ann'' None no_facts (fst (projr demo2))"

definition demo_archived :: "(tele_db \<times> connection option) tele" where
  "demo_archived = archive_connection demo_host 7 demo_scope ''c'' ''ann'' (fst (projr demo_connected))"

definition demo_bound :: "(tele_db \<times> string option) tele" where
  "demo_bound = upsert_secret_binding demo_host 8 demo_scope ''c'' ''b'' ''aws_secrets_manager'' ''ref'' None None None []
     (fst (projr demo_archived))"

theorem telemetry_history_frozen_witness:
  "\<exists>c \<in> set (td_connections (fst (projr demo_archived))). cn_archived_at c = Some 7 \<and> cn_secret c = None
     \<and> (\<exists>d \<in> set (td_connections (fst (projr demo_bound))).
          d = c\<lparr>cn_secret := cn_secret d, cn_updated_at := cn_updated_at d\<rparr> \<and> cn_secret d = Some ''b'')"
proof -
  have ok: "\<not> isl demo_connected" "\<not> isl demo_archived" "\<not> isl demo_bound" by code_simp+
  have a: "queue_step demo_host (fst (projr demo2)) (fst (projr demo_connected))"
    using Inr_parts [OF ok(1)] unfolding demo_connected_def by (rule queue_step.lifecycle)
  have b: "queue_step demo_host (fst (projr demo_connected)) (fst (projr demo_archived))"
    using Inr_parts [OF ok(2)] unfolding demo_archived_def by (rule queue_step.archived)
  have "queue_step demo_host (fst (projr demo_archived)) (fst (projr demo_bound))"
    using Inr_parts [OF ok(3)] unfolding demo_bound_def by (rule queue_step.bound)
  then have d: "queue_steps demo_host (fst (projr demo_archived)) (fst (projr demo_bound))" by (rule r_into_rtranclp)
  have "queue_steps demo_host demo0 (fst (projr demo_archived))"
    using demo_validates a b by (meson r_into_rtranclp rtranclp_trans)
  then have "\<forall>c \<in> set (td_connections (fst (projr demo_archived))). cn_archived_at c \<noteq> None
      \<longrightarrow> (\<exists>d \<in> set (td_connections (fst (projr demo_bound))).
            d = c\<lparr>cn_secret := cn_secret d, cn_updated_at := cn_updated_at d\<rparr>)"
    by (rule telemetry_history_frozen [OF demo_empty demo_supply _ d, THEN conjunct1])
  moreover have "list_all (\<lambda>d. cn_secret d = Some ''b'') (td_connections (fst (projr demo_bound)))" by code_simp
  moreover have "list_ex (\<lambda>c. cn_archived_at c = Some 7 \<and> cn_secret c = None) (td_connections (fst (projr demo_archived)))" by code_simp
  ultimately show ?thesis unfolding list_all_iff list_ex_iff by (metis option.distinct(1))
qed

subsection \<open>The ends of a claim\<close>

lemma backoff_jitter:
  assumes "0 \<le> cap" "cap < 2 ^ 53" "0 \<le> j" "j \<le> 1"
  shows "\<lceil>fl (of_int cap * j)\<rceil> \<le> cap"
proof -
  have "of_int cap * j \<le> of_int cap * 1" using assms by (intro mult_left_mono) simp_all
  then have "fl (of_int cap * j) \<le> of_int cap" using assms by (intro fl_le_int) simp_all
  then show ?thesis by (simp add: ceiling_le_iff)
qed

lemma retry_delay_aux:
  "1 \<le> backoff_seconds prior j after" "backoff_seconds prior j after \<le> 86400"
proof -
  have "\<exists>a b. backoff_seconds prior j after = min (max (max 1 a) b) 86400" unfolding backoff_seconds_def Let_def by blast
  then show "1 \<le> backoff_seconds prior j after" "backoff_seconds prior j after \<le> 86400" by auto
qed

text \<open>
  The delay before a retry is between a second and a day whatever the jitter and the provider say; it
  never exceeds the exponential window of the retry, capped at an hour, unless the provider asked for more,
  and never undercuts what the provider asked for, up to a day.
\<close>

theorem retry_delay_bounds:
  assumes "0 \<le> prior"
  shows "1 \<le> backoff_seconds prior (min (max jitter 0) 1) after \<and> backoff_seconds prior (min (max jitter 0) 1) after \<le> 86400
    \<and> (after = None \<longrightarrow> backoff_seconds prior (min (max jitter 0) 1) after \<le> min (30 * 2 ^ nat (min prior 7)) 3600)
    \<and> (\<forall>a. after = Some a \<longrightarrow> min (trunc a) 86400 \<le> backoff_seconds prior (min (max jitter 0) 1) after)"
proof -
  let ?cap = "min (30 * 2 ^ nat (min prior 7)) 3600 :: int"
  have "(1 :: int) \<le> 2 ^ nat (min prior 7)" by simp
  then have cap: "1 \<le> ?cap" "?cap \<le> 3600" by linarith+
  define d where "d = \<lceil>fl (of_int ?cap * min (max jitter 0) 1)\<rceil>"
  have "d \<le> ?cap" unfolding d_def
  proof (rule backoff_jitter)
    show "0 \<le> ?cap" using cap by linarith
    show "?cap < 2 ^ 53" by (rule le_less_trans [OF cap(2)]) simp
  qed simp_all
  with cap have "max 1 d \<le> ?cap" by simp
  have b: "backoff_seconds prior (min (max jitter 0) 1) after
      = min (max (max 1 d) (case after of None \<Rightarrow> 0 | Some a \<Rightarrow> min (max (trunc a) 1) 86400)) 86400"
    by (simp only: backoff_seconds_def Let_def d_def)
  show ?thesis unfolding b using cap \<open>max 1 d \<le> ?cap\<close> by (cases after) (auto simp: min_def max_def)
qed

theorem retry_delay_bounds_witness: "backoff_seconds 3 (min (max (1 / 2) 0) 1) None \<le> 240"
  using retry_delay_bounds [of 3 "1 / 2" None] by simp

lemma end_claim_row:
  assumes ok: "ids_ok s" and e: "end_claim sc i r t f g s = Inr s'" and g: "\<And>c. cn_id (g c) = cn_id c \<and> cn_scope (g c) = cn_scope c"
  shows "\<exists>c. find_conn s sc i = Some c \<and> lease_token c = Some t \<and> find_conn s' sc i = Some (g c)"
proof -
  obtain c where c: "c \<in> set (td_connections s)" "conn_at sc i c" "lease_token c = Some t"
    using e by (auto simp: end_claim_def list_ex_iff split: if_split_asm)
  obtain d where d: "find_conn s sc i = Some d"
    using c by (cases "find_conn s sc i") (auto simp: find_conn_def next_or_None)
  have dc: "d = c" by (rule same_row [OF ok]) (use find_conn_Some [OF d] c in \<open>simp_all add: conn_at_def\<close>)
  have "td_connections s' = upd (\<lambda>c. conn_at sc i c \<and> lease_token c = Some t) g (td_connections s)"
    using e by (auto simp: end_claim_def split: if_split_asm)
  then have "find_conn s' sc i = map_option (\<lambda>x. if conn_at sc i x \<and> lease_token x = Some t then g x else x) (find_conn s sc i)"
    unfolding find_conn_def by (simp add: next_or_upd conn_at_def g)
  with d dc c show ?thesis by simp
qed

lemma audit_frame: "audit H db sc i a act d s = Inr s' \<Longrightarrow> td_connections s' = td_connections s \<and> td_runs s' = td_runs s"
  by (auto simp: audit_def insert_audit_event_def Let_def split: if_split_asm)

lemma audit_range_frame: "audit_range H db sc i x b act d s = Inr s' \<Longrightarrow> td_connections s' = td_connections s \<and> td_runs s' = td_runs s"
  by (auto simp: audit_range_def split: if_split_asm dest: audit_frame)

lemma failure_Inr:
  assumes "record_ingestion_failure H db sc cid rid token failed code summary retryable after jitter s = Inr (s', st)"
  shows "\<exists>i r t code' summary' c s1. denotes H cid i \<and> denotes H rid r \<and> denotes H token t
    \<and> next_or (\<lambda>c. conn_at sc i c \<and> lease_token c = Some t) (td_connections s) = Some c
    \<and> end_claim sc i r t (fail_run failed code' summary' (retry_count_after c) (exhausted_after retryable c))
        (fail_connection failed code' summary' (retry_count_after c) (exhausted_after retryable c)
          (if exhausted_after retryable c then None
           else Some (failed + backoff_seconds (cn_retry_count c) (min (max jitter 0) 1) after * 1000000))) s = Inr s1
    \<and> td_connections s' = td_connections s1 \<and> td_runs s' = td_runs s1
    \<and> st = (if exhausted_after retryable c then RunFailed else Pending)"
  using assms unfolding record_ingestion_failure_def Let_def
  by (auto elim!: bindE_elim split: prod.split_asm option.split_asm simp: require_uuid_denotes dest!: audit_range_frame) fastforce+

text \<open>
  C39. Retries end. Every recorded failure raises the retry count of the connection by one, up to ten, and
  drops the lease; the run fails for good and nothing is scheduled when the error is not retryable or the
  count reaches ten, and otherwise the next attempt is between a second and a day later. So after ten
  failures in a row no attempt is left.
\<close>

theorem failures_exhaust_retries:
  assumes "tables_empty s0" and "uuid_supply H" and "queue_steps H s0 s"
    and f: "record_ingestion_failure H db sc cid rid token failed code summary retryable after jitter s = Inr (s', st)" and i: "denotes H cid i"
  shows "\<exists>c d. find_conn s sc i = Some c \<and> find_conn s' sc i = Some d \<and> cn_lease d = None
    \<and> cn_retry_count d = min (cn_retry_count c + 1) 10
    \<and> (st = RunFailed \<and> cn_next_attempt d = None \<and> cn_status d = Errored \<and> (\<not> retryable \<or> 9 \<le> cn_retry_count c)
       \<or> st = Pending \<and> cn_status d = Degraded \<and> retryable \<and> cn_retry_count c < 9
         \<and> (\<exists>n. cn_next_attempt d = Some n \<and> failed + 1000000 \<le> n \<and> n \<le> failed + 86400000000))"
proof -
  have ok: "queue_ok H s" by (rule queue_steps_ok [OF assms(3) tables_empty_ok [OF assms(1)] assms(2)])
  obtain j r t code' summary' c s1 where j: "denotes H cid j"
    and c: "next_or (\<lambda>c. conn_at sc j c \<and> lease_token c = Some t) (td_connections s) = Some c"
    and e: "end_claim sc j r t (fail_run failed code' summary' (retry_count_after c) (exhausted_after retryable c))
        (fail_connection failed code' summary' (retry_count_after c) (exhausted_after retryable c)
          (if exhausted_after retryable c then None
           else Some (failed + backoff_seconds (cn_retry_count c) (min (max jitter 0) 1) after * 1000000))) s = Inr s1"
    and s': "td_connections s' = td_connections s1" and st: "st = (if exhausted_after retryable c then RunFailed else Pending)"
    using failure_Inr [OF f] by blast
  let ?g = "fail_connection failed code' summary' (retry_count_after c) (exhausted_after retryable c)
          (if exhausted_after retryable c then None
           else Some (failed + backoff_seconds (cn_retry_count c) (min (max jitter 0) 1) after * 1000000))"
  obtain d where d: "find_conn s sc j = Some d" "find_conn s1 sc j = Some (?g d)"
    using end_claim_row [OF queue_okD(4) [OF ok] e] by (auto simp: fail_connection_def)
  have dc: "d = c" by (rule same_row [OF queue_okD(4) [OF ok]]) (use find_conn_Some [OF d(1)] next_or_Some [OF c] in \<open>auto simp: conn_at_def\<close>)
  have f': "find_conn s' sc j = Some (?g c)" using d(2) s' dc by (simp add: find_conn_def)
  have "conn_ok c" using queue_okD(1) [OF ok] next_or_Some [OF c] by (simp add: rows_valid_def list_all_iff)
  then have "0 \<le> cn_retry_count c" by (simp add: conn_ok_def)
  with retry_delay_aux [of "cn_retry_count c" "min (max jitter 0) 1" after] d f' st dc denotes_fun [OF i j] show ?thesis
    by (auto simp: fail_connection_def exhausted_after_def retry_count_after_def)
qed

theorem failures_exhaust_retries_witness:
  "\<exists>d. find_conn demo_lost demo_scope ''c'' = Some d \<and> cn_lease d = None"
  using failures_exhaust_retries [OF demo_empty demo_supply rtranclp_trans [OF demo_claims demo_writes] demo_failure] demo_lost_lease by blast

text \<open>The completion of a run, on every branch.\<close>

lemma complete_Inr:
  assumes "complete_ingestion_work H db sc cid rid token completed next partial s = Inr (s', st)"
  shows "\<exists>i r t x s1. denotes H cid i \<and> denotes H rid r \<and> denotes H token t \<and> x \<in> set (td_runs s) \<and> run_at sc i r x
    \<and> rn_status x = Running \<and> rn_token x = Some t \<and> st = completed_status partial x
    \<and> end_claim sc i r t (complete_run completed st) (complete_connection completed next st) s = Inr s1
    \<and> td_connections s' = td_connections s1 \<and> td_runs s' = td_runs s1"
  using assms unfolding complete_ingestion_work_def Let_def
  by (elim bindE_elim)
    (auto elim!: bindE_elim split: if_split_asm option.split_asm simp: require_uuid_denotes dest!: audit_range_frame next_or_Some, fastforce+)

text \<open>
  C40. A completed run is over: it is finished, as partial exactly when the worker said so or a record was
  rejected; the connection has no lease and no retries left over. A partial completion makes the connection
  degraded whatever its status was, so a connection that was disabled while its run went on leaves the
  disabled status, a transition the lifecycle excludes.
\<close>

theorem completion_outcome:
  assumes "ids_ok s" and c: "complete_ingestion_work H db sc cid rid token completed next partial s = Inr (s', st)" and i: "denotes H cid i"
  shows "\<exists>c d x. find_conn s sc i = Some c \<and> find_conn s' sc i = Some d \<and> cn_lease d = None \<and> cn_retry_count d = 0
    \<and> cn_next_attempt d = next \<and> x \<in> set (td_runs s) \<and> rn_status x = Running \<and> complete_run completed st x \<in> set (td_runs s')
    \<and> st = (if partial \<or> 0 < rn_rejected x then Partial else Succeeded)
    \<and> (st = Partial \<longrightarrow> cn_status d = Degraded) \<and> (st = Succeeded \<longrightarrow> cn_status d = cn_status c \<or> cn_status d = Connected)
    \<and> (cn_status c = Disabled \<and> st = Partial \<longrightarrow> \<not> can_transition_connection (cn_status c) (cn_status d))"
proof -
  obtain j r t x s1 where j: "denotes H cid j" and x: "x \<in> set (td_runs s)" "run_at sc j r x" "rn_status x = Running" "rn_token x = Some t"
    and st: "st = completed_status partial x"
    and e: "end_claim sc j r t (complete_run completed st) (complete_connection completed next st) s = Inr s1"
    and s': "td_connections s' = td_connections s1" "td_runs s' = td_runs s1"
    using complete_Inr [OF c] by blast
  have ij: "j = i" by (rule denotes_fun [OF j i])
  obtain c where c: "find_conn s sc i = Some c" "find_conn s1 sc i = Some (complete_connection completed next st c)"
    using end_claim_row [OF assms(1) e] ij by (auto simp: complete_connection_def)
  have d: "find_conn s' sc i = Some (complete_connection completed next st c)" using c(2) s'(1) by (simp add: find_conn_def)
  have "complete_run completed st x \<in> set (td_runs s')"
    using e x s'(2) by (auto simp: end_claim_def set_upd split: if_split_asm intro!: bexI [of _ x])
  with c(1) d x st show ?thesis
    by (auto simp: complete_connection_def completed_status_def can_transition_connection_def)
qed

definition demo_disabled where
  "demo_disabled = set_connection_lifecycle demo_host 5 demo_scope ''c'' Disabled ''ann'' None no_facts
     (fst (projr (set_connection_lifecycle demo_host 5 demo_scope ''c'' Degraded ''ann'' None no_facts demo_held)))"

definition demo_reopened where
  "demo_reopened = complete_ingestion_work demo_host 6 demo_scope ''c'' ''u00'' ''u0'' 6 None True (fst (projr demo_disabled))"

text \<open>Disabled in the middle of a run, the connection is degraded when the worker ends it.\<close>

theorem completion_outcome_witness:
  "cn_status (the (find_conn (fst (projr demo_disabled)) demo_scope ''c'')) = Disabled
   \<and> cn_status (the (find_conn (fst (projr demo_reopened)) demo_scope ''c'')) = Degraded"
proof
  show 1: "cn_status (the (find_conn (fst (projr demo_disabled)) demo_scope ''c'')) = Disabled" by code_simp
  have ids: "ids_ok (fst (projr demo_disabled))" unfolding ids_ok_def by code_simp
  have "\<not> isl demo_reopened" "snd (projr demo_reopened) = Partial" by code_simp+
  then have r: "complete_ingestion_work demo_host 6 demo_scope ''c'' ''u00'' ''u0'' 6 None True (fst (projr demo_disabled))
      = Inr (fst (projr demo_reopened), Partial)"
    using Inr_parts [of demo_reopened] unfolding demo_reopened_def by simp
  show "cn_status (the (find_conn (fst (projr demo_reopened)) demo_scope ''c'')) = Degraded"
    using completion_outcome [OF ids r] demo_lost_lease by fastforce
qed

lemma find_set_conn:
  "(\<And>c. cn_id (f c) = cn_id c \<and> cn_scope (f c) = cn_scope c) \<Longrightarrow> find_conn (set_conn sc i f s) sc i = map_option f (find_conn s sc i)"
  unfolding find_conn_def set_conn_def
  by (simp add: next_or_upd conn_at_def) (auto simp: conn_at_def dest!: next_or_Some intro!: option.map_cong0 split: option.split)

lemma audited_row:
  "audit H db sc i a act d (set_conn sc i f s) = Inr s' \<Longrightarrow> get_connection sc i s' = Inr c' \<Longrightarrow> find_conn s sc i = Some c
   \<Longrightarrow> (\<And>c. cn_id (f c) = cn_id c \<and> cn_scope (f c) = cn_scope c) \<Longrightarrow> c' = f c"
  using find_set_conn [of f sc i s] find_conn_frame [of s' "set_conn sc i f s" sc i] audit_frame [of H db sc i a act d "set_conn sc i f s" s']
  by (auto simp: get_connection_def split: option.split_asm)

lemma patched_row: "cn_id (patch_lifecycle target on f code summary actor db c) = cn_id c
    \<and> cn_scope (patch_lifecycle target on f code summary actor db c) = cn_scope c"
  by (simp add: patch_lifecycle_def)

lemma apply_lifecycle_row:
  assumes l: "apply_lifecycle H db sc i target actor enabled f code summary c s = Inr (s', Some c')" and c: "find_conn s sc i = Some c"
  shows "target \<noteq> Archived \<and> (target = cn_status c \<or> can_transition_connection (cn_status c) target)
    \<and> cn_status c' = target \<and> (target = Disabled \<longrightarrow> \<not> cn_enabled c')"
proof -
  have t: "target \<noteq> Archived \<and> (target = cn_status c \<or> can_transition_connection (cn_status c) target)"
    using apply_lifecycle_Inr [OF l] by blast
  obtain act d on where a: "audit H db sc i actor act d (set_conn sc i (patch_lifecycle target on f code summary actor db) s) = Inr s'"
      "get_connection sc i s' = Inr c'" "target = Disabled \<longrightarrow> \<not> on"
    using l unfolding apply_lifecycle_def Let_def by (elim bindE_elim) (auto elim!: bindE_elim split: if_split_asm)
  have "c' = patch_lifecycle target on f code summary actor db c" by (rule audited_row [OF a(1,2) c patched_row])
  with t a(3) show ?thesis by (simp add: patch_lifecycle_def)
qed

lemma set_lifecycle_row:
  assumes "set_connection_lifecycle H db sc cid target actor enabled f s = Inr (s', Some c')"
    and c: "find_conn s sc i = Some c" and i: "denotes H cid i"
  shows "cn_archived_at c = None \<and> (\<exists>a code summary. apply_lifecycle H db sc i target a enabled f code summary c s = Inr (s', Some c'))"
proof -
  have "require_uuid H cid code = Inr j \<Longrightarrow> j = i" for code j using denotes_fun i by (simp add: require_uuid_denotes)
  then show ?thesis using assms(1) c unfolding set_connection_lifecycle_def Let_def
    by (elim bindE_elim) (auto split: if_split_asm)
qed

lemma archive_row:
  assumes a: "archive_connection H db sc cid actor s = Inr (s', Some c')" and c: "find_conn s sc i = Some c" and i: "denotes H cid i"
  shows "can_transition_connection (cn_status c) Archived \<and> cn_status c' = Archived \<and> cn_lease c' = None \<and> \<not> cn_enabled c'"
proof -
  let ?f = "\<lambda>a c. c\<lparr>cn_status := Archived, cn_enabled := False, cn_archived_at := Some db, cn_updated_by := a, cn_updated_at := db, cn_lease := None\<rparr>"
  have "require_uuid H cid code = Inr j \<Longrightarrow> j = i" for code j using denotes_fun i by (simp add: require_uuid_denotes)
  then have "can_transition_connection (cn_status c) Archived
      \<and> (\<exists>a d. audit H db sc i a ''connection_archived'' d (set_conn sc i (?f a) s) = Inr s' \<and> get_connection sc i s' = Inr c')"
    using a c unfolding archive_connection_def Let_def
    by (elim bindE_elim) (auto elim!: bindE_elim split: if_split_asm simp: res_simps)
  then obtain a d where t: "can_transition_connection (cn_status c) Archived"
    and a: "audit H db sc i a ''connection_archived'' d (set_conn sc i (?f a) s) = Inr s'" "get_connection sc i s' = Inr c'" by blast
  have "c' = ?f a c" by (rule audited_row [OF a c]) simp
  with t show ?thesis by simp
qed

text \<open>
  The lifecycle of a connection changes only along the table. A successful status change was to the same
  status or along a listed transition, of an unarchived connection and not to the archived status, and it
  leaves a disabled connection disabled; archiving is allowed from the statuses the table lists, and ends
  the lease.
\<close>

theorem lifecycle_follows_table:
  assumes c: "find_conn s sc i = Some c" and i: "denotes H cid i"
  shows "(\<forall>s' c'. set_connection_lifecycle H db sc cid target actor enabled f s = Inr (s', Some c') \<longrightarrow>
      cn_archived_at c = None \<and> target \<noteq> Archived \<and> (target = cn_status c \<or> can_transition_connection (cn_status c) target)
      \<and> cn_status c' = target \<and> (target = Disabled \<longrightarrow> \<not> cn_enabled c'))
    \<and> (\<forall>s' c'. archive_connection H db sc cid actor s = Inr (s', Some c') \<longrightarrow>
      can_transition_connection (cn_status c) Archived \<and> cn_status c' = Archived \<and> cn_lease c' = None \<and> \<not> cn_enabled c')"
proof (rule conjI; intro allI impI)
  fix s' c' assume "set_connection_lifecycle H db sc cid target actor enabled f s = Inr (s', Some c')"
  from set_lifecycle_row [OF this c i] show "cn_archived_at c = None \<and> target \<noteq> Archived
      \<and> (target = cn_status c \<or> can_transition_connection (cn_status c) target)
      \<and> cn_status c' = target \<and> (target = Disabled \<longrightarrow> \<not> cn_enabled c')"
    by (auto dest: apply_lifecycle_row [OF _ c])
qed (rule archive_row [OF _ c i])

theorem lifecycle_follows_table_witness:
  "cn_status (the (snd (projr demo_disabled))) = Disabled \<and> \<not> cn_enabled (the (snd (projr demo_disabled)))"
proof -
  let ?s = "fst (projr (set_connection_lifecycle demo_host 5 demo_scope ''c'' Degraded ''ann'' None no_facts demo_held))"
  have c: "find_conn ?s demo_scope ''c'' = Some (the (find_conn ?s demo_scope ''c''))" by code_simp
  have "\<not> isl demo_disabled" "snd (projr demo_disabled) \<noteq> None" by code_simp+
  then have d: "set_connection_lifecycle demo_host 5 demo_scope ''c'' Disabled ''ann'' None no_facts ?s
      = Inr (fst (projr demo_disabled), Some (the (snd (projr demo_disabled))))"
    using Inr_parts [of demo_disabled] unfolding demo_disabled_def by simp
  have i: "denotes demo_host ''c'' ''c''" using demo_lost_lease by blast
  show ?thesis using lifecycle_follows_table [OF c i] d by blast
qed

end
