(* ===== verification/Telemetry_Pages.thy ===== *)
theory Telemetry_Pages
  imports Telemetry_Laws
begin

text \<open>
  The accounting of a persisted page: which of its records are stored, which are reported as rejections, and
  which pages can never be persisted.
\<close>

lemma upsert_keys:
  "upsert_rejections s db touched ys xs = Inr zs \<Longrightarrow>
     rejection_key ` set ys \<union> rejection_key ` set xs \<subseteq> rejection_key ` set zs
     \<and> distinct (map rejection_key xs) \<and> rejection_key ` set xs \<inter> set touched = {}"
proof (induction s db touched ys xs rule: upsert_rejections.induct)
  case (2 s db touched ys x xs)
  have k: "rejection_key ` set (upd (\<lambda>y. rejection_key y = rejection_key x) (seen_again db x) ys) = rejection_key ` set ys"
  proof -
    have "map rejection_key (upd (\<lambda>y. rejection_key y = rejection_key x) (seen_again db x) ys) = map rejection_key ys"
      by (rule map_upd) (simp add: rejection_key_def seen_again_def)
    then show ?thesis by (metis set_map)
  qed
  have free: "rejection_key x \<notin> set touched" using 2(3) by (auto simp: Let_def split: if_split_asm)
  show ?case
  proof (cases "list_ex (\<lambda>y. rejection_key y = rejection_key x) ys")
    case True
    then have "upsert_rejections s db (rejection_key x # touched) (upd (\<lambda>y. rejection_key y = rejection_key x) (seen_again db x) ys) xs = Inr zs"
      using 2(3) by (auto simp: Let_def split: if_split_asm)
    moreover have "rejection_key x \<in> rejection_key ` set ys" using True unfolding list_ex_iff by (metis imageI)
    ultimately show ?thesis using 2(1) [OF refl] 2(3) k free True by (auto simp: Let_def split: if_split_asm)
  next
    case False
    then have "upsert_rejections s db (rejection_key x # touched) (ys @ [x]) xs = Inr zs"
      using 2(3) by (auto simp: Let_def split: if_split_asm)
    then show ?thesis using 2(2) [OF refl] 2(3) free False by (auto simp: Let_def split: if_split_asm)
  qed
qed simp

lemma duplicates_cover:
  "x \<in> set obs \<Longrightarrow> ob_digest x \<notin> digests \<Longrightarrow>
   \<exists>j \<in> set (duplicates_of draw n digests obs). rj_digest j = ob_digest x \<and> rj_reason j = ''duplicate_observation''"
  by (induction draw n digests obs rule: duplicates_of.induct) (auto simp: duplicate_rejection_def)

lemma prepared_observations:
  "mapE (prepare_observation H) xs = Inr ys \<Longrightarrow> map ob_digest ys = map ob_digest xs"
  by (induction xs arbitrary: ys) (auto simp: prepare_observation_def elim!: bindE_elim)

lemma prepared_rejections:
  "mapE (prepare_rejection H) xs = Inr ys \<Longrightarrow>
     map (\<lambda>j. (rj_digest j, rj_reason j)) ys = map (\<lambda>j. (strip (rj_digest j), strip (rj_reason j))) xs"
  by (induction xs arbitrary: ys)
    (auto simp: prepare_rejection_def require_identifier_def require_public_identifier_def elim!: bindE_elim split: if_split_asm)

lemma key_stored:
  "rejection_key (fresh_rejection db sc i r j) \<in> rejection_key ` set zs \<Longrightarrow>
   \<exists>z \<in> set zs. rj_digest z = rj_digest j \<and> rj_reason z = rj_reason j \<and> sr_connection z = i"
  by (auto simp: rejection_key_def fresh_rejection_def page_rejection.extend_def)

text \<open>What a page that was written did, over the prepared rows.\<close>

lemma write_page_rows:
  assumes "write_page H db sc i r t p obs rejs cursor s = Inr (s', n)"
  shows "\<exists>new. td_observations s' = td_observations s @ new \<and> pc_accepted n = length new
    \<and> (\<forall>x \<in> set obs. (\<exists>y \<in> set new. ob_digest y = ob_digest x)
         \<or> (\<exists>j \<in> set (td_rejections s'). rj_digest j = ob_digest x \<and> rj_reason j = ''duplicate_observation'' \<and> sr_connection j = i))
    \<and> (\<forall>x \<in> set rejs. \<exists>j \<in> set (td_rejections s'). rj_digest j = rj_digest x \<and> rj_reason j = rj_reason x \<and> sr_connection j = i)"
proof -
  obtain all_obs new rs where
    ins: "insert_observations (td_observations s) (map (stored sc i r) obs) = (all_obs, new)"
    and up: "upsert_rejections s db [] (td_rejections s)
        (map (fresh_rejection db sc i r) (rejs @ duplicates_of (th_uuid4 H) (td_drawn s) (ob_digest ` set new) obs)) = Inr rs"
    and n: "pc_accepted n = length new" and s': "td_observations s' = all_obs" "td_rejections s' = rs"
    using write_page_Inr [OF assms] by (auto simp: set_run_def)
  let ?dups = "duplicates_of (th_uuid4 H) (td_drawn s) (ob_digest ` set new) obs"
  have all: "\<exists>z \<in> set rs. rj_digest z = rj_digest j \<and> rj_reason z = rj_reason j \<and> sr_connection z = i" if "j \<in> set (rejs @ ?dups)" for j
    by (rule key_stored) (use upsert_keys [OF up] that in force)
  have "(\<exists>y \<in> set new. ob_digest y = ob_digest x)
      \<or> (\<exists>j \<in> set rs. rj_digest j = ob_digest x \<and> rj_reason j = ''duplicate_observation'' \<and> sr_connection j = i)" if x: "x \<in> set obs" for x
  proof (cases "ob_digest x \<in> ob_digest ` set new")
    case False
    from duplicates_cover [OF x this] obtain j where "j \<in> set ?dups" "rj_digest j = ob_digest x" "rj_reason j = ''duplicate_observation''" by blast
    with all [of j] show ?thesis by auto
  qed auto
  moreover have "all_obs = td_observations s @ new" using insert_observations_append [OF ins] by simp
  ultimately show ?thesis using n s' all by (intro exI [of _ new]) auto
qed

text \<open>
  C16. A persisted page drops no record silently. Every observation of the page is among the rows the page
  stored, under its digest, or is reported as a duplicate under it; every rejection of the page is stored
  under its digest and reason; the accepted count is the number of rows added; and the checkpoint moved by
  exactly one revision.
\<close>

theorem no_record_dropped:
  assumes "checkpoints_ok s" and p: "persist_ingestion_page H db sc cid rid token p s = Inr (s', n)" and i: "denotes H cid i"
  shows "\<exists>new. td_observations s' = td_observations s @ new \<and> pc_accepted n = length new
    \<and> (\<forall>x \<in> set (pg_observations p). (\<exists>y \<in> set new. ob_digest y = ob_digest x)
         \<or> (\<exists>j \<in> set (td_rejections s'). rj_digest j = ob_digest x \<and> rj_reason j = ''duplicate_observation'' \<and> sr_connection j = i))
    \<and> (\<forall>x \<in> set (pg_rejections p). \<exists>j \<in> set (td_rejections s').
         rj_digest j = strip (rj_digest x) \<and> rj_reason j = strip (rj_reason x) \<and> sr_connection j = i)
    \<and> revision_at (sc, i, pg_mode p) s' = revision_at (sc, i, pg_mode p) s + 1"
proof -
  obtain k r t obs rejs cursor where k: "denotes H cid k" and c: "check_page H p = Inr (obs, rejs, cursor)"
    and w: "write_page H db sc k r t p obs rejs cursor s = Inr (s', n)"
    using persist_Inr [OF p] by (auto simp: require_uuid_denotes)
  have ik: "k = i" by (rule denotes_fun [OF k i])
  let ?a = "\<lambda>j. (rj_digest j, rj_reason j)" and ?b = "\<lambda>j. (strip (rj_digest j), strip (rj_reason j))"
  have "map ob_digest obs = map ob_digest (pg_observations p)" "map ?a rejs = map ?b (pg_rejections p)"
    using check_page_Inr [OF c] prepared_observations prepared_rejections by blast+
  then have "ob_digest ` set (pg_observations p) = ob_digest ` set obs" "?b ` set (pg_rejections p) = ?a ` set rejs"
    by (metis set_map)+
  then have b: "?b ` set (pg_rejections p) = ?a ` set rejs" and d: "ob_digest ` set (pg_observations p) = ob_digest ` set obs" by blast+
  obtain new where o: "td_observations s' = td_observations s @ new" "pc_accepted n = length new"
    and B: "\<forall>x \<in> set obs. (\<exists>y \<in> set new. ob_digest y = ob_digest x)
         \<or> (\<exists>j \<in> set (td_rejections s'). rj_digest j = ob_digest x \<and> rj_reason j = ''duplicate_observation'' \<and> sr_connection j = i)"
    and R: "\<forall>x \<in> set rejs. \<exists>j \<in> set (td_rejections s'). rj_digest j = rj_digest x \<and> rj_reason j = rj_reason x \<and> sr_connection j = i"
    using write_page_rows [OF w] unfolding ik by (elim exE conjE)
  have "(\<exists>y \<in> set new. ob_digest y = ob_digest x)
      \<or> (\<exists>j \<in> set (td_rejections s'). rj_digest j = ob_digest x \<and> rj_reason j = ''duplicate_observation'' \<and> sr_connection j = i)"
    if "x \<in> set (pg_observations p)" for x
  proof -
    have "ob_digest x \<in> ob_digest ` set obs" using that d by blast
    then obtain y where "y \<in> set obs" "ob_digest x = ob_digest y" by (rule imageE)
    with B show ?thesis by simp
  qed
  moreover have "\<exists>j \<in> set (td_rejections s'). rj_digest j = strip (rj_digest x) \<and> rj_reason j = strip (rj_reason x) \<and> sr_connection j = i"
    if "x \<in> set (pg_rejections p)" for x
  proof -
    have "?b x \<in> ?a ` set rejs" using that b by blast
    then obtain y where "y \<in> set rejs" "?b x = ?a y" by (rule imageE)
    with R show ?thesis by simp
  qed
  ultimately show ?thesis
    using o persist_revision [OF p assms(1) i] by (intro exI [of _ new] conjI ballI) simp_all
qed

text \<open>
  A single statement upserts the rejections of a page, and it fails when it would touch one row twice. So a
  persisted page has no two rejections under one digest and reason; nor has it a value that is not JSON.
\<close>

lemma persist_distinct_rejections:
  assumes "persist_ingestion_page H db sc cid rid token p s = Inr (s', n)"
  shows "\<not> pg_nonfinite p \<and> distinct (map (\<lambda>j. (strip (rj_digest j), strip (rj_reason j))) (pg_rejections p))"
proof -
  from persist_Inr [OF assms] obtain i r t obs rejs cursor where c: "check_page H p = Inr (obs, rejs, cursor)"
    and w: "write_page H db sc i r t p obs rejs cursor s = Inr (s', n)" by blast
  let ?k = "\<lambda>j. (rj_digest j, rj_reason j)"
  have k: "map ?k rejs = map (\<lambda>j. (strip (rj_digest j), strip (rj_reason j))) (pg_rejections p)"
    using check_page_Inr [OF c] prepared_rejections by blast
  obtain dups rs where f: "\<not> pg_nonfinite p"
    and "upsert_rejections s db [] (td_rejections s) (map (fresh_rejection db sc i r) (rejs @ dups)) = Inr rs"
    using write_page_Inr [OF w] by blast
  from upsert_keys [OF this(2)] have "distinct (map (rejection_key \<circ> fresh_rejection db sc i r) rejs)" by simp
  then have "distinct (map ?k rejs)"
    by (auto simp: distinct_map inj_on_def rejection_key_def fresh_rejection_def page_rejection.extend_def)
  with k f show ?thesis by simp
qed

definition demo_rejection :: page_rejection where
  "demo_rejection = \<lparr>rj_id = ''r'', rj_signal = None, rj_tag = Some ''unknown'', rj_event = None, rj_mapping = None,
     rj_timestamp_raw = None, rj_digest = ''d'', rj_original_value = JNull, rj_original_unit = None, rj_reported_quality = None,
     rj_quality = FormatInvalid, rj_reason = ''unmapped_signal'', rj_disposition = Rejected, rj_context = []\<rparr>"

definition demo_rejected where
  "demo_rejected = persist_ingestion_page demo_host 5 demo_scope ''c'' ''u00'' ''u0'' (demo_page\<lparr>pg_rejections := [demo_rejection]\<rparr>) demo_held"

theorem no_record_dropped_witness:
  "\<exists>j \<in> set (td_rejections (fst (projr demo_rejected))). rj_digest j = ''d'' \<and> rj_reason j = ''unmapped_signal''"
proof -
  have "\<not> isl demo_rejected" by code_simp
  then have p: "persist_ingestion_page demo_host 5 demo_scope ''c'' ''u00'' ''u0'' (demo_page\<lparr>pg_rejections := [demo_rejection]\<rparr>) demo_held
      = Inr (fst (projr demo_rejected), snd (projr demo_rejected))"
    using Inr_parts [of demo_rejected] unfolding demo_rejected_def by simp
  have "checkpoints_ok demo_held" unfolding checkpoints_ok_def by code_simp
  from no_record_dropped [OF this p] demo_lost_lease have "\<forall>x \<in> set [demo_rejection]. \<exists>j \<in> set (td_rejections (fst (projr demo_rejected))).
      rj_digest j = strip (rj_digest x) \<and> rj_reason j = strip (rj_reason x)" by fastforce
  moreover have "strip ''d'' = ''d''" "strip ''unmapped_signal'' = ''unmapped_signal''" by code_simp+
  ultimately show ?thesis by (simp add: demo_rejection_def)
qed

end
