(* ===== verification/Telemetry_Worker_Laws.thy ===== *)
theory Telemetry_Worker_Laws
  imports Telemetry_Worker Telemetry_Intake Telemetry_Outcomes Telemetry_Pages
begin

text \<open>
  What an iteration of the worker guarantees beside any other requests: it changes the tables only by the
  operations of the queue, and work it claimed is handed back. Then the records that keep a worker's page from
  ever being written.
\<close>

subsection \<open>The worker's changes\<close>

text \<open>What the other transactions do between the worker's own: any requests to the queue.\<close>

definition others_operate :: "'b page_host_scheme \<Rightarrow> worker_env \<Rightarrow> bool" where
  "others_operate H E = (\<forall>n s. queue_steps H s (we_others E n s))"

text \<open>An action keeps to the queue when all it does is operations of the queue.\<close>

definition keeps_queue :: "'b page_host_scheme \<Rightarrow> 'a action \<Rightarrow> bool" where
  "keeps_queue H m = (\<forall>s. queue_steps H s (fst (m s)))"

lemma keeps_pass: "keeps_queue H (pass r)"
  by (simp add: keeps_queue_def pass_def)

lemma keeps_andThen: "keeps_queue H m \<Longrightarrow> (\<And>x. keeps_queue H (f x)) \<Longrightarrow> keeps_queue H (andThen m f)"
  by (auto simp: keeps_queue_def andThen_def split: prod.split sum.split) (metis fst_conv rtranclp_trans)+

lemma keeps_transact:
  assumes o: "others_operate H E" and f: "\<And>s s' x. f s = Inr (s', x) \<Longrightarrow> s' = s \<or> queue_step H s s'"
  shows "keeps_queue H (transact E n f)"
proof -
  have "queue_steps H s (fst (transact E n f s))" for s
  proof -
    have a: "queue_steps H s (we_others E n s)" using o by (simp add: others_operate_def)
    show ?thesis
    proof (cases "f (we_others E n s)")
      case (Inr p)
      obtain s' x where p: "p = (s', x)" by (cases p)
      from f [OF Inr [unfolded p]] a have "queue_steps H s s'" by auto
      with Inr p show ?thesis by (simp add: transact_def Let_def)
    qed (use a in \<open>simp add: transact_def Let_def\<close>)
  qed
  then show ?thesis by (simp add: keeps_queue_def)
qed

lemma keeps_draw: "keeps_queue H (draw_ids n)"
  by (auto simp: keeps_queue_def draw_ids_def intro: queue_step.drawn)

lemma unit_of_Inr: "unit_of f s = Inr (s', x) \<Longrightarrow> f s = Inr s'"
  by (auto simp: unit_of_def elim!: bindE_elim)

lemma read_only_Inr: "read_only f s = Inr (s', x) \<Longrightarrow> s' = s \<and> f s = Inr x"
  by (auto simp: read_only_def elim!: bindE_elim)

lemmas keeps_intros = keeps_pass keeps_andThen keeps_transact keeps_draw

lemma keeps_finish: "others_operate H E \<Longrightarrow> keeps_queue H (finish_page H E w c b p)"
  unfolding finish_page_def
  by (cases b) (auto intro!: keeps_intros dest!: unit_of_Inr intro: queue_step.continued queue_step.renewed queue_step.completed)

lemma keeps_process: "others_operate H E \<Longrightarrow> keeps_queue H (process_claim H C E w)"
  unfolding process_claim_def
  by (rule keeps_andThen)
    (auto intro!: keeps_intros keeps_finish dest!: read_only_Inr split: prod.split intro: queue_step.completed queue_step.persisted)

lemma keeps_fail:
  assumes "others_operate H E"
  shows "keeps_queue H (fail_claimed H E w e)"
proof -
  let ?m = "transact E 5 (record_ingestion_failure H (we_db E 5) (wk_scope w) (wk_connection w) (wk_run w) (wk_token w) (we_now E 3)
             (stable_error_code e) None (error_retryable e) (error_retry_after e) (unit_jitter E))"
  have "keeps_queue H ?m" by (rule keeps_transact [OF assms]) (auto intro: queue_step.failed)
  moreover have "fst (fail_claimed H E w e s) = fst (?m s)" for s
    by (auto simp: fail_claimed_def split: prod.split sum.split tele_error.split)
  ultimately show ?thesis by (simp add: keeps_queue_def)
qed

lemma keeps_guard:
  assumes o: "others_operate H E" and m: "keeps_queue H body"
  shows "keeps_queue H (guard_claim H E w body)"
proof -
  have "queue_steps H s (fst (guard_claim H E w body s))" for s
  proof -
    have a: "queue_steps H s (fst (body s))" using m by (simp add: keeps_queue_def)
    have b: "queue_steps H s1 (fst (fail_claimed H E w e s1))" for s1 e using keeps_fail [OF o] by (simp add: keeps_queue_def)
    from a b show ?thesis
      by (cases "body s") (auto simp: guard_claim_def split: sum.split tele_error.split intro: rtranclp_trans)
  qed
  then show ?thesis by (simp add: keeps_queue_def)
qed

lemma keeps_run_once: "others_operate H E \<Longrightarrow> keeps_queue H (run_once H C E)"
  unfolding run_once_def
  by (auto intro!: keeps_intros keeps_guard keeps_process split: option.split intro: queue_step.claimed)

subsection \<open>A demonstration worker\<close>

text \<open>A worker beside which nothing happens, and whose provider sends an empty page.\<close>

definition demo_quiet :: page_host where
  "demo_quiet = demo_host\<lparr>th_sha256 := \<lambda>_. ''0123456789abcdef0123456789abcdef0123456789abcdef0123456789abcdef''\<rparr>"

definition demo_worker :: worker_env where
  "demo_worker = \<lparr>we_worker = ''worker-1'', we_locked = {}, we_lease_seconds = 60, we_others = (\<lambda>_ s. s), we_db = (\<lambda>_. 5), we_now = (\<lambda>n. 5),
     we_fetch = (\<lambda>_ _ _. Inr (demo_intake_page\<lparr>cp_observations := []\<rparr>)), we_analysis = (None, False), we_jitter = None, we_str = (\<lambda>_. [])\<rparr>"

definition demo_iteration :: "tele_db \<times> run_result tele" where
  "demo_iteration = run_once demo_quiet demo_clocks demo_worker (fst (projr demo3))"

definition demo_claim :: "(tele_db \<times> work option) tele" where
  "demo_claim = claim_next_due_work demo_quiet (we_locked demo_worker) (we_db demo_worker 0) (we_worker demo_worker) (we_now demo_worker 0)
     (we_lease_seconds demo_worker) (we_others demo_worker 0 (fst (projr demo3)))"

lemma demo_iterated: "(case snd demo_iteration of Inl _ \<Rightarrow> False | Inr r \<Rightarrow> rr_outcome r = ''processed'')"
  by code_simp

lemma demo_claimed: "(case demo_claim of Inl _ \<Rightarrow> False | Inr (_, w) \<Rightarrow> w \<noteq> None)"
  by code_simp

lemma demo_alone: "others_operate H demo_worker"
  by (simp add: others_operate_def demo_worker_def)

lemma demo_due: "queue_ok demo_quiet (fst (projr demo3))" "uuid_supply demo_quiet"
proof -
  have "queue_ok demo_host (fst (projr demo3))" by (rule queue_steps_ok [OF demo_reaches tables_empty_ok [OF demo_empty] demo_supply])
  then show "queue_ok demo_quiet (fst (projr demo3))" by (simp add: queue_ok_def tokens_ok_def demo_quiet_def)
  show "uuid_supply demo_quiet" using demo_supply by (simp add: uuid_supply_def demo_quiet_def)
qed

subsection \<open>The iteration\<close>

text \<open>
  C10. An iteration of the worker changes the shared tables only by the operations of the queue, whatever the
  provider sends, whatever fails on the way and whatever the other workers do in between. So it keeps the
  invariant of the queue, on every path, the failing ones included.
\<close>

theorem worker_keeps_queue:
  assumes "others_operate H E" and "queue_ok H s" and "uuid_supply H" and "run_once H C E s = (s', r)"
  shows "queue_steps H s s' \<and> queue_ok H s'"
proof -
  from keeps_run_once [OF assms(1), of C] assms(4) have "queue_steps H s s'" by (metis fst_conv keeps_queue_def)
  with queue_steps_ok [OF this assms(2,3)] show ?thesis by blast
qed

theorem worker_keeps_queue_witness: "queue_ok demo_quiet (fst demo_iteration) \<and> \<not> isl (snd demo_iteration)"
proof
  have "run_once demo_quiet demo_clocks demo_worker (fst (projr demo3)) = (fst demo_iteration, snd demo_iteration)"
    by (simp add: demo_iteration_def)
  from worker_keeps_queue [OF demo_alone demo_due this] show "queue_ok demo_quiet (fst demo_iteration)" by blast
  show "\<not> isl (snd demo_iteration)" using demo_iterated by (auto simp: isl_def split: sum.splits)
qed

subsection \<open>Claimed work is handed back\<close>

lemma ended_lease:
  assumes "end_claim sc i r t f g s = Inr s1" and "ids_ok s" and "\<And>c. cn_lease (g c) = None" and "td_connections s' = td_connections s1"
  shows "(i, t) \<notin> holders s'"
proof
  let ?P = "\<lambda>c. conn_at sc i c \<and> lease_token c = Some t"
  assume "(i, t) \<in> holders s'"
  then obtain d where d: "d \<in> set (td_connections s')" "cn_id d = i" "lease_token d = Some t" by (auto simp: holders_def)
  obtain c where c: "c \<in> set (td_connections s)" "?P c"
    using assms(1) by (auto simp: end_claim_def list_ex_iff split: if_split_asm)
  have "td_connections s' = upd ?P g (td_connections s)"
    using assms(1,4) by (auto simp: end_claim_def split: if_split_asm)
  with d(1) obtain x where x: "x \<in> set (td_connections s)" "d = (if ?P x then g x else x)"
    unfolding upd_def by auto
  have "\<not> ?P x" using d(3) x(2) assms(3) by (auto simp: lease_token_def)
  then have "d = x" unfolding x(2) by (simp only: if_False if_not_P)
  with d(2) c(2) have "x = c" by (intro same_row [OF assms(2) x(1) c(1)]) (simp add: conn_at_def)
  with \<open>\<not> ?P x\<close> c(2) show False by simp
qed

text \<open>The three ends of a claim.\<close>

definition ends_claim :: "'b page_host_scheme \<Rightarrow> work \<Rightarrow> tele_db \<Rightarrow> tele_db \<Rightarrow> bool" where
  "ends_claim H w s s' =
     ((\<exists>t n. continue_ingestion_work H (wk_scope w) (wk_connection w) (wk_run w) (wk_token w) t n s = Inr s')
      \<or> (\<exists>db t n p st. complete_ingestion_work H db (wk_scope w) (wk_connection w) (wk_run w) (wk_token w) t n p s = Inr (s', st))
      \<or> (\<exists>db t code summary retry after jitter st. record_ingestion_failure H db (wk_scope w) (wk_connection w) (wk_run w) (wk_token w)
           t code summary retry after jitter s = Inr (s', st)))"

lemma continue_releases:
  "continue_ingestion_work H sc cid rid token a b s = Inr s' \<Longrightarrow> ids_ok s \<Longrightarrow> \<not> holds_lease H s' cid token"
  unfolding continue_ingestion_work_def
  by (auto elim!: bindE_elim split: if_split_asm simp: require_uuid_denotes holds_lease_denoted dest!: ended_lease)

lemma complete_releases:
  "complete_ingestion_work H db sc cid rid token a n p s = Inr (s', st) \<Longrightarrow> ids_ok s \<Longrightarrow> \<not> holds_lease H s' cid token"
  by (drule complete_Inr) (auto simp: holds_lease_denoted complete_connection_def dest: ended_lease)

lemma failure_releases:
  "record_ingestion_failure H db sc cid rid token a code summary retry after jitter s = Inr (s', st) \<Longrightarrow> ids_ok s
   \<Longrightarrow> \<not> holds_lease H s' cid token"
  by (drule failure_Inr) (auto simp: holds_lease_denoted fail_connection_def dest: ended_lease)

lemma ends_release: "ends_claim H w s s' \<Longrightarrow> ids_ok s \<Longrightarrow> \<not> holds_lease H s' (wk_connection w) (wk_token w)"
  unfolding ends_claim_def
  by (elim disjE exE) (erule (1) continue_releases, erule (1) complete_releases, erule (1) failure_releases)

text \<open>An action hands back: whenever it returns, an end of the claim was the last thing it did.\<close>

definition hands_back :: "'b page_host_scheme \<Rightarrow> work \<Rightarrow> 'a action \<Rightarrow> bool" where
  "hands_back H w m = (\<forall>s s' r. m s = (s', Inr r) \<longrightarrow> (\<exists>s1. queue_steps H s s1 \<and> ends_claim H w s1 s'))"

lemma andThen_Inr:
  assumes "andThen m f s = (s', Inr r)"
  obtains s1 x where "m s = (s1, Inr x)" "f x s1 = (s', Inr r)"
  using assms by (auto simp: andThen_def split: prod.split_asm sum.split_asm)

lemma hands_andThen:
  assumes "keeps_queue H m" and f: "\<And>x. hands_back H w (f x)"
  shows "hands_back H w (andThen m f)"
proof (unfold hands_back_def, intro allI impI)
  fix s s' r assume "andThen m f s = (s', Inr r)"
  then obtain s1 x where m: "m s = (s1, Inr x)" and "f x s1 = (s', Inr r)" by (rule andThen_Inr)
  with f obtain s2 where "queue_steps H s1 s2" "ends_claim H w s2 s'" unfolding hands_back_def by blast
  moreover have "queue_steps H s s1" using assms(1) m by (metis fst_conv keeps_queue_def)
  ultimately show "\<exists>s1. queue_steps H s s1 \<and> ends_claim H w s1 s'" by (meson rtranclp_trans)
qed

lemma hands_then_pass: "hands_back H w m \<Longrightarrow> hands_back H w (andThen m (\<lambda>x. pass (r x)))"
  unfolding hands_back_def andThen_def pass_def by (fastforce split: prod.split_asm sum.split_asm)

lemma hands_error: "hands_back H w (pass (Inl e))"
  by (simp add: hands_back_def pass_def)

lemma hands_transact:
  assumes "others_operate H E" and "\<And>s s' x. f s = Inr (s', x) \<Longrightarrow> ends_claim H w s s'"
  shows "hands_back H w (transact E n f)"
  using assms unfolding hands_back_def transact_def others_operate_def Let_def
  by (fastforce split: sum.split_asm prod.split_asm)

lemma ends_continue: "unit_of (continue_ingestion_work H (wk_scope w) (wk_connection w) (wk_run w) (wk_token w) t n) s = Inr (s', x)
    \<Longrightarrow> ends_claim H w s s'"
  unfolding ends_claim_def by (drule unit_of_Inr) blast

lemma ends_complete: "complete_ingestion_work H db (wk_scope w) (wk_connection w) (wk_run w) (wk_token w) t n p s = Inr (s', st)
    \<Longrightarrow> ends_claim H w s s'"
  unfolding ends_claim_def by blast

lemma ends_failure: "record_ingestion_failure H db (wk_scope w) (wk_connection w) (wk_run w) (wk_token w)
    t code summary retry after jitter s = Inr (s', st) \<Longrightarrow> ends_claim H w s s'"
  unfolding ends_claim_def by blast

lemmas hands_intros = hands_then_pass hands_error hands_transact

lemma hands_finish:
  assumes o: "others_operate H E"
  shows "hands_back H w (finish_page H E w c b p)"
proof (cases b)
  case True
  then show ?thesis unfolding finish_page_def by (auto intro!: hands_intros o dest: ends_continue)
next
  case False
  have "keeps_queue H (transact E 3 (renew_lease H (wk_scope w) (wk_connection w) (wk_token w) (we_lease_seconds E) (we_now E 1)))"
    by (rule keeps_transact [OF o]) (auto intro: queue_step.renewed)
  with False show ?thesis unfolding finish_page_def
    by (auto intro!: hands_andThen hands_error keeps_pass hands_then_pass hands_transact o dest: ends_complete)
qed

lemma hands_process:
  assumes o: "others_operate H E"
  shows "hands_back H w (process_claim H C E w)"
proof -
  have load: "keeps_queue H (transact E 1 (read_only (load_ingestion_snapshot H (we_db E 1) (wk_scope w) (wk_connection w) (wk_run w)
      (wk_token w) (wk_checkpoint_mode w))))"
    by (rule keeps_transact [OF o]) (auto dest: read_only_Inr)
  have stores: "keeps_queue H (transact E 2 (persist_ingestion_page H (we_db E 2) (wk_scope w) (wk_connection w) (wk_run w) (wk_token w) p))" for p
    by (rule keeps_transact [OF o]) (auto intro: queue_step.persisted)
  have disabled: "hands_back H w (andThen (transact E 2 (complete_ingestion_work H (we_db E 2) (wk_scope w) (wk_connection w) (wk_run w)
      (wk_token w) (we_now E 1) None True)) (\<lambda>_. pass (Inr (result ''disabled'' w))))"
    by (intro hands_then_pass hands_transact [OF o]) (rule ends_complete)
  show ?thesis unfolding process_claim_def
  proof (rule hands_andThen [OF load])
    fix sn
    let ?page = "andThen (pass (prepare_page H C E w sn (we_now E 0))) (\<lambda>(before, q).
       andThen (draw_ids (length (pp_observations q) + length (pp_rejections q))) (\<lambda>n.
       andThen (pass (page_of_prepared H n (wk_checkpoint_mode w) (sn_checkpoint sn) before q)) (\<lambda>p.
       andThen (transact E 2 (persist_ingestion_page H (we_db E 2) (wk_scope w) (wk_connection w) (wk_run w) (wk_token w) p)) (\<lambda>_.
       finish_page H E w (sn_connection sn) (pp_more q) (pp_rejections q \<noteq> [])))))"
    have "hands_back H w ?page"
      by (auto intro!: hands_andThen keeps_pass keeps_draw stores hands_finish [OF o] split: prod.split)
    with disabled show "hands_back H w (if \<not> cn_enabled (sn_connection sn)
        then andThen (transact E 2 (complete_ingestion_work H (we_db E 2) (wk_scope w) (wk_connection w) (wk_run w) (wk_token w)
          (we_now E 1) None True)) (\<lambda>_. pass (Inr (result ''disabled'' w))) else ?page)" by (simp only: if_split) simp
  qed
qed

lemma failed_hands_back:
  assumes o: "others_operate H E" and f: "fail_claimed H E w e s = (s', Inr r)" and r: "rr_outcome r \<noteq> ''lease_lost''"
  shows "\<exists>s1. queue_steps H s s1 \<and> ends_claim H w s1 s'"
proof -
  let ?m = "transact E 5 (record_ingestion_failure H (we_db E 5) (wk_scope w) (wk_connection w) (wk_run w) (wk_token w) (we_now E 3)
             (stable_error_code e) None (error_retryable e) (error_retry_after e) (unit_jitter E))"
  have "hands_back H w ?m" by (rule hands_transact [OF o]) (rule ends_failure)
  moreover obtain st where "?m s = (s', Inr st)"
    using f r by (auto simp: fail_claimed_def lost_result_def result_def split: prod.split_asm sum.split_asm tele_error.split_asm)
  ultimately show ?thesis unfolding hands_back_def by blast
qed

lemma guarded_hands_back:
  assumes o: "others_operate H E" and h: "hands_back H w body" and k: "keeps_queue H body"
    and g: "guard_claim H E w body s = (s', Inr r)" and r: "rr_outcome r \<noteq> ''lease_lost''"
  shows "\<exists>s1. queue_steps H s s1 \<and> ends_claim H w s1 s'"
proof (cases "body s")
  case (Pair s1 res)
  show ?thesis
  proof (cases res)
    case (Inl e)
    have "fail_claimed H E w e s1 = (s', Inr r)"
      using g r unfolding guard_claim_def Pair Inl by (auto simp: lost_result_def result_def split: tele_error.split_asm)
    from failed_hands_back [OF o this r] obtain s2 where "queue_steps H s1 s2" "ends_claim H w s2 s'" by blast
    moreover have "queue_steps H s s1" using k Pair by (metis fst_conv keeps_queue_def)
    ultimately show ?thesis by (meson rtranclp_trans)
  next
    case (Inr x)
    with g Pair have "body s = (s', Inr x)" by (simp add: guard_claim_def)
    with h show ?thesis unfolding hands_back_def by blast
  qed
qed

text \<open>
  C5. Work an iteration claimed is handed back. When the iteration returns, with the work processed, continued,
  refused because the connection is disabled, scheduled for a retry or failed, the token of its claim is no
  longer held: the lease was dropped by the same transaction that ended or requeued the run. The one exception
  is the report that the lease was lost.
\<close>

theorem claimed_work_handed_back:
  assumes "others_operate H E" and "queue_ok H s" and "uuid_supply H"
    and "claim_next_due_work H (we_locked E) (we_db E 0) (we_worker E) (we_now E 0) (we_lease_seconds E) (we_others E 0 s) = Inr (s1, Some w)"
    and "run_once H C E s = (s', Inr r)" and "rr_outcome r \<noteq> ''lease_lost''"
  shows "\<not> holds_lease H s' (wk_connection w) (wk_token w) \<and> (\<exists>s2. queue_ok H s2 \<and> ends_claim H w s2 s')"
proof -
  let ?body = "process_claim H C E w"
  have "guard_claim H E w ?body s1 = (s', Inr r)"
    using assms(4,5) by (simp add: run_once_def andThen_def transact_def Let_def)
  from guarded_hands_back [OF assms(1) hands_process keeps_process this assms(6)] assms(1)
  obtain s2 where s2: "queue_steps H s1 s2" "ends_claim H w s2 s'" by blast
  have "queue_steps H s (we_others E 0 s)" using assms(1) by (simp add: others_operate_def)
  moreover have "queue_step H (we_others E 0 s) s1" by (rule queue_step.claimed [OF assms(4)])
  ultimately have "queue_steps H s s2" using s2(1) by (meson rtranclp.rtrancl_into_rtrancl rtranclp_trans)
  from queue_steps_ok [OF this assms(2,3)] have ok: "queue_ok H s2" .
  with ends_release [OF s2(2)] queue_okD(1) s2(2) show ?thesis by (metis valid_ids)
qed

theorem claimed_work_handed_back_witness:
  "\<exists>s1 w. demo_claim = Inr (s1, Some w) \<and> \<not> holds_lease demo_quiet (fst demo_iteration) (wk_connection w) (wk_token w)"
proof -
  obtain s1 w where w: "demo_claim = Inr (s1, Some w)" using demo_claimed by (auto split: sum.splits prod.splits)
  obtain r where r: "snd demo_iteration = Inr r" "rr_outcome r = ''processed''" using demo_iterated by (auto split: sum.splits)
  have "run_once demo_quiet demo_clocks demo_worker (fst (projr demo3)) = (fst demo_iteration, Inr r)"
    unfolding r(1) [symmetric] by (simp add: demo_iteration_def)
  from claimed_work_handed_back [OF demo_alone demo_due w [unfolded demo_claim_def] this] r(2) w show ?thesis by auto
qed

subsection \<open>Pages that can never be written\<close>

definition report_key :: "prepared_rejection \<Rightarrow> string \<times> string" where
  "report_key r = (pr_digest r, pr_reason r)"

lemma number_records_map: "(\<And>n x. g (f n x) = h x) \<Longrightarrow> map g (number_records f n xs) = map h xs"
  by (induction xs arbitrary: n) simp_all

lemma page_of_prepared_Inr:
  "page_of_prepared H n m kept before q = Inr pg \<Longrightarrow>
     map (\<lambda>j. (rj_digest j, rj_reason j)) (pg_rejections pg) = map report_key (pp_rejections q)
     \<and> pg_nonfinite pg = list_ex (\<lambda>r. scalar_json (pr_original_value r) = None) (pp_rejections q)"
  by (auto simp: page_of_prepared_def Let_def rejection_record_def report_key_def intro!: number_records_map
      elim!: bindE_elim split: if_split_asm)

lemma page_never_written:
  assumes "page_of_prepared H n m kept before q = Inr pg"
    and "(\<exists>r \<in> set (pp_rejections q). scalar_json (pr_original_value r) = None) \<or> \<not> distinct (map report_key (pp_rejections q))"
  shows "isl (persist_ingestion_page H' db sc cid rid token pg s)"
proof (rule isl_or)
  fix y assume "persist_ingestion_page H' db sc cid rid token pg s = Inr y"
  then have "persist_ingestion_page H' db sc cid rid token pg s = Inr (fst y, snd y)" by simp
  from persist_distinct_rejections [OF this] have f: "\<not> pg_nonfinite pg"
    and d: "distinct (map (\<lambda>(a, b). (strip a, strip b)) (map (\<lambda>j. (rj_digest j, rj_reason j)) (pg_rejections pg)))"
    by (auto simp: comp_def)
  from d have "distinct (map (\<lambda>j. (rj_digest j, rj_reason j)) (pg_rejections pg))" unfolding distinct_map [of "\<lambda>(a, b). (strip a, strip b)"] by blast
  with page_of_prepared_Inr [OF assms(1)] f assms(2) show False by (auto simp: list_ex_iff)
qed

text \<open>A record is refused for one reason, whatever the high-water mark.\<close>

lemma timestamp_refusal_any_high:
  "normalize_telemetry_timestamp C v tz now tol h [] = Inr t \<Longrightarrow> \<not> tr_eligible t
   \<Longrightarrow> normalize_telemetry_timestamp C v tz now tol h' [] = Inr t"
  by (auto simp: normalize_telemetry_timestamp_def order_of_def timestamp_invalid_def Let_def split: sum.splits if_splits option.splits)

lemma assess_value_refusal:
  "assess_value m t x = Inl v \<Longrightarrow> tr_eligible t \<Longrightarrow> tr_eligible t' \<Longrightarrow> assess_value m t' x = Inl v"
  by (auto simp: assess_value_def Let_def split: if_splits)

lemma assess_refusal_any_high:
  assumes "assess C ms k h x = Inr (Inl v)"
  shows "assess C ms k h' x = Inr (Inl v)"
proof (cases "\<exists>m. ms (strip (ro_tag x)) = Some m \<and> ms_enabled m \<and> \<not> isl (safe_metadata C (ro_metadata x))
    \<and> snd (reported_quality (ro_quality x)) = None")
  case False
  with assms show ?thesis
    by (auto simp: assess_def split: option.splits if_splits sum.splits tele_error.splits prod.splits)
next
  case True
  then obtain m where m: "ms (strip (ro_tag x)) = Some m" "ms_enabled m" "\<not> isl (safe_metadata C (ro_metadata x))"
    "snd (reported_quality (ro_quality x)) = None" by blast
  have a: "assess C ms k g x = bindE (normalize_telemetry_timestamp C (ro_timestamp x) (Some (ms_timezone m)) (pk_now k) (pk_tolerance k) g [])
      (\<lambda>t. Inr (assess_value m t x))" for g
    using m by (auto simp: assess_def split: sum.split prod.split)
  obtain t where t: "normalize_telemetry_timestamp C (ro_timestamp x) (Some (ms_timezone m)) (pk_now k) (pk_tolerance k) h [] = Inr t"
    and v: "assess_value m t x = Inl v"
    using assms unfolding a by (auto elim: bindE_elim)
  show ?thesis
  proof (cases "tr_eligible t")
    case True
    obtain t' where t': "normalize_telemetry_timestamp C (ro_timestamp x) (Some (ms_timezone m)) (pk_now k) (pk_tolerance k) h' [] = Inr t'"
      "tr_eligible t' = tr_eligible t" using timestamp_any_high [OF t, of h'] by blast
    have "assess_value m t' x = Inl v" by (rule assess_value_refusal [OF v True]) (simp add: t'(2) True)
    then show ?thesis by (simp add: a t'(1))
  next
    case False
    show ?thesis by (simp add: a timestamp_refusal_any_high [OF t False] v)
  qed
qed

lemma assess_refuses: "assess C ms k h x = Inr (Inl v) \<Longrightarrow> \<exists>m q reason. v = Refuse m q reason Rejected"
  by (auto simp: assess_def assess_value_def Let_def split: option.splits if_splits sum.splits tele_error.splits prod.splits elim!: bindE_elim)

text \<open>Every copy of a refused record is reported under one key; so is every copy but one of an accepted one.\<close>

lemma refused_reports:
  assumes "\<And>h. assess C ms k h x = Inr (Inl (Refuse m q reason d))"
  shows "prepare_records H C cx ms k xs s = Inr s' \<Longrightarrow>
     count_list (map report_key (ps_rejected s)) (stable_source_record_digest H C x, reason) + count_list xs x
     \<le> count_list (map report_key (ps_rejected s')) (stable_source_record_digest H C x, reason)"
proof (induction xs arbitrary: s)
  case (Cons y xs)
  then obtain s1 where 1: "prepare_record H C cx ms k y s = Inr s1" and 2: "prepare_records H C cx ms k xs s1 = Inr s'"
    by (auto elim: bindE_elim)
  from 1 show ?case
  proof (cases rule: prepare_record_cases)
    case (refused m' q' reason' d' r)
    have "report_key r = (stable_source_record_digest H C x, reason)" if "y = x"
      using refused(1) record_rejection_Inr [OF refused(2)] assms [of "ps_high s"] that by (simp add: judge_def report_key_def)
    with Cons.IH [OF 2] refused(3) show ?thesis by auto
  next
    case (taken m' t u ob)
    then have "y \<noteq> x" using assms [of "ps_high s"] by auto
    with Cons.IH [OF 2] taken(5) show ?thesis by simp
  qed
qed simp

lemma accepted_reports:
  assumes "\<And>h. \<exists>p. assess C ms k h x = Inr (Inr p)"
  shows "prepare_records H C cx ms k xs s = Inr s' \<Longrightarrow>
     count_list (map report_key (ps_rejected s)) (stable_source_record_digest H C x, ''source_record_duplicate'') + count_list xs x
     \<le> count_list (map report_key (ps_rejected s')) (stable_source_record_digest H C x, ''source_record_duplicate'')
        + (if stable_source_record_digest H C x \<in> set (ps_seen s) then 0 else 1)"
proof (induction xs arbitrary: s)
  case (Cons y xs)
  let ?g = "stable_source_record_digest H C"
  obtain s1 where 1: "prepare_record H C cx ms k y s = Inr s1" and 2: "prepare_records H C cx ms k xs s1 = Inr s'"
    using Cons.prems by (auto elim: bindE_elim)
  have seen: "set (ps_seen s1) = insert (?g y) (set (ps_seen s))" by (rule prepare_record_seen [OF 1])
  from 1 show ?case
  proof (cases rule: prepare_record_cases)
    case (refused m' q' reason' d' r)
    obtain p where "assess C ms k (ps_high s) x = Inr (Inr p)" using assms by blast
    then have "report_key r = (?g x, ''source_record_duplicate'') \<and> ?g x \<in> set (ps_seen s)" if "y = x"
      using refused(1) record_rejection_Inr [OF refused(2)] that
      by (auto simp: judge_def report_key_def split: prod.split_asm if_split_asm)
    with Cons.IH [OF 2] refused(3) seen show ?thesis by (auto split: if_split_asm)
  next
    case (taken m' t u ob)
    with Cons.IH [OF 2] seen show ?thesis by (auto split: if_split_asm)
  qed
qed simp

lemma distinct_count_list: "distinct xs \<Longrightarrow> count_list xs x \<le> 1"
  by (induction xs) (auto simp: count_list_0_iff)

lemma unit_eligible_numeric: "ur_eligible (normalize_telemetry_unit v su cu d) \<Longrightarrow> numeric_of v \<noteq> None"
  by (auto simp: normalize_telemetry_unit_def unit_failure_def Let_def split: option.splits if_splits)

lemma rejection_keeps_value:
  "record_rejection C cx x mp g qu reason d = Inr r \<Longrightarrow> pr_original_value r = bounded_original_value (ro_value x)"
  by (auto simp: record_rejection_def PreparedRejection_def Let_def elim!: bindE_elim split: if_split_asm)

text \<open>
  C17. A record copied too often loses its page. When a record that does not pass stands twice in a page, or any
  record three times, then the page a worker makes of it is refused by the repository in every state of the
  tables, on every attempt: the copies are reported under one digest and one reason, and one statement may not
  upsert a row twice. The valid records of the page are lost with it.
\<close>

theorem repeated_record_loses_page:
  assumes "prepare_connector_page H C p sc cid rid mappings existing high k = Inr q"
    and "page_of_prepared H n m kept before q = Inr pg"
    and "2 \<le> count_list (cp_observations p) x" and "passes C mappings k x \<Longrightarrow> 3 \<le> count_list (cp_observations p) x"
  shows "isl (persist_ingestion_page H' db sc' cid' rid' token pg s)"
proof (rule page_Inr [OF assms(1)])
  fix ms seen issues st
  let ?s0 = "\<lparr>ps_prepared = [], ps_rejected = issues, ps_seen = seen, ps_high = high\<rparr>" and ?g = "stable_source_record_digest H C x"
  assume ms: "mapE (check_mapping sc (strip cid)) mappings = Inr ms"
    and r: "prepare_records H C (context_of sc cid rid) (map_of (rev ms)) k (cp_observations p) ?s0 = Inr st"
    and c: "counted_page p st = Inr q"
  have "x \<in> set (cp_observations p)" using assms(3) by (metis count_list_0_iff not_numeral_le_zero)
  then obtain ys zs where x: "cp_observations p = ys @ x # zs" by (metis split_list)
  have "\<exists>reason. 2 \<le> count_list (map report_key (ps_rejected st)) (?g, reason)"
  proof (cases "passes C mappings k x")
    case True
    have "\<exists>a. assess C (map_of (rev ms)) k h x = Inr (Inr a)" for h using passes_assess [OF ms] True by blast
    from accepted_reports [OF this r] assms(4) [OF True] show ?thesis
      by (intro exI [of _ "''source_record_duplicate''"]) (simp split: if_split_asm)
  next
    case False
    then have n: "assess C (map_of (rev ms)) k h x \<noteq> Inr (Inr a)" for h a using passes_assess [OF ms] by blast
    from refused_record [OF r [unfolded x] n] obtain seen' h w where "judge C (map_of (rev ms)) k seen' h ?g x = Inr w" by blast
    then obtain a where "assess C (map_of (rev ms)) k h x = Inr a" unfolding judge_def by (rule bindE_elim)
    with n obtain v where v: "assess C (map_of (rev ms)) k h x = Inr (Inl v)" by (cases a) auto
    from assess_refuses [OF v] obtain m q reason where "v = Refuse m q reason Rejected" by blast
    with assess_refusal_any_high [OF v] have "assess C (map_of (rev ms)) k h x = Inr (Inl (Refuse m q reason Rejected))" for h by simp
    from refused_reports [OF this r] assms(3) show ?thesis by (intro exI [of _ reason]) simp
  qed
  then have "\<not> distinct (map report_key (ps_rejected st))" using distinct_count_list [of "map report_key (ps_rejected st)"]
    by (metis le_trans not_less_eq_eq numeral_2_eq_2 One_nat_def)
  then have "\<not> distinct (map report_key (pp_rejections q))" using counted_page_Inr [OF c] by metis
  then show ?thesis by (intro page_never_written [OF assms(2)]) simp
qed

definition demo_start :: checkpoint where
  "demo_start = \<lparr>ck_scope = demo_plant, ck_connection = ''c'', ck_mode = CkIncremental, ck_cursor = [], ck_high_water = None, ck_revision = 0,
     ck_run = None, ck_updated_at = 0\<rparr>"

definition demo_prepared_of :: "raw_observation list \<Rightarrow> prepared_page tele" where
  "demo_prepared_of xs = prepare_connector_page demo_intake demo_clocks (demo_intake_page\<lparr>cp_observations := xs\<rparr>) demo_plant ''c'' ''r''
     [(''t1'', demo_mapping)] [] None demo_clock"

definition demo_page_of :: "raw_observation list \<Rightarrow> page tele" where
  "demo_page_of xs = page_of_prepared demo_intake 0 CkIncremental demo_start None (projr (demo_prepared_of xs))"

lemma Inr_projr: "\<not> isl x \<Longrightarrow> x = Inr (projr x)"
  by (cases x) simp_all

lemma demo_pages: "\<not> isl (demo_prepared_of [demo_record, demo_record, demo_record])" "\<not> isl (demo_page_of [demo_record, demo_record, demo_record])"
    "\<not> isl (demo_prepared_of [demo_record, demo_record\<lparr>ro_value := SFloat NotANumber\<rparr>])"
    "\<not> isl (demo_page_of [demo_record, demo_record\<lparr>ro_value := SFloat NotANumber\<rparr>])"
  by code_simp+

theorem repeated_record_loses_page_witness:
  "isl (persist_ingestion_page demo_host 5 demo_scope ''c'' ''u00'' ''u0'' (projr (demo_page_of [demo_record, demo_record, demo_record])) demo_held)"
  by (rule repeated_record_loses_page [OF Inr_projr [OF demo_pages(1), unfolded demo_prepared_of_def]
        Inr_projr [OF demo_pages(2), unfolded demo_page_of_def, unfolded demo_prepared_of_def], of demo_record,
        folded demo_prepared_of_def, folded demo_page_of_def]) simp_all

text \<open>
  C26. A value that is not finite loses its page. A record whose value is a NaN or an infinity, as \<open>json.loads\<close>
  makes of \<open>NaN\<close> and \<open>Infinity\<close> in a response, is refused, but its rejection keeps the value, and the rejections of
  the page are then no JSON: the repository refuses the page in every state of the tables, on every attempt.
\<close>

theorem nonfinite_value_loses_page:
  assumes "prepare_connector_page H C p sc cid rid mappings existing high k = Inr q"
    and "page_of_prepared H n m kept before q = Inr pg"
    and "x \<in> set (cp_observations p)" and "ro_value x = SFloat v" and "finite_value (Some v) = None"
  shows "isl (persist_ingestion_page H' db sc' cid' rid' token pg s)"
proof (rule page_Inr [OF assms(1)])
  fix ms seen issues st
  assume r: "prepare_records H C (context_of sc cid rid) (map_of (rev ms)) k (cp_observations p)
       \<lparr>ps_prepared = [], ps_rejected = issues, ps_seen = seen, ps_high = high\<rparr> = Inr st"
    and c: "counted_page p st = Inr q"
  obtain ys zs where x: "cp_observations p = ys @ x # zs" using assms(3) by (metis split_list)
  have "\<not> ur_eligible (record_unit mp x)" for mp
    using assms(4,5) unit_eligible_numeric unfolding record_unit_def by (fastforce simp: numeric_of_def)
  then have "assess C (map_of (rev ms)) k h x \<noteq> Inr (Inr a)" for h a using assess_Inr by (metis prod_cases3)
  from refused_record [OF r [unfolded x] this] obtain mp qu reason d rj where
    rj: "record_rejection C (context_of sc cid rid) x mp (stable_source_record_digest H C x) qu reason d = Inr rj" "rj \<in> set (ps_rejected st)"
    by fastforce
  have "scalar_json (pr_original_value rj) = None"
    unfolding rejection_keeps_value [OF rj(1)] using assms(4,5) by (simp add: bounded_original_value_def scalar_json_def)
  then have "\<exists>rj \<in> set (pp_rejections q). scalar_json (pr_original_value rj) = None"
    using counted_page_Inr [OF c] rj(2) by metis
  then show ?thesis by (intro page_never_written [OF assms(2)]) simp
qed

theorem nonfinite_value_loses_page_witness:
  "isl (persist_ingestion_page demo_host 5 demo_scope ''c'' ''u00'' ''u0''
     (projr (demo_page_of [demo_record, demo_record\<lparr>ro_value := SFloat NotANumber\<rparr>])) demo_held)"
  by (rule nonfinite_value_loses_page [OF Inr_projr [OF demo_pages(3), unfolded demo_prepared_of_def]
        Inr_projr [OF demo_pages(4), unfolded demo_page_of_def, unfolded demo_prepared_of_def], of "demo_record\<lparr>ro_value := SFloat NotANumber\<rparr>"
        NotANumber, folded demo_prepared_of_def, folded demo_page_of_def]) (simp_all add: finite_value_def)

end
