(* ===== verification/Spec2Isabelle.thy ===== *)
theory Spec2Isabelle
  imports Gov_Planning Finding_Laws Job_Progress Telemetry_Conversions Telemetry_Worker_Laws
begin

text \<open>
  A verification library for Neraium's backend (\<^verbatim>\<open>src/backend/app\<close>): the governance of evidence and
  authority, the finding workflow that product users act on, the progress of analysis jobs, and the
  retrieval of plant telemetry through a queue of leased connections.

  \<^bold>\<open>The parts and how they interact.\<close> Analysis produces evidence about findings. The governance core
  decides what such evidence supports: contracts fix the records, the dependency graph decides which
  evidence is independent, trend and tier rules and two maturity evaluators grade it, a versioned context
  registry and a policy registry qualify it, a policy evaluation answers a requested operation, and an
  append-only store records decisions with their bases; the adaptation workflow runs on that store and
  never approves anything by itself. The finding workflow turns the findings of a dataset's evidence into
  cases with versioned event logs, on which members act through HTTP routes under a transition table. Job
  progress is what a running analysis reports. Telemetry connections are polled by workers: a worker claims
  due work under a lease token, fetches a page, and writes its observations, rejections and checkpoint in
  one transaction.

  \<^bold>\<open>Theories and sources.\<close>

  \<^item> \<open>Prelude\<close>: results \<open>'e + 'a\<close> with \<open>bindE\<close>, JSON values, the Python string operations, sorted sets.
    \<open>Floats\<close>: double rounding of rationals.
  \<^item> \<open>Gov_Contracts\<close> (\<^verbatim>\<open>governance/contracts.py\<close>), \<open>Gov_Dependencies\<close> (\<^verbatim>\<open>dependencies.py\<close>), \<open>Gov_Trend\<close>
    (\<^verbatim>\<open>trend.py\<close>), \<open>Gov_Tiers\<close> (\<^verbatim>\<open>tiers.py\<close>), \<open>Gov_Registry\<close> (\<^verbatim>\<open>registry.py\<close>), \<open>Gov_Context\<close> (\<^verbatim>\<open>context.py\<close>),
    \<open>Gov_Characterization\<close> (\<^verbatim>\<open>characterization.py\<close>), \<open>Gov_Maturity\<close> (\<^verbatim>\<open>maturity.py\<close>), \<open>Gov_Policy\<close> (\<^verbatim>\<open>policy.py\<close>),
    \<open>Gov_Store\<close> and \<open>Gov_Ledger\<close> (\<^verbatim>\<open>authority_store.py\<close>), \<open>Gov_Adaptation\<close> and \<open>Gov_Planning\<close> (\<^verbatim>\<open>adaptation.py\<close>).
    A pydantic model is a record with its validators as a function to \<open>gov\<close>; a registry or store is a map
    from scope and key to its rows, a transaction one function.
  \<^item> \<open>Finding_Evidence\<close> (\<^verbatim>\<open>services/product_evidence_contract.py\<close>, \<^verbatim>\<open>dataset_scope.py\<close>), \<open>Finding_Log\<close>,
    \<open>Finding_Cases\<close>, \<open>Finding_Workflow\<close>, \<open>Finding_Views\<close> (\<^verbatim>\<open>finding_workflow.py\<close> with what it uses of
    \<^verbatim>\<open>runtime_db.py\<close>, \<^verbatim>\<open>auth_store.py\<close>, \<^verbatim>\<open>workspace_authorization.py\<close>, \<^verbatim>\<open>measurable_consequence.py\<close>,
    \<^verbatim>\<open>evidence_store.py\<close>, \<^verbatim>\<open>routers/findings.py\<close>); \<open>Finding_Steps\<close> and \<open>Finding_Laws\<close> hold the properties. The
    SQLite tables are the record \<open>finding_db\<close>; a request returns the store with a result or an error, \<open>None\<close>
    where Python's recursion is exhausted.
  \<^item> \<open>Job_Progress\<close> (\<^verbatim>\<open>job_progress.py\<close>): the snapshot a job publishes, as a JSON dict, and its updates.
  \<^item> \<open>Telemetry_Domain\<close> (\<^verbatim>\<open>telemetry_domain.py\<close>), \<open>Telemetry_Store\<close> (the tables of \<^verbatim>\<open>db/migrations\<close> and the
    operations of \<^verbatim>\<open>telemetry_repository.py\<close> on connections and their secret bindings), \<open>Telemetry_Queue\<close> (claims, leases, snapshots),
    \<open>Telemetry_Runs\<close> (pages, checkpoints, the ends of a claim, requested runs). \<open>Telemetry_Steps\<close> states
    what operations may do to the tables, \<open>Telemetry_Invariants\<close> that they keep \<open>queue_ok\<close>,
    \<open>Telemetry_Fence\<close> the two interfaces below; \<open>Telemetry_Laws\<close>, \<open>Telemetry_Outcomes\<close>, \<open>Telemetry_Pages\<close> hold the
    properties. A PostgreSQL table is a list of records, a transaction one function to \<open>tele\<close>.
  \<^item> \<open>Telemetry_Units\<close> (\<^verbatim>\<open>telemetry_units.py\<close> over the table of \<^verbatim>\<open>water_intelligence/units.py\<close>),
    \<open>Telemetry_Timestamps\<close> (\<^verbatim>\<open>telemetry_timestamps.py\<close>) and \<open>Telemetry_Ingestion\<close> (\<^verbatim>\<open>telemetry_ingestion.py\<close> with the
    envelopes of \<^verbatim>\<open>connectors/base.py\<close>) turn a provider's page into a prepared page; \<open>Telemetry_Worker\<close>
    (\<^verbatim>\<open>telemetry_scheduler.py\<close>) is the iteration of a worker, from the claim to the end of the claim. Its
    transactions are numbered actions on the tables, and \<open>we_others\<close> is what other workers did to the tables
    between them. \<open>Float_Order\<close>, \<open>Telemetry_Conversions\<close>, \<open>Telemetry_Intake\<close> and \<open>Telemetry_Worker_Laws\<close>
    hold the lemmas and properties.

  \<^bold>\<open>What the lemmas show.\<close>

  \<^item> \<^emph>\<open>Governance\<close>: independence verdicts are sound and lineage is the transitive closure; trend evidence is
    re-derived from its own record; maturity levels, condition assessments and policy outcomes are
    characterised, a grant exactly; the ledger keeps its laws and replays under every operation sequence, admission
    never uses a stale basis, and no adaptation is approved automatically, by refinement of the abstract
    machine \<open>disposes\<close>.
  \<^item> \<^emph>\<open>Findings\<close>: logs are versioned without gaps with distinct idempotency keys, scopes are isolated, strict
    updates follow the transition table and viewers act only on their own assignments; what reading a case
    costs and when it never ends; which operations bypass the table.
  \<^item> \<^emph>\<open>Progress\<close>: percentages and counters stay within bounds and completed work never shrinks, whatever
    becomes of its total when the accounting basis changes.
  \<^item> \<^emph>\<open>Telemetry\<close>: every operation of the model refines a sequence of primitive table changes; from empty tables
    these keep the queue's invariant; a worker that lost its lease can write nothing again, and one expected
    revision commits one page; due work is claimed; what a page stores and reports; retries and delays are bounded.
  \<^item> \<^emph>\<open>Ingestion\<close>: a mapping's contract decides every reading, conversion keeps their order and a unit mapped
    to itself keeps the reading up to a stated rounding; a wall time is
    accepted exactly when it denotes one instant; a prepared page accounts for every record, and which records
    it accepts is characterised exactly; which records make a page fail, or keep it from ever being written.
  \<^item> \<^emph>\<open>Worker\<close>: an iteration is a sequence of queue operations whatever fails in it and whatever others do
    meanwhile, and hands the claimed work back on every path but a lost lease.

  \<^bold>\<open>Interfaces.\<close> \<open>version_registry\<close> (appending and reading versions; interpreted for contexts and policies),
  \<open>finding_invariant\<close> and \<open>workflow_invariant\<close> (what a predicate on the finding store must satisfy to survive
  every request; interpreted for the log laws, growth, identity, isolation and the status vocabulary),
  \<open>fenced_tokens\<close> (an operation hands out only tokens never drawn before; interpreted for lease tokens) and
  \<open>ratchet\<close> (a commit needs the level it raises; interpreted for checkpoint revisions).

  \<^bold>\<open>Parameters.\<close> SHA-256 of a JSON document, the length of its encoding, UUID parsing and drawing, the
  parsing of ISO timestamps, \<open>str\<close> of a JSON value, \<open>sqrt\<close> and \<open>erfc\<close> and the reviewer's authenticator are
  fields of host records or arguments; so are IANA zones, the fetch from a provider and the analysis service. What a proof needs of them is a named hypothesis (\<open>uuid_supply\<close>,
  injectivity of a digest), and its witness instantiates it. Clocks and drawn identifiers are arguments.

  \<^bold>\<open>Bounds and fuel.\<close> \<open>read_finding_case\<close> takes the recursion depth Python would allow; without legacy feedback
  one level suffices (\<open>reading_ends\<close>), with a sole case and a legacy feedback event none does
  (\<open>entangled_never_read\<close>). \<open>claim_scan\<close> searches 32 rows, the number in the code. All other recursion is
  structural or has a measure. Doubles are rationals rounded at 53 bits; \<open>dbl\<close>
  adds overflow and subnormals.

  \<^bold>\<open>Not modelled.\<close> The analytics engine (\<^verbatim>\<open>engine/\<close>) computes on numpy and pandas arrays, code outside the
  repository. Uploads, historical ingestion and the routers above them (\<^verbatim>\<open>upload_jobs.py\<close>, \<^verbatim>\<open>historical_ingestion.py\<close>,
  \<^verbatim>\<open>routers/data.py\<close>, \<^verbatim>\<open>upload_state_repository.py\<close>) orchestrate those arrays, files and threads.
  \<^verbatim>\<open>analysis_explanations.py\<close> and \<^verbatim>\<open>analysis_result_contract.py\<close> assemble prose and nested dictionaries from
  engine results. Of \<^verbatim>\<open>runtime_db.py\<close>, \<^verbatim>\<open>auth_store.py\<close> and \<^verbatim>\<open>runtime_governance.py\<close> only what the finding workflow
  reads is modelled; the providers under \<^verbatim>\<open>connectors/\<close> fetch over the
  network; of \<^verbatim>\<open>telemetry_repository.py\<close> the catalogue and mapping writes, the
  listings, the analysis windows and artifacts and the health projections are not. Concurrency is modelled
  at the transaction: SQLite and PostgreSQL run each as one step, and workers interleave by steps.
\<close>

end
